(* ===== verification/Codify_Prelude.thy ===== *)
theory Codify_Prelude
  imports Main "HOL-Library.Product_Lexorder"
begin

text \<open>
  Shared vocabulary of the development: the names of the model's basic types, the operations on
  table rows that the SQL statements of the backend amount to, the result type of operations that
  may raise, and the generic lemmas on rows, keys and ranks that the component theories use.

  A table is the list of its rows. \<open>update_where p f\<close> is \<^verbatim>\<open>UPDATE ... SET f WHERE p\<close>,
  \<open>filter\<close> is \<^verbatim>\<open>SELECT ... WHERE p\<close>, and \<open>row_by key k\<close> is the lookup by a unique key.
  Timestamps are naive UTC datetimes, as the columns store them, counted in microseconds.
\<close>

type_synonym timestamp = int
type_synonym row_id = int
type_synonym ('e, 'a) result = "'e + 'a"

named_theorems row_simps \<open>how row operations act on keys, members and lookups\<close>
named_theorems frame_simps \<open>what an operation leaves unchanged\<close>
named_theorems keeps_inv \<open>preservation of the invariants\<close>


section \<open>Results\<close>

text \<open>Sequencing of operations that may raise: the first error ends the run.\<close>

definition bind_result :: "('e, 'a) result \<Rightarrow> ('a \<Rightarrow> ('e, 'b) result) \<Rightarrow> ('e, 'b) result" where
  "bind_result r k = (case r of Inl e \<Rightarrow> Inl e | Inr x \<Rightarrow> k x)"

lemma bind_result_simps [simp]:
  "bind_result (Inl e) k = Inl e" "bind_result (Inr x) k = k x"
  by (simp_all add: bind_result_def)

lemma bind_result_eq_Inr:
  "bind_result r k = Inr y \<longleftrightarrow> (\<exists>x. r = Inr x \<and> k x = Inr y)"
  by (cases r) auto

lemma bind_result_eq_Inl:
  "bind_result r k = Inl e \<longleftrightarrow> r = Inl e \<or> (\<exists>x. r = Inr x \<and> k x = Inl e)"
  by (cases r) auto

text \<open>A guard that raises: \<open>require c e\<close> is \<^verbatim>\<open>if not c: raise e\<close>.\<close>

definition require :: "bool \<Rightarrow> 'e \<Rightarrow> ('e, unit) result" where
  "require c e = (if c then Inr () else Inl e)"

lemma require_eq_Inr [simp]: "require c e = Inr u \<longleftrightarrow> c"
  by (simp add: require_def)

lemma require_eq_Inl [simp]: "require c e = Inl e' \<longleftrightarrow> \<not> c \<and> e' = e"
  by (auto simp: require_def)

lemma require_True [simp]: "require True e = Inr ()"
  by (simp add: require_def)

lemma require_False [simp]: "require False e = Inl e"
  by (simp add: require_def)


text \<open>A loop whose body may raise.\<close>

fun require_each :: "('a \<Rightarrow> ('e, unit) result) \<Rightarrow> 'a list \<Rightarrow> ('e, unit) result" where
  "require_each f [] = Inr ()"
| "require_each f (x # xs) = bind_result (f x) (\<lambda>_. require_each f xs)"

lemma require_each_ok [simp]: "require_each f xs = Inr u \<longleftrightarrow> list_all (\<lambda>x. f x = Inr ()) xs"
  by (induction xs) (auto simp: bind_result_eq_Inr)

text \<open>A loop that builds a list and whose body may raise.\<close>

fun map_result :: "('a \<Rightarrow> ('e, 'b) result) \<Rightarrow> 'a list \<Rightarrow> ('e, 'b list) result" where
  "map_result f [] = Inr []"
| "map_result f (x # xs) = bind_result (f x) (\<lambda>y. bind_result (map_result f xs) (\<lambda>ys. Inr (y # ys)))"

lemma map_result_eq_Inr: "map_result f xs = Inr ys \<longleftrightarrow> list_all2 (\<lambda>x y. f x = Inr y) xs ys"
  by (induction xs arbitrary: ys) (auto simp: bind_result_eq_Inr list_all2_Cons1)

lemma map_result_fixed: "list_all (\<lambda>x. f x = Inr x) xs \<Longrightarrow> map_result f xs = Inr xs"
  by (induction xs) auto


section \<open>Rows\<close>

definition update_where :: "('r \<Rightarrow> bool) \<Rightarrow> ('r \<Rightarrow> 'r) \<Rightarrow> 'r list \<Rightarrow> 'r list" where
  "update_where p f rows = map (\<lambda>r. if p r then f r else r) rows"

definition row_by :: "('r \<Rightarrow> 'k) \<Rightarrow> 'k \<Rightarrow> 'r list \<Rightarrow> 'r option" where
  "row_by key k rows = find (\<lambda>r. key r = k) rows"

lemma update_where_Nil [simp]: "update_where p f [] = []"
  by (simp add: update_where_def)

lemma update_where_Cons [simp]:
  "update_where p f (r # rows) = (if p r then f r else r) # update_where p f rows"
  by (simp add: update_where_def)

lemma length_update_where [simp]: "length (update_where p f rows) = length rows"
  by (simp add: update_where_def)

lemma set_update_where [row_simps]:
  "set (update_where p f rows) = (\<lambda>r. if p r then f r else r) ` set rows"
  by (simp add: update_where_def)

lemma in_update_whereE:
  assumes "r \<in> set (update_where p f rows)"
  obtains s where "s \<in> set rows" "r = (if p s then f s else s)"
  using assms by (auto simp: set_update_where)

lemma update_where_none [simp]:
  "(\<And>r. r \<in> set rows \<Longrightarrow> \<not> p r) \<Longrightarrow> update_where p f rows = rows"
  by (induction rows) auto

lemma map_key_update_where [row_simps]:
  assumes "\<And>r. key (f r) = key r"
  shows "map key (update_where p f rows) = map key rows"
  using assms by (simp add: update_where_def)

lemma update_where_comp_key:
  assumes "\<And>r. r \<in> set rows \<Longrightarrow> p r \<Longrightarrow> f r = g r"
  shows "update_where p f rows = update_where p g rows"
  using assms by (induction rows) auto

lemma filter_update_where_out:
  assumes "\<And>r. r \<in> set rows \<Longrightarrow> p r \<Longrightarrow> \<not> q r \<and> \<not> q (f r)"
  shows "filter q (update_where p f rows) = filter q rows"
  using assms by (induction rows) auto

text \<open>Lookups by key.\<close>

lemma row_by_Nil [simp]: "row_by key k [] = None"
  by (simp add: row_by_def)

lemma row_by_Cons [simp]:
  "row_by key k (r # rows) = (if key r = k then Some r else row_by key k rows)"
  by (simp add: row_by_def)

lemma row_by_SomeD: "row_by key k rows = Some r \<Longrightarrow> r \<in> set rows \<and> key r = k"
  by (induction rows) (auto split: if_splits)

lemma row_by_None_iff: "row_by key k rows = None \<longleftrightarrow> k \<notin> key ` set rows"
  by (induction rows) (auto split: if_splits)

lemma row_by_unique:
  assumes "distinct (map key rows)" "r \<in> set rows"
  shows "row_by key (key r) rows = Some r"
  using assms by (induction rows) auto

lemma row_by_iff:
  assumes "distinct (map key rows)"
  shows "row_by key k rows = Some r \<longleftrightarrow> r \<in> set rows \<and> key r = k"
  using assms by (auto dest: row_by_SomeD row_by_unique)

lemma distinct_keyD:
  assumes "distinct (map key rows)" "r \<in> set rows" "s \<in> set rows" "key r = key s"
  shows "r = s"
  using assms by (metis distinct_map inj_onD)

lemma row_by_update_where [row_simps]:
  assumes "\<And>r. key (f r) = key r"
  shows "row_by key k (update_where p f rows)
       = map_option (\<lambda>r. if p r then f r else r) (row_by key k rows)"
  using assms by (induction rows) auto

lemma row_by_append:
  "row_by key k (rows @ rows') = (case row_by key k rows of None \<Rightarrow> row_by key k rows' | r \<Rightarrow> r)"
  by (induction rows) auto

lemma row_by_filter_other:
  assumes "\<And>r. r \<in> set rows \<Longrightarrow> key r = k \<Longrightarrow> p r"
  shows "row_by key k (filter p rows) = row_by key k rows"
  using assms by (induction rows) auto

lemma row_by_filter_gone:
  assumes "\<And>r. r \<in> set rows \<Longrightarrow> key r = k \<Longrightarrow> \<not> p r"
  shows "row_by key k (filter p rows) = None"
  using assms by (induction rows) auto

lemma distinct_map_filterI [intro]: "distinct (map key rows) \<Longrightarrow> distinct (map key (filter p rows))"
  by (induction rows) auto


text \<open>Membership in an image, with the image on the left of the equation.\<close>

lemma in_image_iff: "x \<in> f ` A \<longleftrightarrow> (\<exists>a\<in>A. f a = x)"
  by auto


section \<open>Maxima and minima of optional columns\<close>

text \<open>\<^verbatim>\<open>max(xs, default=d)\<close> of Python and \<^verbatim>\<open>func.max\<close> of SQL on a list of integers.\<close>

definition max_default :: "int \<Rightarrow> int list \<Rightarrow> int" where
  "max_default d xs = (case xs of [] \<Rightarrow> d | x # ys \<Rightarrow> foldl max x ys)"

lemma foldl_max: "foldl max (x::'a::linorder) ys = Max (insert x (set ys))"
proof (induction ys arbitrary: x)
  case (Cons y ys)
  have "Max (insert (max x y) (set ys)) = Max (insert x (insert y (set ys)))"
    by (cases "ys = []") (simp_all add: max.assoc)
  with Cons show ?case by simp
qed simp

lemma max_default_Max: "xs \<noteq> [] \<Longrightarrow> max_default d xs = Max (set xs)"
  by (cases xs) (simp_all add: max_default_def foldl_max)

lemma max_default_ge: "x \<in> set xs \<Longrightarrow> x \<le> max_default d xs"
  by (cases xs) (auto simp: max_default_def foldl_max)

lemma max_default_in: "xs \<noteq> [] \<Longrightarrow> max_default d xs \<in> set xs"
  using max_default_Max [of xs d] by (metis List.finite_set Max_in set_empty)


section \<open>Stable sorting by a key that an update keeps\<close>

lemma insort_key_map:
  assumes "k (g x) = k x" "\<And>y. y \<in> set ys \<Longrightarrow> k (g y) = k y"
  shows "insort_key k (g x) (map g ys) = map g (insort_key k x ys)"
  using assms by (induction ys) auto

lemma sort_key_map:
  assumes "\<And>x. x \<in> set xs \<Longrightarrow> k (g x) = k x"
  shows "sort_key k (map g xs) = map g (sort_key k xs)"
  using assms by (induction xs) (auto intro!: insort_key_map)

lemma insort_key_snoc:
  assumes "k y < k x"
  shows "insort_key k y (ys @ [x]) = insort_key k y ys @ [x]"
  using assms by (induction ys) auto

lemma sort_key_snoc_last:
  assumes "\<And>y. y \<in> set xs \<Longrightarrow> k y < k x"
  shows "sort_key k (xs @ [x]) = sort_key k xs @ [x]"
  using assms by (induction xs) (auto simp: insort_key_snoc)

text \<open>\<^verbatim>\<open>ORDER BY key LIMIT 1\<close>: the first row with the least key.\<close>

definition first_by :: "('r \<Rightarrow> 'k::linorder) \<Rightarrow> 'r list \<Rightarrow> 'r option" where
  "first_by key rows = (case sort_key key rows of [] \<Rightarrow> None | r # _ \<Rightarrow> Some r)"

lemma first_by_None [simp]: "first_by key rows = None \<longleftrightarrow> rows = []"
proof -
  have "sort_key key rows = [] \<longleftrightarrow> rows = []" by (metis length_0_conv length_sort)
  then show ?thesis by (auto simp: first_by_def split: list.split)
qed

lemma first_byD:
  assumes "first_by key rows = Some r"
  shows "r \<in> set rows" "x \<in> set rows \<Longrightarrow> key r \<le> key x"
proof -
  obtain rs where rs: "sort_key key rows = r # rs" using assms by (auto simp only: first_by_def split: list.splits)
  have s: "set rows = set (r # rs)" and o: "sorted (map key (r # rs))"
    unfolding rs [symmetric] by (rule set_sort [symmetric], rule sorted_sort_key)
  show "r \<in> set rows" unfolding s by simp
  assume "x \<in> set rows"
  then show "key r \<le> key x" using o unfolding s by auto
qed

end
