(* ===== verification/Codify_Value.thy ===== *)
theory Codify_Value
  imports Codify_Prelude Complex_Main
begin

text \<open>
  The dynamic values that the backend keeps in JSON columns and event envelopes, with the
  operations the code applies to them: \<^verbatim>\<open>dict.get\<close>, truthiness, \<^verbatim>\<open>==\<close>, the string methods and
  the regular expressions of the validators.

  A dict is the association list of its items; equality of dicts ignores the order of the items,
  and numbers compare by value across \<^verbatim>\<open>bool\<close>, \<^verbatim>\<open>int\<close> and \<^verbatim>\<open>float\<close>, as in Python. Floats are the
  finite ones, as rationals. Characters are Isabelle's 256 \<open>char\<close> values; text whose length is
  counted in UTF-16 units is modelled separately by code points.
\<close>

section \<open>Values\<close>

datatype pyval =
    PNone
  | PBool bool
  | PInt int
  | PFloat rat
  | PStr string
  | PList "pyval list"
  | PDict "(string \<times> pyval) list"

type_synonym pydict = "(string \<times> pyval) list"

definition dict_get :: "pydict \<Rightarrow> string \<Rightarrow> pyval" where
  "dict_get d k = (case map_of d k of None \<Rightarrow> PNone | Some v \<Rightarrow> v)"

lemma dict_get_Nil [simp]: "dict_get [] k = PNone"
  by (simp add: dict_get_def)

lemma dict_get_Cons [simp]:
  "dict_get ((k', v) # d) k = (if k = k' then v else dict_get d k)"
  by (simp add: dict_get_def)

definition has_key :: "pydict \<Rightarrow> string \<Rightarrow> bool" where
  "has_key d k \<longleftrightarrow> map_of d k \<noteq> None"

text \<open>\<^verbatim>\<open>d[k] = v\<close>: the value of a present key is replaced in place, a new key goes to the end.\<close>

primrec dict_set :: "pydict \<Rightarrow> string \<Rightarrow> pyval \<Rightarrow> pydict" where
  "dict_set [] k v = [(k, v)]"
| "dict_set (p # d) k v = (if fst p = k then (k, v) # d else p # dict_set d k v)"

lemma dict_get_dict_set [simp]: "dict_get (dict_set d k v) k' = (if k' = k then v else dict_get d k')"
  by (induction d) auto

lemma has_key_dict_set [simp]: "has_key (dict_set d k v) k' \<longleftrightarrow> k' = k \<or> has_key d k'"
  by (induction d) (auto simp: has_key_def)

lemma dict_set_twice [simp]: "dict_set (dict_set d k v) k w = dict_set d k w"
  by (induction d) auto

lemma dict_set_swap: "k \<noteq> k' \<Longrightarrow> has_key d k \<Longrightarrow> dict_set (dict_set d k v) k' w = dict_set (dict_set d k' w) k v"
  by (induction d) (auto simp: has_key_def)

lemma dict_set_same: "has_key d k \<Longrightarrow> dict_get d k = v \<Longrightarrow> dict_set d k v = d"
  by (induction d) (auto simp: has_key_def)

text \<open>\<^verbatim>\<open>isinstance(v, Mapping)\<close> and the view of a value as a dict, a list or a string.\<close>

definition as_dict :: "pyval \<Rightarrow> pydict option" where
  "as_dict v = (case v of PDict d \<Rightarrow> Some d | _ \<Rightarrow> None)"

definition as_str :: "pyval \<Rightarrow> string option" where
  "as_str v = (case v of PStr s \<Rightarrow> Some s | _ \<Rightarrow> None)"

definition as_list :: "pyval \<Rightarrow> pyval list option" where
  "as_list v = (case v of PList xs \<Rightarrow> Some xs | _ \<Rightarrow> None)"

lemma as_dict_not_None: "as_dict v \<noteq> None \<Longrightarrow> \<exists>d. v = PDict d"
  by (cases v) (auto simp: as_dict_def)

lemmas as_view_simps [simp] = as_dict_def as_str_def as_list_def

definition py_truthy :: "pyval \<Rightarrow> bool" where
  "py_truthy v = (case v of
      PNone \<Rightarrow> False | PBool b \<Rightarrow> b | PInt i \<Rightarrow> i \<noteq> 0 | PFloat r \<Rightarrow> r \<noteq> 0
    | PStr s \<Rightarrow> s \<noteq> [] | PList xs \<Rightarrow> xs \<noteq> [] | PDict d \<Rightarrow> d \<noteq> [])"

definition py_number :: "pyval \<Rightarrow> rat option" where
  "py_number v = (case v of
      PBool b \<Rightarrow> Some (if b then 1 else 0) | PInt i \<Rightarrow> Some (of_int i) | PFloat r \<Rightarrow> Some r
    | _ \<Rightarrow> None)"

primrec py_eq :: "pyval \<Rightarrow> pyval \<Rightarrow> bool" where
  "py_eq PNone = (\<lambda>w. w = PNone)"
| "py_eq (PBool b) = (\<lambda>w. py_number w = Some (if b then 1 else 0))"
| "py_eq (PInt i) = (\<lambda>w. py_number w = Some (of_int i))"
| "py_eq (PFloat r) = (\<lambda>w. py_number w = Some r)"
| "py_eq (PStr s) = (\<lambda>w. w = PStr s)"
| "py_eq (PList xs) = (\<lambda>w. case w of
      PList ys \<Rightarrow> list_all2 (\<lambda>eq y. eq y) (map py_eq xs) ys | _ \<Rightarrow> False)"
| "py_eq (PDict d) = (\<lambda>w. case w of
      PDict e \<Rightarrow> length d = length e
        \<and> list_all (\<lambda>(k, eq). case map_of e k of None \<Rightarrow> False | Some v \<Rightarrow> eq v)
             (map (map_prod id py_eq) d)
    | _ \<Rightarrow> False)"

text \<open>A value is well formed when no dict in it repeats a key.\<close>

primrec wf_pyval :: "pyval \<Rightarrow> bool" where
  "wf_pyval PNone = True"
| "wf_pyval (PBool b) = True"
| "wf_pyval (PInt i) = True"
| "wf_pyval (PFloat r) = True"
| "wf_pyval (PStr s) = True"
| "wf_pyval (PList xs) = list_all id (map wf_pyval xs)"
| "wf_pyval (PDict d) = (distinct (map fst d) \<and> list_all snd (map (map_prod id wf_pyval) d))"

lemma py_eq_refl [simp]: "wf_pyval v \<Longrightarrow> py_eq v v"
proof (induction v)
  case (PList xs)
  then show ?case by (auto simp: list_all2_conv_all_nth list_all_iff)
next
  case (PDict d)
  then have "\<And>k v. (k, v) \<in> set d \<Longrightarrow> map_of d k = Some v \<and> py_eq v v"
    by (force simp: list_all_iff snds.simps)
  then show ?case by (force simp: list_all_iff)
qed (simp_all add: py_number_def)


text \<open>A value that a set test rejects with \<^verbatim>\<open>TypeError\<close>, and membership in a set of strings.\<close>

definition unhashable :: "pyval \<Rightarrow> bool" where
  "unhashable v = (case v of PList _ \<Rightarrow> True | PDict _ \<Rightarrow> True | _ \<Rightarrow> False)"

definition in_strs :: "pyval \<Rightarrow> string list \<Rightarrow> bool" where
  "in_strs v xs = (case v of PStr s \<Rightarrow> s \<in> set xs | _ \<Rightarrow> False)"

text \<open>\<^verbatim>\<open>v in {...}\<close> as a test that may raise.\<close>

definition require_in_strs :: "pyval \<Rightarrow> string list \<Rightarrow> string \<Rightarrow> (string, unit) result" where
  "require_in_strs v xs code = (if unhashable v then Inl ''TypeError'' else require (in_strs v xs) code)"

lemma require_in_strs_ok [simp]: "require_in_strs v xs code = Inr u \<longleftrightarrow> (\<exists>s\<in>set xs. v = PStr s)"
  by (cases v) (auto simp: require_in_strs_def in_strs_def unhashable_def)

definition in_strs_result :: "pyval \<Rightarrow> string list \<Rightarrow> (string, bool) result" where
  "in_strs_result v xs = (if unhashable v then Inl ''TypeError'' else Inr (in_strs v xs))"

lemma in_strs_result_PStr [simp]: "in_strs_result (PStr s) xs = Inr (s \<in> set xs)"
  by (simp add: in_strs_result_def unhashable_def in_strs_def)


section \<open>Strings\<close>

definition startswith :: "string \<Rightarrow> string \<Rightarrow> bool" where
  "startswith s p \<longleftrightarrow> take (length p) s = p"

text \<open>\<^verbatim>\<open>str.isspace\<close> of one character, which is also what \<^verbatim>\<open>\s\<close> matches.\<close>

definition is_space :: "char \<Rightarrow> bool" where
  "is_space c = (let n = of_char c :: nat in
     (9 \<le> n \<and> n \<le> 13) \<or> (28 \<le> n \<and> n \<le> 32) \<or> n = 133 \<or> n = 160)"

text \<open>\<^verbatim>\<open>value.strip()\<close> is non-empty.\<close>

definition non_blank :: "string \<Rightarrow> bool" where
  "non_blank s \<longleftrightarrow> list_ex (\<lambda>c. \<not> is_space c) s"

definition py_strip :: "string \<Rightarrow> string" where
  "py_strip s = rev (dropWhile is_space (rev (dropWhile is_space s)))"

text \<open>\<^verbatim>\<open>s.replace(a, b)\<close> for single characters.\<close>

definition replace_char :: "char \<Rightarrow> char \<Rightarrow> string \<Rightarrow> string" where
  "replace_char a b s = map (\<lambda>c. if c = a then b else c) s"

definition char_in_range :: "char \<Rightarrow> char \<Rightarrow> char \<Rightarrow> bool" where
  "char_in_range lo hi c \<longleftrightarrow> (of_char lo :: nat) \<le> of_char c \<and> (of_char c :: nat) \<le> of_char hi"

definition is_digit :: "char \<Rightarrow> bool" where
  "is_digit c \<longleftrightarrow> char_in_range (CHR ''0'') (CHR ''9'') c"

definition is_alnum :: "char \<Rightarrow> bool" where
  "is_alnum c \<longleftrightarrow> is_digit c \<or> char_in_range (CHR ''a'') (CHR ''z'') c
     \<or> char_in_range (CHR ''A'') (CHR ''Z'') c"

definition is_lower_hex :: "char \<Rightarrow> bool" where
  "is_lower_hex c \<longleftrightarrow> is_digit c \<or> char_in_range (CHR ''a'') (CHR ''f'') c"

text \<open>\<^verbatim>\<open>^[0-9a-f]{64}$\<close> with \<^verbatim>\<open>fullmatch\<close>.\<close>

definition is_sha256 :: "string \<Rightarrow> bool" where
  "is_sha256 s \<longleftrightarrow> length s = 64 \<and> list_all is_lower_hex s"

text \<open>The substring test \<^verbatim>\<open>c in s\<close> for one character is \<open>c \<in> set s\<close>.\<close>

fun split_on :: "char \<Rightarrow> string \<Rightarrow> string list" where
  "split_on c [] = [[]]"
| "split_on c (x # xs) =
     (if x = c then [] # split_on c xs
      else (case split_on c xs of [] \<Rightarrow> [[x]] | p # ps \<Rightarrow> (x # p) # ps))"

lemma split_on_nonempty [simp]: "split_on c s \<noteq> []"
  by (induction s) (auto split: list.splits)

lemma split_on_append_slash:
  "c \<notin> set p \<Longrightarrow> split_on c (p @ c # s) = p # split_on c s"
  by (induction p) auto

lemma split_on_single: "c \<notin> set p \<Longrightarrow> split_on c p = [p]"
  by (induction p) auto

lemma split_on_append: "split_on c (p @ c # s) = split_on c p @ split_on c s"
proof (induction p)
  case (Cons x p)
  then show ?case by (cases "split_on c p") auto
qed simp

text \<open>
  \<^verbatim>\<open>str(PurePosixPath(s)) == s\<close> for an absolute path: no empty and no \<^verbatim>\<open>.\<close> component after the
  root, except that exactly two leading slashes are kept.
\<close>

definition is_normal_posix_path :: "string \<Rightarrow> bool" where
  "is_normal_posix_path s =
     (let body = (if startswith s ''//'' \<and> \<not> startswith s ''///'' then drop 2 s else drop 1 s)
      in body = [] \<or> list_all (\<lambda>p. p \<noteq> [] \<and> p \<noteq> ''.'') (split_on (CHR ''/'') body))"


section \<open>Text of a value\<close>

function nat_digits :: "int \<Rightarrow> string" where
  "nat_digits n = (if n < 10 then [char_of (48 + n)] else nat_digits (n div 10) @ [char_of (48 + n mod 10)])"
  by pat_completeness auto
termination by (relation "measure nat") auto

declare nat_digits.simps [simp del]

definition int_repr :: "int \<Rightarrow> string" where
  "int_repr i = (if i < 0 then ''-'' @ nat_digits (- i) else nat_digits i)"

text \<open>
  \<^verbatim>\<open>str(v)\<close>; \<open>rp\<close> is Python's text of a float or a container. \<^verbatim>\<open>str(v or "")\<close> is \<open>str_or_empty\<close>.
\<close>

definition py_str :: "(pyval \<Rightarrow> string) \<Rightarrow> pyval \<Rightarrow> string" where
  "py_str rp v = (case v of
     PNone \<Rightarrow> ''None'' | PBool b \<Rightarrow> if b then ''True'' else ''False'' | PInt i \<Rightarrow> int_repr i
   | PStr s \<Rightarrow> s | _ \<Rightarrow> rp v)"

definition str_or_empty :: "(pyval \<Rightarrow> string) \<Rightarrow> pyval \<Rightarrow> string" where
  "str_or_empty rp v = (if py_truthy v then py_str rp v else [])"

text \<open>The prefix \<^verbatim>\<open>s[:n]\<close> for a non-negative \<^verbatim>\<open>n\<close>, and the suffix \<^verbatim>\<open>s[-n:]\<close> for a positive one.\<close>

definition clip :: "int \<Rightarrow> string \<Rightarrow> string" where
  "clip n s = (if int (length s) \<le> n then s else take (nat n) s)"

definition last_chars :: "int \<Rightarrow> string \<Rightarrow> string" where
  "last_chars n s = (if int (length s) \<le> n then s else drop (length s - nat n) s)"

lemma clip_bound: "0 \<le> n \<Longrightarrow> int (length (clip n s)) \<le> n"
  by (simp add: clip_def)

lemma clip_clip [simp]: "0 \<le> n \<Longrightarrow> clip n (clip n s) = clip n s"
  by (simp add: clip_def)

end
