(* ===== verification/Codify_Models.thy ===== *)
theory Codify_Models
  imports Codify_Value
begin

text \<open>
  The rows of \<^verbatim>\<open>app/models.py\<close> that the modelled components read or write, the database as the
  record of its tables, and the constraints the schema declares. Every record keeps the columns
  some modelled operation uses; columns that are only displayed are left out.
\<close>

section \<open>Enumerations\<close>

datatype task_status = PENDING | QUEUED | RUNNING | COMPLETED | FAILED | CANCELLED

datatype issue_status = OPEN | IN_PROGRESS | IN_REVIEW | CLOSED

text \<open>\<^verbatim>\<open>ACTIVE_STATUSES\<close> and \<^verbatim>\<open>TERMINAL_STATUS_VALUES\<close> of \<^verbatim>\<open>issue_task_order.py\<close>.\<close>

definition ACTIVE_STATUSES :: "task_status list" where
  "ACTIVE_STATUSES = [PENDING, QUEUED, RUNNING]"

definition TERMINAL_STATUSES :: "task_status list" where
  "TERMINAL_STATUSES = [COMPLETED, FAILED, CANCELLED]"

lemma active_iff_not_terminal:
  "s \<in> set ACTIVE_STATUSES \<longleftrightarrow> s \<notin> set TERMINAL_STATUSES"
  by (cases s) (simp_all add: ACTIVE_STATUSES_def TERMINAL_STATUSES_def)


section \<open>Rows\<close>

record task =
  task_id :: row_id
  task_issue_id :: row_id
  task_project_id :: int
  task_runtime_bundle_id :: "row_id option"
  task_session_mode :: string
  task_input_session_id :: "string option"
  task_output_session_id :: "string option"
  task_initiator_user_id :: "row_id option"
  task_initiator_gitlab_user_id :: "row_id option"
  task_status :: task_status
  task_priority :: int
  task_scheduled_at :: "timestamp option"
  task_issue_sequence :: "int option"
  task_projected_harness_key :: "string option"
  task_projected_session_namespace :: "string option"
  task_projected_lineage_generation :: "int option"
  task_projected_reset_task_id :: "row_id option"
  task_lineage_projection_reason :: "string option"
  task_input_lineage_reason :: "string option"
  task_container_id :: "string option"
  task_commit_sha :: "string option"
  task_error_message :: "string option"
  task_mode :: string
  task_created_at :: timestamp
  task_started_at :: "timestamp option"
  task_execution_timeout_seconds :: "int option"
  task_completed_at :: "timestamp option"
  task_cancel_requested_at :: "timestamp option"
  task_raw_logs_finalized_at :: "timestamp option"
  task_retry_source_task_id :: "row_id option"
  task_rendered_prompt :: "string option"

record issue =
  issue_id :: row_id
  issue_status :: issue_status
  issue_initiator_user_id :: "row_id option"

record execution_lock =
  lock_issue_id :: row_id
  lock_task_id :: row_id
  lock_acquired_at :: timestamp
  lock_heartbeat_at :: "timestamp option"

record session_lineage =
  lineage_issue_id :: row_id
  lineage_generation :: int
  lineage_harness_key :: string
  lineage_session_namespace :: string
  lineage_reset_task_id :: "row_id option"
  lineage_session_id :: "string option"
  lineage_last_output_task_id :: "row_id option"
  lineage_last_output_issue_sequence :: "int option"
  lineage_reason :: "string option"

record worker_snapshot =
  snap_task_id :: row_id
  snap_image :: string
  snap_runtime_mode :: string
  snap_worker_kit_version :: "string option"
  snap_worker_kit_path :: "string option"
  snap_runtime_locator_fingerprint :: "string option"
  snap_harness_key :: "string option"
  snap_harness_config_snapshot :: pyval
  snap_model_endpoint_snapshot :: pyval
  snap_cli_source :: "string option"
  snap_cli_executable_path :: "string option"
  snap_cli_version :: "string option"
  snap_cli_binary_digest :: "string option"
  snap_runtime_contract_version :: "string option"
  snap_runtime_bundle_digest :: "string option"

record runtime_bundle =
  bundle_id :: row_id
  bundle_digest :: string
  bundle_contract_version :: string
  bundle_manifest :: pydict

record readiness_row =
  ready_fingerprint :: string
  ready_docker_daemon_key :: "string option"
  ready_runtime_mode :: "string option"
  ready_worker_kit_version :: "string option"
  ready_worker_kit_path :: "string option"
  ready_status :: string
  ready_failure_code :: "string option"
  ready_failure_message :: "string option"
  ready_checked_at :: "timestamp option"
  ready_check_generation :: int
  ready_harness_inventory :: pyval
  ready_kit_identity :: pyval
  ready_check_started_at :: "timestamp option"

text \<open>The states of the command control gate of an attempt, and of a command.\<close>

datatype control_state = Disabled | Starting | Accepting | Closing | Closed

datatype command_status = Queued | Dispatching | Delivered | Rejected | OutcomeUnknown

record harness_attempt =
  attempt_id :: string
  attempt_task_id :: row_id
  attempt_no :: int
  attempt_event_schema :: string
  attempt_harness_key :: string
  attempt_adapter_version :: string
  attempt_cli_version :: "string option"
  attempt_control_state :: control_state
  attempt_awaiting_follow_up_turn :: bool
  attempt_pending_follow_up_command_id :: "string option"
  attempt_pending_follow_up_native_id :: "string option"
  attempt_force_close_requested :: bool
  attempt_next_command_sequence :: int
  attempt_dispatch_owner :: "string option"
  attempt_dispatch_expires_at :: "timestamp option"
  attempt_last_seq :: int
  attempt_terminal_event_id :: "string option"
  attempt_terminal_event_type :: "string option"
  attempt_terminal_at :: "timestamp option"

record harness_command =
  cmd_id :: string
  cmd_task_id :: row_id
  cmd_attempt_id :: string
  cmd_sequence_no :: int
  cmd_type :: string
  cmd_payload :: pydict
  cmd_payload_digest :: string
  cmd_status :: command_status
  cmd_created_by :: string
  cmd_created_at :: timestamp
  cmd_delivery_attempts :: int
  cmd_last_attempt_at :: "timestamp option"
  cmd_dispatch_started_at :: "timestamp option"
  cmd_native_request_id :: "string option"
  cmd_native_sent_at :: "timestamp option"
  cmd_native_ack_at :: "timestamp option"
  cmd_outcome_unknown_at :: "timestamp option"
  cmd_delivered_at :: "timestamp option"
  cmd_rejected_at :: "timestamp option"
  cmd_rejection_code :: "string option"

text \<open>
  The \<^verbatim>\<open>TaskLog\<close> rows of type \<^verbatim>\<open>control_event\<close>: the task, the event type, the command and the public
  code.
\<close>

record control_log =
  clog_task_id :: row_id
  clog_type :: string
  clog_command_id :: string
  clog_code :: "string option"

text \<open>
  The \<^verbatim>\<open>TaskLog\<close> rows of type \<^verbatim>\<open>runtime_warning\<close>, with the members of their metadata that the
  scheduler compares.
\<close>

record kit_warning =
  warn_task_id :: row_id
  warn_reasons :: "string list"
  warn_baseline :: "string option \<times> pyval"
  warn_actual :: "string option \<times> pyval"

text \<open>The database: one list per table.\<close>

record database =
  tasks :: "task list"
  issues :: "issue list"
  locks :: "execution_lock list"
  lineages :: "session_lineage list"
  snapshots :: "worker_snapshot list"
  bundles :: "runtime_bundle list"
  readiness :: "readiness_row list"
  attempts :: "harness_attempt list"
  kit_warnings :: "kit_warning list"
  commands :: "harness_command list"
  control_logs :: "control_log list"


section \<open>Access by key\<close>

definition get_task :: "database \<Rightarrow> row_id \<Rightarrow> task option" where
  "get_task d k = row_by task_id k (tasks d)"

definition get_issue :: "database \<Rightarrow> row_id \<Rightarrow> issue option" where
  "get_issue d k = row_by issue_id k (issues d)"

definition get_lock :: "database \<Rightarrow> row_id \<Rightarrow> execution_lock option" where
  "get_lock d k = row_by lock_issue_id k (locks d)"

definition get_snapshot :: "database \<Rightarrow> row_id \<Rightarrow> worker_snapshot option" where
  "get_snapshot d k = row_by snap_task_id k (snapshots d)"

definition get_bundle :: "database \<Rightarrow> row_id \<Rightarrow> runtime_bundle option" where
  "get_bundle d k = row_by bundle_id k (bundles d)"

text \<open>\<open>task.runtime_bundle\<close>, the relationship.\<close>

definition task_bundle :: "database \<Rightarrow> task \<Rightarrow> runtime_bundle option" where
  "task_bundle d t = (case task_runtime_bundle_id t of None \<Rightarrow> None | Some b \<Rightarrow> get_bundle d b)"

text \<open>A write to one task row, as the flush of a modified ORM object does it.\<close>

definition put_task :: "row_id \<Rightarrow> (task \<Rightarrow> task) \<Rightarrow> database \<Rightarrow> database" where
  "put_task k f d = d\<lparr>tasks := update_where (\<lambda>t. task_id t = k) f (tasks d)\<rparr>"

definition put_issue :: "row_id \<Rightarrow> (issue \<Rightarrow> issue) \<Rightarrow> database \<Rightarrow> database" where
  "put_issue k f d = d\<lparr>issues := update_where (\<lambda>i. issue_id i = k) f (issues d)\<rparr>"

definition is_active :: "task \<Rightarrow> bool" where
  "is_active t \<longleftrightarrow> task_status t \<in> set ACTIVE_STATUSES"

definition is_terminal :: "task \<Rightarrow> bool" where
  "is_terminal t \<longleftrightarrow> task_status t \<in> set TERMINAL_STATUSES"

lemma is_terminal_iff [simp]: "is_terminal t \<longleftrightarrow> \<not> is_active t"
  by (simp add: is_terminal_def is_active_def active_iff_not_terminal)

lemma is_active_iff:
  "is_active t \<longleftrightarrow> task_status t = PENDING \<or> task_status t = QUEUED \<or> task_status t = RUNNING"
  by (simp add: is_active_def ACTIVE_STATUSES_def)

text \<open>The tasks of one issue, \<^verbatim>\<open>select(Task).where(Task.issue_id == issue_id)\<close>.\<close>

definition issue_tasks :: "database \<Rightarrow> row_id \<Rightarrow> task list" where
  "issue_tasks d i = filter (\<lambda>t. task_issue_id t = i) (tasks d)"

lemma in_issue_tasks [simp]: "t \<in> set (issue_tasks d i) \<longleftrightarrow> t \<in> set (tasks d) \<and> task_issue_id t = i"
  by (simp add: issue_tasks_def)


section \<open>Schema constraints\<close>

text \<open>
  Primary keys, and the partial unique index \<^verbatim>\<open>uq_tasks_issue_sequence\<close>: two tasks of an issue
  never carry the same non-null sequence.
\<close>

definition unique_sequences :: "task list \<Rightarrow> bool" where
  "unique_sequences ts \<longleftrightarrow> (\<forall>t\<in>set ts. \<forall>u\<in>set ts.
     task_issue_id t = task_issue_id u \<and> task_issue_sequence t \<noteq> None
     \<and> task_issue_sequence t = task_issue_sequence u \<longrightarrow> task_id t = task_id u)"

definition wf_db :: "database \<Rightarrow> bool" where
  "wf_db d \<longleftrightarrow> distinct (map task_id (tasks d)) \<and> distinct (map issue_id (issues d))
     \<and> distinct (map lock_issue_id (locks d)) \<and> distinct (map snap_task_id (snapshots d))
     \<and> distinct (map bundle_id (bundles d)) \<and> unique_sequences (tasks d)"

lemma wf_dbD:
  assumes "wf_db d"
  shows "distinct (map task_id (tasks d))" "distinct (map issue_id (issues d))"
    "distinct (map lock_issue_id (locks d))" "distinct (map snap_task_id (snapshots d))"
    "distinct (map bundle_id (bundles d))" "unique_sequences (tasks d)"
  using assms by (simp_all add: wf_db_def)

lemma same_task:
  assumes "wf_db d" "t \<in> set (tasks d)" "u \<in> set (tasks d)" "task_id t = task_id u"
  shows "t = u"
  using distinct_keyD [OF wf_dbD(1) [OF assms(1)] assms(2,3)] assms(4) by simp

lemma same_sequence:
  assumes "wf_db d" "t \<in> set (tasks d)" "u \<in> set (tasks d)" "task_issue_id t = task_issue_id u"
    "task_issue_sequence t = Some q" "task_issue_sequence u = Some q"
  shows "t = u"
proof (rule same_task [OF assms(1-3)])
  have "task_issue_id t = task_issue_id u \<and> task_issue_sequence t \<noteq> None
      \<and> task_issue_sequence t = task_issue_sequence u" using assms(4-6) by simp
  then show "task_id t = task_id u"
    using wf_dbD(6) [OF assms(1)] assms(2,3) unfolding unique_sequences_def by blast
qed

lemma get_task_iff:
  assumes "wf_db d"
  shows "get_task d k = Some t \<longleftrightarrow> t \<in> set (tasks d) \<and> task_id t = k"
  using wf_dbD(1) [OF assms] by (simp add: get_task_def row_by_iff)

lemma get_taskD: "get_task d k = Some t \<Longrightarrow> t \<in> set (tasks d) \<and> task_id t = k"
  unfolding get_task_def by (rule row_by_SomeD)

text \<open>Writing columns other than the keys and the sequence keeps the constraints.\<close>

lemma unique_sequences_map:
  assumes "unique_sequences ts"
    and "\<And>t. t \<in> set ts \<Longrightarrow> task_id (f t) = task_id t \<and> task_issue_id (f t) = task_issue_id t
           \<and> task_issue_sequence (f t) = task_issue_sequence t"
  shows "unique_sequences (map f ts)"
  using assms unfolding unique_sequences_def by (auto simp: ball_simps)

lemma put_task_frames [frame_simps, simp]:
  "issues (put_task k f d) = issues d" "locks (put_task k f d) = locks d"
  "lineages (put_task k f d) = lineages d" "snapshots (put_task k f d) = snapshots d"
  "bundles (put_task k f d) = bundles d" "readiness (put_task k f d) = readiness d"
  "attempts (put_task k f d) = attempts d" "kit_warnings (put_task k f d) = kit_warnings d"
  "commands (put_task k f d) = commands d" "control_logs (put_task k f d) = control_logs d"
  "tasks (put_task k f d) = update_where (\<lambda>t. task_id t = k) f (tasks d)"
  by (simp_all add: put_task_def)

lemma put_issue_frames [frame_simps, simp]:
  "tasks (put_issue k g d) = tasks d" "locks (put_issue k g d) = locks d"
  "lineages (put_issue k g d) = lineages d" "snapshots (put_issue k g d) = snapshots d"
  "bundles (put_issue k g d) = bundles d" "readiness (put_issue k g d) = readiness d"
  "attempts (put_issue k g d) = attempts d" "kit_warnings (put_issue k g d) = kit_warnings d"
  "commands (put_issue k g d) = commands d" "control_logs (put_issue k g d) = control_logs d"
  "issues (put_issue k g d) = update_where (\<lambda>i. issue_id i = k) g (issues d)"
  by (simp_all add: put_issue_def)

text \<open>A change of task columns that leaves the identity and the turn number alone.\<close>

definition keeps_turn :: "(task \<Rightarrow> task) \<Rightarrow> bool" where
  "keeps_turn f \<longleftrightarrow> (\<forall>t. task_id (f t) = task_id t \<and> task_issue_id (f t) = task_issue_id t
     \<and> task_issue_sequence (f t) = task_issue_sequence t)"

lemma keeps_turnD:
  assumes "keeps_turn f"
  shows "task_id (f t) = task_id t" "task_issue_id (f t) = task_issue_id t"
    "task_issue_sequence (f t) = task_issue_sequence t"
  using assms by (simp_all add: keeps_turn_def)

lemma unique_sequences_update_where:
  assumes "unique_sequences ts" "keeps_turn f"
  shows "unique_sequences (update_where p f ts)"
  unfolding update_where_def using assms(2)
  by (intro unique_sequences_map [OF assms(1)]) (auto simp: keeps_turn_def)

lemma wf_db_update_tasks [keeps_inv]:
  assumes "wf_db d" "keeps_turn f"
  shows "wf_db (d\<lparr>tasks := update_where p f (tasks d)\<rparr>)"
  using assms(1) unique_sequences_update_where [OF wf_dbD(6) [OF assms(1)] assms(2)]
    map_key_update_where [of task_id f] keeps_turnD(1) [OF assms(2)]
  by (simp add: wf_db_def)

lemma get_task_put_task:
  assumes "keeps_turn f"
  shows "get_task (put_task k f d) j = map_option (\<lambda>t. if task_id t = k then f t else t) (get_task d j)"
  using keeps_turnD(1) [OF assms] by (simp add: get_task_def row_by_update_where)

lemma wf_db_put_task [keeps_inv]:
  assumes "wf_db d" "keeps_turn f"
  shows "wf_db (put_task k f d)"
  unfolding put_task_def using assms by (rule wf_db_update_tasks)

lemma wf_db_put_issue [keeps_inv]:
  assumes "wf_db d" "\<And>i. issue_id (g i) = issue_id i"
  shows "wf_db (put_issue k g d)"
  using assms by (simp add: wf_db_def put_issue_def map_key_update_where)

lemma keeps_turn_status [simp]: "keeps_turn (task_status_update g)"
  by (simp add: keeps_turn_def)


section \<open>Concrete rows\<close>

text \<open>Rows from which the witnesses build their databases.\<close>

definition sample_task :: "row_id \<Rightarrow> row_id \<Rightarrow> task_status \<Rightarrow> int option \<Rightarrow> task" where
  "sample_task k i s q = \<lparr>task_id = k, task_issue_id = i, task_project_id = 1,
     task_runtime_bundle_id = None, task_session_mode = ''continue'', task_input_session_id = None,
     task_output_session_id = None, task_initiator_user_id = None,
     task_initiator_gitlab_user_id = None, task_status = s, task_priority = 0,
     task_scheduled_at = None, task_issue_sequence = q, task_projected_harness_key = None,
     task_projected_session_namespace = None, task_projected_lineage_generation = None,
     task_projected_reset_task_id = None, task_lineage_projection_reason = None,
     task_input_lineage_reason = None, task_container_id = None, task_commit_sha = None,
     task_error_message = None, task_mode = ''execute'', task_created_at = k,
     task_started_at = None, task_execution_timeout_seconds = None, task_completed_at = None,
     task_cancel_requested_at = None, task_raw_logs_finalized_at = None,
     task_retry_source_task_id = None, task_rendered_prompt = Some ''do it''\<rparr>"

definition sample_db :: "task list \<Rightarrow> execution_lock list \<Rightarrow> database" where
  "sample_db ts ls = \<lparr>tasks = ts, issues = [\<lparr>issue_id = 7, issue_status = OPEN,
     issue_initiator_user_id = None\<rparr>], locks = ls, lineages = [], snapshots = [], bundles = [],
     readiness = [], attempts = [], kit_warnings = [], commands = [], control_logs = []\<rparr>"

definition sample_lock :: "row_id \<Rightarrow> row_id \<Rightarrow> execution_lock" where
  "sample_lock i t = \<lparr>lock_issue_id = i, lock_task_id = t, lock_acquired_at = 0,
     lock_heartbeat_at = None\<rparr>"

lemmas sample_defs = sample_task_def sample_db_def sample_lock_def

end
