(* ===== verification/Issue_Order.thy ===== *)
theory Issue_Order
  imports Codify_Models
begin

text \<open>
  Turn order of an issue, the first half of \<^verbatim>\<open>core/issue_task_order.py\<close>: verification and repair of
  turn numbers and lineage projections (\<open>ensure_issue_order_integrity_locked\<close> and
  \<open>repair_lineage_projections\<close>), allocation of the next turn number, and the lineage of a new tail
  task (\<open>project_tail_lineage\<close>).

  The loops mutate ORM objects that are flushed with the caller's transaction. The model computes
  the new rows and writes them back; when the code raises, every caller rolls back, so an error
  carries no database. \<open>sha256\<close> is the hexadecimal SHA-256 digest of a text.
\<close>

section \<open>Projections\<close>

definition LEGACY_NAMESPACE :: string where "LEGACY_NAMESPACE = ''legacy''"

record projection =
  proj_harness_key :: string
  proj_session_namespace :: string
  proj_generation :: int
  proj_reset_task_id :: "row_id option"
  proj_reason :: string

definition session_namespace_for ::
  "(string \<Rightarrow> string) \<Rightarrow> string \<Rightarrow> string option \<Rightarrow> string \<Rightarrow> string" where
  "session_namespace_for sha256 harness_key endpoint_fingerprint adapter_state_major =
     harness_key @ ''-'' @ take 16 (sha256 (harness_key @ ''|''
       @ (case endpoint_fingerprint of None \<Rightarrow> [] | Some f \<Rightarrow> f) @ ''|state-'' @ adapter_state_major))"

definition has_full_projection :: "task \<Rightarrow> bool" where
  "has_full_projection t =
     (if task_projected_harness_key t = None \<or> task_projected_session_namespace t = None
         \<or> task_projected_lineage_generation t = None \<or> task_lineage_projection_reason t = None
      then False
      else if the (task_projected_lineage_generation t) > 0 \<and> task_projected_reset_task_id t = None
      then False else True)"

definition task_projection :: "task \<Rightarrow> projection option" where
  "task_projection t =
     (if has_full_projection t
      then Some \<lparr>proj_harness_key = the (task_projected_harness_key t),
                 proj_session_namespace = the (task_projected_session_namespace t),
                 proj_generation = the (task_projected_lineage_generation t),
                 proj_reset_task_id = task_projected_reset_task_id t,
                 proj_reason = the (task_lineage_projection_reason t)\<rparr>
      else None)"

definition with_projection :: "projection \<Rightarrow> task \<Rightarrow> task" where
  "with_projection p t = t\<lparr>task_projected_harness_key := Some (proj_harness_key p),
     task_projected_session_namespace := Some (proj_session_namespace p),
     task_projected_lineage_generation := Some (proj_generation p),
     task_projected_reset_task_id := proj_reset_task_id p,
     task_lineage_projection_reason := Some (proj_reason p)\<rparr>"


section \<open>Verification and repair\<close>

datatype order_error = IssueOrderIntegrityError row_id string

text \<open>The first pass: every non-null sequence equals its rank and none repeats.\<close>

fun check_sequences :: "row_id \<Rightarrow> int \<Rightarrow> int list \<Rightarrow> task list \<Rightarrow> (order_error, unit) result" where
  "check_sequences issue rank seen [] = Inr ()"
| "check_sequences issue rank seen (t # ts) =
     (case task_issue_sequence t of
        None \<Rightarrow> check_sequences issue (rank + 1) seen ts
      | Some q \<Rightarrow>
          if q \<noteq> rank then Inl (IssueOrderIntegrityError issue ''sequence_mismatch'')
          else if q \<in> set seen then Inl (IssueOrderIntegrityError issue ''duplicate_sequence'')
          else check_sequences issue (rank + 1) (q # seen) ts)"

fun backfill_sequences :: "int \<Rightarrow> task list \<Rightarrow> task list" where
  "backfill_sequences rank [] = []"
| "backfill_sequences rank (t # ts) =
     (if task_issue_sequence t = None then t\<lparr>task_issue_sequence := Some rank\<rparr> else t)
       # backfill_sequences (rank + 1) ts"

definition count_null_sequences :: "task list \<Rightarrow> nat" where
  "count_null_sequences ts = length (filter (\<lambda>t. task_issue_sequence t = None) ts)"

text \<open>The fingerprint the frozen snapshot's endpoint carries, \<^verbatim>\<open>str | None\<close>.\<close>

definition endpoint_fingerprint :: "worker_snapshot \<Rightarrow> string option" where
  "endpoint_fingerprint s = (case snap_model_endpoint_snapshot s of
     PDict e \<Rightarrow> (case dict_get e ''fingerprint'' of PStr f \<Rightarrow> Some f | _ \<Rightarrow> None)
   | _ \<Rightarrow> None)"

text \<open>Harness key and namespace derivable for a task: from its snapshot, else legacy when terminal.\<close>

definition derived_identity ::
  "(string \<Rightarrow> string) \<Rightarrow> worker_snapshot list \<Rightarrow> task \<Rightarrow> (string \<times> string) option" where
  "derived_identity sha256 snaps t =
     (let fallback = (if is_terminal t then Some (LEGACY_NAMESPACE, LEGACY_NAMESPACE) else None)
      in case row_by snap_task_id (task_id t) snaps of
           None \<Rightarrow> fallback
         | Some s \<Rightarrow> (case snap_harness_key s of
             None \<Rightarrow> fallback
           | Some k \<Rightarrow> if k = [] then fallback
               else Some (k, session_namespace_for sha256 k (endpoint_fingerprint s) ''1'')))"

definition repaired_projection ::
  "projection option \<Rightarrow> task \<Rightarrow> string \<Rightarrow> string \<Rightarrow> (string, projection) result" where
  "repaired_projection tail t harness_key namespace =
     (let fresh = task_session_mode t = ''fresh'';
          proj = (\<lambda>g r why. \<lparr>proj_harness_key = harness_key, proj_session_namespace = namespace,
                    proj_generation = g, proj_reset_task_id = r, proj_reason = why\<rparr>)
      in case tail of
           None \<Rightarrow> Inr (proj (if fresh then 1 else 0) (if fresh then Some (task_id t) else None) ''initial'')
         | Some p \<Rightarrow>
             if fresh then Inr (proj (proj_generation p + 1) (Some (task_id t)) ''fresh'')
             else if harness_key = proj_harness_key p \<and> namespace = proj_session_namespace p
             then Inr (proj (proj_generation p) (proj_reset_task_id p) ''inherited'')
             else if is_active t then Inl ''continue_namespace_change''
             else Inr (proj (proj_generation p + 1) (Some (task_id t)) ''legacy_namespace_change''))"

text \<open>The loop over the tasks in \<open>(created_at, id)\<close> order; \<open>Inl\<close> is the blocked report.\<close>

fun repair_lineage_projections ::
  "(string \<Rightarrow> string) \<Rightarrow> worker_snapshot list \<Rightarrow> projection option \<Rightarrow> task list
     \<Rightarrow> (string, task list \<times> nat) result" where
  "repair_lineage_projections sha256 snaps tail [] = Inr ([], 0)"
| "repair_lineage_projections sha256 snaps tail (t # ts) =
     (if has_full_projection t
      then bind_result (repair_lineage_projections sha256 snaps (task_projection t) ts)
             (\<lambda>(ts', n). Inr (t # ts', n))
      else case derived_identity sha256 snaps t of
        None \<Rightarrow>
          if is_active t then Inl ''active_task_missing_snapshot''
          else bind_result (repair_lineage_projections sha256 snaps tail ts)
                 (\<lambda>(ts', n). Inr (t # ts', n))
      | Some (key, ns) \<Rightarrow>
          bind_result (repaired_projection tail t key ns) (\<lambda>p.
          bind_result (repair_lineage_projections sha256 snaps (Some p) ts)
            (\<lambda>(ts', n). Inr (with_projection p t # ts', Suc n))))"

record integrity_report =
  repaired_sequences :: nat
  repaired_projections :: nat
  max_sequence :: int
  tail_projection :: "projection option"

text \<open>\<^verbatim>\<open>max(tasks, key=f)\<close>: the first element with the greatest key.\<close>

definition max_by :: "('a \<Rightarrow> int) \<Rightarrow> 'a list \<Rightarrow> 'a option" where
  "max_by f xs = (case xs of [] \<Rightarrow> None
     | x # ys \<Rightarrow> Some (foldl (\<lambda>m y. if f m < f y then y else m) x ys))"

definition seq_or_zero :: "task \<Rightarrow> int" where
  "seq_or_zero t = (case task_issue_sequence t of None \<Rightarrow> 0 | Some q \<Rightarrow> q)"

text \<open>The projection of the task with the greatest turn number.\<close>

definition tail_lineage :: "task list \<Rightarrow> projection option" where
  "tail_lineage ts = (case max_by seq_or_zero ts of None \<Rightarrow> None | Some t \<Rightarrow> task_projection t)"

text \<open>The tasks of an issue in the deterministic order \<open>ORDER BY created_at, id\<close>.\<close>

definition ordered_tasks :: "database \<Rightarrow> row_id \<Rightarrow> task list" where
  "ordered_tasks d issue = sort_key (\<lambda>t. (task_created_at t, task_id t)) (issue_tasks d issue)"

definition write_back :: "task list \<Rightarrow> task \<Rightarrow> task" where
  "write_back rows t = (case row_by task_id (task_id t) rows of None \<Rightarrow> t | Some t' \<Rightarrow> t')"

definition flush_tasks :: "task list \<Rightarrow> database \<Rightarrow> database" where
  "flush_tasks rows d = d\<lparr>tasks := map (write_back rows) (tasks d)\<rparr>"

definition ensure_issue_order_integrity_locked ::
  "(string \<Rightarrow> string) \<Rightarrow> database \<Rightarrow> row_id \<Rightarrow> bool
     \<Rightarrow> (order_error, integrity_report \<times> database) result" where
  "ensure_issue_order_integrity_locked sha256 d issue repair_nulls =
     (let ts = ordered_tasks d issue in
      if ts = [] then Inr (\<lparr>repaired_sequences = 0, repaired_projections = 0, max_sequence = 0,
                           tail_projection = None\<rparr>, d)
      else bind_result (check_sequences issue 1 [] ts) (\<lambda>_.
           bind_result (require (repair_nulls
               \<or> \<not> list_ex (\<lambda>t. task_issue_sequence t = None \<and> is_active t) ts)
             (IssueOrderIntegrityError issue ''active_null_sequence'')) (\<lambda>_.
           let ts1 = (if repair_nulls then backfill_sequences 1 ts else ts) in
           case repair_lineage_projections sha256 (snapshots d) None ts1 of
             Inl reason \<Rightarrow> Inl (IssueOrderIntegrityError issue reason)
           | Inr (ts2, n) \<Rightarrow>
               Inr (\<lparr>repaired_sequences = (if repair_nulls then count_null_sequences ts else 0),
                     repaired_projections = n,
                     max_sequence = max_default 0 (List.map_filter task_issue_sequence ts2),
                     tail_projection = tail_lineage ts2\<rparr>,
                    flush_tasks ts2 d))))"


section \<open>Allocation\<close>

definition allocate_next_sequence_locked :: "database \<Rightarrow> row_id \<Rightarrow> int" where
  "allocate_next_sequence_locked d issue =
     (case List.map_filter task_issue_sequence (issue_tasks d issue) of
        [] \<Rightarrow> 1 | q # qs \<Rightarrow> max_default 0 (q # qs) + 1)"

definition count_active_successors :: "database \<Rightarrow> row_id \<Rightarrow> row_id \<Rightarrow> nat" where
  "count_active_successors d issue k = (case get_task d k of None \<Rightarrow> 0 | Some t \<Rightarrow>
     (case task_issue_sequence t of None \<Rightarrow> 0 | Some q \<Rightarrow>
        length (filter (\<lambda>u. is_active u \<and> (case task_issue_sequence u of None \<Rightarrow> False | Some r \<Rightarrow> r > q))
                  (issue_tasks d issue))))"

text \<open>\<open>Inl\<close> is \<^verbatim>\<open>LineageConflict\<close> with the tail lineage it reports.\<close>

definition project_tail_lineage ::
  "projection option \<Rightarrow> string \<Rightarrow> string \<Rightarrow> string \<Rightarrow> (projection, projection) result" where
  "project_tail_lineage tail harness_key session_namespace session_mode =
     (let proj = (\<lambda>g r why. \<lparr>proj_harness_key = harness_key,
                    proj_session_namespace = session_namespace,
                    proj_generation = g, proj_reset_task_id = r, proj_reason = why\<rparr>);
          initial = proj (if session_mode = ''fresh'' then 1 else 0) None ''initial''
      in case tail of
           None \<Rightarrow> Inr initial
         | Some p \<Rightarrow>
             if proj_session_namespace p = LEGACY_NAMESPACE then Inr initial
             else if session_mode = ''fresh'' then Inr (proj (proj_generation p + 1) None ''fresh'')
             else if harness_key = proj_harness_key p \<and> session_namespace = proj_session_namespace p
             then Inr (proj (proj_generation p) (proj_reset_task_id p) ''inherited'')
             else Inl p)"


section \<open>What the passes change\<close>

text \<open>The columns the repair may write, cleared: two rows with equal remainders differ only there.\<close>

definition erase_projection :: "task \<Rightarrow> task" where
  "erase_projection t = t\<lparr>task_projected_harness_key := None,
     task_projected_session_namespace := None, task_projected_lineage_generation := None,
     task_projected_reset_task_id := None, task_lineage_projection_reason := None\<rparr>"

definition erase_order :: "task \<Rightarrow> task" where
  "erase_order t = (erase_projection t)\<lparr>task_issue_sequence := None\<rparr>"

lemma erase_projectionD:
  assumes "erase_projection t = erase_projection u"
  shows "task_issue_sequence t = task_issue_sequence u" "task_id t = task_id u"
    "task_issue_id t = task_issue_id u" "task_scheduled_at t = task_scheduled_at u"
    "task_status t = task_status u"
  using arg_cong [OF assms, of task_issue_sequence] arg_cong [OF assms, of task_id]
    arg_cong [OF assms, of task_issue_id] arg_cong [OF assms, of task_scheduled_at]
    arg_cong [OF assms, of task_status]
  by (simp_all add: erase_projection_def)

lemma erase_orderD:
  assumes "erase_order t = erase_order u"
  shows "task_id t = task_id u" "task_issue_id t = task_issue_id u"
    "task_created_at t = task_created_at u" "task_status t = task_status u"
  using arg_cong [OF assms, of task_id] arg_cong [OF assms, of task_issue_id]
    arg_cong [OF assms, of task_created_at] arg_cong [OF assms, of task_status]
  by (simp_all add: erase_order_def erase_projection_def)

lemma erase_projection_eqI:
  assumes "erase_order t = erase_order u" "task_issue_sequence t = task_issue_sequence u"
  shows "erase_projection t = erase_projection u"
proof -
  have "erase_projection v = (erase_order v)\<lparr>task_issue_sequence := task_issue_sequence v\<rparr>" for v
    by (simp add: erase_order_def erase_projection_def)
  then show ?thesis using assms by metis
qed

lemma erase_with_projection [simp]: "erase_projection (with_projection p t) = erase_projection t"
  by (simp add: erase_projection_def with_projection_def)

text \<open>Sequences that agree with their rank where they are set.\<close>

definition rank_consistent :: "int \<Rightarrow> task list \<Rightarrow> bool" where
  "rank_consistent rank ts \<longleftrightarrow> (\<forall>i<length ts. task_issue_sequence (ts ! i) \<noteq> None \<longrightarrow>
     task_issue_sequence (ts ! i) = Some (rank + int i))"

lemma rank_consistent_Nil [simp]: "rank_consistent rank []"
  by (simp add: rank_consistent_def)

lemma rank_consistent_Cons [simp]:
  "rank_consistent rank (t # ts) \<longleftrightarrow>
     (task_issue_sequence t \<noteq> None \<longrightarrow> task_issue_sequence t = Some rank)
     \<and> rank_consistent (rank + 1) ts"
  by (simp add: rank_consistent_def All_less_Suc2 add.assoc)

text \<open>The loop succeeds exactly on consistent ranks, and the repetition test never fires.\<close>

lemma check_sequences_iff:
  assumes "\<And>s. s \<in> set seen \<Longrightarrow> s < rank"
  shows "check_sequences issue rank seen ts =
    (if rank_consistent rank ts then Inr ()
     else Inl (IssueOrderIntegrityError issue ''sequence_mismatch''))"
  using assms
proof (induction issue rank seen ts rule: check_sequences.induct)
  case (2 issue rank seen t ts)
  have "rank \<notin> set seen" using "2.prems" by force
  moreover have "s < rank + 1" if "s \<in> set (q # seen)" "q = rank" for s q
    using that "2.prems" [of s] by auto
  ultimately show ?case using 2 by (auto split: option.split)
qed simp

lemma check_sequences_start:
  "check_sequences issue 1 [] ts =
    (if rank_consistent 1 ts then Inr ()
     else Inl (IssueOrderIntegrityError issue ''sequence_mismatch''))"
  by (rule check_sequences_iff) simp

lemma backfill_sequences_ranks:
  assumes "rank_consistent rank ts"
  shows "map task_issue_sequence (backfill_sequences rank ts)
         = map Some [rank..rank + int (length ts) - 1]"
  using assms
proof (induction rank ts rule: backfill_sequences.induct)
  case (2 rank t ts)
  have "[rank..rank + int (length (t # ts)) - 1]
        = rank # [rank + 1..rank + 1 + int (length ts) - 1]"
    by (simp add: upto.simps [of rank] add.assoc)
  then show ?case using 2 by (cases "task_issue_sequence t") auto
qed simp

lemma backfill_keeps_numbered:
  assumes "\<And>t. t \<in> set ts \<Longrightarrow> task_issue_sequence t \<noteq> None"
  shows "backfill_sequences rank ts = ts"
  using assms by (induction rank ts rule: backfill_sequences.induct) auto

lemma backfill_erase: "map erase_order (backfill_sequences rank ts) = map erase_order ts"
  by (induction rank ts rule: backfill_sequences.induct)
     (auto simp: erase_order_def erase_projection_def)


text \<open>A projection the code accepts as complete: a reset generation names its establishing task.\<close>

definition valid_projection :: "projection \<Rightarrow> bool" where
  "valid_projection p \<longleftrightarrow> proj_generation p \<le> 0 \<or> proj_reset_task_id p \<noteq> None"

definition valid_tail :: "projection option \<Rightarrow> bool" where
  "valid_tail tail = (case tail of None \<Rightarrow> True | Some p \<Rightarrow> valid_projection p)"

lemma has_full_with_projection [simp]:
  "has_full_projection (with_projection p t) \<longleftrightarrow> valid_projection p"
  by (auto simp: has_full_projection_def with_projection_def valid_projection_def)

lemma valid_task_projection: "valid_tail (task_projection t)"
  by (auto simp: task_projection_def has_full_projection_def valid_tail_def valid_projection_def
      split: if_splits)

lemma repaired_projection_valid:
  assumes "repaired_projection tail t key ns = Inr p" "valid_tail tail"
  shows "valid_projection p"
  using assms by (auto simp: repaired_projection_def valid_projection_def valid_tail_def Let_def
      split: option.splits if_splits)

lemma derived_identity_terminal: "\<not> is_active t \<Longrightarrow> derived_identity sha256 snaps t \<noteq> None"
  by (auto simp: derived_identity_def Let_def split: option.splits)

lemma repair_erase:
  "repair_lineage_projections sha256 snaps tail ts = Inr (ts', n)
     \<Longrightarrow> map erase_projection ts' = map erase_projection ts"
  by (induction sha256 snaps tail ts arbitrary: ts' n rule: repair_lineage_projections.induct)
     (fastforce simp: bind_result_eq_Inr split: if_splits option.splits prod.splits)+

lemma repair_completes:
  "repair_lineage_projections sha256 snaps tail ts = Inr (ts', n) \<Longrightarrow> valid_tail tail
     \<Longrightarrow> list_all has_full_projection ts'"
proof (induction sha256 snaps tail ts arbitrary: ts' n rule: repair_lineage_projections.induct)
  case (2 sha256 snaps tail t ts)
  show ?case
  proof (cases "has_full_projection t")
    case True
    with 2 show ?thesis
      by (fastforce simp: bind_result_eq_Inr valid_task_projection split: prod.splits)
  next
    case False
    from "2.prems"(1) False obtain key ns where key: "derived_identity sha256 snaps t = Some (key, ns)"
      using derived_identity_terminal [of t sha256 snaps]
      by (fastforce split: option.splits if_splits)
    with "2.prems"(1) False obtain p ts'' m where
      p: "repaired_projection tail t key ns = Inr p" and
      r: "repair_lineage_projections sha256 snaps (Some p) ts = Inr (ts'', m)" and
      ts': "ts' = with_projection p t # ts''"
      by (auto simp: bind_result_eq_Inr split: prod.splits)
    have "valid_projection p" using repaired_projection_valid [OF p "2.prems"(2)] .
    with 2(3) [OF False key refl r] ts' show ?thesis
      by (simp add: valid_tail_def)
  qed
qed simp

lemma repair_complete_id:
  "list_all has_full_projection ts \<Longrightarrow> repair_lineage_projections sha256 snaps tail ts = Inr (ts, 0)"
  by (induction sha256 snaps tail ts rule: repair_lineage_projections.induct) auto

lemma repair_terminal_succeeds:
  "list_all (\<lambda>t. \<not> is_active t) ts
     \<Longrightarrow> \<exists>ts' n. repair_lineage_projections sha256 snaps tail ts = Inr (ts', n)"
proof (induction sha256 snaps tail ts rule: repair_lineage_projections.induct)
  case (2 sha256 snaps tail t ts)
  have "\<exists>p. repaired_projection tail t key ns = Inr p" for key ns
    using "2.prems" by (auto simp: repaired_projection_def Let_def split: option.splits)
  with 2 show ?case
    by (fastforce simp: bind_result_eq_Inr split: option.splits prod.splits)
qed simp


section \<open>Writing the rows back\<close>

lemma map_write_back:
  assumes "map task_id rows = map task_id ts" "distinct (map task_id ts)"
  shows "map (write_back rows) ts = rows"
proof (rule nth_equalityI)
  show len: "length (map (write_back rows) ts) = length rows"
    using map_eq_imp_length_eq [OF assms(1)] by simp
  fix i assume "i < length (map (write_back rows) ts)"
  then have i: "i < length ts" "i < length rows" using len by simp_all
  have "task_id (ts ! i) = task_id (rows ! i)"
    using arg_cong [OF assms(1), of "\<lambda>l. l ! i"] i by simp
  moreover have "row_by task_id (task_id (rows ! i)) rows = Some (rows ! i)"
    using assms i by (intro row_by_unique) simp_all
  ultimately show "map (write_back rows) ts ! i = rows ! i"
    using i by (simp add: write_back_def)
qed

lemma ordered_tasks_facts:
  assumes "wf_db d"
  shows "set (ordered_tasks d issue) = set (issue_tasks d issue)"
    "distinct (map task_id (ordered_tasks d issue))"
    "length (ordered_tasks d issue) = length (issue_tasks d issue)"
proof -
  have "distinct (map task_id (issue_tasks d issue))"
    using wf_dbD(1) [OF assms] by (simp add: issue_tasks_def distinct_map_filter)
  then show "distinct (map task_id (ordered_tasks d issue))"
    by (simp add: ordered_tasks_def distinct_map)
qed (simp_all add: ordered_tasks_def)

lemma map_eq_same_keyD:
  assumes "map f rows = map f ts" "map g rows = map g ts" "r \<in> set rows"
  shows "\<exists>t\<in>set ts. f t = f r \<and> g t = g r"
proof -
  obtain i where i: "i < length rows" "rows ! i = r" using assms(3) by (auto simp: in_set_conv_nth)
  have "i < length ts" using i map_eq_imp_length_eq [OF assms(1)] by simp
  moreover have "f (ts ! i) = f r" "g (ts ! i) = g r"
    using arg_cong [OF assms(1), of "\<lambda>l. l ! i"] arg_cong [OF assms(2), of "\<lambda>l. l ! i"]
      i calculation by simp_all
  ultimately show ?thesis by (auto intro: bexI [of _ "ts ! i"])
qed

text \<open>
  The rows the repair computed for an issue, against the database they were read from: the same
  tasks in the same order, with only order columns changed.
\<close>

definition repairs :: "task list \<Rightarrow> database \<Rightarrow> row_id \<Rightarrow> bool" where
  "repairs rows d issue \<longleftrightarrow> wf_db d \<and> map erase_order rows = map erase_order (ordered_tasks d issue)"

lemma repairs_ids:
  assumes "repairs rows d issue"
  shows "map task_id rows = map task_id (ordered_tasks d issue)"
  using arg_cong [of _ _ "map task_id", OF conjunct2 [OF assms [unfolded repairs_def]]]
  by (simp add: comp_def erase_order_def erase_projection_def)

lemma write_back_row:
  assumes rep: "repairs rows d issue" and t: "t \<in> set (tasks d)"
  shows "erase_order (write_back rows t) = erase_order t"
    and "task_issue_id t \<noteq> issue \<Longrightarrow> write_back rows t = t"
proof -
  have wf: "wf_db d" and same: "map erase_order rows = map erase_order (ordered_tasks d issue)"
    using rep by (simp_all add: repairs_def)
  have "erase_order u = erase_order t \<and> task_issue_id t = issue"
    if u: "u \<in> set rows" "task_id u = task_id t" for u
  proof -
    obtain v where v: "v \<in> set (ordered_tasks d issue)" "erase_order v = erase_order u" "task_id v = task_id u"
      using map_eq_same_keyD [OF same repairs_ids [OF rep] u(1)] by auto
    then have "v = t"
      using same_task [OF wf _ t] u(2) ordered_tasks_facts(1) [OF wf] by auto
    with v show ?thesis using ordered_tasks_facts(1) [OF wf] by auto
  qed
  then show "erase_order (write_back rows t) = erase_order t"
    and "task_issue_id t \<noteq> issue \<Longrightarrow> write_back rows t = t"
    by (auto simp: write_back_def dest!: row_by_SomeD split: option.split)
qed

lemmas write_back_keys = erase_orderD [OF write_back_row(1)]

lemma flush_frames [frame_simps]:
  "issues (flush_tasks rows d) = issues d" "locks (flush_tasks rows d) = locks d"
  "lineages (flush_tasks rows d) = lineages d" "snapshots (flush_tasks rows d) = snapshots d"
  "bundles (flush_tasks rows d) = bundles d" "readiness (flush_tasks rows d) = readiness d"
  "attempts (flush_tasks rows d) = attempts d"
  by (simp_all add: flush_tasks_def)

lemma flush_erase:
  assumes "repairs rows d issue"
  shows "map erase_order (tasks (flush_tasks rows d)) = map erase_order (tasks d)"
  using write_back_row(1) [OF assms] by (simp add: flush_tasks_def)

lemma filter_map_key:
  assumes "\<And>x. x \<in> set xs \<Longrightarrow> p (g x) \<longleftrightarrow> p x"
  shows "filter p (map g xs) = map g (filter p xs)"
  using assms by (induction xs) auto

lemma flush_issue_tasks:
  assumes "repairs rows d issue"
  shows "issue_tasks (flush_tasks rows d) i = map (write_back rows) (issue_tasks d i)"
  using write_back_keys(2) [OF assms]
  by (auto simp: issue_tasks_def flush_tasks_def intro: filter_map_key)

lemma flush_other:
  assumes "repairs rows d issue" "other \<noteq> issue"
  shows "issue_tasks (flush_tasks rows d) other = issue_tasks d other"
  using write_back_row(2) [OF assms(1)] assms(2)
  by (auto simp: flush_issue_tasks [OF assms(1)] intro!: map_idI)

lemma flush_ordered:
  assumes "repairs rows d issue"
  shows "ordered_tasks (flush_tasks rows d) issue = rows"
proof -
  have "ordered_tasks (flush_tasks rows d) issue = map (write_back rows) (ordered_tasks d issue)"
    unfolding ordered_tasks_def flush_issue_tasks [OF assms]
    by (rule sort_key_map) (simp add: write_back_keys [OF assms])
  also have "\<dots> = rows"
    using repairs_ids [OF assms] ordered_tasks_facts(2) assms by (auto simp: repairs_def intro: map_write_back)
  finally show ?thesis .
qed

lemma flush_id:
  assumes "wf_db d" "set rows \<subseteq> set (tasks d)"
  shows "flush_tasks rows d = d"
proof -
  have "write_back rows t = t" if "t \<in> set (tasks d)" for t
    using that assms(2) same_task [OF assms(1)]
    by (auto simp: write_back_def dest!: row_by_SomeD split: option.split)
  then show ?thesis by (simp add: flush_tasks_def map_idI)
qed


section \<open>The repair as a whole\<close>

lemma erase_projection_lists:
  assumes "map erase_projection xs = map erase_projection ys"
  shows "map erase_order xs = map erase_order ys"
    "map task_issue_sequence xs = map task_issue_sequence ys"
proof -
  have "erase_order = task_issue_sequence_update (\<lambda>_. None) \<circ> erase_projection"
    "task_issue_sequence = task_issue_sequence \<circ> erase_projection"
    by (auto simp: erase_order_def erase_projection_def)
  then show "map erase_order xs = map erase_order ys"
    "map task_issue_sequence xs = map task_issue_sequence ys"
    using assms by (metis map_map)+
qed

text \<open>A successful run, with the rows it writes.\<close>

lemma ensure_InrE:
  assumes run: "ensure_issue_order_integrity_locked sha256 d issue repair_nulls = Inr (report, d')"
    and wf: "wf_db d"
  obtains rows where "repairs rows d issue" "d' = flush_tasks rows d"
    "rank_consistent 1 (ordered_tasks d issue)" "list_all has_full_projection rows"
    "map task_issue_sequence rows = map task_issue_sequence
       (if repair_nulls then backfill_sequences 1 (ordered_tasks d issue) else ordered_tasks d issue)"
    "max_sequence report = max_default 0 (List.map_filter task_issue_sequence rows)"
    "tail_projection report = tail_lineage rows"
proof (cases "ordered_tasks d issue = []")
  case True
  have "flush_tasks [] d = d" by (rule flush_id [OF wf]) simp
  then show ?thesis using run wf True
    by (intro that [of "[]"])
       (auto simp: repairs_def ensure_issue_order_integrity_locked_def max_default_def
        map_filter_def tail_lineage_def max_by_def)
next
  case False
  let ?ts1 = "if repair_nulls then backfill_sequences 1 (ordered_tasks d issue) else ordered_tasks d issue"
  from run False obtain rows n where
    r: "repair_lineage_projections sha256 (snapshots d) None ?ts1 = Inr (rows, n)" and
    facts: "d' = flush_tasks rows d" "rank_consistent 1 (ordered_tasks d issue)"
    "max_sequence report = max_default 0 (List.map_filter task_issue_sequence rows)"
    "tail_projection report = tail_lineage rows"
    by (auto simp: ensure_issue_order_integrity_locked_def Let_def bind_result_eq_Inr
        check_sequences_start split: sum.splits prod.splits if_splits)
  have "map erase_order rows = map erase_order ?ts1"
    by (rule erase_projection_lists(1) [OF repair_erase [OF r]])
  then have "repairs rows d issue" using wf by (simp add: repairs_def backfill_erase)
  moreover have "list_all has_full_projection rows"
    by (rule repair_completes [OF r]) (simp add: valid_tail_def)
  moreover note erase_projection_lists(2) [OF repair_erase [OF r]]
  ultimately show ?thesis using facts that by blast
qed

lemma rank_consistent_cong:
  assumes "map task_issue_sequence xs = map task_issue_sequence ys"
  shows "rank_consistent r xs \<longleftrightarrow> rank_consistent r ys"
proof -
  have "length xs = length ys" using assms by (rule map_eq_imp_length_eq)
  moreover have "task_issue_sequence (xs ! i) = task_issue_sequence (ys ! i)"
    if "i < length ys" for i
    using arg_cong [OF assms, of "\<lambda>l. l ! i"] that calculation by simp
  ultimately show ?thesis by (simp add: rank_consistent_def cong: conj_cong)
qed

lemma rank_consistent_ranks:
  assumes "map task_issue_sequence ts = map Some [r..r + int (length ts) - 1]"
  shows "rank_consistent r ts"
proof -
  have "task_issue_sequence (ts ! i) = Some (r + int i)" if "i < length ts" for i
    using arg_cong [OF assms, of "\<lambda>l. l ! i"] that by simp
  then show ?thesis by (simp add: rank_consistent_def)
qed

lemma length_backfill [simp]: "length (backfill_sequences rank ts) = length ts"
  by (induction rank ts rule: backfill_sequences.induct) auto

lemma rank_consistent_backfill:
  assumes "rank_consistent rank ts"
  shows "rank_consistent rank (backfill_sequences rank ts)"
  using backfill_sequences_ranks [OF assms] by (intro rank_consistent_ranks) simp

lemma rank_consistent_unique:
  assumes "rank_consistent rank rows" "t \<in> set rows" "u \<in> set rows"
    "task_issue_sequence t \<noteq> None" "task_issue_sequence t = task_issue_sequence u"
  shows "t = u"
proof -
  obtain i j where ij: "i < length rows" "rows ! i = t" "j < length rows" "rows ! j = u"
    using assms(2,3) by (auto simp: in_set_conv_nth)
  have "task_issue_sequence (rows ! k) = Some (rank + int k)"
    if "k < length rows" "task_issue_sequence (rows ! k) \<noteq> None" for k
    using assms(1) that unfolding rank_consistent_def by blast
  then have "Some (rank + int i) = Some (rank + int j)" using ij assms(4,5) by metis
  then show ?thesis using ij by simp
qed

lemma flush_wf:
  assumes rep: "repairs rows d issue" and ranks: "rank_consistent 1 rows"
  shows "wf_db (flush_tasks rows d)"
proof -
  let ?d = "flush_tasks rows d"
  have wf: "wf_db d" using rep by (simp add: repairs_def)
  have "map task_id (tasks ?d) = map task_id (tasks d)"
    using arg_cong [OF flush_erase [OF rep], of "map task_id"]
    by (simp add: comp_def erase_order_def erase_projection_def)
  moreover have set_rows: "set rows = set (issue_tasks ?d issue)"
    using arg_cong [OF flush_ordered [OF rep], of set] by (simp only: ordered_tasks_def set_sort)
  moreover have "unique_sequences (tasks ?d)"
  proof (unfold unique_sequences_def, intro ballI impI)
    fix t u assume tu: "t \<in> set (tasks ?d)" "u \<in> set (tasks ?d)"
      and eq: "task_issue_id t = task_issue_id u \<and> task_issue_sequence t \<noteq> None
        \<and> task_issue_sequence t = task_issue_sequence u"
    then have in_issue: "t \<in> set (issue_tasks ?d (task_issue_id u))" "u \<in> set (issue_tasks ?d (task_issue_id u))"
      by auto
    show "task_id t = task_id u"
    proof (cases "task_issue_id u = issue")
      case True
      then have "t \<in> set rows" "u \<in> set rows"
        using in_issue by (simp_all only: set_rows)
      then show ?thesis using rank_consistent_unique [OF ranks] eq by blast
    next
      case False
      then show ?thesis
        using in_issue wf_dbD(6) [OF wf] eq by (auto simp: flush_other [OF rep] unique_sequences_def)
    qed
  qed
  ultimately show ?thesis using wf by (simp add: wf_db_def flush_frames)
qed


text \<open>A number that was set is written back unchanged.\<close>

lemma backfill_keeps:
  assumes "i < length ts" "task_issue_sequence (ts ! i) = Some q"
  shows "task_issue_sequence (backfill_sequences rank ts ! i) = Some q"
  using assms
  by (induction rank ts arbitrary: i rule: backfill_sequences.induct) (auto simp: nth_Cons split: nat.splits)

lemma write_back_sequence:
  assumes rep: "repairs rows d issue"
    and seqs: "map task_issue_sequence rows = map task_issue_sequence
       (if repair_nulls then backfill_sequences 1 (ordered_tasks d issue) else ordered_tasks d issue)"
    and t: "t \<in> set (tasks d)" "task_issue_sequence t = Some q"
  shows "task_issue_sequence (write_back rows t) = Some q"
proof (cases "task_issue_id t = issue")
  case True
  have wf: "wf_db d" using rep by (simp add: repairs_def)
  have "t \<in> set (ordered_tasks d issue)" using True t by (simp add: ordered_tasks_facts(1) [OF wf])
  then obtain i where i: "i < length (ordered_tasks d issue)" "ordered_tasks d issue ! i = t"
    by (auto simp: in_set_conv_nth)
  have len: "length rows = length (ordered_tasks d issue)"
    using map_eq_imp_length_eq [OF repairs_ids [OF rep]] .
  have "write_back rows t = rows ! i"
    using arg_cong [OF map_write_back [OF repairs_ids [OF rep] ordered_tasks_facts(2) [OF wf]],
        of "\<lambda>l. l ! i"] i by simp
  moreover have "task_issue_sequence (rows ! i) = Some q"
    using arg_cong [OF seqs, of "\<lambda>l. l ! i"] i len t(2)
      backfill_keeps [of i "ordered_tasks d issue" q 1] by (simp split: if_splits)
  ultimately show ?thesis by simp
qed (use write_back_row(2) [OF rep t(1)] t(2) in simp)


text \<open>Without number repair, a run changes projection columns only, and leaves no active null.\<close>

lemma ensure_without_repair:
  assumes run: "ensure_issue_order_integrity_locked sha256 d issue False = Inr (report, d')"
    and wf: "wf_db d"
  shows "map erase_projection (tasks d') = map erase_projection (tasks d)" "wf_db d'"
    and "t \<in> set (issue_tasks d issue) \<Longrightarrow> is_active t \<Longrightarrow> task_issue_sequence t \<noteq> None"
proof -
  obtain rows where rows: "repairs rows d issue" "d' = flush_tasks rows d"
    "rank_consistent 1 (ordered_tasks d issue)"
    "map task_issue_sequence rows = map task_issue_sequence (ordered_tasks d issue)"
    using ensure_InrE [OF run wf] by auto
  show "wf_db d'"
    using flush_wf [OF rows(1)] rows(2,3) rank_consistent_cong [OF rows(4)] by simp
  have "map task_issue_sequence (map (write_back rows) (ordered_tasks d issue))
        = map task_issue_sequence (ordered_tasks d issue)"
    using map_write_back [OF repairs_ids [OF rows(1)] ordered_tasks_facts(2) [OF wf]] rows(4) by simp
  then have in_issue: "task_issue_sequence (write_back rows t) = task_issue_sequence t"
    if "t \<in> set (tasks d)" "task_issue_id t = issue" for t
    using that ordered_tasks_facts(1) [OF wf, of issue] by simp
  have "erase_projection (write_back rows t) = erase_projection t" if t: "t \<in> set (tasks d)" for t
    using in_issue [OF t] write_back_row [OF rows(1) t]
    by (cases "task_issue_id t = issue") (auto intro: erase_projection_eqI)
  then show "map erase_projection (tasks d') = map erase_projection (tasks d)"
    using rows(2) by (simp add: flush_tasks_def)
  assume "t \<in> set (issue_tasks d issue)" "is_active t"
  then have "t \<in> set (ordered_tasks d issue)" "is_active t"
    by (simp_all only: ordered_tasks_facts(1) [OF wf])
  moreover from this have "ordered_tasks d issue \<noteq> []" by auto
  ultimately show "task_issue_sequence t \<noteq> None"
    using run by (auto simp: ensure_issue_order_integrity_locked_def Let_def bind_result_eq_Inr list_ex_iff)
qed

lemma repair_reasons:
  "repair_lineage_projections sha256 snaps tail ts = Inl r
     \<Longrightarrow> r = ''active_task_missing_snapshot'' \<or> r = ''continue_namespace_change''"
  by (induction sha256 snaps tail ts rule: repair_lineage_projections.induct)
     (auto simp: bind_result_eq_Inl repaired_projection_def Let_def split: if_splits option.splits prod.splits)

lemma backfill_active:
  "list_all (\<lambda>t. \<not> is_active t) (backfill_sequences rank ts) \<longleftrightarrow> list_all (\<lambda>t. \<not> is_active t) ts"
  by (induction rank ts rule: backfill_sequences.induct) (auto simp: is_active_def)


lemma map_filter_Some: "map f xs = map Some ys \<Longrightarrow> List.map_filter f xs = ys"
  by (induction xs arbitrary: ys) (auto simp: map_filter_def Cons_eq_map_conv)

lemma max_default_upto: "max_default 0 [1..int n] = int n"
proof (cases n)
  case (Suc m)
  have "Max {1..1 + int m} = 1 + int m" by (rule Max_eqI) auto
  with Suc show ?thesis by (simp add: max_default_Max del: upto_Nil2)
qed (simp add: max_default_def)

lemma set_map_filter: "set (List.map_filter f xs) = {y. \<exists>x\<in>set xs. f x = Some y}"
  by (auto simp: map_filter_def image_iff) force+

lemma allocate_above:
  assumes "t \<in> set (issue_tasks d issue)" "task_issue_sequence t = Some p"
  shows "p < allocate_next_sequence_locked d issue"
proof -
  have "p \<in> set (List.map_filter task_issue_sequence (issue_tasks d issue))"
    using assms by (auto simp: set_map_filter)
  then show ?thesis
    using max_default_ge [of p "List.map_filter task_issue_sequence (issue_tasks d issue)" 0]
    by (cases "List.map_filter task_issue_sequence (issue_tasks d issue)")
       (auto simp: allocate_next_sequence_locked_def)
qed

lemma allocate_after_ranks:
  assumes wf: "wf_db d" and ranks: "map task_issue_sequence (ordered_tasks d issue) = map Some [1..int n]"
  shows "allocate_next_sequence_locked d issue = int n + 1"
proof -
  let ?qs = "List.map_filter task_issue_sequence (issue_tasks d issue)"
  have "set ?qs = set (List.map_filter task_issue_sequence (ordered_tasks d issue))"
    by (simp add: set_map_filter ordered_tasks_facts(1) [OF wf] del: in_issue_tasks)
  then have qs: "set ?qs = {1..int n}" by (simp add: map_filter_Some [OF ranks])
  show ?thesis
  proof (cases ?qs)
    case Nil
    then show ?thesis using qs by (simp add: allocate_next_sequence_locked_def)
  next
    case (Cons q l)
    then have "max_default 0 ?qs = Max {1..int n}" using max_default_Max [of ?qs 0] qs by simp
    also have "q \<in> {1..int n}" using Cons qs by auto
    then have "Max {1..int n} = int n" by (intro Max_eqI) auto
    finally show ?thesis using Cons by (simp add: allocate_next_sequence_locked_def)
  qed
qed


lemma ensure_ranks:
  assumes "ensure_issue_order_integrity_locked sha256 d issue True = Inr (report, d')" "wf_db d"
  shows "map task_issue_sequence (ordered_tasks d' issue) = map Some [1..int (length (issue_tasks d issue))]"
proof -
  obtain rows where rows: "repairs rows d issue" "d' = flush_tasks rows d"
    "rank_consistent 1 (ordered_tasks d issue)"
    "map task_issue_sequence rows = map task_issue_sequence (backfill_sequences 1 (ordered_tasks d issue))"
    using ensure_InrE [OF assms] by auto
  then show ?thesis
    using backfill_sequences_ranks [OF rows(3)] ordered_tasks_facts(3) [OF assms(2)] by (simp add: flush_ordered)
qed

section \<open>Properties of the turn order\<close>

lemma repaired_ranks:
  assumes "ensure_issue_order_integrity_locked sha256 d issue True = Inr (report, d')" "wf_db d"
  shows "map task_issue_sequence (ordered_tasks d' issue)
           = map Some [1..int (length (issue_tasks d issue))]
         \<and> max_sequence report = int (length (issue_tasks d issue))
         \<and> list_all has_full_projection (ordered_tasks d' issue) \<and> wf_db d'"
proof -
  obtain rows where rows: "repairs rows d issue" "d' = flush_tasks rows d"
    "rank_consistent 1 (ordered_tasks d issue)" "list_all has_full_projection rows"
    "map task_issue_sequence rows = map task_issue_sequence (backfill_sequences 1 (ordered_tasks d issue))"
    "max_sequence report = max_default 0 (List.map_filter task_issue_sequence rows)"
    using ensure_InrE [OF assms] by auto
  have ranks: "map task_issue_sequence rows = map Some [1..int (length (issue_tasks d issue))]"
    using ensure_ranks [OF assms] rows(1,2) by (simp add: flush_ordered)
  have "wf_db d'"
    using flush_wf [OF rows(1)] rank_consistent_backfill [OF rows(3)]
      rank_consistent_cong [OF rows(5)] rows(2) by simp
  then show ?thesis
    using ranks rows(1,2,4,6) map_filter_Some [OF ranks] max_default_upto by (simp add: flush_ordered)
qed

text \<open>
  C35. A repair run that succeeds leaves the tasks of the issue, in creation order, numbered
  1, 2, ..., n without gap or repetition, each with a complete lineage projection; it reports n as
  the maximum, and the schema constraints still hold.
\<close>

theorem repaired_turns_are_ranks:
  assumes "ensure_issue_order_integrity_locked sha256 d issue True = Inr (report, d')" "wf_db d"
  shows "map task_issue_sequence (ordered_tasks d' issue)
           = map Some [1..int (length (issue_tasks d issue))]
         \<and> max_sequence report = int (length (issue_tasks d issue))
         \<and> list_all has_full_projection (ordered_tasks d' issue) \<and> wf_db d'"
  by (rule repaired_ranks [OF assms])

text \<open>
  Turn numbers are immutable: a successful run, repairing or not, never changes a turn number
  that was already set, changes nothing but the order columns of the issue's own tasks, and leaves
  the tasks of every other issue and every other table as they were.
\<close>

theorem repair_keeps_existing_turns:
  assumes "ensure_issue_order_integrity_locked sha256 d issue repair_nulls = Inr (report, d')" "wf_db d"
  shows "map erase_order (tasks d') = map erase_order (tasks d)
         \<and> (\<forall>other. other \<noteq> issue \<longrightarrow> issue_tasks d' other = issue_tasks d other)
         \<and> (\<forall>k t q. get_task d k = Some t \<and> task_issue_sequence t = Some q \<longrightarrow>
              (\<exists>t'. get_task d' k = Some t' \<and> task_issue_sequence t' = Some q))
         \<and> d' = d\<lparr>tasks := tasks d'\<rparr>"
proof -
  obtain rows where rows: "repairs rows d issue" "d' = flush_tasks rows d"
    "rank_consistent 1 (ordered_tasks d issue)"
    "map task_issue_sequence rows = map task_issue_sequence
       (if repair_nulls then backfill_sequences 1 (ordered_tasks d issue) else ordered_tasks d issue)"
    using ensure_InrE [OF assms] by metis
  have wf': "wf_db d'"
    using flush_wf [OF rows(1)] rank_consistent_backfill [OF rows(3)] rows(3)
      rank_consistent_cong [OF rows(4)] rows(2) by (simp split: if_splits)
  have "\<exists>t'. get_task d' k = Some t' \<and> task_issue_sequence t' = Some q"
    if "get_task d k = Some t" "task_issue_sequence t = Some q" for k t q
  proof -
    have t: "t \<in> set (tasks d)" "task_id t = k" using get_taskD [OF that(1)] by simp_all
    have "write_back rows t \<in> set (tasks d')" using t rows(2) by (simp add: flush_tasks_def)
    then have "get_task d' k = Some (write_back rows t)"
      using t write_back_keys(1) [OF rows(1) t(1)] by (simp add: get_task_iff [OF wf'])
    then show ?thesis using write_back_sequence [OF rows(1,4) t(1)] that(2) by simp
  qed
  then show ?thesis
    using flush_erase [OF rows(1)] flush_other [OF rows(1)] rows(2)
    by (auto simp: flush_tasks_def)
qed


lemma repair_again:
  assumes "ensure_issue_order_integrity_locked sha256 d issue True = Inr (report, d')" "wf_db d"
  shows "ensure_issue_order_integrity_locked sha256 d' issue again
         = Inr (report\<lparr>repaired_sequences := 0, repaired_projections := 0\<rparr>, d')"
proof -
  obtain rows where rows: "repairs rows d issue" "d' = flush_tasks rows d"
    "rank_consistent 1 (ordered_tasks d issue)" "list_all has_full_projection rows"
    "map task_issue_sequence rows = map task_issue_sequence (backfill_sequences 1 (ordered_tasks d issue))"
    "max_sequence report = max_default 0 (List.map_filter task_issue_sequence rows)"
    "tail_projection report = tail_lineage rows"
    using ensure_InrE [OF assms] by auto
  note [simp] = flush_ordered [OF rows(1), folded rows(2)]
  have "map task_issue_sequence rows = map Some [1..int (length rows)]"
    using rows(5) backfill_sequences_ranks [OF rows(3)] map_eq_imp_length_eq [OF rows(5)] by simp
  then have numbered: "task_issue_sequence t \<noteq> None" if "t \<in> set rows" for t
    using that by (metis (no_types, lifting) ex_map_conv image_eqI list.set_map not_None_eq)
  have consistent: "rank_consistent 1 rows"
    using rank_consistent_backfill [OF rows(3)] rank_consistent_cong [OF rows(5)] by simp
  then have wf': "wf_db d'" using flush_wf [OF rows(1)] rows(2) by simp
  have "set rows \<subseteq> set (tasks d')"
    using ordered_tasks_facts(1) [OF wf', of issue] by auto
  then have "flush_tasks rows d' = d'" by (rule flush_id [OF wf'])
  moreover have "backfill_sequences 1 rows = rows"
    by (rule backfill_keeps_numbered) (rule numbered)
  moreover have "count_null_sequences rows = 0" "\<not> list_ex (\<lambda>t. task_issue_sequence t = None \<and> is_active t) rows"
    using numbered by (auto simp: count_null_sequences_def list_ex_iff)
  moreover have "repair_lineage_projections sha256 (snapshots d') None rows = Inr (rows, 0)"
    by (rule repair_complete_id [OF rows(4)])
  ultimately show ?thesis
    using consistent rows(6,7)
    by (auto simp: ensure_issue_order_integrity_locked_def Let_def check_sequences_start
        max_default_def map_filter_def tail_lineage_def max_by_def)
qed

text \<open>
  The repair is idempotent: after a successful repair, another run with or without repair
  succeeds, changes nothing, repairs nothing, and reports the same maximum and tail lineage.
\<close>

theorem repair_is_idempotent:
  assumes "ensure_issue_order_integrity_locked sha256 d issue True = Inr (report, d')" "wf_db d"
  shows "ensure_issue_order_integrity_locked sha256 d' issue again
         = Inr (report\<lparr>repaired_sequences := 0, repaired_projections := 0\<rparr>, d')"
  by (rule repair_again [OF assms])


text \<open>
  Fail closed, and only for a reason: a run raises \<open>sequence_mismatch\<close> exactly when some turn
  number disagrees with its creation rank (so the repetition test behind it can never fire); when
  the numbers agree, the repairing run of an issue whose tasks are all terminal always succeeds,
  and the remaining reasons are the two lineage reasons, which need an active task.
\<close>

theorem repair_fails_closed:
  "{e. ensure_issue_order_integrity_locked sha256 d issue True = Inl e} \<subseteq>
     IssueOrderIntegrityError issue `
       {''sequence_mismatch'', ''active_task_missing_snapshot'', ''continue_namespace_change''}
   \<and> (ensure_issue_order_integrity_locked sha256 d issue True
        = Inl (IssueOrderIntegrityError issue ''sequence_mismatch''))
      = (\<not> rank_consistent 1 (ordered_tasks d issue))
   \<and> (rank_consistent 1 (ordered_tasks d issue) \<and> list_all is_terminal (ordered_tasks d issue)
      \<longrightarrow> (\<exists>x. ensure_issue_order_integrity_locked sha256 d issue True = Inr x))"
proof -
  let ?ts = "ordered_tasks d issue"
  let ?repair = "repair_lineage_projections sha256 (snapshots d) None (backfill_sequences 1 ?ts)"
  have run: "ensure_issue_order_integrity_locked sha256 d issue True = Inl e
      \<longleftrightarrow> (if rank_consistent 1 ?ts then (\<exists>r. e = IssueOrderIntegrityError issue r \<and> ?repair = Inl r)
           else e = IssueOrderIntegrityError issue ''sequence_mismatch'')" for e
    by (cases "?ts = []")
       (auto simp: ensure_issue_order_integrity_locked_def Let_def check_sequences_start split: sum.splits)
  have reasons: "r = ''active_task_missing_snapshot'' \<or> r = ''continue_namespace_change''"
    if "?repair = Inl r" for r using repair_reasons [OF that] .
  have "\<exists>x. ensure_issue_order_integrity_locked sha256 d issue True = Inr x"
    if "rank_consistent 1 ?ts" "list_all is_terminal ?ts"
  proof -
    have "list_all (\<lambda>t. \<not> is_active t) (backfill_sequences 1 ?ts)"
      unfolding backfill_active using that(2) by (simp add: list_all_iff)
    then obtain x where "?repair = Inr x" using repair_terminal_succeeds by blast
    then show ?thesis
      using run that(1) by (cases "ensure_issue_order_integrity_locked sha256 d issue True") auto
  qed
  then show ?thesis unfolding run using reasons by (auto 0 3)
qed


text \<open>
  Appending keeps the order: in an issue whose turns are the ranks 1, ..., n, the next number
  allocated is n + 1, and inserting a task that carries it and is later than the others in
  creation order gives an issue whose turns are the ranks 1, ..., n + 1, with the schema
  constraints intact.
\<close>

theorem append_extends_the_ranks:
  assumes wf: "wf_db d" and ranks: "map task_issue_sequence (ordered_tasks d issue) = map Some [1..int n]"
    and u: "task_issue_id u = issue" "task_issue_sequence u = Some (allocate_next_sequence_locked d issue)"
      "task_id u \<notin> task_id ` set (tasks d)"
    and later: "list_all (\<lambda>t. (task_created_at t, task_id t) < (task_created_at u, task_id u)) (issue_tasks d issue)"
  shows "map task_issue_sequence (ordered_tasks (d\<lparr>tasks := tasks d @ [u]\<rparr>) issue)
           = map Some [1..int n + 1]
         \<and> wf_db (d\<lparr>tasks := tasks d @ [u]\<rparr>)"
proof -
  let ?d = "d\<lparr>tasks := tasks d @ [u]\<rparr>" and ?k = "\<lambda>t. (task_created_at t, task_id t)"
  have alloc: "allocate_next_sequence_locked d issue = int n + 1"
    by (rule allocate_after_ranks [OF wf ranks])
  have "ordered_tasks ?d issue = ordered_tasks d issue @ [u]"
  proof -
    have "issue_tasks ?d issue = issue_tasks d issue @ [u]" using u(1) by (simp add: issue_tasks_def)
    moreover have "sort_key ?k (issue_tasks d issue @ [u]) = sort_key ?k (issue_tasks d issue) @ [u]"
      by (rule sort_key_snoc_last) (use later in \<open>unfold list_all_iff, blast\<close>)
    ultimately show ?thesis by (simp only: ordered_tasks_def)
  qed
  then have new: "map task_issue_sequence (ordered_tasks ?d issue) = map Some [1..int n + 1]"
    using ranks u(2) alloc upto_rec2 [of 1 "int n + 1"] by simp
  have "task_issue_sequence t \<noteq> task_issue_sequence u" if "t \<in> set (tasks d)" "task_issue_id t = issue" for t
  proof -
    have "task_issue_sequence ` set (issue_tasks d issue) = Some ` {1..int n}"
      using arg_cong [OF ranks, of set] by (simp only: set_map ordered_tasks_facts(1) [OF wf] set_upto)
    then have "task_issue_sequence t \<in> Some ` {1..int n}"
      using that by (metis imageI in_issue_tasks)
    then show ?thesis using u(2) alloc by auto
  qed
  then have "unique_sequences (tasks d @ [u])"
    using wf_dbD(6) [OF wf] u(1) by (auto simp: unique_sequences_def) metis+
  then show ?thesis using new wf u(3) by (auto simp: wf_db_def)
qed

text \<open>
  The lineage given to a new tail task is the one the repair would derive for it from the same
  tail, apart from the task's own id, which is not known before the insert: a fresh task opens the
  next generation, a continuing task of the same harness and namespace inherits the tail's
  lineage, and a continuing task that crosses the namespace is refused by both. Only a legacy tail
  differs, where the new task starts a lineage of its own.
\<close>

theorem new_tail_lineage_agrees_with_repair:
  assumes "is_active t" "\<And>p. tail = Some p \<Longrightarrow> proj_session_namespace p \<noteq> LEGACY_NAMESPACE"
  shows "project_tail_lineage tail key ns (task_session_mode t) =
    (case repaired_projection tail t key ns of
       Inl _ \<Rightarrow> Inl (the tail)
     | Inr p \<Rightarrow> Inr (if proj_reason p = ''inherited'' then p else p\<lparr>proj_reset_task_id := None\<rparr>))"
  using assms
  by (auto simp: project_tail_lineage_def repaired_projection_def Let_def split: option.splits)



section \<open>Concrete runs\<close>

text \<open>An issue with two finished tasks from before turn numbers were recorded.\<close>

definition legacy_db :: database where
  "legacy_db = sample_db [sample_task 1 7 COMPLETED None, sample_task 2 7 FAILED None] []"

lemma legacy_db_wf: "wf_db legacy_db"
  by (simp add: legacy_db_def wf_db_def unique_sequences_def sample_defs)

lemma legacy_db_repairable:
  "\<exists>report d'. ensure_issue_order_integrity_locked (\<lambda>s. s) legacy_db 7 True = Inr (report, d')"
proof -
  have "\<not> isl (ensure_issue_order_integrity_locked (\<lambda>s. s) legacy_db 7 True)" by code_simp
  then show ?thesis
    by (cases "ensure_issue_order_integrity_locked (\<lambda>s. s) legacy_db 7 True") auto
qed

theorem repaired_turns_are_ranks_witness:
  "\<exists>report d'. ensure_issue_order_integrity_locked (\<lambda>s. s) legacy_db 7 True = Inr (report, d')
     \<and> map task_issue_sequence (ordered_tasks d' 7) = [Some 1, Some 2] \<and> max_sequence report = 2"
proof -
  obtain report d' where run: "ensure_issue_order_integrity_locked (\<lambda>s. s) legacy_db 7 True = Inr (report, d')"
    using legacy_db_repairable by blast
  have "length (issue_tasks legacy_db 7) = 2" by code_simp
  moreover have "[1..2::int] = [1, 2]" by (simp add: upto.simps)
  ultimately show ?thesis
    using run repaired_turns_are_ranks [OF run legacy_db_wf] by auto
qed

theorem repair_keeps_existing_turns_witness:
  "\<exists>report d'. ensure_issue_order_integrity_locked (\<lambda>s. s) legacy_db 7 True = Inr (report, d')
     \<and> map erase_order (tasks d') = map erase_order (tasks legacy_db)"
  using legacy_db_repairable repair_keeps_existing_turns [OF _ legacy_db_wf] by blast

theorem repair_is_idempotent_witness:
  "\<exists>report d'. ensure_issue_order_integrity_locked (\<lambda>s. s) legacy_db 7 True = Inr (report, d')
     \<and> ensure_issue_order_integrity_locked (\<lambda>s. s) d' 7 False
         = Inr (report\<lparr>repaired_sequences := 0, repaired_projections := 0\<rparr>, d')"
  using legacy_db_repairable repair_is_idempotent [OF _ legacy_db_wf] by blast

theorem repair_fails_closed_witness:
  "\<exists>x. ensure_issue_order_integrity_locked (\<lambda>s. s) legacy_db 7 True = Inr x"
proof -
  have "rank_consistent 1 (ordered_tasks legacy_db 7)"
    "list_all is_terminal (ordered_tasks legacy_db 7)"
    by code_simp+
  then show ?thesis using repair_fails_closed [of "\<lambda>s. s" legacy_db 7] by blast
qed

theorem append_extends_the_ranks_witness:
  "map task_issue_sequence (ordered_tasks
     ((sample_db [sample_task 1 7 COMPLETED (Some 1)] [])\<lparr>tasks :=
        [sample_task 1 7 COMPLETED (Some 1), sample_task 2 7 PENDING (Some 2)]\<rparr>) 7) = [Some 1, Some 2]"
proof -
  let ?d = "sample_db [sample_task 1 7 COMPLETED (Some 1)] []"
  have "allocate_next_sequence_locked ?d 7 = 2" by code_simp
  moreover have "map task_issue_sequence (ordered_tasks ?d 7) = map Some [1..int 1]" by code_simp
  moreover have "wf_db ?d" by (simp add: wf_db_def unique_sequences_def sample_defs)
  moreover have "[1..2::int] = [1, 2]" by (simp add: upto.simps)
  ultimately show ?thesis
    using append_extends_the_ranks [of ?d 7 1 "sample_task 2 7 PENDING (Some 2)"]
    by (simp add: sample_defs issue_tasks_def)
qed

theorem new_tail_lineage_agrees_with_repair_witness:
  "project_tail_lineage None ''claude'' ''claude-1'' ''continue'' =
     (case repaired_projection None (sample_task 1 7 PENDING (Some 1)) ''claude'' ''claude-1'' of
        Inl _ \<Rightarrow> Inl (the None)
      | Inr p \<Rightarrow> Inr (if proj_reason p = ''inherited'' then p else p\<lparr>proj_reset_task_id := None\<rparr>))"
  using new_tail_lineage_agrees_with_repair [of "sample_task 1 7 PENDING (Some 1)" None "''claude''" "''claude-1''"]
  by (simp add: sample_defs is_active_iff)

end
