(* ===== verification/Issue_Schedule.thy ===== *)
theory Issue_Schedule
  imports Issue_Order
begin

text \<open>
  Scheduled times within an issue, the second half of \<^verbatim>\<open>core/issue_task_order.py\<close>: the window in
  which a task may be scheduled (\<open>compute_schedule_window\<close>) and the check every create, reschedule
  and override runs under the issue lock (\<open>validate_schedule_time_locked\<close>). The property is that
  the check accepts exactly the times that keep the active queue of the issue monotone: a later
  turn is never due before an earlier one.
\<close>

record schedule_window =
  has_valid_window :: bool
  min_scheduled_at :: "timestamp option"
  min_source_task_id :: "row_id option"
  max_scheduled_at :: "timestamp option"
  max_source_task_id :: "row_id option"

datatype schedule_error =
    OrderIntegrity order_error
  | ScheduleWindowConflict schedule_window

definition active_tasks :: "database \<Rightarrow> row_id \<Rightarrow> task list" where
  "active_tasks d issue = filter is_active (issue_tasks d issue)"

text \<open>One turn of the loop over the scheduled tasks; the window holds what is found so far.\<close>

definition window_step :: "int option \<Rightarrow> schedule_window \<Rightarrow> task \<Rightarrow> schedule_window" where
  "window_step exclude_seq w t =
     (case task_scheduled_at t of None \<Rightarrow> w | Some s \<Rightarrow>
        let raise_floor = (if min_scheduled_at w = None \<or> s > the (min_scheduled_at w)
                           then w\<lparr>min_scheduled_at := Some s, min_source_task_id := Some (task_id t)\<rparr>
                           else w);
            lower_ceiling = (if max_scheduled_at w = None \<or> s < the (max_scheduled_at w)
                             then w\<lparr>max_scheduled_at := Some s, max_source_task_id := Some (task_id t)\<rparr>
                             else w)
        in case exclude_seq of
             None \<Rightarrow> raise_floor
           | Some q \<Rightarrow> (case task_issue_sequence t of
               None \<Rightarrow> w
             | Some r \<Rightarrow> if r < q then raise_floor else if r > q then lower_ceiling else w))"

definition empty_window :: schedule_window where
  "empty_window = \<lparr>has_valid_window = True, min_scheduled_at = None, min_source_task_id = None,
     max_scheduled_at = None, max_source_task_id = None\<rparr>"

definition compute_schedule_window ::
  "database \<Rightarrow> row_id \<Rightarrow> row_id option \<Rightarrow> (order_error, schedule_window) result" where
  "compute_schedule_window d issue exclude =
     (let ts = active_tasks d issue in
      if list_ex (\<lambda>t. task_issue_sequence t = None) ts
      then Inl (IssueOrderIntegrityError issue ''active_null_sequence'')
      else
        let scheduled = sort_key (\<lambda>t. case task_issue_sequence t of Some q \<Rightarrow> q | None \<Rightarrow> 10 ^ 9)
              (filter (\<lambda>t. task_scheduled_at t \<noteq> None \<and> (exclude = None \<or> Some (task_id t) \<noteq> exclude)) ts);
            exclude_seq = (case exclude of None \<Rightarrow> None | Some k \<Rightarrow>
              (case find (\<lambda>t. task_id t = k) ts of None \<Rightarrow> None | Some t \<Rightarrow> task_issue_sequence t));
            w = foldl (window_step exclude_seq) empty_window scheduled
        in Inr (w\<lparr>has_valid_window := (min_scheduled_at w = None \<or> max_scheduled_at w = None
                    \<or> the (min_scheduled_at w) \<le> the (max_scheduled_at w))\<rparr>))"

text \<open>
  The integrity pass may write lineage projections even when it does not repair numbers, so the
  check returns the database with the window.
\<close>

definition validate_schedule_time_locked ::
  "(string \<Rightarrow> string) \<Rightarrow> database \<Rightarrow> row_id \<Rightarrow> timestamp \<Rightarrow> row_id option
     \<Rightarrow> (schedule_error, schedule_window \<times> database) result" where
  "validate_schedule_time_locked sha256 d issue scheduled_at exclude =
     (case ensure_issue_order_integrity_locked sha256 d issue False of
        Inl e \<Rightarrow> Inl (OrderIntegrity e)
      | Inr (_, d') \<Rightarrow>
          (case compute_schedule_window d' issue exclude of
             Inl e \<Rightarrow> Inl (OrderIntegrity e)
           | Inr w \<Rightarrow>
               if \<not> has_valid_window w then Inl (ScheduleWindowConflict (w\<lparr>has_valid_window := False\<rparr>))
               else if min_scheduled_at w \<noteq> None \<and> scheduled_at < the (min_scheduled_at w)
               then Inl (ScheduleWindowConflict (w\<lparr>has_valid_window := True\<rparr>))
               else if max_scheduled_at w \<noteq> None \<and> scheduled_at > the (max_scheduled_at w)
               then Inl (ScheduleWindowConflict (w\<lparr>has_valid_window := True\<rparr>))
               else Inr (w, d')))"


section \<open>What the window is\<close>

text \<open>Which tasks bound the time from below and from above.\<close>

definition bounds_below :: "int option \<Rightarrow> task \<Rightarrow> bool" where
  "bounds_below exclude_seq t = (case exclude_seq of None \<Rightarrow> True
     | Some q \<Rightarrow> (case task_issue_sequence t of None \<Rightarrow> False | Some r \<Rightarrow> r < q))"

definition bounds_above :: "int option \<Rightarrow> task \<Rightarrow> bool" where
  "bounds_above exclude_seq t = (case exclude_seq of None \<Rightarrow> False
     | Some q \<Rightarrow> (case task_issue_sequence t of None \<Rightarrow> False | Some r \<Rightarrow> r > q))"

text \<open>The window over a set of tasks: greatest time below, least time above, each with its source.\<close>

definition window_of :: "int option \<Rightarrow> task set \<Rightarrow> schedule_window \<Rightarrow> bool" where
  "window_of q T w \<longleftrightarrow>
     (\<forall>t\<in>T. \<forall>s. task_scheduled_at t = Some s \<and> bounds_below q t \<longrightarrow>
        (\<exists>m. min_scheduled_at w = Some m \<and> s \<le> m))
   \<and> (\<forall>t\<in>T. \<forall>s. task_scheduled_at t = Some s \<and> bounds_above q t \<longrightarrow>
        (\<exists>m. max_scheduled_at w = Some m \<and> m \<le> s))
   \<and> (\<forall>m. min_scheduled_at w = Some m \<longrightarrow>
        (\<exists>t\<in>T. task_scheduled_at t = Some m \<and> bounds_below q t \<and> min_source_task_id w = Some (task_id t)))
   \<and> (\<forall>m. max_scheduled_at w = Some m \<longrightarrow>
        (\<exists>t\<in>T. task_scheduled_at t = Some m \<and> bounds_above q t \<and> max_source_task_id w = Some (task_id t)))"

lemma window_step_of:
  assumes "window_of q T w"
  shows "window_of q (insert t T) (window_step q w t)"
  using assms
  unfolding window_of_def window_step_def bounds_below_def bounds_above_def Let_def
  by (cases "task_scheduled_at t"; cases q; cases "task_issue_sequence t";
      cases "min_scheduled_at w"; cases "max_scheduled_at w") (auto; force)+


lemma foldl_window_of:
  "window_of q T w \<Longrightarrow> window_of q (T \<union> set ts) (foldl (window_step q) w ts)"
proof (induction ts arbitrary: T w)
  case (Cons t ts)
  then show ?case using window_step_of [of q T w t] Cons.IH [of "insert t T"] by simp
qed simp

lemma window_of_empty: "window_of q {} empty_window"
  by (simp add: window_of_def empty_window_def)

lemma window_of_valid [simp]: "window_of q T (w\<lparr>has_valid_window := b\<rparr>) \<longleftrightarrow> window_of q T w"
  by (simp add: window_of_def)

text \<open>The turn the time is for: that of the excluded task when it is active in the issue.\<close>

definition exclude_turn :: "database \<Rightarrow> row_id \<Rightarrow> row_id option \<Rightarrow> int option" where
  "exclude_turn d issue exclude = (case exclude of None \<Rightarrow> None | Some k \<Rightarrow>
     (case find (\<lambda>t. task_id t = k) (active_tasks d issue) of None \<Rightarrow> None | Some t \<Rightarrow> task_issue_sequence t))"

lemma compute_schedule_windowD:
  assumes "compute_schedule_window d issue exclude = Inr w"
  shows "\<forall>t\<in>set (active_tasks d issue). task_issue_sequence t \<noteq> None"
    and "window_of (exclude_turn d issue exclude)
           {t \<in> set (active_tasks d issue). task_scheduled_at t \<noteq> None \<and> Some (task_id t) \<noteq> exclude} w"
    and "has_valid_window w \<longleftrightarrow> min_scheduled_at w = None \<or> max_scheduled_at w = None
           \<or> the (min_scheduled_at w) \<le> the (max_scheduled_at w)"
proof -
  let ?ts = "sort_key (\<lambda>t. case task_issue_sequence t of Some q \<Rightarrow> q | None \<Rightarrow> 10 ^ 9)
    (filter (\<lambda>t. task_scheduled_at t \<noteq> None \<and> (exclude = None \<or> Some (task_id t) \<noteq> exclude))
      (active_tasks d issue))"
  have set: "set ?ts = {t \<in> set (active_tasks d issue). task_scheduled_at t \<noteq> None \<and> Some (task_id t) \<noteq> exclude}"
    by auto
  show "\<forall>t\<in>set (active_tasks d issue). task_issue_sequence t \<noteq> None"
    using assms by (auto simp: compute_schedule_window_def Let_def list_ex_iff split: if_splits)
  have w: "w = (let w0 = foldl (window_step (exclude_turn d issue exclude)) empty_window ?ts
     in w0\<lparr>has_valid_window := (min_scheduled_at w0 = None \<or> max_scheduled_at w0 = None
              \<or> the (min_scheduled_at w0) \<le> the (max_scheduled_at w0))\<rparr>)"
    using assms by (auto simp: compute_schedule_window_def exclude_turn_def Let_def split: if_splits)
  show "window_of (exclude_turn d issue exclude)
           {t \<in> set (active_tasks d issue). task_scheduled_at t \<noteq> None \<and> Some (task_id t) \<noteq> exclude} w"
    using foldl_window_of [OF window_of_empty, of _ ?ts] unfolding w set by (simp add: Let_def)
  show "has_valid_window w \<longleftrightarrow> min_scheduled_at w = None \<or> max_scheduled_at w = None
           \<or> the (min_scheduled_at w) \<le> the (max_scheduled_at w)"
    unfolding w by (simp add: Let_def)
qed


section \<open>The monotone queue\<close>

text \<open>The turn and due time of each active task of the issue that has both.\<close>

definition scheduled_turn :: "task \<Rightarrow> (int \<times> timestamp) option" where
  "scheduled_turn t = (case (task_issue_sequence t, task_scheduled_at t) of
     (Some q, Some s) \<Rightarrow> Some (q, s) | _ \<Rightarrow> None)"

definition schedule_monotone :: "database \<Rightarrow> row_id \<Rightarrow> bool" where
  "schedule_monotone d issue \<longleftrightarrow>
     (\<forall>t\<in>set (active_tasks d issue). \<forall>u\<in>set (active_tasks d issue). \<forall>p a q b.
        scheduled_turn t = Some (p, a) \<and> scheduled_turn u = Some (q, b) \<and> p < q \<longrightarrow> a \<le> b)"

lemma scheduled_turn_Some:
  "scheduled_turn t = Some (q, s) \<longleftrightarrow> task_issue_sequence t = Some q \<and> task_scheduled_at t = Some s"
  by (auto simp: scheduled_turn_def split: option.splits)

lemma in_active_tasks [simp]:
  "t \<in> set (active_tasks d issue) \<longleftrightarrow> t \<in> set (tasks d) \<and> task_issue_id t = issue \<and> is_active t"
  by (auto simp: active_tasks_def)

text \<open>Acceptance of a time by a window, and the bounds it stands for.\<close>

definition window_accepts :: "schedule_window \<Rightarrow> timestamp \<Rightarrow> bool" where
  "window_accepts w s \<longleftrightarrow> has_valid_window w
     \<and> (\<forall>m. min_scheduled_at w = Some m \<longrightarrow> m \<le> s) \<and> (\<forall>m. max_scheduled_at w = Some m \<longrightarrow> s \<le> m)"

lemma window_accepts_iff:
  assumes "window_of q T w"
    and "has_valid_window w \<longleftrightarrow> min_scheduled_at w = None \<or> max_scheduled_at w = None
           \<or> the (min_scheduled_at w) \<le> the (max_scheduled_at w)"
  shows "window_accepts w s \<longleftrightarrow>
    (\<forall>t\<in>T. \<forall>a. task_scheduled_at t = Some a \<longrightarrow>
       (bounds_below q t \<longrightarrow> a \<le> s) \<and> (bounds_above q t \<longrightarrow> s \<le> a))"
proof
  assume "window_accepts w s"
  then show "\<forall>t\<in>T. \<forall>a. task_scheduled_at t = Some a \<longrightarrow>
       (bounds_below q t \<longrightarrow> a \<le> s) \<and> (bounds_above q t \<longrightarrow> s \<le> a)"
    using assms(1) unfolding window_of_def window_accepts_def by fastforce
next
  assume b: "\<forall>t\<in>T. \<forall>a. task_scheduled_at t = Some a \<longrightarrow>
       (bounds_below q t \<longrightarrow> a \<le> s) \<and> (bounds_above q t \<longrightarrow> s \<le> a)"
  have lo: "m \<le> s" if "min_scheduled_at w = Some m" for m
    using assms(1) b that unfolding window_of_def by blast
  have hi: "s \<le> m" if "max_scheduled_at w = Some m" for m
    using assms(1) b that unfolding window_of_def by blast
  from lo hi show "window_accepts w s"
    unfolding window_accepts_def assms(2)
    by (cases "min_scheduled_at w"; cases "max_scheduled_at w") (auto intro: order_trans)
qed

lemma validate_accepts:
  assumes "ensure_issue_order_integrity_locked sha256 d issue False = Inr (report, d')"
    "compute_schedule_window d' issue exclude = Inr w"
  shows "(\<exists>w. validate_schedule_time_locked sha256 d issue s exclude = Inr (w, d')) \<longleftrightarrow> window_accepts w s"
  using assms
  by (cases "min_scheduled_at w"; cases "max_scheduled_at w")
     (auto simp: validate_schedule_time_locked_def window_accepts_def not_less)


text \<open>Everything above reads the tasks only up to their projections.\<close>

lemma reads_erased [simp]:
  "scheduled_turn (erase_projection t) = scheduled_turn t"
  "is_active (erase_projection t) = is_active t"
  "task_issue_id (erase_projection t) = task_issue_id t"
  by (simp_all add: scheduled_turn_def is_active_def erase_projection_def)

lemma active_tasks_erase:
  "map erase_projection (active_tasks d issue)
     = filter (\<lambda>t. is_active t \<and> task_issue_id t = issue) (map erase_projection (tasks d))"
proof -
  have "map erase_projection (filter is_active (filter (\<lambda>t. task_issue_id t = issue) ts))
     = filter (\<lambda>t. is_active t \<and> task_issue_id t = issue) (map erase_projection ts)" for ts
    by (induction ts) auto
  then show ?thesis by (simp add: active_tasks_def issue_tasks_def)
qed

lemma schedule_monotone_erase:
  assumes "map erase_projection (tasks d') = map erase_projection (tasks d)"
  shows "schedule_monotone d' issue \<longleftrightarrow> schedule_monotone d issue"
proof -
  have "scheduled_turn ` set (active_tasks d issue)
        = set (map scheduled_turn (map erase_projection (active_tasks d issue)))" for d
    by (simp add: image_image)
  then have "scheduled_turn ` set (active_tasks d' issue) = scheduled_turn ` set (active_tasks d issue)"
    by (simp only: active_tasks_erase assms)
  moreover have "schedule_monotone d issue \<longleftrightarrow>
     (\<forall>x\<in>scheduled_turn ` set (active_tasks d issue). \<forall>y\<in>scheduled_turn ` set (active_tasks d issue).
        \<forall>p a q b. x = Some (p, a) \<and> y = Some (q, b) \<and> p < q \<longrightarrow> a \<le> b)" for d
    unfolding schedule_monotone_def by simp
  ultimately show ?thesis by (simp only:)
qed

definition reschedule :: "row_id \<Rightarrow> timestamp \<Rightarrow> database \<Rightarrow> database" where
  "reschedule k s d = put_task k (\<lambda>t. t\<lparr>task_scheduled_at := Some s\<rparr>) d"

lemma monotone_reschedule_iff:
  assumes wf: "wf_db d" and t: "t \<in> set (active_tasks d issue)" "task_issue_sequence t = Some q"
    and mono: "schedule_monotone d issue"
  shows "schedule_monotone (reschedule (task_id t) s d) issue \<longleftrightarrow>
    (\<forall>u\<in>{u \<in> set (active_tasks d issue). task_scheduled_at u \<noteq> None \<and> Some (task_id u) \<noteq> Some (task_id t)}.
       \<forall>a. task_scheduled_at u = Some a \<longrightarrow>
         (bounds_below (Some q) u \<longrightarrow> a \<le> s) \<and> (bounds_above (Some q) u \<longrightarrow> s \<le> a))"
proof -
  let ?t = "t\<lparr>task_scheduled_at := Some s\<rparr>"
  have new: "set (active_tasks (reschedule (task_id t) s d) issue)
      = insert ?t {u \<in> set (active_tasks d issue). task_id u \<noteq> task_id t}"
  proof -
    have key: "task_id u = task_id t \<longleftrightarrow> u = t" if "u \<in> set (tasks d)" for u
      using that t(1) same_task [OF wf that] by auto
    then have "set (tasks (reschedule (task_id t) s d)) = (\<lambda>u. if u = t then ?t else u) ` set (tasks d)"
      by (auto simp: reschedule_def set_update_where)
    then show ?thesis using t(1) key by (auto simp: is_active_def split: if_splits)
  qed
  have turn: "scheduled_turn ?t = Some (q, s)" using t(2) by (simp add: scheduled_turn_def)
  have "schedule_monotone (reschedule (task_id t) s d) issue \<longleftrightarrow>
    (\<forall>u\<in>{u \<in> set (active_tasks d issue). task_id u \<noteq> task_id t}. \<forall>p a. scheduled_turn u = Some (p, a) \<longrightarrow>
       (p < q \<longrightarrow> a \<le> s) \<and> (q < p \<longrightarrow> s \<le> a))"
    (is "_ \<longleftrightarrow> (\<forall>u\<in>?U. ?B u)")
  proof
    assume "\<forall>u\<in>?U. ?B u"
    then show "schedule_monotone (reschedule (task_id t) s d) issue"
      using mono turn unfolding schedule_monotone_def new by (auto 0 3)
  next
    assume m: "schedule_monotone (reschedule (task_id t) s d) issue"
    show "\<forall>u\<in>?U. ?B u"
    proof (intro ballI allI impI)
      fix u p a assume "u \<in> ?U" "scheduled_turn u = Some (p, a)"
      then show "(p < q \<longrightarrow> a \<le> s) \<and> (q < p \<longrightarrow> s \<le> a)"
        using m turn unfolding schedule_monotone_def new by (metis (no_types, lifting) insertI1 insertI2)
    qed
  qed
  also have "\<dots> \<longleftrightarrow> (\<forall>u\<in>{u \<in> set (active_tasks d issue). task_scheduled_at u \<noteq> None \<and> Some (task_id u) \<noteq> Some (task_id t)}.
       \<forall>a. task_scheduled_at u = Some a \<longrightarrow>
         (bounds_below (Some q) u \<longrightarrow> a \<le> s) \<and> (bounds_above (Some q) u \<longrightarrow> s \<le> a))"
    by (auto simp: scheduled_turn_Some bounds_below_def bounds_above_def split: option.splits)
  finally show ?thesis .
qed


text \<open>After an integrity pass the window can always be computed.\<close>

lemma window_after_integrity:
  assumes run: "ensure_issue_order_integrity_locked sha256 d issue False = Inr (report, d')" and wf: "wf_db d"
  shows "\<exists>w. compute_schedule_window d' issue exclude = Inr w"
proof -
  have "task_issue_sequence t \<noteq> None" if t: "t \<in> set (active_tasks d' issue)" for t
  proof -
    obtain u where "u \<in> set (tasks d)" "erase_projection u = erase_projection t"
      using map_eq_same_keyD [OF ensure_without_repair(1,1) [OF run wf], of t] t by auto
    then show ?thesis
      using t ensure_without_repair(3) [OF run wf, of u] erase_projectionD [of u t]
      by (auto simp: is_active_def)
  qed
  then have "\<not> list_ex (\<lambda>t. task_issue_sequence t = None) (active_tasks d' issue)"
    by (simp add: list_ex_iff del: in_active_tasks)
  then show ?thesis by (simp add: compute_schedule_window_def Let_def)
qed


section \<open>Properties of the schedule check\<close>

text \<open>
  C37. Rescheduling an active task of an issue whose queue is monotone: the check accepts a time
  exactly when writing it keeps the queue monotone, that is, when no earlier active turn is due
  after it and no later one before it.
\<close>

theorem reschedule_accepted_iff_monotone:
  assumes wf: "wf_db d" and run: "ensure_issue_order_integrity_locked sha256 d issue False = Inr (report, d')"
    and mono: "schedule_monotone d issue"
    and t: "get_task d' k = Some t" "task_issue_id t = issue" "is_active t"
  shows "(\<exists>w. validate_schedule_time_locked sha256 d issue s (Some k) = Inr (w, d'))
         = schedule_monotone (reschedule k s d') issue"
proof -
  obtain w where w: "compute_schedule_window d' issue (Some k) = Inr w"
    using window_after_integrity [OF run wf] by blast
  note wf' = ensure_without_repair(2) [OF run wf]
  have k: "task_id t = k" and act: "t \<in> set (active_tasks d' issue)"
    using get_taskD [OF t(1)] t(2,3) by simp_all
  obtain q where q: "task_issue_sequence t = Some q"
    using compute_schedule_windowD(1) [OF w] act by blast
  have "distinct (map task_id (active_tasks d' issue))"
    using wf_dbD(1) [OF wf'] by (simp add: active_tasks_def issue_tasks_def distinct_map_filter)
  from row_by_unique [OF this act] have "exclude_turn d' issue (Some k) = Some q"
    using k q by (simp add: exclude_turn_def row_by_def)
  with window_accepts_iff [OF compute_schedule_windowD(2,3) [OF w]]
  have "window_accepts w s \<longleftrightarrow> schedule_monotone (reschedule k s d') issue"
    using monotone_reschedule_iff [OF wf' act q] mono k
      schedule_monotone_erase [OF ensure_without_repair(1) [OF run wf]] by simp
  then show ?thesis using validate_accepts [OF run w] by simp
qed

text \<open>
  Appending: with no task excluded, the check accepts a time exactly when it is not before the
  due time of any active task, and inserting an active task with that time and a turn number above
  all others keeps the queue monotone.
\<close>

theorem append_accepted_keeps_monotone:
  assumes wf: "wf_db d" and run: "ensure_issue_order_integrity_locked sha256 d issue False = Inr (report, d')"
    and mono: "schedule_monotone d issue"
  shows "(\<exists>w. validate_schedule_time_locked sha256 d issue s None = Inr (w, d'))
           = list_all (\<lambda>t. case task_scheduled_at t of None \<Rightarrow> True | Some a \<Rightarrow> a \<le> s) (active_tasks d' issue)
         \<and> ((\<exists>w. validate_schedule_time_locked sha256 d issue s None = Inr (w, d'))
            \<and> task_issue_id u = issue \<and> task_scheduled_at u = Some s
            \<and> task_issue_sequence u = Some (allocate_next_sequence_locked d' issue)
            \<longrightarrow> schedule_monotone (d'\<lparr>tasks := tasks d' @ [u]\<rparr>) issue)"
proof -
  obtain w where w: "compute_schedule_window d' issue None = Inr w"
    using window_after_integrity [OF run wf] by blast
  have accepts: "(\<exists>w. validate_schedule_time_locked sha256 d issue s None = Inr (w, d')) \<longleftrightarrow>
      (\<forall>t\<in>set (active_tasks d' issue). \<forall>a. task_scheduled_at t = Some a \<longrightarrow> a \<le> s)"
    using validate_accepts [OF run w] window_accepts_iff [OF compute_schedule_windowD(2,3) [OF w]]
    by (auto simp: exclude_turn_def bounds_below_def bounds_above_def)
  have old: "schedule_monotone d' issue"
    using mono schedule_monotone_erase [OF ensure_without_repair(1) [OF run wf]] by simp
  have below: "p < allocate_next_sequence_locked d' issue"
    if "t \<in> set (active_tasks d' issue)" "scheduled_turn t = Some (p, a)" for t p a
    using allocate_above [of t d' issue p] that by (auto simp: scheduled_turn_Some)
  have "schedule_monotone (d'\<lparr>tasks := tasks d' @ [u]\<rparr>) issue"
    if u: "task_issue_id u = issue" "task_scheduled_at u = Some s"
      "task_issue_sequence u = Some (allocate_next_sequence_locked d' issue)"
      and le: "\<forall>t\<in>set (active_tasks d' issue). \<forall>a. task_scheduled_at t = Some a \<longrightarrow> a \<le> s"
  proof -
    have "set (active_tasks (d'\<lparr>tasks := tasks d' @ [u]\<rparr>) issue) \<subseteq> insert u (set (active_tasks d' issue))"
      by auto
    moreover have "scheduled_turn u = Some (allocate_next_sequence_locked d' issue, s)"
      using u by (simp add: scheduled_turn_def)
    ultimately show ?thesis
      unfolding schedule_monotone_def
      using old [unfolded schedule_monotone_def] below le
      by (smt (verit, ccfv_threshold) insertE option.inject prod.inject scheduled_turn_Some subsetD)
  qed
  then show ?thesis unfolding accepts by (auto simp: list_all_iff split: option.splits)
qed



section \<open>Concrete runs\<close>

text \<open>A queue of two: the first turn due at 10, the second at 20.\<close>

definition due :: "timestamp \<Rightarrow> task \<Rightarrow> task" where
  "due s t = with_projection \<lparr>proj_harness_key = ''claude'', proj_session_namespace = ''claude-1'',
     proj_generation = 0, proj_reset_task_id = None, proj_reason = ''initial''\<rparr>
     (t\<lparr>task_scheduled_at := Some s\<rparr>)"

definition queue_db :: database where
  "queue_db = sample_db [due 10 (sample_task 1 7 PENDING (Some 1)),
                         due 20 (sample_task 2 7 PENDING (Some 2))] []"

lemma queue_db_facts:
  "wf_db queue_db" "schedule_monotone queue_db 7"
  "get_task queue_db 2 = Some (due 20 (sample_task 2 7 PENDING (Some 2)))"
  "\<exists>report. ensure_issue_order_integrity_locked (\<lambda>s. s) queue_db 7 False = Inr (report, queue_db)"
proof -
  show "wf_db queue_db"
    by (simp add: queue_db_def wf_db_def unique_sequences_def sample_defs due_def with_projection_def)
  show "schedule_monotone queue_db 7"
    by (auto simp: schedule_monotone_def scheduled_turn_Some queue_db_def sample_defs due_def with_projection_def)
  show "get_task queue_db 2 = Some (due 20 (sample_task 2 7 PENDING (Some 2)))"
    by (simp add: queue_db_def get_task_def sample_defs due_def with_projection_def)
  have "case ensure_issue_order_integrity_locked (\<lambda>s. s) queue_db 7 False of
          Inr (_, d) \<Rightarrow> d = queue_db | Inl _ \<Rightarrow> False"
    by code_simp
  then show "\<exists>report. ensure_issue_order_integrity_locked (\<lambda>s. s) queue_db 7 False = Inr (report, queue_db)"
    by (auto split: sum.splits)
qed

theorem reschedule_accepted_iff_monotone_witness:
  "schedule_monotone (reschedule 2 15 queue_db) 7 \<and> \<not> schedule_monotone (reschedule 2 5 queue_db) 7"
proof -
  obtain report where run:
    "ensure_issue_order_integrity_locked (\<lambda>s. s) queue_db 7 False = Inr (report, queue_db)"
    using queue_db_facts(4) by blast
  have t: "task_issue_id (due 20 (sample_task 2 7 PENDING (Some 2))) = 7"
    "is_active (due 20 (sample_task 2 7 PENDING (Some 2)))"
    by (simp_all add: due_def with_projection_def sample_defs is_active_iff)
  have "case validate_schedule_time_locked (\<lambda>s. s) queue_db 7 15 (Some 2) of
          Inr (_, d) \<Rightarrow> d = queue_db | Inl _ \<Rightarrow> False"
    and no: "isl (validate_schedule_time_locked (\<lambda>s. s) queue_db 7 5 (Some 2))"
    by code_simp+
  then have yes: "\<exists>w. validate_schedule_time_locked (\<lambda>s. s) queue_db 7 15 (Some 2) = Inr (w, queue_db)"
    by (auto split: sum.splits)
  show ?thesis
    using yes no reschedule_accepted_iff_monotone [OF queue_db_facts(1) run queue_db_facts(2,3) t, of 15]
      reschedule_accepted_iff_monotone [OF queue_db_facts(1) run queue_db_facts(2,3) t, of 5]
    by auto
qed

theorem append_accepted_keeps_monotone_witness:
  "schedule_monotone (queue_db\<lparr>tasks := tasks queue_db @ [due 30 (sample_task 3 7 PENDING (Some 3))]\<rparr>) 7"
proof -
  obtain report where run:
    "ensure_issue_order_integrity_locked (\<lambda>s. s) queue_db 7 False = Inr (report, queue_db)"
    using queue_db_facts(4) by blast
  have "list_all (\<lambda>t. case task_scheduled_at t of None \<Rightarrow> True | Some a \<Rightarrow> a \<le> 30) (active_tasks queue_db 7)"
    "allocate_next_sequence_locked queue_db 7 = 3"
    by code_simp+
  then show ?thesis
    using append_accepted_keeps_monotone [OF queue_db_facts(1) run queue_db_facts(2), of 30
        "due 30 (sample_task 3 7 PENDING (Some 3))"]
    by (simp add: due_def with_projection_def sample_task_def)
qed

end
