(* ===== verification/Json_Text.thy ===== *)
theory Json_Text
  imports Codify_Value
begin

text \<open>
  \<^verbatim>\<open>json.dumps(payload, sort_keys=True, separators=(",", ":"))\<close> for the flat payloads that the
  backend hashes: string, null and true members, with the default ASCII escaping. The lemmas show
  that the text determines the members, so that a digest of it identifies them.
\<close>

definition hex_digit :: "nat \<Rightarrow> char" where
  "hex_digit n = ''0123456789abcdef'' ! n"

definition json_escape :: "char \<Rightarrow> string" where
  "json_escape c =
     (let n = of_char c :: nat in
      if n = 34 \<or> n = 92 then [CHR 0x5C, c]
      else if n = 8 then [CHR 0x5C, CHR ''b'']
      else if n = 12 then [CHR 0x5C, CHR ''f'']
      else if n = 10 then [CHR 0x5C, CHR ''n'']
      else if n = 13 then [CHR 0x5C, CHR ''r'']
      else if n = 9 then [CHR 0x5C, CHR ''t'']
      else if 32 \<le> n \<and> n \<le> 126 then [c]
      else CHR 0x5C # ''u00'' @ [hex_digit (n div 16), hex_digit (n mod 16)])"

definition json_quote :: "string \<Rightarrow> string" where
  "json_quote s = CHR 0x22 # concat (map json_escape s) @ [CHR 0x22]"

datatype json_leaf = JString string | JNull | JTrue

definition json_leaf_text :: "json_leaf \<Rightarrow> string" where
  "json_leaf_text v = (case v of JString s \<Rightarrow> json_quote s | JNull \<Rightarrow> ''null'' | JTrue \<Rightarrow> ''true'')"

definition json_of_option :: "string option \<Rightarrow> json_leaf" where
  "json_of_option v = (case v of None \<Rightarrow> JNull | Some s \<Rightarrow> JString s)"

fun json_members :: "(string \<times> json_leaf) list \<Rightarrow> string" where
  "json_members [] = []"
| "json_members [(k, v)] = json_quote k @ '':'' @ json_leaf_text v"
| "json_members ((k, v) # kv # kvs) = json_quote k @ '':'' @ json_leaf_text v @ '','' @ json_members (kv # kvs)"

text \<open>The payload lists its members in sorted key order.\<close>

definition json_object :: "(string \<times> json_leaf) list \<Rightarrow> string" where
  "json_object kvs = ''{'' @ json_members kvs @ ''}''"


section \<open>The text determines the members\<close>

definition hex_value :: "char \<Rightarrow> nat" where
  "hex_value c = (if is_digit c then of_char c - 48 else of_char c - 87)"

lemma hex_value_digit: "n < 16 \<Longrightarrow> hex_value (hex_digit n) = n"
proof -
  have "list_all (\<lambda>n. hex_value (hex_digit n) = n) [0..<16]" by code_simp
  then show "n < 16 \<Longrightarrow> ?thesis" by (simp add: list_all_iff)
qed

text \<open>Reads one escaped character back.\<close>

fun json_unescape :: "string \<Rightarrow> (char \<times> string) option" where
  "json_unescape (a # b # r) =
     (if a \<noteq> CHR 0x5C then Some (a, b # r)
      else if b = CHR 0x22 \<or> b = CHR 0x5C then Some (b, r)
      else if b = CHR ''b'' then Some (CHR 0x08, r)
      else if b = CHR ''f'' then Some (CHR 0x0C, r)
      else if b = CHR ''n'' then Some (CHR 0x0A, r)
      else if b = CHR ''r'' then Some (CHR 0x0D, r)
      else if b = CHR ''t'' then Some (CHR 0x09, r)
      else case r of _ # _ # h # l # r' \<Rightarrow> Some (char_of (16 * hex_value h + hex_value l), r') | _ \<Rightarrow> None)"
| "json_unescape [a] = Some (a, [])"
| "json_unescape [] = None"

lemma char_codes:
  "(of_char c :: nat) = 34 \<longleftrightarrow> c = CHR 0x22" "(of_char c :: nat) = 92 \<longleftrightarrow> c = CHR 0x5C"
  "(of_char c :: nat) = 8 \<longleftrightarrow> c = CHR 0x08" "(of_char c :: nat) = 12 \<longleftrightarrow> c = CHR 0x0C"
  "(of_char c :: nat) = 10 \<longleftrightarrow> c = CHR 0x0A" "(of_char c :: nat) = 13 \<longleftrightarrow> c = CHR 0x0D"
  "(of_char c :: nat) = 9 \<longleftrightarrow> c = CHR 0x09"
  by (subst of_char_eq_iff [symmetric, where 'a = nat], simp)+

lemma json_unescape_plain: "c \<noteq> CHR 0x5C \<Longrightarrow> json_unescape (c # r) = Some (c, r)"
  by (cases r) simp_all

lemma json_unescape_hex:
  "json_unescape (CHR 0x5C # CHR ''u'' # a # b # h # l # r) = Some (char_of (16 * hex_value h + hex_value l), r)"
  by simp

lemma json_unescape_escape: "json_unescape (json_escape c @ r) = Some (c, r)"
proof -
  let ?n = "of_char c :: nat"
  consider (quoted) "?n = 34 \<or> ?n = 92" | (ctl) "?n = 8 \<or> ?n = 12 \<or> ?n = 10 \<or> ?n = 13 \<or> ?n = 9"
    | (plain) "32 \<le> ?n" "?n \<le> 126" "?n \<noteq> 34" "?n \<noteq> 92"
    | (hex) "\<not> (32 \<le> ?n \<and> ?n \<le> 126)" "?n \<notin> {8, 12, 10, 13, 9, 34, 92}"
    by auto
  then show ?thesis
  proof cases
    case quoted
    then have "c = CHR 0x22 \<or> c = CHR 0x5C" by (simp add: char_codes)
    then show ?thesis by (auto simp: json_escape_def)
  next
    case ctl
    then have "c = CHR 0x08 \<or> c = CHR 0x0C \<or> c = CHR 0x0A \<or> c = CHR 0x0D \<or> c = CHR 0x09"
      by (simp add: char_codes)
    then show ?thesis by (auto simp: json_escape_def)
  next
    case plain
    then have "json_escape c = [c]" "c \<noteq> CHR 0x5C" by (auto simp: json_escape_def)
    then show ?thesis by (simp add: json_unescape_plain)
  next
    case hex
    then have "json_escape c = CHR 0x5C # CHR ''u'' # CHR ''0'' # CHR ''0'' # hex_digit (?n div 16) # hex_digit (?n mod 16) # []"
      by (simp add: json_escape_def Let_def)
    moreover have "?n div 16 < 16" by (rule less_mult_imp_div_less) simp
    then have "hex_value (hex_digit (?n div 16)) = ?n div 16" "hex_value (hex_digit (?n mod 16)) = ?n mod 16"
      by (simp_all add: hex_value_digit)
    ultimately show ?thesis by (simp only: append_Cons append_Nil json_unescape_hex mult_div_mod_eq char_of_char)
  qed
qed

lemma json_escape_inject: "json_escape c @ x = json_escape d @ y \<Longrightarrow> c = d \<and> x = y"
  by (metis json_unescape_escape option.inject prod.inject)

lemma json_escape_not_quote: "json_escape c @ x \<noteq> CHR 0x22 # y"
  by (auto simp: json_escape_def Let_def)

lemma json_body_inject:
  "concat (map json_escape s) @ CHR 0x22 # x = concat (map json_escape t) @ CHR 0x22 # y \<Longrightarrow> s = t \<and> x = y"
proof (induction s arbitrary: t)
  case Nil
  then show ?case
  proof (cases t)
    case (Cons d t')
    then show ?thesis using Nil json_escape_not_quote [of d "concat (map json_escape t') @ CHR 0x22 # y" x] by simp
  qed simp
next
  case (Cons c s)
  then show ?case
  proof (cases t)
    case Nil
    then show ?thesis
      using Cons.prems json_escape_not_quote [of c "concat (map json_escape s) @ CHR 0x22 # x" y] by simp
  next
    case (Cons d t')
    then have "json_escape c @ (concat (map json_escape s) @ CHR 0x22 # x)
               = json_escape d @ (concat (map json_escape t') @ CHR 0x22 # y)"
      using \<open>concat (map json_escape (c # s)) @ CHR 0x22 # x = _\<close> by simp
    from json_escape_inject [OF this] Cons.IH [of t'] Cons show ?thesis by blast
  qed
qed

lemma json_quote_inject: "json_quote s @ x = json_quote t @ y \<Longrightarrow> s = t \<and> x = y"
  unfolding json_quote_def by (rule json_body_inject) (simp del: append_eq_append_conv)

lemma json_leaf_inject:
  assumes "json_leaf_text v @ x = json_leaf_text w @ y"
  shows "v = w \<and> x = y"
proof (cases v; cases w)
  fix s t assume "v = JString s" "w = JString t"
  then show ?thesis using assms json_quote_inject [of s x t y] by (simp add: json_leaf_text_def)
qed (use assms in \<open>simp_all add: json_leaf_text_def json_quote_def\<close>)

text \<open>Two objects with the same keys and the same text have the same members.\<close>

lemma json_members_inject:
  assumes "map fst kvs = map fst lws" "json_members kvs @ x = json_members lws @ y"
  shows "kvs = lws \<and> x = y"
  using assms
proof (induction kvs arbitrary: lws rule: json_members.induct)
  case (2 k v)
  then show ?case using json_leaf_inject by (cases lws) (auto simp: json_quote_def)
next
  case (3 k v kv kvs)
  from "3.prems"(1) obtain w lw lws' where lws: "lws = (k, w) # lw # lws'"
    by (cases lws; cases "tl lws") auto
  from "3.prems"(2) have "json_leaf_text v @ '','' @ json_members (kv # kvs) @ x
      = json_leaf_text w @ '','' @ json_members (lw # lws') @ y"
    unfolding lws by simp
  with json_leaf_inject [OF this] "3.IH" [of "lw # lws'"] "3.prems"(1) show ?case
    by (simp add: lws)
qed simp

lemma json_object_inject:
  "map fst kvs = map fst lws \<Longrightarrow> json_object kvs = json_object lws \<Longrightarrow> kvs = lws"
  using json_members_inject [of kvs lws "''}''" "''}''"] by (simp add: json_object_def)

end
