(* ===== verification/Runtime_Readiness.thy ===== *)
theory Runtime_Readiness
  imports Codify_Models Json_Text
begin

text \<open>
  Runtime readiness, \<^verbatim>\<open>core/worker_runtime_readiness.py\<close>: the locator fingerprint of a mounted Kit,
  the row key per verification level, the effective readiness that the scheduler gate reads, and
  the generation protocol of concurrent checks (\<open>begin_runtime_check\<close>, \<open>finish_runtime_check\<close>,
  \<open>discard_incomplete_runtime_check\<close>, composed by \<open>run_deterministic_kit_probe\<close>).

  \<open>sha256\<close> is the hexadecimal digest; the Docker probe itself is a parameter. The key of a row is a
  non-empty text. \<open>begin_runtime_check\<close> reads the row under a lock, so the retry after a lost
  insertion race is the case in which the row exists.
\<close>

definition READINESS_UNKNOWN :: string where "READINESS_UNKNOWN = ''unknown''"
definition READINESS_READY :: string where "READINESS_READY = ''ready''"
definition READINESS_UNAVAILABLE :: string where "READINESS_UNAVAILABLE = ''unavailable''"

definition READINESS_STATUSES :: "string list" where
  "READINESS_STATUSES = [READINESS_UNKNOWN, READINESS_READY, READINESS_UNAVAILABLE]"

definition BAKED_IMAGE_MODE :: string where "BAKED_IMAGE_MODE = ''baked_image''"
definition MOUNTED_KIT_MODE :: string where "MOUNTED_KIT_MODE = ''mounted_kit''"

record runtime_readiness =
  rr_status :: string
  rr_worker_kit_version :: "string option"
  rr_failure_code :: "string option"
  rr_failure_message :: "string option"
  rr_checked_at :: "timestamp option"
  rr_check_generation :: int
  rr_harness_inventory :: pyval
  rr_kit_identity :: pyval

definition unknown_readiness :: runtime_readiness where
  "unknown_readiness = \<lparr>rr_status = READINESS_UNKNOWN, rr_worker_kit_version = None,
     rr_failure_code = None, rr_failure_message = None, rr_checked_at = None,
     rr_check_generation = 0, rr_harness_inventory = PNone, rr_kit_identity = PNone\<rparr>"

definition is_ready :: "runtime_readiness \<Rightarrow> bool" where
  "is_ready r \<longleftrightarrow> rr_status r = READINESS_READY"

definition is_unavailable :: "runtime_readiness \<Rightarrow> bool" where
  "is_unavailable r \<longleftrightarrow> rr_status r = READINESS_UNAVAILABLE"


section \<open>Keys\<close>

definition runtime_locator_fingerprint ::
  "(string \<Rightarrow> string) \<Rightarrow> string \<Rightarrow> string option \<Rightarrow> string option \<Rightarrow> string option" where
  "runtime_locator_fingerprint sha256 docker_daemon_key runtime_mode worker_kit_path =
     (let mode = py_strip (case runtime_mode of None \<Rightarrow> BAKED_IMAGE_MODE
                           | Some m \<Rightarrow> if m = [] then BAKED_IMAGE_MODE else m)
      in if mode \<noteq> MOUNTED_KIT_MODE then None
         else Some (sha256 (json_object
                [(''docker_daemon_key'', JString docker_daemon_key),
                 (''runtime_mode'', JString mode),
                 (''schema'', JString ''codify.worker-runtime-locator/v1''),
                 (''worker_kit_path'', json_of_option worker_kit_path)])))"

definition readiness_scope_payload :: "string \<Rightarrow> string" where
  "readiness_scope_payload locator = json_object
     [(''locator_fingerprint'', JString locator),
      (''require_content_inventory'', JTrue),
      (''schema'', JString ''codify.worker-runtime-readiness/v1'')]"

definition runtime_readiness_fingerprint ::
  "(string \<Rightarrow> string) \<Rightarrow> string option \<Rightarrow> bool \<Rightarrow> string option" where
  "runtime_readiness_fingerprint sha256 locator_fingerprint require_content_inventory =
     (case locator_fingerprint of None \<Rightarrow> None | Some f \<Rightarrow>
        if f = [] then None
        else if \<not> require_content_inventory then Some f
        else Some (sha256 (readiness_scope_payload f)))"


section \<open>Reading\<close>

definition get_readiness :: "database \<Rightarrow> string \<Rightarrow> readiness_row option" where
  "get_readiness d k = row_by ready_fingerprint k (readiness d)"

definition read_runtime_readiness ::
  "(string \<Rightarrow> string) \<Rightarrow> database \<Rightarrow> string option \<Rightarrow> bool \<Rightarrow> runtime_readiness" where
  "read_runtime_readiness sha256 d fingerprint req =
     (case runtime_readiness_fingerprint sha256 fingerprint req of
        None \<Rightarrow> unknown_readiness
      | Some k \<Rightarrow> if k = [] then unknown_readiness else
          (case get_readiness d k of
             None \<Rightarrow> unknown_readiness
           | Some row \<Rightarrow> \<lparr>rr_status = (if ready_status row \<in> set READINESS_STATUSES
                                       then ready_status row else READINESS_UNKNOWN),
               rr_worker_kit_version = ready_worker_kit_version row,
               rr_failure_code = ready_failure_code row,
               rr_failure_message = ready_failure_message row,
               rr_checked_at = ready_checked_at row,
               rr_check_generation = ready_check_generation row,
               rr_harness_inventory = ready_harness_inventory row,
               rr_kit_identity = ready_kit_identity row\<rparr>))"

text \<open>\<open>None\<close>: no inventory evidence, which no caller may reject on.\<close>

definition is_harness_available :: "runtime_readiness \<Rightarrow> string \<Rightarrow> bool option" where
  "is_harness_available r harness_key =
     (case rr_harness_inventory r of
        PDict inventory \<Rightarrow>
          if inventory = [] then None
          else if rr_status r = READINESS_UNAVAILABLE then Some False
          else (case dict_get inventory harness_key of
                  PDict entry \<Rightarrow> Some (dict_get entry ''availability'' = PStr ''present'')
                | _ \<Rightarrow> Some False)
      | _ \<Rightarrow> None)"


section \<open>Checks\<close>

text \<open>The outcome of one deterministic probe, \<^verbatim>\<open>RuntimeCheckResult\<close>.\<close>

record check_result =
  check_status :: string
  check_failure_code :: "string option"
  check_failure_message :: "string option"
  check_harness_inventory :: pyval
  check_kit_identity :: pyval

definition fresh_readiness_row :: "string \<Rightarrow> readiness_row" where
  "fresh_readiness_row k = \<lparr>ready_fingerprint = k, ready_docker_daemon_key = None,
     ready_runtime_mode = None, ready_worker_kit_version = None, ready_worker_kit_path = None,
     ready_status = READINESS_UNKNOWN, ready_failure_code = None, ready_failure_message = None,
     ready_checked_at = None, ready_check_generation = 0, ready_harness_inventory = PNone,
     ready_kit_identity = PNone, ready_check_started_at = None\<rparr>"

definition started_check ::
  "string \<Rightarrow> string \<Rightarrow> string option \<Rightarrow> timestamp \<Rightarrow> readiness_row \<Rightarrow> readiness_row" where
  "started_check daemon_key runtime_mode kit_path now row =
     row\<lparr>ready_check_generation := ready_check_generation row + 1,
         ready_check_started_at := Some now, ready_docker_daemon_key := Some daemon_key,
         ready_runtime_mode := Some runtime_mode, ready_worker_kit_path := kit_path\<rparr>"

definition begin_runtime_check ::
  "(string \<Rightarrow> string) \<Rightarrow> database \<Rightarrow> string option \<Rightarrow> string \<Rightarrow> string \<Rightarrow> string option \<Rightarrow> bool \<Rightarrow> timestamp
     \<Rightarrow> (string, int \<times> database) result" where
  "begin_runtime_check sha256 d fingerprint daemon_key runtime_mode kit_path req now =
     (case runtime_readiness_fingerprint sha256 fingerprint req of
        None \<Rightarrow> Inl ''ValueError''
      | Some k \<Rightarrow> if k = [] then Inl ''ValueError'' else
          (let start = started_check daemon_key runtime_mode kit_path now in
           case get_readiness d k of
             None \<Rightarrow>
               let row = start (fresh_readiness_row k)
               in Inr (ready_check_generation row, d\<lparr>readiness := readiness d @ [row]\<rparr>)
           | Some row \<Rightarrow>
               Inr (ready_check_generation (start row),
                    d\<lparr>readiness := update_where (\<lambda>r. ready_fingerprint r = k) start (readiness d)\<rparr>)))"

definition concluded :: "check_result \<Rightarrow> string option \<Rightarrow> timestamp \<Rightarrow> readiness_row \<Rightarrow> readiness_row" where
  "concluded r kit_version now row =
     row\<lparr>ready_status := check_status r, ready_checked_at := Some now,
         ready_failure_code := check_failure_code r, ready_failure_message := check_failure_message r,
         ready_harness_inventory := check_harness_inventory r,
         ready_kit_identity := check_kit_identity r, ready_worker_kit_version := kit_version\<rparr>"

definition finish_runtime_check ::
  "(string \<Rightarrow> string) \<Rightarrow> database \<Rightarrow> string option \<Rightarrow> int \<Rightarrow> check_result \<Rightarrow> string option \<Rightarrow> bool \<Rightarrow> timestamp
     \<Rightarrow> (string, bool \<times> database) result" where
  "finish_runtime_check sha256 d fingerprint generation r kit_version req now =
     (if check_status r \<notin> set READINESS_STATUSES then Inl ''ValueError''
      else case runtime_readiness_fingerprint sha256 fingerprint req of
        None \<Rightarrow> Inl ''ValueError''
      | Some k \<Rightarrow> if k = [] then Inl ''ValueError'' else
          (let hit = (\<lambda>row. ready_fingerprint row = k \<and> ready_check_generation row = generation)
           in Inr (length (filter hit (readiness d)) = 1,
                   d\<lparr>readiness := update_where hit (concluded r kit_version now) (readiness d)\<rparr>)))"

definition discard_incomplete_runtime_check ::
  "(string \<Rightarrow> string) \<Rightarrow> database \<Rightarrow> string option \<Rightarrow> int \<Rightarrow> bool \<Rightarrow> database" where
  "discard_incomplete_runtime_check sha256 d fingerprint generation req =
     (case runtime_readiness_fingerprint sha256 fingerprint req of
        None \<Rightarrow> d
      | Some k \<Rightarrow> if k = [] then d else
          (case get_readiness d k of
             None \<Rightarrow> d
           | Some row \<Rightarrow>
               if ready_check_generation row = generation \<and> ready_status row = READINESS_UNKNOWN
                  \<and> ready_checked_at row = None
               then d\<lparr>readiness := filter (\<lambda>r. ready_fingerprint r \<noteq> k) (readiness d)\<rparr>
               else d))"

text \<open>The version a committed result records, \<^verbatim>\<open>result.kit_identity.get("kit_version")\<close>.\<close>

definition result_kit_version :: "check_result \<Rightarrow> string option" where
  "result_kit_version r = (case check_kit_identity r of
     PDict e \<Rightarrow> (case dict_get e ''kit_version'' of PStr v \<Rightarrow> Some v | _ \<Rightarrow> None) | _ \<Rightarrow> None)"

datatype probe_error = ProbeValueError string | RuntimeProbeTransientError

text \<open>
  The whole probe. \<open>probe\<close> is the Docker inspection, \<open>None\<close> when it is transient; \<open>others\<close> is what
  other sessions commit between the start of the check and its end. A transient probe re-raises
  after the discard, whose database is the one that stays.
\<close>

definition run_deterministic_kit_probe ::
  "(string \<Rightarrow> string) \<Rightarrow> check_result option \<Rightarrow> (database \<Rightarrow> database) \<Rightarrow> database
     \<Rightarrow> string \<Rightarrow> string \<Rightarrow> string option \<Rightarrow> bool \<Rightarrow> timestamp \<Rightarrow> timestamp
     \<Rightarrow> (probe_error, runtime_readiness \<times> bool) result \<times> database" where
  "run_deterministic_kit_probe sha256 probe others d daemon_key runtime_mode kit_path req now later =
     (let fp = runtime_locator_fingerprint sha256 daemon_key (Some runtime_mode) kit_path in
      if fp = None then (Inr (unknown_readiness, False), d)
      else case begin_runtime_check sha256 d fp daemon_key runtime_mode kit_path req now of
        Inl e \<Rightarrow> (Inl (ProbeValueError e), d)
      | Inr (generation, d1) \<Rightarrow>
          (let d2 = others d1 in
           case probe of
             None \<Rightarrow> (Inl RuntimeProbeTransientError,
                       discard_incomplete_runtime_check sha256 d2 fp generation req)
           | Some r \<Rightarrow>
               (case finish_runtime_check sha256 d2 fp generation r (result_kit_version r) req later of
                  Inl e \<Rightarrow> (Inl (ProbeValueError e), d2)
                | Inr (committed, d3) \<Rightarrow>
                    (Inr (read_runtime_readiness sha256 d3 fp req, committed), d3))))"

text \<open>
  After a container error that looks like a Kit error: only a determinate \<open>unavailable\<close> replaces
  the original error. \<open>Some code\<close> is \<^verbatim>\<open>WorkerRuntimeUnavailableError\<close>.
\<close>

definition recheck_runtime_on_container_error ::
  "(probe_error, runtime_readiness \<times> bool) result \<Rightarrow> (probe_error, string option option) result" where
  "recheck_runtime_on_container_error outcome =
     (case outcome of
        Inl RuntimeProbeTransientError \<Rightarrow> Inr None
      | Inl e \<Rightarrow> Inl e
      | Inr (r, _) \<Rightarrow> Inr (if is_unavailable r then Some (rr_failure_code r) else None))"



section \<open>Interleaved checks\<close>

text \<open>What the sessions do to the table: starts, results and discards of checks of any locator.\<close>

datatype check_op =
    BeginCheck "string option" string string "string option" bool timestamp
  | FinishCheck "string option" int check_result "string option" bool timestamp
  | DiscardCheck "string option" int bool

fun run_check_op :: "(string \<Rightarrow> string) \<Rightarrow> check_op \<Rightarrow> database \<Rightarrow> database" where
  "run_check_op sha256 (BeginCheck fp daemon_key mode path req now) d =
     (case begin_runtime_check sha256 d fp daemon_key mode path req now of Inl _ \<Rightarrow> d | Inr (_, d') \<Rightarrow> d')"
| "run_check_op sha256 (FinishCheck fp g r v req now) d =
     (case finish_runtime_check sha256 d fp g r v req now of Inl _ \<Rightarrow> d | Inr (_, d') \<Rightarrow> d')"
| "run_check_op sha256 (DiscardCheck fp g req) d = discard_incomplete_runtime_check sha256 d fp g req"

definition run_check_ops :: "(string \<Rightarrow> string) \<Rightarrow> check_op list \<Rightarrow> database \<Rightarrow> database" where
  "run_check_ops sha256 ops d = foldl (\<lambda>d op. run_check_op sha256 op d) d ops"

definition starts_check :: "(string \<Rightarrow> string) \<Rightarrow> string \<Rightarrow> check_op \<Rightarrow> bool" where
  "starts_check sha256 k op = (case op of
     BeginCheck fp _ _ _ req _ \<Rightarrow> runtime_readiness_fingerprint sha256 fp req = Some k | _ \<Rightarrow> False)"

definition is_discard :: "check_op \<Rightarrow> bool" where
  "is_discard op = (case op of DiscardCheck _ _ _ \<Rightarrow> True | _ \<Rightarrow> False)"

definition wf_readiness :: "database \<Rightarrow> bool" where
  "wf_readiness d \<longleftrightarrow> distinct (map ready_fingerprint (readiness d))"

definition current_generation :: "database \<Rightarrow> string \<Rightarrow> int" where
  "current_generation d k = (case get_readiness d k of None \<Rightarrow> 0 | Some row \<Rightarrow> ready_check_generation row)"

lemma check_columns [simp]:
  "ready_fingerprint (started_check a b c n row) = ready_fingerprint row"
  "ready_check_generation (started_check a b c n row) = ready_check_generation row + 1"
  "ready_status (started_check a b c n row) = ready_status row"
  "ready_fingerprint (concluded r v n row) = ready_fingerprint row"
  "ready_check_generation (concluded r v n row) = ready_check_generation row"
  "ready_fingerprint (fresh_readiness_row k) = k"
  "ready_check_generation (fresh_readiness_row k) = 0"
  by (simp_all add: started_check_def concluded_def fresh_readiness_row_def)

lemma get_readiness_started:
  "row_by ready_fingerprint k' (update_where (\<lambda>r. ready_fingerprint r = k) (started_check a b c n) rows)
    = (if k' = k then map_option (started_check a b c n) (row_by ready_fingerprint k rows)
       else row_by ready_fingerprint k' rows)"
  by (induction rows) auto

lemma begin_generation:
  assumes "begin_runtime_check sha256 d fp daemon_key mode path req now = Inr (g, d')"
    "runtime_readiness_fingerprint sha256 fp req = Some k"
  shows "g = current_generation d k + 1" "current_generation d' k = g"
    "k' \<noteq> k \<Longrightarrow> get_readiness d' k' = get_readiness d k'"
    "wf_readiness d \<Longrightarrow> wf_readiness d'"
proof -
  have "k \<noteq> []" using assms by (auto simp: begin_runtime_check_def)
  note run = assms(1) [unfolded begin_runtime_check_def assms(2)]
  consider (new) "row_by ready_fingerprint k (readiness d) = None"
    | (old) row where "row_by ready_fingerprint k (readiness d) = Some row" by fastforce
  then have "g = current_generation d k + 1 \<and> current_generation d' k = g
    \<and> (k' \<noteq> k \<longrightarrow> get_readiness d' k' = get_readiness d k') \<and> (wf_readiness d \<longrightarrow> wf_readiness d')"
  proof cases
    case new
    then have "k \<notin> ready_fingerprint ` set (readiness d)" by (simp add: row_by_None_iff)
    then show ?thesis using run new \<open>k \<noteq> []\<close>
      by (auto simp: Let_def current_generation_def get_readiness_def wf_readiness_def row_by_append
          split: option.splits)
  next
    case old
    then show ?thesis using run \<open>k \<noteq> []\<close>
      by (auto simp: Let_def current_generation_def get_readiness_def wf_readiness_def
          get_readiness_started map_key_update_where)
  qed
  then show "g = current_generation d k + 1" "current_generation d' k = g"
    "k' \<noteq> k \<Longrightarrow> get_readiness d' k' = get_readiness d k'" "wf_readiness d \<Longrightarrow> wf_readiness d'"
    by blast+
qed

lemma finish_generation:
  assumes "finish_runtime_check sha256 d fp g r v req now = Inr (b, d')"
  shows "current_generation d' k = current_generation d k" "wf_readiness d \<Longrightarrow> wf_readiness d'"
  using assms
  by (auto simp: finish_runtime_check_def Let_def current_generation_def get_readiness_def wf_readiness_def
      row_by_update_where map_key_update_where split: option.splits if_splits)


lemma run_check_op_generation:
  assumes "\<not> is_discard op"
  shows "current_generation d k \<le> current_generation (run_check_op sha256 op d) k"
    and "wf_readiness d \<Longrightarrow> wf_readiness (run_check_op sha256 op d)"
    and "starts_check sha256 k op \<Longrightarrow> k \<noteq> [] \<Longrightarrow> current_generation d k < current_generation (run_check_op sha256 op d) k"
proof -
  have "current_generation d k \<le> current_generation (run_check_op sha256 op d) k
    \<and> (wf_readiness d \<longrightarrow> wf_readiness (run_check_op sha256 op d))
    \<and> (starts_check sha256 k op \<and> k \<noteq> [] \<longrightarrow> current_generation d k < current_generation (run_check_op sha256 op d) k)"
  proof (cases op)
    case (BeginCheck fp daemon_key mode path req now)
    show ?thesis
    proof (cases "begin_runtime_check sha256 d fp daemon_key mode path req now")
      case (Inl e)
      then show ?thesis
        using BeginCheck by (auto simp: starts_check_def begin_runtime_check_def Let_def split: option.splits if_splits)
    next
      case (Inr r)
      obtain g d' where r: "r = (g, d')" by fastforce
      obtain l where l: "runtime_readiness_fingerprint sha256 fp req = Some l"
        using Inr by (auto simp: begin_runtime_check_def split: option.splits)
      note facts = begin_generation [OF Inr [unfolded r] l]
      show ?thesis using facts(1,2,4) facts(3) [of k] BeginCheck Inr r l
        by (cases "k = l") (auto simp: starts_check_def current_generation_def)
    qed
  next
    case (FinishCheck fp g r v req now)
    then show ?thesis
      using finish_generation [of sha256 d fp g r v req now]
      by (auto simp: starts_check_def split: sum.splits)
  next
    case (DiscardCheck fp g req)
    then show ?thesis using assms by (simp add: is_discard_def)
  qed
  then show "current_generation d k \<le> current_generation (run_check_op sha256 op d) k"
    and "wf_readiness d \<Longrightarrow> wf_readiness (run_check_op sha256 op d)"
    and "starts_check sha256 k op \<Longrightarrow> k \<noteq> [] \<Longrightarrow> current_generation d k < current_generation (run_check_op sha256 op d) k"
    by blast+
qed

lemma run_check_ops_generation:
  assumes "list_all (\<lambda>op. \<not> is_discard op) ops" "k \<noteq> []"
  shows "current_generation d k \<le> current_generation (run_check_ops sha256 ops d) k
    \<and> (wf_readiness d \<longrightarrow> wf_readiness (run_check_ops sha256 ops d))
    \<and> (list_ex (starts_check sha256 k) ops \<longrightarrow> current_generation d k < current_generation (run_check_ops sha256 ops d) k)"
  using assms
proof (induction ops arbitrary: d)
  case (Cons op ops)
  let ?d = "run_check_op sha256 op d"
  have run: "run_check_ops sha256 (op # ops) d = run_check_ops sha256 ops ?d"
    by (simp add: run_check_ops_def)
  have op: "\<not> is_discard op" and ops: "list_all (\<lambda>op. \<not> is_discard op) ops" using Cons.prems by simp_all
  show ?case
    unfolding run using run_check_op_generation(1) [OF op, of d k sha256]
      run_check_op_generation(2) [OF op, of d sha256] run_check_op_generation(3) [OF op, of sha256 k d]
      Cons.IH [OF ops Cons.prems(2), of ?d] Cons.prems(2)
    by auto
qed (simp add: run_check_ops_def)

lemma finish_stale:
  assumes "runtime_readiness_fingerprint sha256 fp req = Some k" "k \<noteq> []" "check_status r \<in> set READINESS_STATUSES"
    "wf_readiness d" "current_generation d k > g" "g > 0"
  shows "finish_runtime_check sha256 d fp g r v req now = Inr (False, d)"
proof -
  have no: "\<not> (ready_fingerprint row = k \<and> ready_check_generation row = g)" if "row \<in> set (readiness d)" for row
    using that assms(4-6) row_by_unique [of ready_fingerprint "readiness d" row]
    by (auto simp: wf_readiness_def current_generation_def get_readiness_def)
  then have "filter (\<lambda>row. ready_fingerprint row = k \<and> ready_check_generation row = g) (readiness d) = []"
    by (simp add: filter_empty_conv)
  moreover have "update_where (\<lambda>row. ready_fingerprint row = k \<and> ready_check_generation row = g) f (readiness d) = readiness d" for f
    using no by (intro update_where_none) blast
  ultimately show ?thesis using assms(1-3) by (simp add: finish_runtime_check_def Let_def)
qed



text \<open>A V2 check writes the row of its scoped key only.\<close>

lemma untouched_key:
  assumes "sha256 (readiness_scope_payload f2) \<noteq> f1"
  shows "read_runtime_readiness sha256 (run_check_op sha256 (BeginCheck (Some f2) a m p True now) d) (Some f1) False
           = read_runtime_readiness sha256 d (Some f1) False"
    and "read_runtime_readiness sha256 (run_check_op sha256 (FinishCheck (Some f2) g r v True now) d) (Some f1) False
           = read_runtime_readiness sha256 d (Some f1) False"
proof -
  have read: "read_runtime_readiness sha256 d' (Some f1) False = read_runtime_readiness sha256 d (Some f1) False"
    if "get_readiness d' f1 = get_readiness d f1" for d'
    using that by (simp add: read_runtime_readiness_def runtime_readiness_fingerprint_def)
  let ?k = "sha256 (readiness_scope_payload f2)"
  have "get_readiness (run_check_op sha256 (BeginCheck (Some f2) a m p True now) d) f1 = get_readiness d f1"
  proof (cases "begin_runtime_check sha256 d (Some f2) a m p True now")
    case (Inr x)
    obtain g' d' where x: "x = (g', d')" by fastforce
    have "f2 \<noteq> []" using Inr by (auto simp: begin_runtime_check_def runtime_readiness_fingerprint_def)
    then have "runtime_readiness_fingerprint sha256 (Some f2) True = Some ?k"
      by (simp add: runtime_readiness_fingerprint_def)
    from begin_generation(3) [OF Inr [unfolded x] this] assms Inr x show ?thesis by simp
  qed simp
  then show "read_runtime_readiness sha256 (run_check_op sha256 (BeginCheck (Some f2) a m p True now) d) (Some f1) False
           = read_runtime_readiness sha256 d (Some f1) False" by (rule read)
  have "get_readiness (run_check_op sha256 (FinishCheck (Some f2) g r v True now) d) f1 = get_readiness d f1"
  proof -
    have "row_by ready_fingerprint f1 (update_where (\<lambda>row. ready_fingerprint row = ?k \<and> ready_check_generation row = g)
            (concluded r v now) rows) = row_by ready_fingerprint f1 rows" for rows
      using assms by (induction rows) auto
    then show ?thesis
      by (auto simp: finish_runtime_check_def Let_def get_readiness_def runtime_readiness_fingerprint_def)
  qed
  then show "read_runtime_readiness sha256 (run_check_op sha256 (FinishCheck (Some f2) g r v True now) d) (Some f1) False
           = read_runtime_readiness sha256 d (Some f1) False" by (rule read)
qed


section \<open>Properties of the readiness protocol\<close>

text \<open>
  Later started checks win: once another check of the same row has started, the result of the
  earlier one is refused and changes nothing, whatever other checks of any row started or finished
  in between. No row is discarded in between; that case is the next theorem.
\<close>

theorem late_result_is_refused:
  assumes run: "begin_runtime_check sha256 d fp daemon_key mode path req now = Inr (g, d1)"
    and key: "runtime_readiness_fingerprint sha256 fp req = Some k"
    and wf: "wf_readiness d" and pos: "current_generation d k \<ge> 0"
    and ops: "list_all (\<lambda>op. \<not> is_discard op) ops" "list_ex (starts_check sha256 k) ops"
    and status: "check_status r \<in> set READINESS_STATUSES"
  shows "finish_runtime_check sha256 (run_check_ops sha256 ops d1) fp g r v req later
         = Inr (False, run_check_ops sha256 ops d1)"
proof -
  have "k \<noteq> []" using run key by (auto simp: begin_runtime_check_def)
  note start = begin_generation [OF run key]
  from run_check_ops_generation [OF ops(1) \<open>k \<noteq> []\<close>, of d1 sha256] ops(2) start(2,4) wf start(1) pos
  show ?thesis by (intro finish_stale [OF key \<open>k \<noteq> []\<close> status]) auto
qed

text \<open>
  A discard breaks the rule. Check A starts; check B starts, ends transiently and discards the
  row; check C starts and counts from 1 again, so the late result of A, of the same generation as
  C, is committed although C started after it.
\<close>

theorem discard_lets_a_late_result_through:
  "(\<exists>d. begin_runtime_check sha256 (sample_db [] []) (Some ''f'') ''tcp://h'' ''mounted_kit'' (Some ''/kit'') False 1
        = Inr (1, d))
   \<and> (\<exists>d. finish_runtime_check sha256 (run_check_ops sha256
              [BeginCheck (Some ''f'') ''tcp://h'' ''mounted_kit'' (Some ''/kit'') False 1,
               BeginCheck (Some ''f'') ''tcp://h'' ''mounted_kit'' (Some ''/kit'') False 2,
               DiscardCheck (Some ''f'') 2 False,
               BeginCheck (Some ''f'') ''tcp://h'' ''mounted_kit'' (Some ''/kit'') False 3] (sample_db [] []))
            (Some ''f'') 1 \<lparr>check_status = READINESS_UNAVAILABLE, check_failure_code = None,
              check_failure_message = None, check_harness_inventory = PNone, check_kit_identity = PNone\<rparr>
            None False 4 = Inr (True, d)
        \<and> is_unavailable (read_runtime_readiness sha256 d (Some ''f'') False))"
  by (simp add: sample_defs begin_runtime_check_def run_check_ops_def runtime_readiness_fingerprint_def
        get_readiness_def Let_def fresh_readiness_row_def started_check_def READINESS_UNKNOWN_def
        discard_incomplete_runtime_check_def finish_runtime_check_def READINESS_STATUSES_def
        READINESS_UNAVAILABLE_def READINESS_READY_def read_runtime_readiness_def concluded_def
        is_unavailable_def)

text \<open>
  The keys identify what they stand for. With a digest that does not collide, two mounted Kits
  have the same locator fingerprint only when daemon and path agree, and a check at the V2 level,
  started or concluded, never changes the readiness that a V1 task reads for any mounted Kit.
\<close>

theorem readiness_keys_separate:
  assumes digest: "inj sha256"
    and l1: "runtime_locator_fingerprint sha256 daemon1 mode1 path1 = Some f1"
    and l2: "runtime_locator_fingerprint sha256 daemon2 mode2 path2 = Some f2"
  shows "(f1 = f2) = (daemon1 = daemon2 \<and> path1 = path2)
    \<and> read_runtime_readiness sha256 (run_check_op sha256 (BeginCheck (Some f2) daemon2 m p True now) d) (Some f1) False
        = read_runtime_readiness sha256 d (Some f1) False
    \<and> read_runtime_readiness sha256 (run_check_op sha256 (FinishCheck (Some f2) g r v True now) d) (Some f1) False
        = read_runtime_readiness sha256 d (Some f1) False"
proof -
  define locator where "locator = (\<lambda>daemon path. json_object
    [(''docker_daemon_key'', JString daemon), (''runtime_mode'', JString MOUNTED_KIT_MODE),
     (''schema'', JString ''codify.worker-runtime-locator/v1''), (''worker_kit_path'', json_of_option path)])"
  have f: "f1 = sha256 (locator daemon1 path1)" "f2 = sha256 (locator daemon2 path2)"
    using l1 l2 by (auto simp: runtime_locator_fingerprint_def locator_def Let_def split: if_splits)
  have "locator daemon1 path1 = locator daemon2 path2 \<longleftrightarrow> daemon1 = daemon2 \<and> path1 = path2"
    using json_object_inject [of
        "[(''docker_daemon_key'', JString daemon1), (''runtime_mode'', JString MOUNTED_KIT_MODE),
          (''schema'', JString ''codify.worker-runtime-locator/v1''), (''worker_kit_path'', json_of_option path1)]"
        "[(''docker_daemon_key'', JString daemon2), (''runtime_mode'', JString MOUNTED_KIT_MODE),
          (''schema'', JString ''codify.worker-runtime-locator/v1''), (''worker_kit_path'', json_of_option path2)]"]
    unfolding locator_def by (auto simp: json_of_option_def split: option.splits)
  then have ids: "(f1 = f2) = (daemon1 = daemon2 \<and> path1 = path2)"
    using f inj_eq [OF digest] by simp
  have "locator daemon1 path1 \<noteq> readiness_scope_payload f2"
    by (simp add: locator_def readiness_scope_payload_def json_object_def json_quote_def json_escape_def)
  then have keys: "sha256 (readiness_scope_payload f2) \<noteq> f1"
    using f inj_eq [OF digest] by metis
  show ?thesis using ids untouched_key [of sha256 f2 f1, OF keys] by simp
qed



section \<open>Concrete runs\<close>

definition ready_result :: check_result where
  "ready_result = \<lparr>check_status = READINESS_READY, check_failure_code = None,
     check_failure_message = None, check_harness_inventory = PNone, check_kit_identity = PNone\<rparr>"

theorem late_result_is_refused_witness:
  "\<exists>d1. begin_runtime_check (\<lambda>s. s) (sample_db [] []) (Some ''f'') ''tcp://h'' ''mounted_kit'' None False 1 = Inr (1, d1)
     \<and> finish_runtime_check (\<lambda>s. s) (run_check_ops (\<lambda>s. s)
           [BeginCheck (Some ''f'') ''tcp://h'' ''mounted_kit'' None False 2] d1) (Some ''f'') 1 ready_result None False 3
       = Inr (False, run_check_ops (\<lambda>s. s) [BeginCheck (Some ''f'') ''tcp://h'' ''mounted_kit'' None False 2] d1)"
proof -
  obtain d1 where d1: "begin_runtime_check (\<lambda>s. s) (sample_db [] []) (Some ''f'') ''tcp://h'' ''mounted_kit'' None False 1 = Inr (1, d1)"
    by (simp add: begin_runtime_check_def runtime_readiness_fingerprint_def get_readiness_def sample_defs Let_def)
  have "wf_readiness (sample_db [] [])" "current_generation (sample_db [] []) ''f'' \<ge> 0"
    "runtime_readiness_fingerprint (\<lambda>s. s) (Some ''f'') False = Some ''f''"
    "check_status ready_result \<in> set READINESS_STATUSES"
    by (simp_all add: wf_readiness_def current_generation_def get_readiness_def sample_defs
        runtime_readiness_fingerprint_def ready_result_def READINESS_STATUSES_def)
  then show ?thesis
    using d1 late_result_is_refused [OF d1, of "''f''" "[BeginCheck (Some ''f'') ''tcp://h'' ''mounted_kit'' None False 2]"
        ready_result None 3]
    by (simp add: is_discard_def starts_check_def)
qed

theorem readiness_keys_separate_witness:
  "runtime_locator_fingerprint (\<lambda>s. s) ''tcp://a'' (Some ''mounted_kit'') (Some ''/kit'')
     \<noteq> runtime_locator_fingerprint (\<lambda>s. s) ''tcp://b'' (Some ''mounted_kit'') (Some ''/kit'')"
proof -
  have "py_strip ''mounted_kit'' = MOUNTED_KIT_MODE" by code_simp
  then have "\<exists>f. runtime_locator_fingerprint (\<lambda>s. s) a (Some ''mounted_kit'') (Some ''/kit'') = Some f" for a
    by (simp add: runtime_locator_fingerprint_def Let_def)
  then obtain f1 f2 where
    f1: "runtime_locator_fingerprint (\<lambda>s. s) ''tcp://a'' (Some ''mounted_kit'') (Some ''/kit'') = Some f1" and
    f2: "runtime_locator_fingerprint (\<lambda>s. s) ''tcp://b'' (Some ''mounted_kit'') (Some ''/kit'') = Some f2"
    by metis
  have "inj (\<lambda>s :: string. s)" by simp
  from readiness_keys_separate [OF this f1 f2] f1 f2 show ?thesis by simp
qed

end
