(* ===== verification/Execution_Policy.thy ===== *)
theory Execution_Policy
  imports Codify_Models
begin

text \<open>
  The execution contract policy of \<^verbatim>\<open>core/harness_execution_policy.py\<close>, with the protocol
  declaration reader of \<^verbatim>\<open>core/harness_registry.py\<close> it calls. Every writer of runnable state
  passes through \<open>require_task_executable_contract\<close>, which compares the frozen snapshot of a task
  with the Runtime Bundle it is bound to.

  An \<^verbatim>\<open>ExecutionPolicyError\<close> is its stable \<^verbatim>\<open>code\<close>; the human-readable message is left out. A
  missing row (\<^verbatim>\<open>None\<close>) has every attribute \<^verbatim>\<open>None\<close>, as \<^verbatim>\<open>getattr(row, name, None)\<close> reads it.
\<close>

section \<open>Constants\<close>

definition HARNESS_CONTRACT_VERSION_V2 :: string where
  "HARNESS_CONTRACT_VERSION_V2 = ''codify.worker.harness/v2''"

definition HARNESS_CONTRACT_VERSION :: string where
  "HARNESS_CONTRACT_VERSION = ''codify.worker.harness/v1''"

definition CANONICAL_EVENT_SCHEMA_V2 :: string where
  "CANONICAL_EVENT_SCHEMA_V2 = ''codify.worker.event/v2''"

definition HARNESS_EXECUTION_MODES :: "string list" where
  "HARNESS_EXECUTION_MODES = [''v2_only'']"

definition LEGACY_CONTRACT_NOT_EXECUTABLE :: string where
  "LEGACY_CONTRACT_NOT_EXECUTABLE = ''legacy_contract_not_executable''"

definition MISSING_EXECUTION_ATTEMPT :: string where
  "MISSING_EXECUTION_ATTEMPT = ''missing_execution_attempt''"

definition MODEL_PROTOCOLS :: "string list" where
  "MODEL_PROTOCOLS = [''anthropic_messages'', ''openai_responses'', ''openai_chat_completions'']"

definition HARNESS_KEYS :: "string list" where
  "HARNESS_KEYS = [''pi'', ''opencode'', ''claude'', ''codex'']"

text \<open>The protocol column of \<^verbatim>\<open>HARNESS_PROTOCOL_MATRIX\<close>.\<close>

definition HARNESS_PROVIDER_PROTOCOLS :: "(string \<times> string list) list" where
  "HARNESS_PROVIDER_PROTOCOLS =
     [(''pi'', [''anthropic_messages'', ''openai_responses'', ''openai_chat_completions'']),
      (''opencode'', [''anthropic_messages'', ''openai_responses'', ''openai_chat_completions'']),
      (''claude'', [''anthropic_messages'']),
      (''codex'', [''openai_responses''])]"

lemmas contract_version_defs =
  HARNESS_CONTRACT_VERSION_V2_def HARNESS_CONTRACT_VERSION_def CANONICAL_EVENT_SCHEMA_V2_def

lemma contract_versions_differ [simp]:
  "HARNESS_CONTRACT_VERSION \<noteq> HARNESS_CONTRACT_VERSION_V2"
  "HARNESS_CONTRACT_VERSION_V2 \<noteq> HARNESS_CONTRACT_VERSION"
  by (simp_all add: contract_version_defs)


section \<open>The bundle's protocol declaration\<close>

text \<open>
  The loop over the declared protocols: each one a non-blank string that, with \<^verbatim>\<open>-\<close> read as
  \<^verbatim>\<open>_\<close>, is a known model protocol. \<open>None\<close> is \<^verbatim>\<open>HarnessRegistryError\<close>.
\<close>

fun normalize_protocols :: "pyval list \<Rightarrow> string list option" where
  "normalize_protocols [] = Some []"
| "normalize_protocols (v # vs) = (case v of
     PStr s \<Rightarrow> (if non_blank s \<and> replace_char (CHR ''-'') (CHR ''_'') s \<in> set MODEL_PROTOCOLS
               then map_option (Cons (replace_char (CHR ''-'') (CHR ''_'') s)) (normalize_protocols vs)
               else None)
   | _ \<Rightarrow> None)"

definition runtime_bundle_model_protocols :: "runtime_bundle \<Rightarrow> string \<Rightarrow> string list option" where
  "runtime_bundle_model_protocols b key =
     (if key \<notin> set HARNESS_KEYS then None
      else case dict_get (bundle_manifest b) ''adapters'' of
        PDict adapters \<Rightarrow> (case dict_get adapters key of
          PDict adapter \<Rightarrow>
            (let protocols = (if dict_get adapter ''model_protocols'' = PNone
                              then dict_get adapter ''provider_protocols''
                              else dict_get adapter ''model_protocols'')
             in case protocols of
                  PList ps \<Rightarrow> (if ps = [] then None
                    else case normalize_protocols ps of
                      None \<Rightarrow> None
                    | Some ns \<Rightarrow> (case map_of HARNESS_PROVIDER_PROTOCOLS key of
                        None \<Rightarrow> None
                      | Some bound \<Rightarrow> if set ns \<subseteq> set bound then Some ns else None))
                | _ \<Rightarrow> None)
        | _ \<Rightarrow> None)
      | _ \<Rightarrow> None)"


section \<open>The gates\<close>

definition validate_harness_execution_mode :: "string \<Rightarrow> (string, unit) result" where
  "validate_harness_execution_mode mode =
     require (mode \<in> set HARNESS_EXECUTION_MODES) ''invalid_harness_execution_mode''"

definition is_v2_only :: "string \<Rightarrow> bool" where
  "is_v2_only mode \<longleftrightarrow> mode = ''v2_only''"

definition bundle_version :: "runtime_bundle option \<Rightarrow> string option" where
  "bundle_version b = map_option bundle_contract_version b"

definition require_executable_contract :: "runtime_bundle option \<Rightarrow> (string, unit) result" where
  "require_executable_contract b =
     require (bundle_version b = Some HARNESS_CONTRACT_VERSION_V2)
       (if bundle_version b = Some HARNESS_CONTRACT_VERSION
        then LEGACY_CONTRACT_NOT_EXECUTABLE else ''missing_executable_contract'')"

definition require_executable_contract_v2 ::
  "harness_attempt \<Rightarrow> runtime_bundle option \<Rightarrow> (string, unit) result" where
  "require_executable_contract_v2 a b =
     bind_result (require_executable_contract b) (\<lambda>_.
     bind_result (require (attempt_event_schema a = CANONICAL_EVENT_SCHEMA_V2)
                    LEGACY_CONTRACT_NOT_EXECUTABLE) (\<lambda>_.
     require (bundle_version b = Some HARNESS_CONTRACT_VERSION_V2) LEGACY_CONTRACT_NOT_EXECUTABLE))"

text \<open>
  \<^verbatim>\<open>harness_key in adapters\<close>, for the value the manifest holds under \<^verbatim>\<open>adapters\<close>: a key of a dictionary,
  a member of a list, a part of a string. For a number the test raises \<^verbatim>\<open>TypeError\<close>; the task is
  not accepted either way.
\<close>

definition key_in :: "string \<Rightarrow> pyval \<Rightarrow> bool" where
  "key_in k v = (case v of
     PDict d \<Rightarrow> has_key d k
   | PList xs \<Rightarrow> PStr k \<in> set xs
   | PStr s \<Rightarrow> list_ex (\<lambda>i. startswith (drop i s) k) [0..<Suc (length s)]
   | _ \<Rightarrow> False)"

definition endpoint_model_protocol :: "pydict \<Rightarrow> pyval" where
  "endpoint_model_protocol e =
     (if dict_get e ''model_protocol'' = PNone then dict_get e ''wire_protocol''
      else dict_get e ''model_protocol'')"

definition require_endpoint_protocol ::
  "runtime_bundle \<Rightarrow> string \<Rightarrow> pyval \<Rightarrow> (string, unit) result" where
  "require_endpoint_protocol b key endpoint = (case endpoint of
     PDict e \<Rightarrow> (case endpoint_model_protocol e of
        PStr p \<Rightarrow> bind_result (require (p \<noteq> []) ''execution_contract_mismatch'') (\<lambda>_.
          case runtime_bundle_model_protocols b key of
            None \<Rightarrow> Inl ''execution_contract_mismatch''
          | Some declared \<Rightarrow> require (replace_char (CHR ''-'') (CHR ''_'') p \<in> set declared)
              ''execution_contract_mismatch'')
      | _ \<Rightarrow> Inl ''execution_contract_mismatch'')
   | _ \<Rightarrow> Inr ())"

definition require_task_executable_contract ::
  "worker_snapshot option \<Rightarrow> runtime_bundle option \<Rightarrow> string \<Rightarrow> harness_attempt option \<Rightarrow> bool
     \<Rightarrow> (string, unit) result" where
  "require_task_executable_contract snapshot bundle mode attempt require_attempt_for_v2 =
     bind_result (validate_harness_execution_mode mode) (\<lambda>_.
     bind_result (require_executable_contract bundle) (\<lambda>_.
     case bundle of None \<Rightarrow> Inl ''missing_executable_contract'' | Some b \<Rightarrow>
     case snapshot of None \<Rightarrow> Inl ''missing_execution_snapshot'' | Some s \<Rightarrow>
     bind_result (require (snap_runtime_contract_version s = Some (bundle_contract_version b))
                    ''execution_contract_mismatch'') (\<lambda>_.
     bind_result (require (bundle_digest b \<noteq> [] \<and> snap_runtime_bundle_digest s = Some (bundle_digest b))
                    ''execution_contract_mismatch'') (\<lambda>_.
     case snap_harness_key s of None \<Rightarrow> Inl ''execution_contract_mismatch'' | Some key \<Rightarrow>
     bind_result (require (key \<noteq> [] \<and> key_in key (dict_get (bundle_manifest b) ''adapters''))
                    ''execution_contract_mismatch'') (\<lambda>_.
     bind_result (require_endpoint_protocol b key (snap_model_endpoint_snapshot s)) (\<lambda>_.
     case attempt of
       None \<Rightarrow> require (\<not> require_attempt_for_v2) MISSING_EXECUTION_ATTEMPT
     | Some a \<Rightarrow>
         bind_result (require (attempt_harness_key a = key) ''execution_contract_mismatch'') (\<lambda>_.
         require_executable_contract_v2 a bundle)))))))"

definition require_creatable_bundle_v2 :: "runtime_bundle option \<Rightarrow> string \<Rightarrow> (string, unit) result" where
  "require_creatable_bundle_v2 b mode =
     bind_result (validate_harness_execution_mode mode) (\<lambda>_.
     require (bundle_version b = Some HARNESS_CONTRACT_VERSION_V2) LEGACY_CONTRACT_NOT_EXECUTABLE)"

definition is_legacy_snapshot :: "worker_snapshot option \<Rightarrow> bool" where
  "is_legacy_snapshot s \<longleftrightarrow>
     (case s of None \<Rightarrow> None | Some r \<Rightarrow> snap_runtime_contract_version r)
       \<noteq> Some HARNESS_CONTRACT_VERSION_V2"


section \<open>What the policy promises\<close>

text \<open>
  The specification: a task may run when its snapshot and its bundle agree on a V2 contract, a
  digest and an adapter, the endpoint speaks a protocol that the bundle declares, and the attempt,
  where one is given, is a V2 attempt of the same harness.
\<close>

definition executable_identity ::
  "worker_snapshot option \<Rightarrow> runtime_bundle option \<Rightarrow> harness_attempt option \<Rightarrow> bool \<Rightarrow> bool" where
  "executable_identity snapshot bundle attempt needs_attempt \<longleftrightarrow>
     (\<exists>s b key. snapshot = Some s \<and> bundle = Some b \<and> snap_harness_key s = Some key \<and> key \<noteq> []
        \<and> bundle_contract_version b = HARNESS_CONTRACT_VERSION_V2
        \<and> snap_runtime_contract_version s = Some HARNESS_CONTRACT_VERSION_V2
        \<and> bundle_digest b \<noteq> [] \<and> snap_runtime_bundle_digest s = Some (bundle_digest b)
        \<and> key_in key (dict_get (bundle_manifest b) ''adapters'')
        \<and> (\<forall>e. snap_model_endpoint_snapshot s = PDict e \<longrightarrow>
             (\<exists>p ps. endpoint_model_protocol e = PStr p \<and> p \<noteq> []
                \<and> runtime_bundle_model_protocols b key = Some ps
                \<and> replace_char (CHR ''-'') (CHR ''_'') p \<in> set ps))
        \<and> (attempt = None \<longrightarrow> \<not> needs_attempt)
        \<and> (\<forall>a. attempt = Some a \<longrightarrow>
             attempt_harness_key a = key \<and> attempt_event_schema a = CANONICAL_EVENT_SCHEMA_V2))"

lemma require_executable_contract_ok [simp]:
  "require_executable_contract b = Inr u \<longleftrightarrow>
     (\<exists>r. b = Some r \<and> bundle_contract_version r = HARNESS_CONTRACT_VERSION_V2)"
  by (auto simp: require_executable_contract_def bundle_version_def)

lemma require_endpoint_protocol_ok:
  "require_endpoint_protocol b key endpoint = Inr u \<longleftrightarrow>
     (\<forall>e. endpoint = PDict e \<longrightarrow>
        (\<exists>p ps. endpoint_model_protocol e = PStr p \<and> p \<noteq> []
           \<and> runtime_bundle_model_protocols b key = Some ps
           \<and> replace_char (CHR ''-'') (CHR ''_'') p \<in> set ps))"
  by (simp add: require_endpoint_protocol_def bind_result_eq_Inr split: pyval.splits option.splits)

lemma require_executable_contract_v2_ok [simp]:
  "require_executable_contract_v2 a (Some b) = Inr u \<longleftrightarrow>
     bundle_contract_version b = HARNESS_CONTRACT_VERSION_V2
     \<and> attempt_event_schema a = CANONICAL_EVENT_SCHEMA_V2"
  by (auto simp: require_executable_contract_v2_def bind_result_eq_Inr bundle_version_def)

text \<open>
  The policy gate accepts exactly the tasks with a complete and consistent V2 execution
  identity, in the only supported mode.
\<close>

theorem policy_accepts_exactly_executable_identity:
  "require_task_executable_contract snapshot bundle mode attempt needs_attempt = Inr ()
     \<longleftrightarrow> is_v2_only mode \<and> executable_identity snapshot bundle attempt needs_attempt"
  unfolding require_task_executable_contract_def validate_harness_execution_mode_def
    executable_identity_def is_v2_only_def
  by (auto simp: HARNESS_EXECUTION_MODES_def bind_result_eq_Inr require_endpoint_protocol_ok
      split: option.splits)

end
