(* ===== verification/Queue_Context.thy ===== *)
theory Queue_Context
  imports Issue_Schedule Runtime_Readiness Execution_Policy
begin

text \<open>
  The queue context of an issue, \<open>compute_queue_context\<close> of \<^verbatim>\<open>core/issue_task_order.py\<close>: what the API
  shows of each task's place in the queue and of why it waits. The properties relate it to the rule
  the scheduler executes by: only the active task with the smallest turn number may be shown as
  not waiting.
\<close>

record queue_context =
  qc_issue_sequence :: "int option"
  qc_queue_position :: "nat option"
  qc_blocked_by_task_id :: "row_id option"
  qc_waiting_reason :: "string option"
  qc_lock_owner_task_id :: "row_id option"
  qc_waiting_since :: "timestamp option"
  qc_runtime_failure :: "(string option \<times> string option \<times> timestamp option \<times> string option) option"

definition context_entry ::
  "task \<Rightarrow> nat option \<Rightarrow> row_id option \<Rightarrow> string option \<Rightarrow> queue_context" where
  "context_entry t position blocked reason = \<lparr>qc_issue_sequence = task_issue_sequence t,
     qc_queue_position = position, qc_blocked_by_task_id = blocked, qc_waiting_reason = reason,
     qc_lock_owner_task_id = None, qc_waiting_since = None, qc_runtime_failure = None\<rparr>"

text \<open>\<^verbatim>\<open>positions\<close>: the one-based place of each numbered active task.\<close>

fun position_from :: "nat \<Rightarrow> row_id \<Rightarrow> task list \<Rightarrow> nat option" where
  "position_from i k [] = None"
| "position_from i k (t # ts) = (if task_id t = k then Some i else position_from (Suc i) k ts)"

definition numbered_active :: "task list \<Rightarrow> task list" where
  "numbered_active ts = sort_key seq_or_zero
     (filter (\<lambda>t. is_active t \<and> task_issue_sequence t \<noteq> None) ts)"

text \<open>\<^verbatim>\<open>ORDER BY issue_sequence ASC NULLS LAST, id ASC\<close>.\<close>

definition queue_order :: "task \<Rightarrow> bool \<times> int \<times> row_id" where
  "queue_order t = (task_issue_sequence t = None, seq_or_zero t, task_id t)"

definition head_readiness ::
  "(string \<Rightarrow> string) \<Rightarrow> database \<Rightarrow> task option \<Rightarrow> (string option \<times> runtime_readiness) option" where
  "head_readiness sha256 d head = (case head of None \<Rightarrow> None | Some h \<Rightarrow>
     (case get_snapshot d (task_id h) of None \<Rightarrow> None | Some s \<Rightarrow>
        (case snap_runtime_locator_fingerprint s of None \<Rightarrow> None | Some f \<Rightarrow>
           if f = [] then None
           else Some (Some f, read_runtime_readiness sha256 d (Some f)
                  (snap_runtime_contract_version s = Some HARNESS_CONTRACT_VERSION_V2)))))"

text \<open>The lock's owner is a task of the issue that is no longer active.\<close>

definition workspace_cleanup :: "task list \<Rightarrow> execution_lock option \<Rightarrow> bool" where
  "workspace_cleanup ts lock = (case lock of None \<Rightarrow> False | Some l \<Rightarrow>
     (case find (\<lambda>t. task_id t = lock_task_id l) ts of None \<Rightarrow> False | Some o' \<Rightarrow> \<not> is_active o'))"

definition head_context ::
  "execution_lock option \<Rightarrow> bool \<Rightarrow> (string option \<times> runtime_readiness) option \<Rightarrow> timestamp
     \<Rightarrow> nat option \<Rightarrow> task \<Rightarrow> queue_context" where
  "head_context lock cleanup probe now position t =
     (if cleanup \<and> lock \<noteq> None
      then (context_entry t position None (Some ''workspace_cleanup''))
             \<lparr>qc_lock_owner_task_id := map_option lock_task_id lock,
              qc_waiting_since := map_option lock_acquired_at lock\<rparr>
      else case probe of
        Some (f, r) \<Rightarrow>
          if is_unavailable r
          then (context_entry t position None (Some ''worker_runtime_unavailable''))
                 \<lparr>qc_waiting_since := rr_checked_at r,
                  qc_runtime_failure := Some (rr_failure_code r, rr_failure_message r, rr_checked_at r, f)\<rparr>
          else if (case task_scheduled_at t of None \<Rightarrow> False | Some s \<Rightarrow> s > now)
          then context_entry t position None (Some ''scheduled'')
          else context_entry t position None None
      | None \<Rightarrow>
          if (case task_scheduled_at t of None \<Rightarrow> False | Some s \<Rightarrow> s > now)
          then context_entry t position None (Some ''scheduled'')
          else context_entry t position None None)"

text \<open>One turn of the result loop, from what is computed before it.\<close>

definition queue_entry ::
  "bool \<Rightarrow> task list \<Rightarrow> execution_lock option \<Rightarrow> bool \<Rightarrow> (string option \<times> runtime_readiness) option
     \<Rightarrow> timestamp \<Rightarrow> task \<Rightarrow> queue_context" where
  "queue_entry any_active_null queue lock cleanup probe now t =
     (if \<not> is_active t then context_entry t None None None
      else if task_issue_sequence t = None \<or> any_active_null
      then context_entry t None None (Some ''sequence_repair_required'')
      else let position = position_from 1 (task_id t) queue in
        if queue \<noteq> [] \<and> task_id t \<noteq> task_id (hd queue)
        then context_entry t position (Some (task_id (hd queue))) (Some ''predecessor'')
        else head_context lock cleanup probe now position t)"

definition compute_queue_context ::
  "(string \<Rightarrow> string) \<Rightarrow> timestamp \<Rightarrow> database \<Rightarrow> row_id \<Rightarrow> (row_id \<times> queue_context) list" where
  "compute_queue_context sha256 now d issue =
     (let ts = sort_key queue_order (issue_tasks d issue);
          lock = get_lock d issue;
          any_active_null = list_ex (\<lambda>t. is_active t \<and> task_issue_sequence t = None) ts;
          queue = numbered_active ts;
          probe = head_readiness sha256 d (case queue of [] \<Rightarrow> None | h # _ \<Rightarrow> Some h);
          cleanup = workspace_cleanup ts lock
      in map (\<lambda>t. (task_id t, queue_entry any_active_null queue lock cleanup probe now t)) ts)"


section \<open>Properties of the queue context\<close>

lemma numbered_active_set:
  "set (numbered_active ts) = {t \<in> set ts. is_active t \<and> task_issue_sequence t \<noteq> None}"
  by (auto simp: numbered_active_def)

lemma numbered_active_head:
  assumes "numbered_active ts = h # hs" "t \<in> set (numbered_active ts)"
  shows "seq_or_zero h \<le> seq_or_zero t"
proof -
  have "sorted (map seq_or_zero (numbered_active ts))" unfolding numbered_active_def by (rule sorted_sort_key)
  then show ?thesis using assms by auto
qed

lemma head_context_waits [simp]:
  "qc_waiting_reason (head_context lock cleanup probe now position t) = None \<longleftrightarrow>
     \<not> (cleanup \<and> lock \<noteq> None) \<and> \<not> (\<exists>f r. probe = Some (f, r) \<and> is_unavailable r)
     \<and> (case task_scheduled_at t of None \<Rightarrow> True | Some s \<Rightarrow> s \<le> now)"
  by (auto simp: head_context_def context_entry_def not_less split: option.splits)

lemma queue_entry_waits:
  assumes "is_active t"
  shows "qc_waiting_reason (queue_entry any_null queue lock cleanup probe now t) = None \<longleftrightarrow>
     task_issue_sequence t \<noteq> None \<and> \<not> any_null \<and> (queue = [] \<or> task_id t = task_id (hd queue))
     \<and> \<not> (cleanup \<and> lock \<noteq> None) \<and> \<not> (\<exists>f r. probe = Some (f, r) \<and> is_unavailable r)
     \<and> (case task_scheduled_at t of None \<Rightarrow> True | Some s \<Rightarrow> s \<le> now)"
  using assms by (auto simp: queue_entry_def Let_def context_entry_def)

lemma workspace_cleanupI:
  assumes "distinct (map task_id ts)" "o' \<in> set ts" "task_id o' = lock_task_id l" "\<not> is_active o'"
  shows "workspace_cleanup ts (Some l)"
  using row_by_unique [OF assms(1,2)] assms(3,4) by (simp add: workspace_cleanup_def row_by_def)

text \<open>
  C38. An active task that is shown without a waiting reason is the due head of its issue: it has a
  turn number, every other active task of the issue has one too and a greater one, it is due, no
  finished task of the issue still holds the issue's lock, and its runtime is not known to be
  unavailable. (Finished tasks are shown without a waiting reason as well.)
\<close>

theorem unblocked_task_is_the_due_head:
  assumes wf: "wf_db d" and entry: "(k, c) \<in> set (compute_queue_context sha256 now d issue)"
    and idle: "qc_waiting_reason c = None" and t: "get_task d k = Some t" "is_active t"
  shows "\<exists>q. task_issue_sequence t = Some q
      \<and> (\<forall>u\<in>set (active_tasks d issue). task_id u \<noteq> k \<longrightarrow> (\<exists>r. task_issue_sequence u = Some r \<and> q < r))
      \<and> (case task_scheduled_at t of None \<Rightarrow> True | Some s \<Rightarrow> s \<le> now)
      \<and> \<not> (\<exists>l o'. get_lock d issue = Some l \<and> o' \<in> set (issue_tasks d issue)
             \<and> task_id o' = lock_task_id l \<and> \<not> is_active o')
      \<and> \<not> (\<exists>f r. head_readiness sha256 d (Some t) = Some (f, r) \<and> is_unavailable r)"
proof -
  let ?ts = "sort_key queue_order (issue_tasks d issue)"
  let ?queue = "numbered_active ?ts"
  from entry obtain u where u: "u \<in> set ?ts" "task_id u = k" and
    c: "c = queue_entry (list_ex (\<lambda>t. is_active t \<and> task_issue_sequence t = None) ?ts) ?queue
         (get_lock d issue) (workspace_cleanup ?ts (get_lock d issue))
         (head_readiness sha256 d (case ?queue of [] \<Rightarrow> None | h # _ \<Rightarrow> Some h)) now u"
    by (auto simp: compute_queue_context_def Let_def)
  have ut: "u = t" using u get_taskD [OF t(1)] same_task [OF wf] by auto
  have in_issue: "t \<in> set (issue_tasks d issue)" using u(1) ut by simp
  note idle' = iffD1 [OF queue_entry_waits [OF t(2)] idle [unfolded c ut]]
  obtain q where q: "task_issue_sequence t = Some q" using idle' by blast
  have in_queue: "t \<in> set ?queue" using in_issue q t(2) by (simp add: numbered_active_set)
  then obtain h hs where queue: "?queue = h # hs" by (cases ?queue) auto
  have "h = t"
    using idle' queue in_queue in_issue numbered_active_set [of ?ts] same_task [OF wf, of h t] by auto
  have "\<exists>r. task_issue_sequence v = Some r \<and> q < r"
    if v: "v \<in> set (active_tasks d issue)" "task_id v \<noteq> k" for v
  proof -
    obtain r where r: "task_issue_sequence v = Some r"
      using idle' v(1) by (auto simp: list_ex_iff)
    have "v \<in> set ?queue" using v r by (simp add: numbered_active_set)
    from numbered_active_head [OF queue this] have "q \<le> r"
      using \<open>h = t\<close> q r by (simp add: seq_or_zero_def)
    moreover have "q \<noteq> r"
      using wf_dbD(6) [OF wf] v in_issue q r ut u(2) unfolding unique_sequences_def by fastforce
    ultimately show ?thesis using r by simp
  qed
  moreover have "\<not> (\<exists>l o'. get_lock d issue = Some l \<and> o' \<in> set (issue_tasks d issue)
             \<and> task_id o' = lock_task_id l \<and> \<not> is_active o')"
  proof
    assume "\<exists>l o'. get_lock d issue = Some l \<and> o' \<in> set (issue_tasks d issue)
             \<and> task_id o' = lock_task_id l \<and> \<not> is_active o'"
    then obtain l o' where l: "get_lock d issue = Some l" "o' \<in> set ?ts" "task_id o' = lock_task_id l" "\<not> is_active o'"
      by auto
    have "distinct (map task_id ?ts)"
      using wf_dbD(1) [OF wf] by (simp add: distinct_map issue_tasks_def inj_on_def)
    from workspace_cleanupI [OF this l(2-4)] l(1) idle' show False by simp
  qed
  ultimately show ?thesis using idle' q queue \<open>h = t\<close> by (intro exI [of _ q]) auto
qed


text \<open>
  One active task without a turn number makes the whole issue fail closed: every active task
  is shown as needing sequence repair, with no queue position and no predecessor.
\<close>

theorem unnumbered_active_task_blocks_the_issue:
  assumes "u \<in> set (active_tasks d issue)" "task_issue_sequence u = None"
    and "wf_db d" "t \<in> set (active_tasks d issue)"
    and "(task_id t, c) \<in> set (compute_queue_context sha256 now d issue)"
  shows "c = context_entry t None None (Some ''sequence_repair_required'')"
proof -
  have "list_ex (\<lambda>t. is_active t \<and> task_issue_sequence t = None) (sort_key queue_order (issue_tasks d issue))"
    using assms(1,2) by (auto simp: list_ex_iff)
  then obtain v where v: "v \<in> set (tasks d)" "task_id v = task_id t"
    "c = (if is_active v then context_entry v None None (Some ''sequence_repair_required'')
          else context_entry v None None None)"
    using assms(5) by (auto simp: compute_queue_context_def Let_def queue_entry_def)
  have "v = t" using same_task [OF assms(3) v(1) _ v(2)] assms(4) by simp
  then show ?thesis using v(3) assms(4) by simp
qed

theorem unblocked_task_is_the_due_head_witness:
  "\<exists>c. (1, c) \<in> set (compute_queue_context (\<lambda>s. s) 10 queue_db 7) \<and> qc_waiting_reason c = None
     \<and> (\<forall>u\<in>set (active_tasks queue_db 7). task_id u \<noteq> 1 \<longrightarrow> (\<exists>r. task_issue_sequence u = Some r \<and> 1 < r))"
proof -
  have first: "get_task queue_db 1 = Some (due 10 (sample_task 1 7 PENDING (Some 1)))"
    "is_active (due 10 (sample_task 1 7 PENDING (Some 1)))"
    "task_issue_sequence (due 10 (sample_task 1 7 PENDING (Some 1))) = Some 1"
    by (simp_all add: queue_db_def get_task_def sample_defs due_def with_projection_def is_active_iff)
  have "list_ex (\<lambda>(k, c). k = 1 \<and> qc_waiting_reason c = None) (compute_queue_context (\<lambda>s. s) 10 queue_db 7)"
    by code_simp
  then obtain c where c: "(1, c) \<in> set (compute_queue_context (\<lambda>s. s) 10 queue_db 7)" "qc_waiting_reason c = None"
    by (auto simp: list_ex_iff)
  from unblocked_task_is_the_due_head [OF queue_db_facts(1) c first(1,2)] c first(3) show ?thesis by auto
qed

theorem unnumbered_active_task_blocks_the_issue_witness:
  "\<exists>c. (1, c) \<in> set (compute_queue_context (\<lambda>s. s) 10 (sample_db [sample_task 1 7 PENDING None] []) 7)
     \<and> c = context_entry (sample_task 1 7 PENDING None) None None (Some ''sequence_repair_required'')"
proof -
  let ?d = "sample_db [sample_task 1 7 PENDING None] []" and ?t = "sample_task 1 7 PENDING None"
  have t: "?t \<in> set (active_tasks ?d 7)" "task_issue_sequence ?t = None" "wf_db ?d" "task_id ?t = 1"
    by (simp_all add: sample_defs is_active_iff wf_db_def unique_sequences_def)
  have "1 \<in> fst ` set (compute_queue_context (\<lambda>s. s) 10 ?d 7)" by code_simp
  then obtain c where c: "(task_id ?t, c) \<in> set (compute_queue_context (\<lambda>s. s) 10 ?d 7)" using t(4) by auto
  from unnumbered_active_task_blocks_the_issue [OF t(1,2,3,1) c] c t(4) show ?thesis by auto
qed

end
