(* ===== verification/Issue_Locks.thy ===== *)
theory Issue_Locks
  imports Codify_Models
begin

text \<open>
  The database-backed execution lock of an issue, \<^verbatim>\<open>core/issue_execution_locks.py\<close>: acquisition by
  \<^verbatim>\<open>INSERT ... ON CONFLICT DO NOTHING RETURNING\<close>, owner-scoped release, and the periodic deletion
  of locks whose task is missing or terminal without a container. The contract that the scheduler
  relies on is the locale \<open>issue_mutex\<close>; its laws are discharged for the model at the end.
\<close>

section \<open>The code\<close>

definition acquire_issue_execution_lock ::
  "database \<Rightarrow> row_id \<Rightarrow> row_id \<Rightarrow> timestamp \<Rightarrow> database \<times> bool" where
  "acquire_issue_execution_lock d issue owner now =
     (case get_lock d issue of
        Some _ \<Rightarrow> (d, False)
      | None \<Rightarrow> (d\<lparr>locks := locks d @ [\<lparr>lock_issue_id = issue, lock_task_id = owner,
                   lock_acquired_at = now, lock_heartbeat_at = None\<rparr>]\<rparr>, True))"

definition release_issue_execution_lock ::
  "database \<Rightarrow> row_id \<Rightarrow> row_id \<Rightarrow> database \<times> bool" where
  "release_issue_execution_lock d issue owner =
     (let gone = (\<lambda>l. lock_issue_id l = issue \<and> lock_task_id l = owner)
      in (d\<lparr>locks := filter (\<lambda>l. \<not> gone l) (locks d)\<rparr>, list_ex gone (locks d)))"

text \<open>The task of the lock is missing, or terminal without a durable container reference.\<close>

definition is_stale_owner :: "database \<Rightarrow> row_id \<Rightarrow> bool" where
  "is_stale_owner d owner = (case get_task d owner of
     None \<Rightarrow> True
   | Some t \<Rightarrow> is_terminal t \<and> task_container_id t = None)"

definition cleanup_inactive_issue_execution_locks :: "database \<Rightarrow> database \<times> nat" where
  "cleanup_inactive_issue_execution_locks d =
     (let stale_pairs = map (\<lambda>l. (lock_issue_id l, lock_task_id l))
                          (filter (\<lambda>l. is_stale_owner d (lock_task_id l)) (locks d))
      in if stale_pairs = [] then (d, 0)
         else (d\<lparr>locks := filter (\<lambda>l. (lock_issue_id l, lock_task_id l) \<notin> set stale_pairs) (locks d)\<rparr>,
               length stale_pairs))"

definition lock_owner :: "database \<Rightarrow> row_id \<Rightarrow> row_id option" where
  "lock_owner d i = map_option lock_task_id (get_lock d i)"


section \<open>The contract\<close>

datatype ('i, 't, 'c) lock_op = Acquire 'i 't 'c | Release 'i 't | Cleanup

locale issue_mutex =
  fixes invar :: "'db \<Rightarrow> bool"
    and owner :: "'db \<Rightarrow> 'i \<Rightarrow> 't option"
    and stale :: "'db \<Rightarrow> 't \<Rightarrow> bool"
    and acquire :: "'db \<Rightarrow> 'i \<Rightarrow> 't \<Rightarrow> 'c \<Rightarrow> 'db \<times> bool"
    and release :: "'db \<Rightarrow> 'i \<Rightarrow> 't \<Rightarrow> 'db \<times> bool"
    and cleanup :: "'db \<Rightarrow> 'db \<times> 'n"
  assumes acquire_iff: "invar d \<Longrightarrow> snd (acquire d i t c) \<longleftrightarrow> owner d i = None"
    and owner_acquire: "invar d \<Longrightarrow> owner (fst (acquire d i t c))
          = (if owner d i = None then (owner d)(i \<mapsto> t) else owner d)"
    and release_iff: "invar d \<Longrightarrow> snd (release d i t) \<longleftrightarrow> owner d i = Some t"
    and owner_release: "invar d \<Longrightarrow> owner (fst (release d i t))
          = (if owner d i = Some t then (owner d)(i := None) else owner d)"
    and owner_cleanup: "invar d \<Longrightarrow> owner (fst (cleanup d)) i
          = (case owner d i of None \<Rightarrow> None | Some t \<Rightarrow> if stale d t then None else Some t)"
    and invar_ops: "invar d \<Longrightarrow> invar (fst (acquire d i t c))"
          "invar d \<Longrightarrow> invar (fst (release d i t))" "invar d \<Longrightarrow> invar (fst (cleanup d))"
    and stale_ops: "invar d \<Longrightarrow> stale (fst (acquire d i t c)) = stale d"
          "invar d \<Longrightarrow> stale (fst (release d i t)) = stale d"
          "invar d \<Longrightarrow> stale (fst (cleanup d)) = stale d"
begin

fun run_op :: "'db \<Rightarrow> ('i, 't, 'c) lock_op \<Rightarrow> 'db" where
  "run_op d (Acquire i t c) = fst (acquire d i t c)"
| "run_op d (Release i t) = fst (release d i t)"
| "run_op d Cleanup = fst (cleanup d)"

lemma invar_run_op: "invar d \<Longrightarrow> invar (run_op d p)"
  by (cases p) (auto intro: invar_ops)

lemma stale_run_op: "invar d \<Longrightarrow> stale (run_op d p) = stale d"
  by (cases p) (auto simp: stale_ops)

lemma owner_run_op_kept:
  assumes "invar d" "owner d i = Some t" "\<not> stale d t" "p \<noteq> Release i t"
  shows "owner (run_op d p) i = Some t"
  using assms by (cases p) (auto simp: owner_acquire owner_release owner_cleanup)

text \<open>
  Whoever holds the lock keeps it through any sequence of operations that does not contain its own
  release, as long as its task is not stale; nobody else can acquire it meanwhile.
\<close>

lemma owner_kept:
  assumes "invar d" "owner d i = Some t" "\<not> stale d t" "Release i t \<notin> set ops"
  shows "owner (foldl run_op d ops) i = Some t
    \<and> \<not> snd (acquire (foldl run_op d ops) i u c)"
  using assms
proof (induction ops arbitrary: d)
  case Nil
  then show ?case by (simp add: acquire_iff)
next
  case (Cons p ops)
  then have "owner (run_op d p) i = Some t" "\<not> stale (run_op d p) t" "invar (run_op d p)"
    by (auto simp: owner_run_op_kept stale_run_op invar_run_op)
  with Cons show ?case by simp
qed

text \<open>A release by anyone but the owner changes no lock.\<close>

lemma foreign_release_noop:
  assumes "invar d" "owner d i \<noteq> Some t"
  shows "\<not> snd (release d i t) \<and> owner (fst (release d i t)) = owner d"
  using assms by (simp add: release_iff owner_release)

end


section \<open>The laws hold for the table\<close>

lemma get_lock_locks_cong: "locks d = locks e \<Longrightarrow> lock_owner d = lock_owner e"
  by (simp add: lock_owner_def get_lock_def fun_eq_iff)

lemma lock_owner_Some:
  assumes "wf_db d"
  shows "lock_owner d i = Some t \<longleftrightarrow> (\<exists>l\<in>set (locks d). lock_issue_id l = i \<and> lock_task_id l = t)"
  using wf_dbD(3) [OF assms] by (auto simp: lock_owner_def get_lock_def row_by_iff)

lemma lock_owner_None:
  "lock_owner d i = None \<longleftrightarrow> (\<forall>l\<in>set (locks d). lock_issue_id l \<noteq> i)"
  by (auto simp: lock_owner_def get_lock_def row_by_None_iff)

lemma lock_frames [frame_simps]:
  "tasks (fst (acquire_issue_execution_lock d i t c)) = tasks d"
  "issues (fst (acquire_issue_execution_lock d i t c)) = issues d"
  "snapshots (fst (acquire_issue_execution_lock d i t c)) = snapshots d"
  "bundles (fst (acquire_issue_execution_lock d i t c)) = bundles d"
  "tasks (fst (release_issue_execution_lock d i t)) = tasks d"
  "issues (fst (release_issue_execution_lock d i t)) = issues d"
  "tasks (fst (cleanup_inactive_issue_execution_locks d)) = tasks d"
  "issues (fst (cleanup_inactive_issue_execution_locks d)) = issues d"
  by (simp_all add: acquire_issue_execution_lock_def release_issue_execution_lock_def
      cleanup_inactive_issue_execution_locks_def Let_def split: option.split)

lemma wf_db_acquire [keeps_inv]:
  assumes "wf_db d"
  shows "wf_db (fst (acquire_issue_execution_lock d i t c))"
  using assms
  by (auto simp: acquire_issue_execution_lock_def wf_db_def get_lock_def row_by_None_iff
      split: option.split)

lemma wf_db_release [keeps_inv]: "wf_db d \<Longrightarrow> wf_db (fst (release_issue_execution_lock d i t))"
  by (auto simp: release_issue_execution_lock_def wf_db_def Let_def)

lemma wf_db_cleanup [keeps_inv]: "wf_db d \<Longrightarrow> wf_db (fst (cleanup_inactive_issue_execution_locks d))"
  by (auto simp: cleanup_inactive_issue_execution_locks_def wf_db_def Let_def)

lemma is_stale_owner_cong: "tasks d = tasks e \<Longrightarrow> is_stale_owner d = is_stale_owner e"
  by (simp add: is_stale_owner_def get_task_def fun_eq_iff)

lemma acquire_result:
  "snd (acquire_issue_execution_lock d i t c) \<longleftrightarrow> lock_owner d i = None"
  by (simp add: acquire_issue_execution_lock_def lock_owner_def split: option.split)

lemma acquire_owner:
  "lock_owner (fst (acquire_issue_execution_lock d i t c))
     = (if lock_owner d i = None then (lock_owner d)(i \<mapsto> t) else lock_owner d)"
  by (auto simp: acquire_issue_execution_lock_def lock_owner_def get_lock_def row_by_append
      fun_eq_iff split: option.split)

lemma release_result:
  assumes "wf_db d"
  shows "snd (release_issue_execution_lock d i t) \<longleftrightarrow> lock_owner d i = Some t"
  using lock_owner_Some [OF assms]
  by (auto simp: release_issue_execution_lock_def Let_def list_ex_iff)

lemma release_owner:
  assumes "wf_db d"
  shows "lock_owner (fst (release_issue_execution_lock d i t))
     = (if lock_owner d i = Some t then (lock_owner d)(i := None) else lock_owner d)"
proof -
  have uniq: "lock_task_id l = t"
    if "l \<in> set (locks d)" "lock_issue_id l = i" "lock_owner d i = Some t" for l
    using that distinct_keyD [OF wf_dbD(3) [OF assms]] by (force simp: lock_owner_Some [OF assms])
  have none: "\<not> (lock_issue_id l = i \<and> lock_task_id l = t)"
    if "l \<in> set (locks d)" "lock_owner d i \<noteq> Some t" for l
    using that lock_owner_Some [OF assms] by auto
  show ?thesis
    by (auto simp: fun_eq_iff release_issue_execution_lock_def lock_owner_def get_lock_def Let_def
        intro!: arg_cong [where f = "map_option lock_task_id"] row_by_filter_gone row_by_filter_other
        dest: uniq [unfolded lock_owner_def get_lock_def] none [unfolded lock_owner_def get_lock_def])
qed

lemma cleanup_owner:
  assumes "wf_db d"
  shows "lock_owner (fst (cleanup_inactive_issue_execution_locks d)) i
     = (case lock_owner d i of None \<Rightarrow> None
        | Some t \<Rightarrow> if is_stale_owner d t then None else Some t)"
proof -
  have locks': "locks (fst (cleanup_inactive_issue_execution_locks d))
      = filter (\<lambda>l. \<not> is_stale_owner d (lock_task_id l)) (locks d)"
    by (auto simp: cleanup_inactive_issue_execution_locks_def Let_def filter_empty_conv
        intro!: filter_cong filter_True [symmetric])
  show ?thesis
  proof (cases "row_by lock_issue_id i (locks d)")
    case None
    then have "row_by lock_issue_id i (filter (\<lambda>l. \<not> is_stale_owner d (lock_task_id l)) (locks d)) = None"
      by (auto simp: row_by_None_iff)
    with None show ?thesis by (simp add: lock_owner_def get_lock_def locks')
  next
    case (Some l)
    then have l: "l \<in> set (locks d)" "lock_issue_id l = i"
      by (auto dest: row_by_SomeD)
    have "l' = l" if "l' \<in> set (locks d)" "lock_issue_id l' = i" for l'
      using distinct_keyD [OF wf_dbD(3) [OF assms] that(1) l(1)] that(2) l(2) by simp
    then have "row_by lock_issue_id i (filter (\<lambda>l. \<not> is_stale_owner d (lock_task_id l)) (locks d))
        = (if is_stale_owner d (lock_task_id l) then None else Some l)"
      using Some by (auto intro!: row_by_filter_gone row_by_filter_other [THEN trans])
    with Some show ?thesis by (simp add: lock_owner_def get_lock_def locks')
  qed
qed

interpretation lk: issue_mutex wf_db lock_owner is_stale_owner acquire_issue_execution_lock
  release_issue_execution_lock cleanup_inactive_issue_execution_locks
  by unfold_locales
    (auto simp: acquire_result acquire_owner release_result release_owner cleanup_owner
      frame_simps intro: keeps_inv is_stale_owner_cong)

text \<open>One operation of a client on the lock table.\<close>

fun run_lock_op :: "database \<Rightarrow> (row_id, row_id, timestamp) lock_op \<Rightarrow> database" where
  "run_lock_op d (Acquire i t c) = fst (acquire_issue_execution_lock d i t c)"
| "run_lock_op d (Release i t) = fst (release_issue_execution_lock d i t)"
| "run_lock_op d Cleanup = fst (cleanup_inactive_issue_execution_locks d)"

lemma run_lock_op_eq: "lk.run_op = run_lock_op"
  by (intro ext) (metis lk.run_op.simps run_lock_op.simps lock_op.exhaust)

text \<open>
  C36. The lock of an issue is exclusive and can only be given up by its owner: a task that holds it
  and is not stale still holds it after any sequence of acquisitions, releases and clean-ups that
  does not contain its own release, and an acquisition by another task fails throughout.
\<close>

theorem execution_lock_is_exclusive:
  assumes "wf_db d" "lock_owner d i = Some t" "\<not> is_stale_owner d t" "Release i t \<notin> set ops"
  shows "lock_owner (foldl run_lock_op d ops) i = Some t
    \<and> \<not> snd (acquire_issue_execution_lock (foldl run_lock_op d ops) i u now)"
  using lk.owner_kept [OF assms] by (simp add: run_lock_op_eq)

theorem execution_lock_is_exclusive_witness:
  "lock_owner (foldl run_lock_op (sample_db [sample_task 1 7 RUNNING (Some 1)] [sample_lock 7 1])
     [Release 7 2, Acquire 7 2 5, Cleanup]) 7 = Some 1"
proof -
  let ?d = "sample_db [sample_task 1 7 RUNNING (Some 1)] [sample_lock 7 1]"
  have "wf_db ?d" "lock_owner ?d 7 = Some 1" "\<not> is_stale_owner ?d 1"
    by (simp_all add: sample_defs wf_db_def unique_sequences_def lock_owner_def get_lock_def
        is_stale_owner_def get_task_def is_active_iff)
  then show ?thesis
    using execution_lock_is_exclusive [of ?d 7 1 "[Release 7 2, Acquire 7 2 5, Cleanup]"] by simp
qed

end
