(* ===== verification/Issue_Status.thy ===== *)
theory Issue_Status
  imports Codify_Models
begin

text \<open>
  Issue status and authorization, \<^verbatim>\<open>core/task_helpers.py\<close>, and the two writes by which the scheduler
  moves an issue to \<open>IN_PROGRESS\<close>. The transition after the last active task of an issue ends goes
  to \<open>IN_REVIEW\<close> when the issue has delivered code, otherwise back to \<open>OPEN\<close>.

  The exception handlers only log; a database failure leaves the status as it was.
\<close>

record user =
  user_id :: row_id
  user_gitlab_user_id :: "row_id option"
  user_platform_role :: string

definition can_manage_task :: "bool \<Rightarrow> task \<Rightarrow> user option \<Rightarrow> bool" where
  "can_manage_task oidc_enabled t current_user =
     (if \<not> oidc_enabled then True
      else case current_user of
        None \<Rightarrow> False
      | Some u \<Rightarrow>
          if user_platform_role u = ''platform_admin'' then True
          else if task_initiator_user_id t \<noteq> None \<and> task_initiator_user_id t = Some (user_id u) then True
          else if task_initiator_gitlab_user_id t \<noteq> None
                  \<and> task_initiator_gitlab_user_id t = user_gitlab_user_id u then True
          else False)"

definition can_manage_issue :: "bool \<Rightarrow> issue \<Rightarrow> user option \<Rightarrow> bool" where
  "can_manage_issue oidc_enabled i current_user =
     (if \<not> oidc_enabled then True
      else case current_user of
        None \<Rightarrow> False
      | Some u \<Rightarrow>
          if user_platform_role u = ''platform_admin'' then True
          else if issue_initiator_user_id i \<noteq> None \<and> issue_initiator_user_id i = Some (user_id u) then True
          else False)"

definition require_task_operator :: "bool \<Rightarrow> task \<Rightarrow> user option \<Rightarrow> (int, unit) result" where
  "require_task_operator oidc_enabled t current_user = require (can_manage_task oidc_enabled t current_user) 403"

definition require_issue_operator :: "bool \<Rightarrow> issue \<Rightarrow> user option \<Rightarrow> (int, unit) result" where
  "require_issue_operator oidc_enabled i current_user = require (can_manage_issue oidc_enabled i current_user) 403"

definition task_delivery_eligible_clause :: "task \<Rightarrow> bool" where
  "task_delivery_eligible_clause t \<longleftrightarrow>
     task_mode t = ''execute'' \<or> (task_mode t = ''freeform'' \<and> task_commit_sha t \<noteq> None)"

definition maybe_update_issue_status :: "database \<Rightarrow> row_id \<Rightarrow> database" where
  "maybe_update_issue_status d k =
     (if list_ex is_active (issue_tasks d k) then d
      else case get_issue d k of
        None \<Rightarrow> d
      | Some i \<Rightarrow>
          if issue_status i \<noteq> IN_PROGRESS then d
          else if list_ex (\<lambda>t. task_status t = COMPLETED \<and> task_delivery_eligible_clause t) (issue_tasks d k)
          then put_issue k (\<lambda>i. i\<lparr>issue_status := IN_REVIEW\<rparr>) d
          else put_issue k (\<lambda>i. i\<lparr>issue_status := OPEN\<rparr>) d)"

definition transition_issue_to_in_progress :: "database \<Rightarrow> row_id \<Rightarrow> database" where
  "transition_issue_to_in_progress d k =
     (case get_issue d k of
        None \<Rightarrow> d
      | Some i \<Rightarrow> if issue_status i = OPEN \<or> issue_status i = IN_REVIEW
                 then put_issue k (\<lambda>i. i\<lparr>issue_status := IN_PROGRESS\<rparr>) d else d)"


section \<open>What the transitions leave alone\<close>

lemma maybe_update_issue_status_frames [simp, frame_simps]:
  "tasks (maybe_update_issue_status d k) = tasks d" "locks (maybe_update_issue_status d k) = locks d"
  "snapshots (maybe_update_issue_status d k) = snapshots d" "bundles (maybe_update_issue_status d k) = bundles d"
  "readiness (maybe_update_issue_status d k) = readiness d" "lineages (maybe_update_issue_status d k) = lineages d"
  "attempts (maybe_update_issue_status d k) = attempts d"
  by (simp_all add: maybe_update_issue_status_def split: option.split)

lemma transition_issue_frames [simp, frame_simps]:
  "tasks (transition_issue_to_in_progress d k) = tasks d" "locks (transition_issue_to_in_progress d k) = locks d"
  "snapshots (transition_issue_to_in_progress d k) = snapshots d" "bundles (transition_issue_to_in_progress d k) = bundles d"
  "readiness (transition_issue_to_in_progress d k) = readiness d" "lineages (transition_issue_to_in_progress d k) = lineages d"
  "attempts (transition_issue_to_in_progress d k) = attempts d"
  by (simp_all add: transition_issue_to_in_progress_def split: option.split)

lemma maybe_update_issue_status_wf [keeps_inv]: "wf_db d \<Longrightarrow> wf_db (maybe_update_issue_status d k)"
  by (auto simp: maybe_update_issue_status_def wf_db_put_issue split: option.split)

lemma transition_issue_wf [keeps_inv]: "wf_db d \<Longrightarrow> wf_db (transition_issue_to_in_progress d k)"
  by (auto simp: transition_issue_to_in_progress_def wf_db_put_issue split: option.split)

lemma get_issue_put:
  "(\<And>i. issue_id (g i) = issue_id i) \<Longrightarrow>
   get_issue (put_issue k g d) k' = (if k' = k then map_option g (get_issue d k) else get_issue d k')"
proof -
  assume "\<And>i. issue_id (g i) = issue_id i"
  then have "row_by issue_id k' (update_where (\<lambda>i. issue_id i = k) g rows)
      = (if k' = k then map_option g (row_by issue_id k rows) else row_by issue_id k' rows)" for rows
    by (induction rows) auto
  then show ?thesis by (simp add: get_issue_def)
qed


section \<open>Properties of the issue status\<close>

text \<open>
  Closing an issue's round of work: an \<open>IN_PROGRESS\<close> issue with no active task goes to
  \<open>IN_REVIEW\<close> exactly when one of its tasks completed and delivered code, and to \<open>OPEN\<close> otherwise; an
  issue with an active task, or in any other status, and every other issue keep their status; a
  second call changes nothing more.
\<close>

theorem issue_leaves_progress_when_idle:
  "map_option issue_status (get_issue (maybe_update_issue_status d k) k') =
     map_option (\<lambda>i. if k' = k \<and> issue_status i = IN_PROGRESS \<and> \<not> list_ex is_active (issue_tasks d k)
         then (if list_ex (\<lambda>t. task_status t = COMPLETED \<and> task_delivery_eligible_clause t) (issue_tasks d k)
               then IN_REVIEW else OPEN)
         else issue_status i) (get_issue d k')
   \<and> maybe_update_issue_status (maybe_update_issue_status d k) k = maybe_update_issue_status d k"
proof -
  have "map_option issue_status (get_issue (maybe_update_issue_status d k) k') =
     map_option (\<lambda>i. if k' = k \<and> issue_status i = IN_PROGRESS \<and> \<not> list_ex is_active (issue_tasks d k)
         then (if list_ex (\<lambda>t. task_status t = COMPLETED \<and> task_delivery_eligible_clause t) (issue_tasks d k)
               then IN_REVIEW else OPEN)
         else issue_status i) (get_issue d k')"
    by (auto simp: maybe_update_issue_status_def get_issue_put option.map_comp comp_def split: option.split)
  moreover have "maybe_update_issue_status (maybe_update_issue_status d k) k = maybe_update_issue_status d k"
    by (simp add: maybe_update_issue_status_def get_issue_put issue_tasks_def split: option.split)
  ultimately show ?thesis by blast
qed

end
