(* ===== verification/Posix_Path.thy ===== *)
theory Posix_Path
  imports Codify_Value
begin

text \<open>
  The path functions of the standard library that the Kit validators use: \<^verbatim>\<open>posixpath.normpath\<close>,
  \<^verbatim>\<open>posixpath.join\<close> and \<^verbatim>\<open>posixpath.dirname\<close>, with the lemmas that relate them to the components
  of a path.
\<close>

fun join_slash :: "string list \<Rightarrow> string" where
  "join_slash [] = []"
| "join_slash [p] = p"
| "join_slash (p # q # ps) = p @ CHR ''/'' # join_slash (q # ps)"

text \<open>One step of the loop over the components; the stack is kept in reverse.\<close>

definition norm_step :: "bool \<Rightarrow> string list \<Rightarrow> string \<Rightarrow> string list" where
  "norm_step absolute stack part =
     (if part = [] \<or> part = ''.'' then stack
      else if part \<noteq> ''..'' \<or> (\<not> absolute \<and> stack = []) \<or> (stack \<noteq> [] \<and> hd stack = ''..'')
      then part # stack
      else if stack \<noteq> [] then tl stack else stack)"

definition normpath :: "string \<Rightarrow> string" where
  "normpath path =
     (if path = [] then ''.''
      else
        let slashes = (if \<not> startswith path ''/'' then 0::nat
                       else if startswith path ''//'' \<and> \<not> startswith path ''///'' then 2 else 1);
            comps = rev (foldl (norm_step (slashes \<noteq> 0)) [] (split_on (CHR ''/'') path));
            p = replicate slashes (CHR ''/'') @ join_slash comps
        in if p = [] then ''.'' else p)"

text \<open>\<^verbatim>\<open>dirname\<close>: everything before the last slash, without trailing slashes unless all are.\<close>

definition dirname :: "string \<Rightarrow> string" where
  "dirname p =
     (let r = dropWhile (\<lambda>c. c \<noteq> CHR ''/'') (rev p); head = rev r
      in if head \<noteq> [] \<and> \<not> list_all (\<lambda>c. c = CHR ''/'') head
         then rev (dropWhile (\<lambda>c. c = CHR ''/'') (rev head)) else head)"

definition path_join :: "string \<Rightarrow> string \<Rightarrow> string" where
  "path_join a b =
     (if startswith b ''/'' then b
      else if a = [] \<or> last a = CHR ''/'' then a @ b
      else a @ CHR ''/'' # b)"


section \<open>Components\<close>

lemma split_on_join:
  assumes "ps \<noteq> []" "list_all (\<lambda>p. CHR ''/'' \<notin> set p) ps"
  shows "split_on (CHR ''/'') (join_slash ps) = ps"
  using assms by (induction ps rule: join_slash.induct) (auto simp: split_on_single split_on_append_slash)

lemma join_split_on: "join_slash (split_on (CHR ''/'') s) = s"
proof (induction s)
  case (Cons x s)
  then show ?case by (cases "split_on (CHR ''/'') s"; cases "tl (split_on (CHR ''/'') s)") auto
qed simp

text \<open>A component that a canonical relative path may have, and such a path.\<close>

definition plain_component :: "string \<Rightarrow> bool" where
  "plain_component p \<longleftrightarrow> p \<noteq> [] \<and> p \<noteq> ''.'' \<and> p \<noteq> ''..''"

definition safe_relative :: "string \<Rightarrow> bool" where
  "safe_relative s \<longleftrightarrow> list_all plain_component (split_on (CHR ''/'') s)"

lemma foldl_norm_plain:
  "list_all plain_component ps \<Longrightarrow> foldl (norm_step b) stack ps = rev ps @ stack"
  by (induction ps arbitrary: stack) (auto simp: norm_step_def plain_component_def)

lemma safe_relative_not_absolute:
  assumes "safe_relative s"
  shows "s \<noteq> []" "\<not> startswith s ''/''" "\<not> startswith s ''../''" "s \<noteq> ''.''" "s \<noteq> ''..''"
proof -
  show "s \<noteq> []" using assms by (auto simp: safe_relative_def plain_component_def)
  show "\<not> startswith s ''/''"
    using assms by (cases s) (auto simp: safe_relative_def plain_component_def startswith_def)
  show "\<not> startswith s ''../''"
  proof
    assume "startswith s ''../''"
    then obtain r where "s = ''../'' @ r" by (metis append_take_drop_id startswith_def)
    then show False using assms by (simp add: safe_relative_def plain_component_def)
  qed
  show "s \<noteq> ''.''" "s \<noteq> ''..''" using assms by (auto simp: safe_relative_def plain_component_def)
qed

lemma normpath_safe: "safe_relative s \<Longrightarrow> normpath s = s"
  using safe_relative_not_absolute [of s] join_split_on [of s]
  by (auto simp: normpath_def Let_def safe_relative_def foldl_norm_plain)

end
