(* ===== verification/Kit_Inventory.thy ===== *)
theory Kit_Inventory
  imports Posix_Path Execution_Policy "HOL-Library.List_Lexorder" "HOL-Library.Char_ord"
begin

text \<open>
  The Worker Kit inventory, \<^verbatim>\<open>core/worker_kit_inventory.py\<close>: validation of the content inventory and
  of the harness inventory of a Kit manifest, of inventory paths and symlink targets, and of a
  frozen Kit identity. A raise is \<open>Inl\<close> with a short code; \<open>TypeError\<close> is Python's own error for an
  unhashable value in a set test.
\<close>

definition KIT_CONTAINER_PATH :: string where "KIT_CONTAINER_PATH = ''/opt/codify-kit''"
definition KIT_IDENTITY_SCHEMA :: string where "KIT_IDENTITY_SCHEMA = ''codify.worker.kit-identity/v1''"

definition CONTENT_INVENTORY_EXCLUDED :: "string list" where
  "CONTENT_INVENTORY_EXCLUDED = [''manifest.json'', ''.install-receipt.json'', ''.smoke-passed'']"

definition is_sha256_value :: "pyval \<Rightarrow> bool" where
  "is_sha256_value v = (case v of PStr s \<Rightarrow> is_sha256 s | _ \<Rightarrow> False)"

definition has_unsafe_part :: "string \<Rightarrow> bool" where
  "has_unsafe_part s \<longleftrightarrow> list_ex (\<lambda>p. p = [] \<or> p = ''.'' \<or> p = ''..'') (split_on (CHR ''/'') s)"

lemma has_unsafe_part_iff [simp]: "has_unsafe_part s \<longleftrightarrow> \<not> safe_relative s"
  by (auto simp: has_unsafe_part_def safe_relative_def plain_component_def list_ex_iff list_all_iff)


section \<open>Content inventory\<close>

definition inside_root :: "string \<Rightarrow> (string, string) result" where
  "inside_root resolved =
     (if resolved = [] \<or> resolved = ''.'' \<or> resolved = ''..'' \<or> startswith resolved ''../''
         \<or> startswith resolved ''/'' \<or> has_unsafe_part resolved
      then Inl ''escapes_root'' else Inr resolved)"

definition content_symlink_target :: "string \<Rightarrow> pyval \<Rightarrow> (string, string) result" where
  "content_symlink_target path target =
     (case target of
        PStr t \<Rightarrow>
          if t = [] \<or> CHR 0x5C \<in> set t then Inl ''unsafe_target''
          else bind_result
            (if t = ''/nix/store'' then Inr ''nix/store''
             else if startswith t ''/nix/store/'' then
               (let suffix = drop (length ''/nix/store/'') t in
                if suffix = [] \<or> has_unsafe_part suffix then Inl ''unsafe_target''
                else Inr (path_join ''nix/store'' suffix))
             else if startswith t ''/'' then Inl ''unsafe_target''
             else Inr (normpath (path_join (dirname path) t)))
            inside_root
      | _ \<Rightarrow> Inl ''unsafe_target'')"

definition same_keys :: "pydict \<Rightarrow> string list \<Rightarrow> bool" where
  "same_keys d ks \<longleftrightarrow> set (map fst d) = set ks"

definition content_entry :: "string list \<Rightarrow> pyval \<Rightarrow> (string, string \<times> pydict) result" where
  "content_entry seen raw =
     (case raw of
        PDict entry \<Rightarrow>
          (case dict_get entry ''path'' of
             PStr path \<Rightarrow>
               if path = [] \<or> path \<noteq> normpath path then Inl ''invalid_path''
               else if path \<in> set CONTENT_INVENTORY_EXCLUDED \<or> startswith path ''/''
                       \<or> startswith path ''../'' \<or> CHR 0x5C \<in> set path \<or> has_unsafe_part path
               then Inl ''unsafe_path''
               else if path \<in> set seen then Inl ''duplicated_path''
               else if dict_get entry ''kind'' = PStr ''file'' then
                 (if \<not> same_keys entry [''kind'', ''path'', ''sha256'', ''size''] then Inl ''malformed_file''
                  else case dict_get entry ''size'' of
                    PInt n \<Rightarrow>
                      if n < 0 then Inl ''invalid_size''
                      else if \<not> is_sha256_value (dict_get entry ''sha256'') then Inl ''invalid_sha256''
                      else Inr (path, [(''kind'', PStr ''file''), (''path'', PStr path),
                                       (''sha256'', dict_get entry ''sha256''), (''size'', PInt n)])
                  | _ \<Rightarrow> Inl ''invalid_size'')
               else if dict_get entry ''kind'' = PStr ''symlink'' then
                 (if \<not> same_keys entry [''kind'', ''path'', ''target'']
                     \<or> as_str (dict_get entry ''target'') = None then Inl ''malformed_symlink''
                  else bind_result (content_symlink_target path (dict_get entry ''target''))
                    (\<lambda>_. Inr (path, [(''kind'', PStr ''symlink''), (''path'', PStr path),
                                      (''target'', dict_get entry ''target'')])))
               else Inl ''invalid_kind''
           | _ \<Rightarrow> Inl ''invalid_path'')
      | _ \<Rightarrow> Inl ''entry_not_object'')"

fun content_entries :: "string list \<Rightarrow> pyval list \<Rightarrow> (string, (string \<times> pydict) list) result" where
  "content_entries seen [] = Inr []"
| "content_entries seen (raw # raws) =
     bind_result (content_entry seen raw) (\<lambda>(path, entry).
     bind_result (content_entries (path # seen) raws) (\<lambda>es. Inr ((path, entry) # es)))"

text \<open>The result keeps each entry's path beside it.\<close>

definition validate_content_inventory :: "pyval \<Rightarrow> (string, (string \<times> pydict) list) result" where
  "validate_content_inventory raw =
     (case raw of
        PList entries \<Rightarrow>
          if entries = [] then Inl ''not_a_list''
          else bind_result (content_entries [] entries) (\<lambda>es. Inr (sort_key fst es))
      | _ \<Rightarrow> Inl ''not_a_list'')"


section \<open>Harness inventory\<close>

definition kit_relative_path :: "string \<Rightarrow> string option" where
  "kit_relative_path container_path =
     (let prefix = KIT_CONTAINER_PATH @ ''/'' in
      if \<not> startswith container_path prefix then None
      else
        let raw = drop (length prefix) container_path in
        if raw = [] \<or> raw \<noteq> py_strip raw \<or> CHR 0x5C \<in> set raw then None
        else if list_ex (\<lambda>p. p = [] \<or> p = ''.'') (split_on (CHR ''/'') raw) then None
        else if list_ex (\<lambda>p. p = ''..'') (split_on (CHR ''/'') raw) then None
        else
          let normalized = normpath raw in
          if normalized = ''.'' \<or> normalized = ''..'' \<or> startswith normalized ''../'' then None
          else if startswith normalized ''/'' \<or> list_ex (\<lambda>p. p = ''..'') (split_on (CHR ''/'') normalized)
          then None
          else Some normalized)"

definition harness_entry :: "pyval \<Rightarrow> (string, pydict) result" where
  "harness_entry raw =
     (case raw of
        PDict entry \<Rightarrow>
          (let availability = dict_get entry ''availability'' in
           if unhashable availability then Inl ''TypeError''
           else if availability \<noteq> PStr ''present'' \<and> availability \<noteq> PStr ''absent'' then Inl ''invalid_availability''
           else
             let allowed = ''availability'' # (if availability = PStr ''present''
                   then [''path'', ''version'', ''sha256'', ''size''] else [''reason_code''])
             in if \<not> set (map fst entry) \<subseteq> set allowed then Inl ''forbidden_fields''
             else if availability = PStr ''absent'' then
               (let reason = dict_get entry ''reason_code'' in
                if unhashable reason then Inl ''TypeError''
                else if reason \<noteq> PStr ''not_selected'' \<and> reason \<noteq> PStr ''missing_payload'' then Inl ''invalid_reason''
                else Inr [(''availability'', PStr ''absent''), (''reason_code'', reason)])
             else
               (case dict_get entry ''path'' of
                  PStr path \<Rightarrow>
                    if \<not> startswith path (KIT_CONTAINER_PATH @ ''/'') then Inl ''path_outside_kit''
                    else if kit_relative_path path = None then Inl ''unsafe_path''
                    else
                      (case dict_get entry ''version'' of
                         PStr version \<Rightarrow>
                           if \<not> non_blank version then Inl ''invalid_version''
                           else if \<not> is_sha256_value (dict_get entry ''sha256'') then Inl ''invalid_sha256''
                           else (case dict_get entry ''size'' of
                             PInt n \<Rightarrow>
                               if n \<le> 0 then Inl ''invalid_size''
                               else Inr [(''availability'', PStr ''present''), (''path'', PStr path),
                                         (''version'', PStr version), (''sha256'', dict_get entry ''sha256''),
                                         (''size'', PInt n)]
                           | _ \<Rightarrow> Inl ''invalid_size'')
                       | _ \<Rightarrow> Inl ''invalid_version'')
                | _ \<Rightarrow> Inl ''path_outside_kit''))
      | _ \<Rightarrow> Inl ''entry_not_object'')"

fun harness_entries :: "pydict \<Rightarrow> string list \<Rightarrow> (string, pydict) result" where
  "harness_entries raw [] = Inr []"
| "harness_entries raw (key # keys) =
     bind_result (harness_entry (dict_get raw key)) (\<lambda>entry.
     bind_result (harness_entries raw keys) (\<lambda>rest. Inr ((key, PDict entry) # rest)))"

definition validate_harness_inventory :: "pyval \<Rightarrow> (string, pydict) result" where
  "validate_harness_inventory raw =
     (case raw of
        PDict d \<Rightarrow>
          if \<not> same_keys d HARNESS_KEYS then Inl ''wrong_keys'' else harness_entries d HARNESS_KEYS
      | _ \<Rightarrow> Inl ''not_an_object'')"

text \<open>The keys of the degraded entries, which each give one warning.\<close>

definition missing_payload_warnings :: "pydict \<Rightarrow> string list" where
  "missing_payload_warnings inventory = filter (\<lambda>key. case dict_get inventory key of
     PDict entry \<Rightarrow> dict_get entry ''availability'' = PStr ''absent''
                     \<and> dict_get entry ''reason_code'' = PStr ''missing_payload''
   | _ \<Rightarrow> False) HARNESS_KEYS"


section \<open>Kit identity\<close>

text \<open>\<^verbatim>\<open>^linux/[A-Za-z0-9][A-Za-z0-9_.-]*$\<close> and \<^verbatim>\<open>[A-Za-z0-9][A-Za-z0-9._-]{0,127}\<close>.\<close>

definition is_word_char :: "char \<Rightarrow> bool" where
  "is_word_char c \<longleftrightarrow> is_alnum c \<or> c = CHR ''_'' \<or> c = CHR ''.'' \<or> c = CHR ''-''"

definition is_name :: "string \<Rightarrow> bool" where
  "is_name s = (case s of [] \<Rightarrow> False | c # cs \<Rightarrow> is_alnum c \<and> list_all is_word_char cs)"

definition is_linux_platform :: "string \<Rightarrow> bool" where
  "is_linux_platform s \<longleftrightarrow> startswith s ''linux/'' \<and> is_name (drop 6 s)"

definition is_kit_version :: "string \<Rightarrow> bool" where
  "is_kit_version s \<longleftrightarrow> is_name s \<and> length s \<le> 128"

text \<open>A member that has to be a non-empty string.\<close>

definition non_empty_str :: "pydict \<Rightarrow> string \<Rightarrow> string option" where
  "non_empty_str d k = (case dict_get d k of PStr s \<Rightarrow> if s = [] then None else Some s | _ \<Rightarrow> None)"

definition validate_worker_kit_identity :: "pyval \<Rightarrow> (string, pydict) result" where
  "validate_worker_kit_identity identity =
     (case identity of
        PDict d \<Rightarrow>
          if dict_get d ''schema'' \<noteq> PStr KIT_IDENTITY_SCHEMA then Inl ''wrong_schema''
          else (case (non_empty_str d ''kit_version'', non_empty_str d ''platform'', non_empty_str d ''manifest_sha256'') of
            (Some v, Some p, Some m) \<Rightarrow>
              if \<not> is_kit_version v then Inl ''invalid_version''
              else if \<not> is_linux_platform p then Inl ''invalid_platform''
              else if \<not> is_sha256 m then Inl ''invalid_sha256''
              else Inr [(''schema'', PStr KIT_IDENTITY_SCHEMA), (''kit_version'', PStr v),
                        (''platform'', PStr p), (''manifest_sha256'', PStr m)]
          | _ \<Rightarrow> Inl ''incomplete'')
      | _ \<Rightarrow> Inl ''wrong_schema'')"



section \<open>What an accepted inventory is\<close>

definition admissible_path :: "string \<Rightarrow> bool" where
  "admissible_path path \<longleftrightarrow> path \<noteq> [] \<and> path = normpath path
     \<and> path \<notin> set CONTENT_INVENTORY_EXCLUDED \<and> \<not> startswith path ''/'' \<and> \<not> startswith path ''../''
     \<and> CHR 0x5C \<notin> set path \<and> safe_relative path"

lemma content_entry_cases:
  assumes "content_entry seen raw = Inr (path, entry)"
  obtains (regular) sha n where "admissible_path path" "path \<notin> set seen"
      "entry = [(''kind'', PStr ''file''), (''path'', PStr path), (''sha256'', sha), (''size'', PInt n)]"
      "0 \<le> n" "is_sha256_value sha"
    | (symlink) t r where "admissible_path path" "path \<notin> set seen"
      "entry = [(''kind'', PStr ''symlink''), (''path'', PStr path), (''target'', PStr t)]"
      "content_symlink_target path (PStr t) = Inr r"
proof -
  obtain d where raw: "raw = PDict d" using assms by (cases raw) (auto simp: content_entry_def)
  obtain p where p: "dict_get d ''path'' = PStr p"
    using assms raw by (cases "dict_get d ''path''") (auto simp: content_entry_def)
  have ok: "admissible_path p" "p \<notin> set seen"
    using assms by (auto simp: content_entry_def raw p admissible_path_def split: if_splits)
  note run = assms [unfolded content_entry_def raw]
  show thesis
  proof (cases "dict_get d ''kind'' = PStr ''file''")
    case True
    then show thesis using run p ok regular
      by (auto simp: admissible_path_def split: if_splits pyval.splits)
  next
    case False
    then show thesis using run p ok symlink
      by (auto simp: admissible_path_def bind_result_eq_Inr split: if_splits pyval.splits)
  qed
qed

lemma content_entryD:
  assumes "content_entry seen raw = Inr (path, entry)"
  shows "admissible_path path" "path \<notin> set seen"
    "dict_get entry ''kind'' = PStr ''symlink'' \<Longrightarrow>
       \<exists>resolved. content_symlink_target path (dict_get entry ''target'') = Inr resolved"
  using assms by (auto elim!: content_entry_cases)

lemma content_symlink_target_safe:
  "content_symlink_target path target = Inr resolved \<Longrightarrow> safe_relative resolved"
  by (cases target)
     (auto simp: content_symlink_target_def bind_result_eq_Inr inside_root_def simp del: if_image_distrib
       split: if_split_asm)

text \<open>Accepting an entry again gives the same entry.\<close>

lemma content_entry_again:
  assumes "content_entry seen raw = Inr (path, entry)" "path \<notin> set seen'"
  shows "content_entry seen' (PDict entry) = Inr (path, entry)"
  using assms(1)
proof (cases rule: content_entry_cases)
  case (regular sha n)
  then show ?thesis using assms(2) by (simp add: content_entry_def admissible_path_def same_keys_def)
next
  case (symlink t r)
  then show ?thesis using assms(2) by (simp add: content_entry_def admissible_path_def same_keys_def)
qed

lemma content_entriesD:
  assumes "content_entries seen raws = Inr es"
  shows "distinct (map fst es)" "set (map fst es) \<inter> set seen = {}"
    "\<And>path entry. (path, entry) \<in> set es \<Longrightarrow> \<exists>s raw. content_entry s raw = Inr (path, entry)"
    "length es = length raws"
  using assms
proof (induction seen raws arbitrary: es rule: content_entries.induct)
  case (2 seen raw raws)
  {
    case 1
    then show ?case using 2(1-2) by (auto simp: bind_result_eq_Inr)
  next
    case 2
    then show ?case using "2.IH"(2) content_entryD(2) by (fastforce simp: bind_result_eq_Inr)
  next
    case 3
    then show ?case using "2.IH"(3) by (fastforce simp: bind_result_eq_Inr)
  next
    case 4
    then show ?case using "2.IH"(4) by (fastforce simp: bind_result_eq_Inr)
  }
qed auto


lemma content_entries_again:
  assumes "\<And>p e. (p, e) \<in> set es \<Longrightarrow> \<exists>s raw. content_entry s raw = Inr (p, e)"
    "distinct (map fst es)" "set (map fst es) \<inter> set seen = {}"
  shows "content_entries seen (map (\<lambda>(p, e). PDict e) es) = Inr es"
  using assms
proof (induction es arbitrary: seen)
  case (Cons x es)
  obtain p e where x: "x = (p, e)" by fastforce
  obtain s raw where "content_entry s raw = Inr (p, e)" using Cons.prems(1) [of p e] x by auto
  then have "content_entry seen (PDict e) = Inr (p, e)"
    using Cons.prems(3) x by (intro content_entry_again) auto
  moreover have "content_entries (p # seen) (map (\<lambda>(p, e). PDict e) es) = Inr es"
    using Cons.prems x by (intro Cons.IH) auto
  ultimately show ?case by (simp add: x)
qed simp

lemma startswith_iff: "startswith s p \<longleftrightarrow> (\<exists>r. s = p @ r)"
  by (auto simp: startswith_def) (metis append_take_drop_id)


section \<open>Properties of the inventory\<close>

text \<open>
  An accepted content inventory is non-empty, sorted and without repeated paths; no path
  leaves the Kit root or has an empty, \<open>.\<close> or \<open>..\<close> component, and every symlink in it resolves to
  such a path too. Validating the accepted entries again accepts them unchanged.
\<close>

theorem accepted_content_inventory_is_canonical:
  assumes "validate_content_inventory raw = Inr es"
  shows "es \<noteq> [] \<and> sorted (map fst es) \<and> distinct (map fst es)
    \<and> list_all (\<lambda>(path, entry). admissible_path path
        \<and> (dict_get entry ''kind'' = PStr ''symlink'' \<longrightarrow>
             (\<exists>resolved. content_symlink_target path (dict_get entry ''target'') = Inr resolved
                \<and> safe_relative resolved))) es
    \<and> validate_content_inventory (PList (map (\<lambda>(path, entry). PDict entry) es)) = Inr es"
proof -
  obtain entries es0 where e: "raw = PList entries" "entries \<noteq> []" "content_entries [] entries = Inr es0"
    "es = sort_key fst es0"
    using assms by (auto simp: validate_content_inventory_def bind_result_eq_Inr split: pyval.splits if_splits)
  note facts = content_entriesD [OF e(3)]
  have distinct: "distinct (map fst es)" using facts(1) by (simp add: e(4) distinct_map)
  have origin: "\<exists>s raw. content_entry s raw = Inr (p, x)" if "(p, x) \<in> set es" for p x
    using facts(3) [of p x] that by (simp add: e(4))
  have "length es = length entries" using facts(4) by (simp add: e(4))
  then have "es \<noteq> []" using e(2) by auto
  moreover have "sorted (map fst es)" by (simp add: e(4))
  moreover have "admissible_path p \<and> (dict_get x ''kind'' = PStr ''symlink'' \<longrightarrow>
      (\<exists>resolved. content_symlink_target p (dict_get x ''target'') = Inr resolved \<and> safe_relative resolved))"
    if px: "(p, x) \<in> set es" for p x
    using origin [OF px] content_entryD content_symlink_target_safe by metis
  moreover have "content_entries [] (map (\<lambda>(p, e). PDict e) es) = Inr es"
    using origin distinct by (intro content_entries_again) auto
  ultimately show ?thesis using distinct
    by (auto simp: validate_content_inventory_def list_all_iff sort_key_id_if_sorted)
qed

text \<open>
  \<open>kit_relative_path\<close> maps exactly the container paths below the Kit whose remainder is a
  canonical relative path without backslash and surrounding blanks, and returns that remainder: no
  traversal is normalised away, and the checks after the normalisation never decide.
\<close>

theorem kit_relative_path_exact:
  "(kit_relative_path p = Some r) =
     (p = KIT_CONTAINER_PATH @ ''/'' @ r \<and> safe_relative r \<and> CHR 0x5C \<notin> set r \<and> r = py_strip r)"
proof -
  let ?prefix = "KIT_CONTAINER_PATH @ ''/''"
  have parts: "\<not> list_ex (\<lambda>p. p = [] \<or> p = ''.'') (split_on (CHR ''/'') r)
      \<and> \<not> list_ex (\<lambda>p. p = ''..'') (split_on (CHR ''/'') r) \<longleftrightarrow> safe_relative r" for r
    by (auto simp: safe_relative_def plain_component_def list_ex_iff list_all_iff)
  have run: "kit_relative_path (?prefix @ r) =
      (if safe_relative r \<and> CHR 0x5C \<notin> set r \<and> r = py_strip r then Some r else None)" for r
  proof (cases "safe_relative r")
    case True
    then have "\<not> list_ex (\<lambda>p. p = ''..'') (split_on (CHR ''/'') r)" using parts by blast
    then show ?thesis
      using True safe_relative_not_absolute [OF True] normpath_safe [OF True] parts [of r]
      by (auto simp: kit_relative_path_def Let_def startswith_iff)
  next
    case False
    then show ?thesis using parts [of r] by (auto simp: kit_relative_path_def Let_def startswith_iff)
  qed
  show ?thesis
  proof (cases "startswith p ?prefix")
    case True
    then obtain q where "p = ?prefix @ q" by (auto simp: startswith_iff)
    then show ?thesis using run [of q] by auto
  next
    case False
    then show ?thesis by (auto simp: kit_relative_path_def Let_def startswith_iff)
  qed
qed


text \<open>The two shapes of a normalised harness entry.\<close>

definition is_present_entry :: "pydict \<Rightarrow> bool" where
  "is_present_entry e \<longleftrightarrow> (\<exists>path version sha n r. e = [(''availability'', PStr ''present''), (''path'', PStr path),
     (''version'', PStr version), (''sha256'', sha), (''size'', PInt n)] \<and> kit_relative_path path = Some r
     \<and> non_blank version \<and> is_sha256_value sha \<and> 0 < n)"

definition is_absent_entry :: "pydict \<Rightarrow> bool" where
  "is_absent_entry e \<longleftrightarrow> (\<exists>reason\<in>{''not_selected'', ''missing_payload''}.
     e = [(''availability'', PStr ''absent''), (''reason_code'', PStr reason)])"

lemma harness_entry_shape:
  assumes "harness_entry raw = Inr e"
  shows "is_present_entry e \<or> is_absent_entry e"
proof -
  obtain d where raw: "raw = PDict d" using assms by (cases raw) (auto simp: harness_entry_def)
  note run = assms [unfolded harness_entry_def raw Let_def]
  show ?thesis
  proof (cases "dict_get d ''availability'' = PStr ''absent''")
    case True
    then show ?thesis using run by (auto simp: is_absent_entry_def split: if_splits)
  next
    case False
    then show ?thesis using run
      by (auto simp: is_present_entry_def split: if_splits pyval.splits)
  qed
qed

lemma present_path_in_kit:
  assumes "kit_relative_path path = Some r"
  shows "startswith path (KIT_CONTAINER_PATH @ ''/'')"
  using assms by (auto simp: kit_relative_path_def Let_def split: if_splits)

lemma harness_entry_again:
  assumes "is_present_entry e \<or> is_absent_entry e"
  shows "harness_entry (PDict e) = Inr e"
  using assms
proof
  assume "is_present_entry e"
  then show ?thesis
    using present_path_in_kit
    by (auto simp: is_present_entry_def harness_entry_def unhashable_def)
next
  assume "is_absent_entry e"
  then show ?thesis by (auto simp: is_absent_entry_def harness_entry_def unhashable_def)
qed

lemma harness_entriesD:
  assumes "harness_entries raw keys = Inr iv"
  shows "map fst iv = keys \<and> (\<forall>(k, v)\<in>set iv. \<exists>e. v = PDict e \<and> harness_entry (dict_get raw k) = Inr e)"
  using assms by (induction keys arbitrary: iv) (auto simp: bind_result_eq_Inr)

lemma harness_entries_again:
  assumes "\<And>k v. (k, v) \<in> set iv \<Longrightarrow> dict_get d k = v \<and> (\<exists>e. v = PDict e \<and> harness_entry v = Inr e)"
  shows "harness_entries d (map fst iv) = Inr iv"
  using assms
proof (induction iv)
  case (Cons x iv)
  obtain k v where x: "x = (k, v)" by fastforce
  obtain e where "v = PDict e" "harness_entry v = Inr e" "dict_get d k = v"
    using Cons.prems [of k v] x by auto
  moreover have "harness_entries d (map fst iv) = Inr iv" using Cons.prems by (intro Cons.IH) auto
  ultimately show ?case by (simp add: x)
qed simp

text \<open>
  An accepted harness inventory records exactly the built-in harnesses; each entry is absent
  with a reason and no payload, or present with a path inside the Kit, a version, a digest and a
  positive size. Validating the normalised inventory again returns it unchanged.
\<close>

theorem accepted_harness_inventory_is_normal:
  assumes "validate_harness_inventory raw = Inr iv"
  shows "map fst iv = HARNESS_KEYS
    \<and> list_all (\<lambda>(key, v). \<exists>e. v = PDict e \<and> (is_present_entry e \<or> is_absent_entry e)) iv
    \<and> validate_harness_inventory (PDict iv) = Inr iv"
proof -
  obtain d where d: "harness_entries d HARNESS_KEYS = Inr iv"
    using assms by (auto simp: validate_harness_inventory_def split: pyval.splits if_splits)
  note facts = harness_entriesD [OF d]
  have keys: "map fst iv = HARNESS_KEYS" using facts by blast
  have shape: "\<exists>e. v = PDict e \<and> (is_present_entry e \<or> is_absent_entry e)" if "(k, v) \<in> set iv" for k v
    using facts that harness_entry_shape by fastforce
  have "distinct (map fst iv)" unfolding keys by (simp add: HARNESS_KEYS_def)
  then have "dict_get iv k = v" if "(k, v) \<in> set iv" for k v
    using that by (simp add: dict_get_def)
  then have "harness_entries iv (map fst iv) = Inr iv"
    using shape harness_entry_again by (intro harness_entries_again) blast
  then show ?thesis
    using keys shape
    by (auto simp: validate_harness_inventory_def same_keys_def list_all_iff)
qed


section \<open>Concrete inventories\<close>

definition sample_digest :: string where "sample_digest = replicate 64 (CHR ''a'')"

definition sample_content :: pyval where
  "sample_content = PList
     [PDict [(''kind'', PStr ''symlink''), (''path'', PStr ''bin/sh''), (''target'', PStr ''../nix/sh'')],
      PDict [(''kind'', PStr ''file''), (''path'', PStr ''bin/pi''), (''sha256'', PStr sample_digest), (''size'', PInt 3)]]"

definition sample_inventory :: pyval where
  "sample_inventory = PDict
     [(''claude'', PDict [(''availability'', PStr ''absent''), (''reason_code'', PStr ''not_selected'')]),
      (''codex'', PDict [(''availability'', PStr ''absent''), (''reason_code'', PStr ''missing_payload'')]),
      (''opencode'', PDict [(''availability'', PStr ''absent''), (''reason_code'', PStr ''not_selected'')]),
      (''pi'', PDict [(''availability'', PStr ''present''), (''path'', PStr ''/opt/codify-kit/bin/pi''),
         (''version'', PStr ''1''), (''sha256'', PStr sample_digest), (''size'', PInt 3)])]"

theorem accepted_content_inventory_is_canonical_witness:
  "\<exists>es. validate_content_inventory sample_content = Inr es \<and> distinct (map fst es) \<and> sorted (map fst es)"
proof -
  have "\<not> isl (validate_content_inventory sample_content)" by code_simp
  then obtain es where es: "validate_content_inventory sample_content = Inr es"
    by (cases "validate_content_inventory sample_content") auto
  from accepted_content_inventory_is_canonical [OF es] es show ?thesis by blast
qed

theorem accepted_harness_inventory_is_normal_witness:
  "\<exists>iv. validate_harness_inventory sample_inventory = Inr iv \<and> map fst iv = HARNESS_KEYS"
proof -
  have "\<not> isl (validate_harness_inventory sample_inventory)" by code_simp
  then obtain iv where iv: "validate_harness_inventory sample_inventory = Inr iv"
    by (cases "validate_harness_inventory sample_inventory") auto
  from accepted_harness_inventory_is_normal [OF iv] iv show ?thesis by blast
qed

end
