(* ===== verification/Frozen_Identity.thy ===== *)
theory Frozen_Identity
  imports Kit_Inventory
begin

text \<open>
  The verified execution identity of a V2 task: the validators of \<^verbatim>\<open>core/worker_profiles.py\<close> for the
  image, the Harness CLI, the Kit and the per-Harness evidence, and the scheduler's test that a
  snapshot carries all of it (\<open>frozen_v2_snapshot_is_complete\<close>). A raise is \<open>Inl\<close> with a short code.
\<close>

definition V2_IMAGE_IDENTITY_SCHEMA :: string where
  "V2_IMAGE_IDENTITY_SCHEMA = ''codify.worker-image-identity/v1''"

definition V2_HARNESS_EVIDENCE_SCHEMA :: string where
  "V2_HARNESS_EVIDENCE_SCHEMA = ''codify.worker-harness-verification/v1''"

text \<open>\<^verbatim>\<open>^[^@\s]+@sha256:[0-9a-f]{64}$\<close> and \<^verbatim>\<open>^sha256:[0-9a-f]{64}$\<close>.\<close>

definition is_image_id :: "string \<Rightarrow> bool" where
  "is_image_id s \<longleftrightarrow> startswith s ''sha256:'' \<and> is_sha256 (drop 7 s)"

definition is_image_reference :: "string \<Rightarrow> bool" where
  "is_image_reference s =
     (let name = takeWhile (\<lambda>c. c \<noteq> CHR ''@'') s; rest = dropWhile (\<lambda>c. c \<noteq> CHR ''@'') s
      in name \<noteq> [] \<and> list_all (\<lambda>c. \<not> is_space c) name \<and> rest \<noteq> [] \<and> is_image_id (tl rest))"

definition validate_v2_worker_image_identity :: "pyval \<Rightarrow> (string, pydict) result" where
  "validate_v2_worker_image_identity identity =
     (case identity of
        PDict d \<Rightarrow>
          if dict_get d ''schema'' \<noteq> PStr V2_IMAGE_IDENTITY_SCHEMA then Inl ''no_identity''
          else (case (non_empty_str d ''daemon_key'', non_empty_str d ''image_reference'',
                      non_empty_str d ''image_id'', non_empty_str d ''runtime_platform'') of
            (Some k, Some r, Some i, Some p) \<Rightarrow>
              if list_ex is_space k then Inl ''invalid_daemon_key''
              else if \<not> is_image_reference r then Inl ''not_pinned''
              else if \<not> is_image_id i then Inl ''invalid_image_id''
              else if \<not> is_linux_platform p then Inl ''invalid_platform''
              else Inr [(''schema'', PStr V2_IMAGE_IDENTITY_SCHEMA), (''daemon_key'', PStr k),
                        (''image_reference'', PStr r), (''image_id'', PStr i), (''runtime_platform'', PStr p)]
          | _ \<Rightarrow> Inl ''incomplete'')
      | _ \<Rightarrow> Inl ''no_identity'')"

definition validate_v2_worker_kit_identity :: "pyval \<Rightarrow> (string, pydict) result" where
  "validate_v2_worker_kit_identity identity = validate_worker_kit_identity identity"

definition validate_v2_cli_identity :: "pyval \<Rightarrow> (string, pydict) result" where
  "validate_v2_cli_identity identity =
     (case identity of
        PDict d \<Rightarrow>
          (case (non_empty_str d ''source'', non_empty_str d ''executable_path'',
                 non_empty_str d ''version'', non_empty_str d ''binary_digest'') of
            (Some s, Some e, Some v, Some b) \<Rightarrow>
              if s \<noteq> ''worker_kit'' \<and> s \<noteq> ''host_mount'' then Inl ''invalid_source''
              else if \<not> startswith e ''/'' \<or> CHR 0x5C \<in> set e \<or> \<not> is_normal_posix_path e then Inl ''unsafe_path''
              else if s = ''worker_kit'' \<and> \<not> startswith e (KIT_CONTAINER_PATH @ ''/'') then Inl ''outside_kit''
              else if \<not> is_sha256 b then Inl ''invalid_digest''
              else Inr [(''source'', PStr s), (''executable_path'', PStr e), (''version'', PStr v),
                        (''binary_digest'', PStr b)]
          | _ \<Rightarrow> Inl ''incomplete'')
      | _ \<Rightarrow> Inl ''no_identity'')"

text \<open>\<^verbatim>\<open>dict(evidence)\<close> with one member replaced keeps the order of the members.\<close>

definition dict_put :: "pydict \<Rightarrow> string \<Rightarrow> pyval \<Rightarrow> pydict" where
  "dict_put d k v = (if has_key d k then map (\<lambda>(k', v'). (k', if k' = k then v else v')) d else d @ [(k, v)])"

definition validate_v2_harness_evidence ::
  "pyval \<Rightarrow> string \<Rightarrow> string \<Rightarrow> pydict \<Rightarrow> int \<Rightarrow> (string, pydict) result" where
  "validate_v2_harness_evidence evidence harness_key verification_digest image_identity generation =
     (case evidence of
        PDict d \<Rightarrow>
          if dict_get d ''schema'' \<noteq> PStr V2_HARNESS_EVIDENCE_SCHEMA then Inl ''no_evidence''
          else if dict_get d ''harness_key'' \<noteq> PStr harness_key then Inl ''wrong_harness''
          else if dict_get d ''contract_version'' \<noteq> PStr HARNESS_CONTRACT_VERSION_V2 then Inl ''wrong_contract''
          else if dict_get d ''verification_input_digest'' \<noteq> PStr verification_digest then Inl ''stale_input''
          else if \<not> py_eq (dict_get d ''generation'') (PInt generation) then Inl ''stale_generation''
          else if \<not> py_eq (dict_get d ''image_identity'') (PDict image_identity) then Inl ''stale_image''
          else if (case dict_get d ''adapter'' of
                     PDict a \<Rightarrow> non_empty_str a ''version'' = None \<or> \<not> is_sha256_value (dict_get a ''digest'')
                   | _ \<Rightarrow> True) then Inl ''invalid_adapter''
          else if non_empty_str d ''verified_at'' = None then Inl ''no_time''
          else bind_result (validate_v2_cli_identity (dict_get d ''cli''))
                 (\<lambda>cli. Inr (dict_put d ''cli'' (PDict cli)))
      | _ \<Rightarrow> Inl ''no_evidence'')"

text \<open>The CLI columns of the snapshot, \<^verbatim>\<open>frozen_cli\<close>.\<close>

definition opt_str :: "string option \<Rightarrow> pyval" where
  "opt_str v = (case v of None \<Rightarrow> PNone | Some s \<Rightarrow> PStr s)"

definition frozen_cli :: "worker_snapshot \<Rightarrow> pydict" where
  "frozen_cli s = [(''source'', opt_str (snap_cli_source s)),
     (''executable_path'', opt_str (snap_cli_executable_path s)), (''version'', opt_str (snap_cli_version s)),
     (''binary_digest'', opt_str (snap_cli_binary_digest s))]"

definition frozen_v2_snapshot_is_complete :: "worker_snapshot option \<Rightarrow> bool" where
  "frozen_v2_snapshot_is_complete snapshot =
     (case snapshot of
        None \<Rightarrow> False
      | Some s \<Rightarrow>
          (case snap_harness_config_snapshot s of
             PDict config \<Rightarrow>
               (case validate_v2_worker_image_identity (dict_get config ''v2_worker_image_identity'') of
                  Inl _ \<Rightarrow> False
                | Inr image_identity \<Rightarrow>
                    (case dict_get config ''v2_harness_verification_evidence'' of
                       PDict evidence \<Rightarrow>
                         (case validate_v2_cli_identity (dict_get evidence ''cli'') of
                            Inl _ \<Rightarrow> False
                          | Inr cli_identity \<Rightarrow>
                              if \<not> py_eq (dict_get evidence ''image_identity'') (PDict image_identity) then False
                              else if \<not> py_eq (PDict (frozen_cli s)) (PDict cli_identity) then False
                              else if snap_runtime_mode s = ''mounted_kit''
                              then \<not> isl (validate_v2_worker_kit_identity (dict_get config ''worker_kit_identity''))
                              else True)
                     | _ \<Rightarrow> False))
           | _ \<Rightarrow> False))"


section \<open>Properties of the frozen identity\<close>

lemma non_empty_strD: "non_empty_str d k = Some s \<Longrightarrow> s \<noteq> [] \<and> dict_get d k = PStr s"
  by (auto simp: non_empty_str_def split: pyval.splits if_splits)

lemma validate_v2_cli_identityD:
  assumes "validate_v2_cli_identity v = Inr cli"
  obtains s e w b where "cli = [(''source'', PStr s), (''executable_path'', PStr e), (''version'', PStr w),
      (''binary_digest'', PStr b)]" "s = ''worker_kit'' \<or> s = ''host_mount''"
    "startswith e ''/''" "CHR 0x5C \<notin> set e" "is_normal_posix_path e" "w \<noteq> []"
    "s = ''worker_kit'' \<longrightarrow> startswith e (KIT_CONTAINER_PATH @ ''/'')" "is_sha256 b"
proof -
  obtain d where v: "v = PDict d" using assms by (cases v) (auto simp: validate_v2_cli_identity_def)
  show thesis
    using assms that unfolding validate_v2_cli_identity_def v
    by (auto dest!: non_empty_strD split: option.splits if_splits)
qed

lemma opt_str_eq [simp]: "opt_str v = PStr s \<longleftrightarrow> v = Some s"
  by (auto simp: opt_str_def split: option.splits)

lemma py_eq_str [simp]: "py_eq v (PStr s) \<longleftrightarrow> v = PStr s"
  by (cases v) (auto simp: py_number_def)

text \<open>
  A complete V2 snapshot pins what runs: its CLI columns name an allowed source, a canonical
  absolute path (below the Kit when the Kit is the source), a version and a SHA-256 digest, and
  they are the ones of the frozen evidence; the image is pinned by digest and is the one the
  evidence was recorded for; a mounted Kit has a valid content identity.
\<close>

theorem complete_snapshot_pins_execution:
  assumes "frozen_v2_snapshot_is_complete (Some s)"
  shows "\<exists>config evidence image source path version digest.
      snap_harness_config_snapshot s = PDict config
    \<and> dict_get config ''v2_harness_verification_evidence'' = PDict evidence
    \<and> snap_cli_source s = Some source \<and> (source = ''worker_kit'' \<or> source = ''host_mount'')
    \<and> snap_cli_executable_path s = Some path \<and> startswith path ''/'' \<and> is_normal_posix_path path
    \<and> (source = ''worker_kit'' \<longrightarrow> startswith path (KIT_CONTAINER_PATH @ ''/''))
    \<and> snap_cli_version s = Some version \<and> version \<noteq> []
    \<and> snap_cli_binary_digest s = Some digest \<and> is_sha256 digest
    \<and> validate_v2_cli_identity (dict_get evidence ''cli'') = Inr (frozen_cli s)
    \<and> validate_v2_worker_image_identity (dict_get config ''v2_worker_image_identity'') = Inr image
    \<and> py_eq (dict_get evidence ''image_identity'') (PDict image)
    \<and> (snap_runtime_mode s = ''mounted_kit'' \<longrightarrow>
         (\<exists>kit. validate_v2_worker_kit_identity (dict_get config ''worker_kit_identity'') = Inr kit))"
proof -
  obtain config where config: "snap_harness_config_snapshot s = PDict config"
    using assms by (cases "snap_harness_config_snapshot s") (auto simp: frozen_v2_snapshot_is_complete_def)
  obtain image where image: "validate_v2_worker_image_identity (dict_get config ''v2_worker_image_identity'') = Inr image"
    using assms config by (auto simp: frozen_v2_snapshot_is_complete_def split: sum.splits)
  obtain evidence where evidence: "dict_get config ''v2_harness_verification_evidence'' = PDict evidence"
    using assms config image by (auto simp: frozen_v2_snapshot_is_complete_def split: pyval.splits)
  obtain cli where cli: "validate_v2_cli_identity (dict_get evidence ''cli'') = Inr cli"
    using assms config image evidence by (auto simp: frozen_v2_snapshot_is_complete_def split: sum.splits)
  have rest: "py_eq (dict_get evidence ''image_identity'') (PDict image)"
    "py_eq (PDict (frozen_cli s)) (PDict cli)"
    "snap_runtime_mode s = ''mounted_kit'' \<longrightarrow>
       \<not> isl (validate_v2_worker_kit_identity (dict_get config ''worker_kit_identity''))"
    using assms config image evidence cli
    by (auto simp: frozen_v2_snapshot_is_complete_def split: if_splits)
  obtain so e w b where cli_is: "cli = [(''source'', PStr so), (''executable_path'', PStr e), (''version'', PStr w),
      (''binary_digest'', PStr b)]" "so = ''worker_kit'' \<or> so = ''host_mount''"
    "startswith e ''/''" "CHR 0x5C \<notin> set e" "is_normal_posix_path e" "w \<noteq> []"
    "so = ''worker_kit'' \<longrightarrow> startswith e (KIT_CONTAINER_PATH @ ''/'')" "is_sha256 b"
    using validate_v2_cli_identityD [OF cli] .
  have columns: "snap_cli_source s = Some so" "snap_cli_executable_path s = Some e"
    "snap_cli_version s = Some w" "snap_cli_binary_digest s = Some b"
    using rest(2) by (simp_all add: cli_is(1) frozen_cli_def)
  then have "frozen_cli s = cli" by (simp add: frozen_cli_def cli_is(1) opt_str_def)
  moreover have "snap_runtime_mode s = ''mounted_kit'' \<longrightarrow>
      (\<exists>kit. validate_v2_worker_kit_identity (dict_get config ''worker_kit_identity'') = Inr kit)"
    using rest(3) by (cases "validate_v2_worker_kit_identity (dict_get config ''worker_kit_identity'')") auto
  ultimately show ?thesis using config evidence image cli rest(1) columns cli_is(2-) by auto
qed

text \<open>
  The path test for a Kit CLI is weaker than the one for inventory paths: a canonical path
  below the Kit may still climb out of it with \<open>..\<close>, and the CLI validator accepts it while
  \<open>kit_relative_path\<close> refuses it.
\<close>

theorem cli_identity_admits_traversal:
  "validate_v2_cli_identity (PDict [(''source'', PStr ''worker_kit''),
       (''executable_path'', PStr ''/opt/codify-kit/../../bin/sh''), (''version'', PStr ''1''),
       (''binary_digest'', PStr sample_digest)])
     = Inr [(''source'', PStr ''worker_kit''), (''executable_path'', PStr ''/opt/codify-kit/../../bin/sh''),
            (''version'', PStr ''1''), (''binary_digest'', PStr sample_digest)]
   \<and> kit_relative_path ''/opt/codify-kit/../../bin/sh'' = None"
  by code_simp


section \<open>A concrete snapshot\<close>

definition sample_image_identity :: pydict where
  "sample_image_identity = [(''schema'', PStr V2_IMAGE_IDENTITY_SCHEMA), (''daemon_key'', PStr ''tcp://h''),
     (''image_reference'', PStr (''img@sha256:'' @ sample_digest)), (''image_id'', PStr (''sha256:'' @ sample_digest)),
     (''runtime_platform'', PStr ''linux/amd64'')]"

definition sample_cli :: pydict where
  "sample_cli = [(''source'', PStr ''worker_kit''), (''executable_path'', PStr ''/opt/codify-kit/bin/pi''),
     (''version'', PStr ''1''), (''binary_digest'', PStr sample_digest)]"

definition complete_snapshot :: "row_id \<Rightarrow> worker_snapshot" where
  "complete_snapshot k = \<lparr>snap_task_id = k, snap_image = ''img'', snap_runtime_mode = ''baked_image'',
     snap_worker_kit_version = None, snap_worker_kit_path = None, snap_runtime_locator_fingerprint = None,
     snap_harness_key = Some ''pi'',
     snap_harness_config_snapshot = PDict [(''v2_worker_image_identity'', PDict sample_image_identity),
       (''v2_harness_verification_evidence'', PDict [(''image_identity'', PDict sample_image_identity),
          (''cli'', PDict sample_cli)])],
     snap_model_endpoint_snapshot = PNone, snap_cli_source = Some ''worker_kit'',
     snap_cli_executable_path = Some ''/opt/codify-kit/bin/pi'', snap_cli_version = Some ''1'',
     snap_cli_binary_digest = Some sample_digest, snap_runtime_contract_version = Some HARNESS_CONTRACT_VERSION_V2,
     snap_runtime_bundle_digest = None\<rparr>"

lemma complete_snapshot_is_complete: "frozen_v2_snapshot_is_complete (Some (complete_snapshot k))"
proof -
  have "frozen_v2_snapshot_is_complete (Some (complete_snapshot 1))" by code_simp
  moreover have "frozen_v2_snapshot_is_complete (Some (s\<lparr>snap_task_id := k\<rparr>)) = frozen_v2_snapshot_is_complete (Some s)" for s
    by (simp add: frozen_v2_snapshot_is_complete_def frozen_cli_def cong: pyval.case_cong sum.case_cong if_cong)
  moreover have "complete_snapshot k = (complete_snapshot 1)\<lparr>snap_task_id := k\<rparr>"
    by (simp add: complete_snapshot_def)
  ultimately show ?thesis by simp
qed

theorem complete_snapshot_pins_execution_witness:
  "\<exists>digest. snap_cli_binary_digest (complete_snapshot 1) = Some digest \<and> is_sha256 digest"
  using complete_snapshot_pins_execution [OF complete_snapshot_is_complete [of 1]] by blast

end
