(* ===== verification/Task_Timeout.thy ===== *)
theory Task_Timeout
  imports Codify_Models
begin

text \<open>
  Peak and off-peak timeouts and the frozen execution deadline, \<^verbatim>\<open>core/task_timeout.py\<close>.

  An instant is a number of microseconds since 1970-01-01T00:00 UTC. The business time zone
  \<^verbatim>\<open>Asia/Shanghai\<close> is eight hours ahead of UTC the whole year (it has had no other offset since
  1991). A time of day is the number of minutes since midnight; \<open>None\<close> is \<^verbatim>\<open>ValueError\<close>.
\<close>

definition TASK_TIMEOUT_MIN_SECONDS :: int where "TASK_TIMEOUT_MIN_SECONDS = 60"
definition TASK_TIMEOUT_MAX_SECONDS :: int where "TASK_TIMEOUT_MAX_SECONDS = 28800"

definition second_us :: int where "second_us = 1000000"
definition minute_us :: int where "minute_us = 60 * second_us"
definition hour_us :: int where "hour_us = 60 * minute_us"
definition day_us :: int where "day_us = 24 * hour_us"

lemmas unit_defs = second_us_def minute_us_def hour_us_def day_us_def

text \<open>The settings the timeout policy reads.\<close>

record timeout_settings =
  task_timeout_peak_seconds :: pyval
  task_timeout_off_peak_seconds :: pyval
  task_timeout_peak_start :: pyval
  task_timeout_peak_end :: pyval

section \<open>The code\<close>

definition digit_value :: "char \<Rightarrow> int" where
  "digit_value c = of_char c - 48"

text \<open>\<^verbatim>\<open>^(?:[01]\d|2[0-3]):[0-5]\d$\<close>, then \<^verbatim>\<open>time(hour, minute)\<close>.\<close>

definition parse_hhmm :: "pyval \<Rightarrow> int option" where
  "parse_hhmm v = (case v of
     PStr [a, b, c, d, e] \<Rightarrow>
       (if ((char_in_range (CHR ''0'') (CHR ''1'') a \<and> is_digit b)
              \<or> (a = CHR ''2'' \<and> char_in_range (CHR ''0'') (CHR ''3'') b))
           \<and> c = CHR '':'' \<and> char_in_range (CHR ''0'') (CHR ''5'') d \<and> is_digit e
        then Some (60 * (10 * digit_value a + digit_value b) + 10 * digit_value d + digit_value e)
        else None)
   | _ \<Rightarrow> None)"

definition validate_timeout_seconds :: "pyval \<Rightarrow> int option" where
  "validate_timeout_seconds v = (case v of
     PInt n \<Rightarrow> (if n < TASK_TIMEOUT_MIN_SECONDS \<or> n > TASK_TIMEOUT_MAX_SECONDS then None else Some n)
   | _ \<Rightarrow> None)"

definition validate_timeout_window :: "pyval \<Rightarrow> pyval \<Rightarrow> (int \<times> int) option" where
  "validate_timeout_window start end' = (case parse_hhmm start of None \<Rightarrow> None | Some s \<Rightarrow>
     (case parse_hhmm end' of None \<Rightarrow> None | Some e \<Rightarrow> if s = e then None else Some (s, e)))"

text \<open>The local time of day in \<^verbatim>\<open>Asia/Shanghai\<close> with seconds and microseconds dropped.\<close>

definition local_minute :: "timestamp \<Rightarrow> int" where
  "local_minute t = ((t + 8 * hour_us) mod day_us) div minute_us"

definition is_peak_time :: "timestamp \<Rightarrow> pyval \<Rightarrow> pyval \<Rightarrow> bool option" where
  "is_peak_time t start end' = (case validate_timeout_window start end' of
     None \<Rightarrow> None
   | Some (s, e) \<Rightarrow> Some (let m = local_minute t in
       if s < e then s \<le> m \<and> m < e else m \<ge> s \<or> m < e))"

definition select_task_timeout :: "timeout_settings \<Rightarrow> timestamp \<Rightarrow> (string \<times> int) option" where
  "select_task_timeout cfg t =
     (case validate_timeout_seconds (task_timeout_peak_seconds cfg) of None \<Rightarrow> None | Some peak_s \<Rightarrow>
     (case validate_timeout_seconds (task_timeout_off_peak_seconds cfg) of None \<Rightarrow> None | Some off_s \<Rightarrow>
     (case is_peak_time t (task_timeout_peak_start cfg) (task_timeout_peak_end cfg) of
        None \<Rightarrow> None
      | Some peak \<Rightarrow> Some (if peak then (''peak'', peak_s) else (''off-peak'', off_s)))))"

definition resolve_task_timeout_seconds :: "timeout_settings \<Rightarrow> timestamp \<Rightarrow> int option" where
  "resolve_task_timeout_seconds cfg t = map_option snd (select_task_timeout cfg t)"

definition frozen_task_timeout_seconds :: "task \<Rightarrow> int option" where
  "frozen_task_timeout_seconds t = validate_timeout_seconds
     (case task_execution_timeout_seconds t of None \<Rightarrow> PNone | Some n \<Rightarrow> PInt n)"

definition execution_deadline_at :: "timestamp \<Rightarrow> int \<Rightarrow> timestamp" where
  "execution_deadline_at started timeout_seconds = started + timeout_seconds * second_us"

text \<open>\<^verbatim>\<open>math.ceil(delta.total_seconds())\<close>.\<close>

definition ceil_seconds :: "int \<Rightarrow> int" where
  "ceil_seconds us = - ((- us) div second_us)"

definition remaining_timeout_seconds :: "timestamp \<Rightarrow> int \<Rightarrow> timestamp \<Rightarrow> int" where
  "remaining_timeout_seconds started timeout_seconds now =
     ceil_seconds (execution_deadline_at started timeout_seconds - now)"


section \<open>Lemmas\<close>

lemma validate_timeout_seconds_Some:
  "validate_timeout_seconds v = Some n \<longleftrightarrow> v = PInt n \<and> 60 \<le> n \<and> n \<le> 28800"
  by (auto simp: validate_timeout_seconds_def TASK_TIMEOUT_MIN_SECONDS_def
      TASK_TIMEOUT_MAX_SECONDS_def split: pyval.splits)

lemma local_minute_range: "0 \<le> local_minute t \<and> local_minute t < 1440"
proof -
  have "(t + 8 * hour_us) mod day_us < 1440 * minute_us"
    using pos_mod_bound [of day_us "t + 8 * hour_us"] by (simp add: unit_defs)
  then show ?thesis
    by (simp add: local_minute_def unit_defs pos_imp_zdiv_nonneg_iff)
qed

lemma ceil_seconds_bounds:
  "us \<le> ceil_seconds us * second_us \<and> ceil_seconds us * second_us < us + second_us"
proof -
  have "- us = second_us * ((- us) div second_us) + (- us) mod second_us"
    by (rule mult_div_mod_eq [symmetric])
  moreover have "0 \<le> (- us) mod second_us" "(- us) mod second_us < second_us"
    by (simp_all add: second_us_def)
  ultimately show ?thesis unfolding ceil_seconds_def second_us_def by linarith
qed

lemma ceil_seconds_pos: "0 < ceil_seconds us \<longleftrightarrow> 0 < us"
  using ceil_seconds_bounds [of us] unfolding second_us_def by linarith

text \<open>The text of a time of day, as the settings hold it.\<close>

definition digit_text :: "int \<Rightarrow> char" where
  "digit_text n = char_of (48 + nat n)"

definition hhmm :: "int \<Rightarrow> int \<Rightarrow> pyval" where
  "hhmm h m = PStr [digit_text (h div 10), digit_text (h mod 10), CHR '':'', digit_text (m div 10), digit_text (m mod 10)]"

lemma digit_text_all: "list_all (\<lambda>n. is_digit (digit_text n) \<and> digit_value (digit_text n) = n
    \<and> char_in_range (CHR ''0'') (CHR ''5'') (digit_text n) = (n \<le> 5) \<and> char_in_range (CHR ''0'') (CHR ''3'') (digit_text n) = (n \<le> 3)
    \<and> char_in_range (CHR ''0'') (CHR ''1'') (digit_text n) = (n \<le> 1) \<and> (digit_text n = CHR ''2'') = (n = 2)) [0..9]"
  by code_simp

lemma digit_text_facts:
  assumes "0 \<le> n" "n \<le> 9"
  shows "is_digit (digit_text n)" "digit_value (digit_text n) = n"
    "char_in_range (CHR ''0'') (CHR ''5'') (digit_text n) = (n \<le> 5)" "char_in_range (CHR ''0'') (CHR ''3'') (digit_text n) = (n \<le> 3)"
    "char_in_range (CHR ''0'') (CHR ''1'') (digit_text n) = (n \<le> 1)" "(digit_text n = CHR ''2'') = (n = 2)"
  using digit_text_all assms by (simp_all add: list_all_iff)

lemma parse_hhmm_text:
  assumes "0 \<le> h" "h < 24" "0 \<le> m" "m < 60"
  shows "parse_hhmm (hhmm h m) = Some (60 * h + m)"
proof -
  have r: "0 \<le> h div 10" "h div 10 \<le> 9" "0 \<le> h mod 10" "h mod 10 \<le> 9" "0 \<le> m div 10" "m div 10 \<le> 9" "0 \<le> m mod 10" "m mod 10 \<le> 9"
    and d: "m div 10 \<le> 5" "h div 10 \<le> 1 \<or> h div 10 = 2 \<and> h mod 10 \<le> 3"
    using assms by presburger+
  have "10 * (h div 10) + h mod 10 = h" "10 * (m div 10) + m mod 10 = m" by simp_all
  with d show ?thesis
    by (simp add: parse_hhmm_def hhmm_def digit_text_facts [OF r(1,2)] digit_text_facts [OF r(3,4)]
        digit_text_facts [OF r(5,6)] digit_text_facts [OF r(7,8)])
qed

text \<open>
  The peak window as intervals of the time line: on every local day it opens at the start and lasts
  until the end is next reached.
\<close>

lemma peak_interval:
  assumes s: "0 \<le> s" "s < 1440" and e: "0 \<le> e" "e < 1440" "s \<noteq> e"
  shows "(if s < e then s \<le> local_minute t \<and> local_minute t < e else s \<le> local_minute t \<or> local_minute t < e)
    \<longleftrightarrow> (\<exists>day. day * 86400000000 + s * 60000000 - 28800000000 \<le> t
          \<and> t < day * 86400000000 + s * 60000000 - 28800000000 + (e - s) mod 1440 * 60000000)"
proof -
  define r k where "r = (t + 28800000000) mod 86400000000" and "k = (t + 28800000000) div (86400000000 :: int)"
  have t: "t = k * 86400000000 + r - 28800000000" by (simp add: r_def k_def)
  have r: "0 \<le> r" "r < 86400000000" by (simp_all add: r_def)
  have m: "local_minute t = r div 60000000" by (simp add: local_minute_def unit_defs r_def)
  have le: "a \<le> local_minute t \<longleftrightarrow> a * 60000000 \<le> r" and lt: "local_minute t < a \<longleftrightarrow> r < a * 60000000" for a
    unfolding m by linarith+
  have len: "(e - s) mod 1440 = (if s < e then e - s else e - s + 1440)"
  proof (cases "s < e")
    case False
    have "(e - s) mod 1440 = (e - s + 1440) mod 1440" by simp
    also have "\<dots> = e - s + 1440" using False s e by (intro mod_pos_pos_trivial) auto
    finally show ?thesis using False by simp
  qed (use s e in simp)
  show ?thesis
  proof
    assume "if s < e then s \<le> local_minute t \<and> local_minute t < e else s \<le> local_minute t \<or> local_minute t < e"
    then have "k * 86400000000 + s * 60000000 \<le> k * 86400000000 + r \<and> r < s * 60000000 + (e - s) mod 1440 * 60000000
        \<or> (k - 1) * 86400000000 + s * 60000000 \<le> k * 86400000000 + r \<and> r + 86400000000 < s * 60000000 + (e - s) mod 1440 * 60000000"
      using r s e unfolding le lt len by (auto split: if_splits)
    then show "\<exists>day. day * 86400000000 + s * 60000000 - 28800000000 \<le> t
          \<and> t < day * 86400000000 + s * 60000000 - 28800000000 + (e - s) mod 1440 * 60000000"
      unfolding t by (elim disjE; intro exI [of _ k] exI [of _ "k - 1"]) auto
  next
    assume "\<exists>day. day * 86400000000 + s * 60000000 - 28800000000 \<le> t
          \<and> t < day * 86400000000 + s * 60000000 - 28800000000 + (e - s) mod 1440 * 60000000"
    then obtain day where day: "s * 60000000 \<le> (k - day) * 86400000000 + r"
      "(k - day) * 86400000000 + r < s * 60000000 + (e - s) mod 1440 * 60000000"
      unfolding t by (auto simp: algebra_simps)
    from day have "k - day = 0 \<or> k - day = 1" using r s e len by (auto split: if_splits)
    then show "if s < e then s \<le> local_minute t \<and> local_minute t < e else s \<le> local_minute t \<or> local_minute t < e"
    proof
      assume "k - day = 0"
      with day show ?thesis using r s e unfolding le lt len by (auto split: if_splits)
    next
      assume "k - day = 1"
      with day show ?thesis using r s e unfolding le lt len by (auto split: if_splits)
    qed
  qed
qed


text \<open>
  C39. With two valid timeouts and two different times of day as settings, the timeout of a claim
  is the peak one exactly when the instant lies in one of the daily peak intervals of the business
  time zone, eight hours ahead of UTC: it opens at the configured start of a local day, start
  included, and lasts until the configured end is next reached, end excluded, across midnight when
  the end is the smaller one. All other instants get the off-peak timeout.
\<close>

theorem peak_timeout_is_the_daily_interval:
  assumes "0 \<le> h" "h < 24" "0 \<le> m" "m < 60" and "0 \<le> h'" "h' < 24" "0 \<le> m'" "m' < 60" and "(h, m) \<noteq> (h', m')"
    and "60 \<le> peak" "peak \<le> 28800" "60 \<le> off_peak" "off_peak \<le> 28800"
  shows "select_task_timeout \<lparr>task_timeout_peak_seconds = PInt peak, task_timeout_off_peak_seconds = PInt off_peak,
           task_timeout_peak_start = hhmm h m, task_timeout_peak_end = hhmm h' m'\<rparr> t
    = Some (if \<exists>day. let opens = day * 86400000000 + (60 * h + m) * 60000000 - 8 * 3600000000;
                         minutes = ((60 * h' + m') - (60 * h + m)) mod 1440
                     in opens \<le> t \<and> t < opens + minutes * 60000000
            then (''peak'', peak) else (''off-peak'', off_peak))"
proof -
  have "h = h' \<and> m = m'" if "60 * h + m = 60 * h' + m'" 
  proof -
    have "\<not> h < h'" "\<not> h' < h" using that assms(3,4,7,8) by linarith+
    then show ?thesis using that by simp
  qed
  then have "(60 * h + m) \<noteq> (60 * h' + m')" using assms(9) by auto
  then have "is_peak_time t (hhmm h m) (hhmm h' m') = Some (\<exists>day. let opens = day * 86400000000 + (60 * h + m) * 60000000 - 8 * 3600000000;
                         minutes = ((60 * h' + m') - (60 * h + m)) mod 1440
                     in opens \<le> t \<and> t < opens + minutes * 60000000)"
    using peak_interval [of "60 * h + m" "60 * h' + m'" t] assms(1-8)
    by (simp add: is_peak_time_def validate_timeout_window_def parse_hhmm_text Let_def)
  moreover have "validate_timeout_seconds (PInt peak) = Some peak" "validate_timeout_seconds (PInt off_peak) = Some off_peak"
    using assms(10-13) by (simp_all add: validate_timeout_seconds_Some)
  ultimately show ?thesis by (simp add: select_task_timeout_def)
qed

text \<open>A window from 22:30 to 06:00; 1970-01-01 21:59 UTC is 05:59 of the next local day.\<close>

theorem peak_timeout_is_the_daily_interval_witness:
  "(\<exists>day::int. let opens = day * 86400000000 + 1350 * 60000000 - 8 * 3600000000 in opens \<le> 79140000000 \<and> 79140000000 < opens + 27000000000)
   \<and> select_task_timeout \<lparr>task_timeout_peak_seconds = PInt 1800, task_timeout_off_peak_seconds = PInt 3600,
       task_timeout_peak_start = hhmm 22 30, task_timeout_peak_end = hhmm 6 0\<rparr> 79140000000 = Some (''peak'', 1800)"
proof -
  have day: "\<exists>day::int. let opens = day * 86400000000 + 1350 * 60000000 - 8 * 3600000000 in opens \<le> 79140000000 \<and> 79140000000 < opens + 27000000000"
    by (intro exI [of _ 0]) simp
  then show ?thesis using peak_timeout_is_the_daily_interval [of 22 30 6 0 1800 3600 79140000000] by simp
qed

text \<open>
  The remaining time of a frozen execution is positive exactly before its deadline and
  rounds the true remainder up, by less than one second.
\<close>

theorem remaining_timeout_is_deadline_distance:
  "(0 < remaining_timeout_seconds started timeout_seconds now
      \<longleftrightarrow> now < execution_deadline_at started timeout_seconds)
   \<and> execution_deadline_at started timeout_seconds
       \<le> now + remaining_timeout_seconds started timeout_seconds now * second_us
   \<and> now + remaining_timeout_seconds started timeout_seconds now * second_us
       < execution_deadline_at started timeout_seconds + second_us"
  using ceil_seconds_pos [of "execution_deadline_at started timeout_seconds - now"]
    ceil_seconds_bounds [of "execution_deadline_at started timeout_seconds - now"]
  by (simp add: remaining_timeout_seconds_def)

end
