(* ===== verification/Scheduler_Queue.thy ===== *)
theory Scheduler_Queue
  imports Queue_Context Issue_Locks Issue_Status Frozen_Identity Task_Timeout
begin

text \<open>
  The queue side of the scheduler, \<^verbatim>\<open>scheduler.py\<close>: repair of issues with unnumbered active tasks,
  demotion of illegally queued tasks, promotion of due heads, the choice of the next task, and the
  predecessor test of the claim. The scheduler's memory is the record \<open>scheduler\<close>; what
  \<open>_emit_event\<close> writes is its list \<open>events\<close>. A handle in \<open>worker_tasks\<close> is \<open>True\<close> when it is done.
\<close>

datatype sched_event = SchedEvent (event_name: string) (event_reason: string)
  (event_issue: "row_id option") (event_task: "row_id option")

record scheduler =
  running_tasks :: "row_id set"
  running_issues :: "row_id set"
  retained_blocked_issues :: "row_id set"
  worker_tasks :: "row_id \<rightharpoonup> bool"
  terminal_worker_seen_at :: "row_id \<rightharpoonup> timestamp"
  last_lock_cleanup_at :: timestamp
  events :: "sched_event list"

record settings =
  cfg_harness_execution_mode :: string
  cfg_max_concurrency :: int
  cfg_timeouts :: timeout_settings

definition emit_event :: "string \<Rightarrow> string \<Rightarrow> row_id option \<Rightarrow> row_id option \<Rightarrow> scheduler \<Rightarrow> scheduler" where
  "emit_event name reason issue k s = s\<lparr>events := events s @ [SchedEvent name reason issue k]\<rparr>"

lemma emit_event_frames [simp]:
  "running_tasks (emit_event a b c e s) = running_tasks s"
  "running_issues (emit_event a b c e s) = running_issues s"
  "retained_blocked_issues (emit_event a b c e s) = retained_blocked_issues s"
  "worker_tasks (emit_event a b c e s) = worker_tasks s"
  "terminal_worker_seen_at (emit_event a b c e s) = terminal_worker_seen_at s"
  "last_lock_cleanup_at (emit_event a b c e s) = last_lock_cleanup_at s"
  "events (emit_event a b c e s) = events s @ [SchedEvent a b c e]"
  by (simp_all add: emit_event_def)


section \<open>Heads\<close>

text \<open>The two \<^verbatim>\<open>EXISTS\<close> clauses that the queries share.\<close>

definition exists_active_null :: "database \<Rightarrow> row_id \<Rightarrow> bool" where
  "exists_active_null d issue \<longleftrightarrow> list_ex (\<lambda>u. task_issue_id u = issue \<and> is_active u
     \<and> task_issue_sequence u = None) (tasks d)"

definition has_active_predecessor :: "database \<Rightarrow> task \<Rightarrow> bool" where
  "has_active_predecessor d t \<longleftrightarrow> list_ex (\<lambda>u. task_issue_id u = task_issue_id t \<and> is_active u
     \<and> (case (task_issue_sequence u, task_issue_sequence t) of (Some r, Some q) \<Rightarrow> r < q | _ \<Rightarrow> False)) (tasks d)"

definition is_legal_head :: "database \<Rightarrow> task \<Rightarrow> bool" where
  "is_legal_head d t \<longleftrightarrow> task_issue_sequence t \<noteq> None \<and> \<not> exists_active_null d (task_issue_id t)
     \<and> \<not> has_active_predecessor d t"

definition is_due :: "timestamp \<Rightarrow> task \<Rightarrow> bool" where
  "is_due now t = (case task_scheduled_at t of None \<Rightarrow> True | Some s \<Rightarrow> s \<le> now)"

definition has_v2_bundle :: "database \<Rightarrow> task \<Rightarrow> bool" where
  "has_v2_bundle d t = (case task_bundle d t of None \<Rightarrow> False
     | Some b \<Rightarrow> bundle_contract_version b = HARNESS_CONTRACT_VERSION_V2)"


section \<open>Repair, normalisation, promotion\<close>

definition repair_one_issue ::
  "(string \<Rightarrow> string) \<Rightarrow> scheduler \<times> database \<Rightarrow> row_id \<Rightarrow> scheduler \<times> database" where
  "repair_one_issue sha256 = (\<lambda>(s, d) issue.
     case ensure_issue_order_integrity_locked sha256 d issue True of
       Inr (report, d') \<Rightarrow>
         (if repaired_sequences report \<noteq> 0 \<or> repaired_projections report \<noteq> 0
          then emit_event ''issue_sequence_repaired'' ''backfilled_null_sequence'' (Some issue) None s
          else s, d')
     | Inl (IssueOrderIntegrityError _ reason) \<Rightarrow>
         (emit_event ''issue_sequence_integrity_failed'' reason (Some issue) None s, d))"

definition repair_active_null_sequence_issues ::
  "(string \<Rightarrow> string) \<Rightarrow> scheduler \<Rightarrow> database \<Rightarrow> scheduler \<times> database" where
  "repair_active_null_sequence_issues sha256 s d =
     foldl (repair_one_issue sha256) (s, d)
       (remdups (map task_issue_id (filter (\<lambda>t. is_active t \<and> task_issue_sequence t = None) (tasks d))))"

definition is_illegal_queued :: "database \<Rightarrow> task \<Rightarrow> bool" where
  "is_illegal_queued d t \<longleftrightarrow> task_status t = QUEUED
     \<and> (task_issue_sequence t = None \<or> exists_active_null d (task_issue_id t) \<or> has_active_predecessor d t)"

definition normalize_illegal_queued_tasks :: "database \<Rightarrow> database" where
  "normalize_illegal_queued_tasks d =
     d\<lparr>tasks := update_where (is_illegal_queued d) (\<lambda>t. t\<lparr>task_status := PENDING\<rparr>) (tasks d)\<rparr>"

definition is_promotion_eligible :: "settings \<Rightarrow> scheduler \<Rightarrow> database \<Rightarrow> timestamp \<Rightarrow> task \<Rightarrow> bool" where
  "is_promotion_eligible cfg s d now t \<longleftrightarrow>
     task_status t = PENDING \<and> is_legal_head d t \<and> is_due now t \<and> get_lock d (task_issue_id t) = None
     \<and> (cfg_harness_execution_mode cfg = ''v2_only'' \<longrightarrow> has_v2_bundle d t)
     \<and> task_issue_id t \<notin> running_issues s"

text \<open>A known missing Kit waits for an administrator; it is not promoted.\<close>

definition waits_for_kit :: "(string \<Rightarrow> string) \<Rightarrow> database \<Rightarrow> row_id \<Rightarrow> bool" where
  "waits_for_kit sha256 d k =
     (case get_snapshot d k of None \<Rightarrow> False | Some snap \<Rightarrow>
        (case snap_runtime_locator_fingerprint snap of None \<Rightarrow> False | Some f \<Rightarrow>
           f \<noteq> [] \<and>
           (let v2 = (snap_runtime_contract_version snap = Some HARNESS_CONTRACT_VERSION_V2);
                r = read_runtime_readiness sha256 d (Some f) v2
            in is_unavailable r \<and> rr_failure_code r = Some ''worker_kit_not_found''
               \<and> (\<not> v2 \<or> frozen_v2_snapshot_is_complete (Some snap)))))"

definition promote_due_heads ::
  "(string \<Rightarrow> string) \<Rightarrow> settings \<Rightarrow> scheduler \<Rightarrow> database \<Rightarrow> timestamp \<Rightarrow> database" where
  "promote_due_heads sha256 cfg s d now =
     (let promotable = filter (\<lambda>k. \<not> waits_for_kit sha256 d k)
            (map task_id (filter (is_promotion_eligible cfg s d now) (tasks d)))
      in if promotable = [] then d
         else
           let d1 = d\<lparr>tasks := update_where (\<lambda>t. is_promotion_eligible cfg s d now t \<and> task_id t \<in> set promotable)
                       (\<lambda>t. t\<lparr>task_status := QUEUED\<rparr>) (tasks d)\<rparr>;
               queued_issues = map task_issue_id (filter (\<lambda>t. task_status t = QUEUED) (tasks d1))
           in d1\<lparr>issues := update_where
                  (\<lambda>i. issue_id i \<in> set queued_issues \<and> (issue_status i = OPEN \<or> issue_status i = IN_REVIEW))
                  (\<lambda>i. i\<lparr>issue_status := IN_PROGRESS\<rparr>) (issues d1)\<rparr>)"

definition mark_eligible_as_queued ::
  "(string \<Rightarrow> string) \<Rightarrow> settings \<Rightarrow> timestamp \<Rightarrow> scheduler \<Rightarrow> database \<Rightarrow> scheduler \<times> database" where
  "mark_eligible_as_queued sha256 cfg now s d =
     (let (s1, d1) = repair_active_null_sequence_issues sha256 s d;
          d2 = normalize_illegal_queued_tasks d1
      in (s1, promote_due_heads sha256 cfg s1 d2 now))"


section \<open>The next task\<close>

definition get_running_count :: "database \<Rightarrow> int" where
  "get_running_count d = int (length (filter (\<lambda>t. task_status t = RUNNING) (tasks d)))"

definition is_candidate :: "settings \<Rightarrow> scheduler \<Rightarrow> database \<Rightarrow> task \<Rightarrow> bool" where
  "is_candidate cfg s d t \<longleftrightarrow>
     task_status t = QUEUED \<and> is_legal_head d t \<and> get_lock d (task_issue_id t) = None
     \<and> (cfg_harness_execution_mode cfg = ''v2_only'' \<longrightarrow> has_v2_bundle d t)
     \<and> task_issue_id t \<notin> running_issues s"

text \<open>
  \<^verbatim>\<open>ORDER BY priority, CASE WHEN scheduled_at IS NOT NULL THEN 0 ELSE 1 END, scheduled_at,
  created_at, id\<close>; the third column only orders rows that have it.
\<close>

definition dispatch_key :: "task \<Rightarrow> int \<times> int \<times> timestamp \<times> timestamp \<times> row_id" where
  "dispatch_key t = (task_priority t, if task_scheduled_at t \<noteq> None then 0 else 1,
     (case task_scheduled_at t of None \<Rightarrow> 0 | Some s \<Rightarrow> s), task_created_at t, task_id t)"

definition get_next_task :: "settings \<Rightarrow> scheduler \<Rightarrow> database \<Rightarrow> task option" where
  "get_next_task cfg s d =
     first_by dispatch_key (filter (is_candidate cfg s d) (tasks d))"


section \<open>Status changes keep the order\<close>

text \<open>
  A database with the same turn numbers and the same activity: only statuses within the active or
  within the terminal ones, and columns that the head tests do not read, have changed.
\<close>

definition same_activity :: "database \<Rightarrow> database \<Rightarrow> bool" where
  "same_activity d d' \<longleftrightarrow> map (\<lambda>t. (task_id t, task_issue_id t, task_issue_sequence t, is_active t)) (tasks d')
     = map (\<lambda>t. (task_id t, task_issue_id t, task_issue_sequence t, is_active t)) (tasks d)"

lemma list_ex_map_cong:
  assumes "map f xs = map f ys" "\<And>x y. f x = f y \<Longrightarrow> P x = P y"
  shows "list_ex P xs = list_ex P ys"
  using assms(1)
proof (induction ys arbitrary: xs)
  case (Cons y ys)
  then obtain x xs' where "xs = x # xs'" "f x = f y" "map f xs' = map f ys" by (auto simp: map_eq_Cons_conv)
  with Cons.IH [of xs'] assms(2) [of x y] show ?case by simp
qed simp

lemma same_activity_heads:
  assumes "same_activity d d'"
  shows "exists_active_null d' i = exists_active_null d i"
    and "task_issue_id t' = task_issue_id t \<Longrightarrow> task_issue_sequence t' = task_issue_sequence t
           \<Longrightarrow> has_active_predecessor d' t' = has_active_predecessor d t"
    and "task_issue_id t' = task_issue_id t \<Longrightarrow> task_issue_sequence t' = task_issue_sequence t
           \<Longrightarrow> is_legal_head d' t' = is_legal_head d t"
proof -
  show n: "exists_active_null d' i = exists_active_null d i" for i
    unfolding exists_active_null_def
    by (rule list_ex_map_cong [OF assms [unfolded same_activity_def]]) auto
  show p: "task_issue_id t' = task_issue_id t \<Longrightarrow> task_issue_sequence t' = task_issue_sequence t
           \<Longrightarrow> has_active_predecessor d' t' = has_active_predecessor d t" for t t'
  proof -
    assume eq: "task_issue_id t' = task_issue_id t" "task_issue_sequence t' = task_issue_sequence t"
    show "has_active_predecessor d' t' = has_active_predecessor d t"
      unfolding has_active_predecessor_def eq
      by (rule list_ex_map_cong [OF assms [unfolded same_activity_def]]) auto
  qed
  show "task_issue_id t' = task_issue_id t \<Longrightarrow> task_issue_sequence t' = task_issue_sequence t
           \<Longrightarrow> is_legal_head d' t' = is_legal_head d t"
    using n p [of t' t] by (simp add: is_legal_head_def)
qed

lemma same_activity_update:
  assumes "\<And>t. t \<in> set (tasks d) \<Longrightarrow> p t \<Longrightarrow> is_active (f t) = is_active t" "keeps_turn f"
    "tasks d' = update_where p f (tasks d)"
  shows "same_activity d d'"
  using assms keeps_turnD [OF assms(2)] by (simp add: same_activity_def update_where_def)


text \<open>Every queued task is the legal head of its issue.\<close>

definition queued_heads :: "database \<Rightarrow> bool" where
  "queued_heads d \<longleftrightarrow> list_all (\<lambda>t. task_status t = QUEUED \<longrightarrow> is_legal_head d t) (tasks d)"

lemma normalize_same_activity: "same_activity d (normalize_illegal_queued_tasks d)"
  by (rule same_activity_update [where p = "is_illegal_queued d" and f = "\<lambda>t. t\<lparr>task_status := PENDING\<rparr>"])
     (auto simp: normalize_illegal_queued_tasks_def is_illegal_queued_def is_active_iff keeps_turn_def)

lemma normalize_queued_heads: "queued_heads (normalize_illegal_queued_tasks d)"
proof (unfold queued_heads_def list_all_iff, intro ballI impI)
  fix t assume t: "t \<in> set (tasks (normalize_illegal_queued_tasks d))" "task_status t = QUEUED"
  then have "t \<in> set (tasks d)" "\<not> is_illegal_queued d t"
    by (auto simp: normalize_illegal_queued_tasks_def set_update_where split: if_splits)
  then have "is_legal_head d t" using t(2) by (simp add: is_illegal_queued_def is_legal_head_def)
  then show "is_legal_head (normalize_illegal_queued_tasks d) t"
    using same_activity_heads(3) [OF normalize_same_activity, of t t d] by simp
qed

lemma normalize_wf [keeps_inv]: "wf_db d \<Longrightarrow> wf_db (normalize_illegal_queued_tasks d)"
  unfolding normalize_illegal_queued_tasks_def by (rule wf_db_update_tasks) (simp_all add: keeps_turn_def)

text \<open>Promotion, as one update of the eligible tasks that do not wait for their Kit.\<close>

definition is_promoted ::
  "(string \<Rightarrow> string) \<Rightarrow> settings \<Rightarrow> scheduler \<Rightarrow> database \<Rightarrow> timestamp \<Rightarrow> task \<Rightarrow> bool" where
  "is_promoted sha256 cfg s d now t \<longleftrightarrow> is_promotion_eligible cfg s d now t \<and> \<not> waits_for_kit sha256 d (task_id t)"

lemma promote_tasks:
  "tasks (promote_due_heads sha256 cfg s d now)
     = update_where (is_promoted sha256 cfg s d now) (\<lambda>t. t\<lparr>task_status := QUEUED\<rparr>) (tasks d)"
proof -
  let ?pr = "filter (\<lambda>k. \<not> waits_for_kit sha256 d k) (map task_id (filter (is_promotion_eligible cfg s d now) (tasks d)))"
  have iff: "is_promotion_eligible cfg s d now t \<and> task_id t \<in> set ?pr \<longleftrightarrow> is_promoted sha256 cfg s d now t"
    if "t \<in> set (tasks d)" for t
    using that by (auto simp: is_promoted_def)
  show ?thesis
  proof (cases "?pr = []")
    case True
    then have "\<not> is_promoted sha256 cfg s d now t" if "t \<in> set (tasks d)" for t
      using iff [OF that] by (metis empty_iff list.set(1))
    then show ?thesis using True by (simp add: promote_due_heads_def Let_def)
  next
    case False
    then show ?thesis
      using iff by (auto simp: promote_due_heads_def Let_def update_where_def)
  qed
qed

lemma promote_frames [simp, frame_simps]:
  "locks (promote_due_heads sha256 cfg s d now) = locks d"
  "snapshots (promote_due_heads sha256 cfg s d now) = snapshots d"
  "bundles (promote_due_heads sha256 cfg s d now) = bundles d"
  "readiness (promote_due_heads sha256 cfg s d now) = readiness d"
  by (simp_all add: promote_due_heads_def Let_def)

lemma promote_same_activity: "same_activity d (promote_due_heads sha256 cfg s d now)"
  by (rule same_activity_update [OF _ _ promote_tasks])
     (auto simp: is_promoted_def is_promotion_eligible_def is_active_iff keeps_turn_def)

lemma promote_queued_heads:
  assumes "queued_heads d"
  shows "queued_heads (promote_due_heads sha256 cfg s d now)"
proof (unfold queued_heads_def list_all_iff, intro ballI impI)
  fix t assume t: "t \<in> set (tasks (promote_due_heads sha256 cfg s d now))" "task_status t = QUEUED"
  from t(1) obtain u where u: "u \<in> set (tasks d)" "t = (if is_promoted sha256 cfg s d now u then u\<lparr>task_status := QUEUED\<rparr> else u)"
    unfolding promote_tasks by (rule in_update_whereE)
  have "is_legal_head d u"
    using assms u t(2) by (auto simp: queued_heads_def list_all_iff is_promoted_def is_promotion_eligible_def split: if_splits)
  then show "is_legal_head (promote_due_heads sha256 cfg s d now) t"
    using same_activity_heads(3) [OF promote_same_activity, of t u] u(2) by simp
qed

lemma promote_wf [keeps_inv]:
  assumes "wf_db d" shows "wf_db (promote_due_heads sha256 cfg s d now)"
proof -
  have "map task_id (tasks (promote_due_heads sha256 cfg s d now)) = map task_id (tasks d)"
    by (simp add: promote_tasks map_key_update_where)
  moreover have "unique_sequences (tasks (promote_due_heads sha256 cfg s d now))"
    unfolding promote_tasks using wf_dbD(6) [OF assms] by (rule unique_sequences_update_where) (simp add: keeps_turn_def)
  moreover have "map issue_id (issues (promote_due_heads sha256 cfg s d now)) = map issue_id (issues d)"
    by (simp add: promote_due_heads_def Let_def map_key_update_where)
  ultimately show ?thesis using assms by (simp add: wf_db_def)
qed


text \<open>Repair touches order columns only.\<close>

lemma repair_one_issue_frames:
  assumes "wf_db d" "repair_one_issue sha256 (s, d) issue = (s', d')"
  shows "wf_db d' \<and> map erase_order (tasks d') = map erase_order (tasks d) \<and> running_issues s' = running_issues s
    \<and> locks d' = locks d \<and> snapshots d' = snapshots d \<and> bundles d' = bundles d \<and> issues d' = issues d
    \<and> readiness d' = readiness d"
proof (cases "ensure_issue_order_integrity_locked sha256 d issue True")
  case (Inl e)
  then show ?thesis using assms by (cases e) (auto simp: repair_one_issue_def)
next
  case (Inr x)
  obtain report d1 where x: "x = (report, d1)" by fastforce
  obtain rows where rows: "repairs rows d issue" "d1 = flush_tasks rows d"
    "rank_consistent 1 (ordered_tasks d issue)"
    "map task_issue_sequence rows = map task_issue_sequence (backfill_sequences 1 (ordered_tasks d issue))"
    using ensure_InrE [OF Inr [unfolded x] assms(1)] by auto
  have "wf_db d1"
    using flush_wf [OF rows(1)] rank_consistent_backfill [OF rows(3)] rank_consistent_cong [OF rows(4)] rows(2) by simp
  then show ?thesis
    using assms(2) Inr x rows(2) flush_erase [OF rows(1)]
    by (auto simp: repair_one_issue_def flush_frames split: if_splits)
qed

lemma repair_active_null_frames:
  assumes "wf_db d" "repair_active_null_sequence_issues sha256 s d = (s', d')"
  shows "wf_db d' \<and> map erase_order (tasks d') = map erase_order (tasks d) \<and> running_issues s' = running_issues s
    \<and> locks d' = locks d \<and> snapshots d' = snapshots d \<and> bundles d' = bundles d \<and> issues d' = issues d
    \<and> readiness d' = readiness d"
proof -
  have "wf_db d \<Longrightarrow> foldl (repair_one_issue sha256) (s, d) ks = (s', d') \<Longrightarrow>
     wf_db d' \<and> map erase_order (tasks d') = map erase_order (tasks d) \<and> running_issues s' = running_issues s
    \<and> locks d' = locks d \<and> snapshots d' = snapshots d \<and> bundles d' = bundles d \<and> issues d' = issues d
    \<and> readiness d' = readiness d" for ks
  proof (induction ks arbitrary: s d)
    case (Cons k ks)
    obtain s1 d1 where step: "repair_one_issue sha256 (s, d) k = (s1, d1)" by fastforce
    from repair_one_issue_frames [OF Cons.prems(1) step] Cons.IH [of d1 s1] Cons.prems(2) step
    show ?case by auto
  qed auto
  then show ?thesis using assms by (simp add: repair_active_null_sequence_issues_def)
qed

lemma legal_heads_unique:
  assumes wf: "wf_db d" and "is_legal_head d t" "is_legal_head d u"
    and in_d: "t \<in> set (tasks d)" "u \<in> set (tasks d)"
    and "task_issue_id t = task_issue_id u" "is_active t" "is_active u"
  shows "t = u"
proof -
  obtain p q where pq: "task_issue_sequence t = Some p" "task_issue_sequence u = Some q"
    using assms(2,3) by (auto simp: is_legal_head_def)
  have "\<not> p < q" "\<not> q < p"
    using assms pq by (auto simp: is_legal_head_def has_active_predecessor_def list_ex_iff)
  then have "task_issue_sequence t = task_issue_sequence u" using pq by simp
  then have "task_id t = task_id u"
    using wf_dbD(6) [OF wf] in_d assms(6) pq unfolding unique_sequences_def by blast
  then show ?thesis using same_task [OF wf in_d] by blast
qed


section \<open>Properties of the queue\<close>

text \<open>A task's status unless it is one of the two waiting ones.\<close>

definition settled :: "task \<Rightarrow> row_id \<times> task_status option" where
  "settled t = (task_id t, if task_status t \<in> {PENDING, QUEUED} then None else Some (task_status t))"

text \<open>
  C3. After the queueing pass of a cycle every queued task is the legal head of its issue: it has
  a turn number, no active task of the issue lacks one, and no active task has a smaller one; so
  an issue has at most one queued task. The pass starts and ends no task: the tasks are the same
  ones, and a task is running or terminal after it exactly when it was before, with its status
  unchanged.
\<close>

theorem cycle_queues_only_legal_heads:
  assumes wf: "wf_db d" and run: "mark_eligible_as_queued sha256 cfg now s d = (s', d')"
  shows "wf_db d' \<and> queued_heads d'
    \<and> (\<forall>t\<in>set (tasks d'). \<forall>u\<in>set (tasks d'). task_status t = QUEUED \<and> task_status u = QUEUED
          \<and> task_issue_id t = task_issue_id u \<longrightarrow> t = u)
    \<and> map settled (tasks d')
        = map settled (tasks d)"
proof -
  obtain d1 where rep: "repair_active_null_sequence_issues sha256 s d = (s', d1)"
    and d': "d' = promote_due_heads sha256 cfg s' (normalize_illegal_queued_tasks d1) now"
    using run by (auto simp: mark_eligible_as_queued_def Let_def split: prod.splits)
  note repaired = repair_active_null_frames [OF wf rep]
  have wf': "wf_db d'" unfolding d' using repaired by (intro promote_wf normalize_wf) blast
  have heads: "queued_heads d'" unfolding d' by (intro promote_queued_heads normalize_queued_heads)
  have "t = u" if "t \<in> set (tasks d')" "u \<in> set (tasks d')" "task_status t = QUEUED" "task_status u = QUEUED"
    "task_issue_id t = task_issue_id u" for t u
    using that heads legal_heads_unique [OF wf', of t u]
    by (auto simp: queued_heads_def list_all_iff is_active_iff)
  moreover have "map settled (tasks d')
        = map settled (tasks d1)"
    unfolding d' promote_tasks
    by (auto simp: normalize_illegal_queued_tasks_def update_where_def is_promoted_def is_promotion_eligible_def
        is_illegal_queued_def settled_def)
  moreover have "map settled (tasks d1)
      = map settled (tasks d)"
  proof -
    have "map (\<lambda>t. (task_id t, task_status t)) (map erase_order (tasks d1))
          = map (\<lambda>t. (task_id t, task_status t)) (map erase_order (tasks d))" using repaired by simp
    then have "map (\<lambda>t. (task_id t, task_status t)) (tasks d1) = map (\<lambda>t. (task_id t, task_status t)) (tasks d)"
      by (simp add: comp_def erase_order_def erase_projection_def)
    from arg_cong [OF this, of "map (\<lambda>(k, s). (k, if s \<in> {PENDING, QUEUED} then None else Some s))"]
    show ?thesis by (simp add: comp_def split_def settled_def [abs_def] cong: if_cong)
  qed
  ultimately show ?thesis using wf' heads by (intro conjI ballI impI) (auto simp only:)
qed

text \<open>
  The choice of the next task said over the rows: which tasks may run next, and which of two goes
  first.
\<close>

definition may_run_next :: "settings \<Rightarrow> scheduler \<Rightarrow> database \<Rightarrow> task \<Rightarrow> bool" where
  "may_run_next cfg s d t \<longleftrightarrow> task_status t = QUEUED
     \<and> (\<exists>q. task_issue_sequence t = Some q \<and> (\<forall>u\<in>set (tasks d). task_issue_id u = task_issue_id t
           \<and> task_status u \<in> {PENDING, QUEUED, RUNNING} \<longrightarrow> (\<exists>p\<ge>q. task_issue_sequence u = Some p)))
     \<and> (\<forall>l\<in>set (locks d). lock_issue_id l \<noteq> task_issue_id t)
     \<and> task_issue_id t \<notin> running_issues s
     \<and> (cfg_harness_execution_mode cfg = ''v2_only'' \<longrightarrow>
          (\<exists>b\<in>set (bundles d). task_runtime_bundle_id t = Some (bundle_id b)
             \<and> bundle_contract_version b = ''codify.worker.harness/v2''))"

definition goes_first :: "task \<Rightarrow> task \<Rightarrow> bool" where
  "goes_first t u \<longleftrightarrow> task_priority t < task_priority u \<or> task_priority t = task_priority u \<and>
     (case (task_scheduled_at t, task_scheduled_at u) of
        (Some a, None) \<Rightarrow> True
      | (None, Some b) \<Rightarrow> False
      | (a, b) \<Rightarrow> (a \<noteq> b \<and> the a < the b)
          \<or> a = b \<and> (task_created_at t < task_created_at u
                     \<or> task_created_at t = task_created_at u \<and> task_id t < task_id u))"

lemma candidate_over_rows:
  assumes "wf_db d"
  shows "is_candidate cfg s d t \<longleftrightarrow> may_run_next cfg s d t"
proof -
  have "has_v2_bundle d t \<longleftrightarrow> (\<exists>b\<in>set (bundles d). task_runtime_bundle_id t = Some (bundle_id b)
      \<and> bundle_contract_version b = HARNESS_CONTRACT_VERSION_V2)"
  proof (cases "task_runtime_bundle_id t")
    case (Some k)
    have "has_v2_bundle d t \<longleftrightarrow> (\<exists>b. row_by bundle_id k (bundles d) = Some b \<and> bundle_contract_version b = HARNESS_CONTRACT_VERSION_V2)"
      by (simp add: has_v2_bundle_def task_bundle_def get_bundle_def Some split: option.split)
    then show ?thesis unfolding row_by_iff [OF wf_dbD(5) [OF assms]] using Some by auto
  qed (simp add: has_v2_bundle_def task_bundle_def)
  moreover have "is_legal_head d t \<longleftrightarrow> (\<exists>q. task_issue_sequence t = Some q \<and> (\<forall>u\<in>set (tasks d). task_issue_id u = task_issue_id t
      \<and> task_status u \<in> {PENDING, QUEUED, RUNNING} \<longrightarrow> (\<exists>p\<ge>q. task_issue_sequence u = Some p)))"
    by (fastforce simp: is_legal_head_def exists_active_null_def has_active_predecessor_def list_ex_iff is_active_iff split: option.splits)
  moreover have "get_lock d i = None \<longleftrightarrow> (\<forall>l\<in>set (locks d). lock_issue_id l \<noteq> i)" for i
    by (auto simp: get_lock_def row_by_None_iff)
  ultimately show ?thesis by (simp add: is_candidate_def may_run_next_def HARNESS_CONTRACT_VERSION_V2_def) blast
qed

lemma dispatch_key_less: "task_id t \<noteq> task_id u \<Longrightarrow> dispatch_key t \<le> dispatch_key u \<Longrightarrow> goes_first t u"
  by (auto simp: dispatch_key_def goes_first_def less_eq_prod_def split: option.splits if_splits)

text \<open>
  C5. The next task, over the rows: a queued task with a turn number that no active task of its issue
  undercuts or lacks, in an issue that nobody has locked and that this scheduler does not run, with a
  V2 bundle under \<open>v2_only\<close>. It goes before every other such task: by priority, scheduled ones before
  immediate ones, by due time, by creation time, by id. There is no next task only when no task
  qualifies.
\<close>

theorem next_task_is_the_best_candidate:
  assumes "wf_db d"
  shows "case get_next_task cfg s d of
      None \<Rightarrow> \<not> (\<exists>u\<in>set (tasks d). may_run_next cfg s d u)
    | Some t \<Rightarrow> t \<in> set (tasks d) \<and> may_run_next cfg s d t
        \<and> (\<forall>u\<in>set (tasks d). may_run_next cfg s d u \<and> u \<noteq> t \<longrightarrow> goes_first t u)"
proof (cases "get_next_task cfg s d")
  case None
  then have "filter (is_candidate cfg s d) (tasks d) = []" by (simp add: get_next_task_def)
  then show ?thesis using None candidate_over_rows [OF assms] by (simp add: filter_empty_conv)
next
  case (Some t)
  note t = first_byD [OF Some [unfolded get_next_task_def]]
  have "goes_first t u" if "u \<in> set (tasks d)" "may_run_next cfg s d u" "u \<noteq> t" for u
    using dispatch_key_less [of t u] t same_task [OF assms, of t u] that candidate_over_rows [OF assms] by auto
  then show ?thesis using Some t(1) candidate_over_rows [OF assms] by auto
qed


section \<open>A concrete cycle\<close>

definition idle_scheduler :: scheduler where
  "idle_scheduler = \<lparr>running_tasks = {}, running_issues = {}, retained_blocked_issues = {},
     worker_tasks = Map.empty, terminal_worker_seen_at = Map.empty, last_lock_cleanup_at = 0, events = []\<rparr>"

definition sample_settings :: settings where
  "sample_settings = \<lparr>cfg_harness_execution_mode = ''dual_canary'', cfg_max_concurrency = 2,
     cfg_timeouts = \<lparr>task_timeout_peak_seconds = PInt 3600, task_timeout_off_peak_seconds = PInt 7200,
       task_timeout_peak_start = PStr ''09:00'', task_timeout_peak_end = PStr ''18:00''\<rparr>\<rparr>"

text \<open>Two turns of one issue, both due; the second one was queued out of turn.\<close>

definition out_of_turn_db :: database where
  "out_of_turn_db = sample_db [sample_task 1 7 PENDING (Some 1), sample_task 2 7 QUEUED (Some 2)] []"

theorem cycle_queues_only_legal_heads_witness:
  "\<exists>s' d'. mark_eligible_as_queued (\<lambda>s. s) sample_settings 100 idle_scheduler out_of_turn_db = (s', d')
     \<and> queued_heads d' \<and> map task_status (tasks d') = [QUEUED, PENDING]"
proof -
  have wf: "wf_db out_of_turn_db"
    by (simp add: out_of_turn_db_def wf_db_def unique_sequences_def sample_defs)
  obtain s' d' where run: "mark_eligible_as_queued (\<lambda>s. s) sample_settings 100 idle_scheduler out_of_turn_db = (s', d')"
    by fastforce
  have "map task_status (tasks (snd (mark_eligible_as_queued (\<lambda>s. s) sample_settings 100 idle_scheduler out_of_turn_db)))
        = [QUEUED, PENDING]"
    by code_simp
  then show ?thesis using run cycle_queues_only_legal_heads [OF wf run] by auto
qed

text \<open>Two free issues; the scheduled turn of the second one goes before the immediate one of the first.\<close>

definition two_issues_db :: database where
  "two_issues_db = sample_db [sample_task 1 7 QUEUED (Some 1), (sample_task 2 8 QUEUED (Some 1))\<lparr>task_scheduled_at := Some 50\<rparr>] []"

theorem next_task_is_the_best_candidate_witness:
  "\<exists>t. get_next_task sample_settings idle_scheduler two_issues_db = Some t \<and> task_id t = 2
     \<and> goes_first t (sample_task 1 7 QUEUED (Some 1))"
proof -
  let ?u = "sample_task 1 7 QUEUED (Some 1)"
  have wf: "wf_db two_issues_db" by (simp add: two_issues_db_def wf_db_def unique_sequences_def sample_defs)
  have "map_option task_id (get_next_task sample_settings idle_scheduler two_issues_db) = Some 2" by code_simp
  then obtain t where t: "get_next_task sample_settings idle_scheduler two_issues_db = Some t" "task_id t = 2" by auto
  have "?u \<in> set (tasks two_issues_db)" "?u \<noteq> t" using t(2) by (auto simp: two_issues_db_def sample_defs)
  moreover have "is_candidate sample_settings idle_scheduler two_issues_db ?u" by code_simp
  then have "may_run_next sample_settings idle_scheduler two_issues_db ?u" using candidate_over_rows [OF wf] by blast
  ultimately show ?thesis using next_task_is_the_best_candidate [OF wf, of sample_settings idle_scheduler] t by auto
qed


section \<open>A due head does not wait\<close>

lemma repair_other_issue:
  assumes "wf_db d" "repair_one_issue sha256 (s, d) k = (s', d')" "i \<noteq> k"
  shows "issue_tasks d' i = issue_tasks d i"
proof (cases "ensure_issue_order_integrity_locked sha256 d k True")
  case (Inl e)
  then show ?thesis using assms by (cases e) (auto simp: repair_one_issue_def)
next
  case (Inr x)
  obtain report d1 where x: "x = (report, d1)" by fastforce
  obtain rows where "repairs rows d k" "d1 = flush_tasks rows d"
    using ensure_InrE [OF Inr [unfolded x] assms(1)] by metis
  then show ?thesis
    using assms(2,3) Inr x flush_other by (auto simp: repair_one_issue_def split: if_splits)
qed

lemma repair_leaves_numbered_issues:
  assumes "wf_db d" "repair_active_null_sequence_issues sha256 s d = (s', d')" "\<not> exists_active_null d i"
  shows "issue_tasks d' i = issue_tasks d i"
proof -
  have "wf_db d \<Longrightarrow> foldl (repair_one_issue sha256) (s, d) ks = (s', d') \<Longrightarrow> i \<notin> set ks \<Longrightarrow> issue_tasks d' i = issue_tasks d i" for ks
  proof (induction ks arbitrary: s d)
    case (Cons k ks)
    obtain s1 d1 where step: "repair_one_issue sha256 (s, d) k = (s1, d1)" by fastforce
    have "issue_tasks d1 i = issue_tasks d i" using repair_other_issue [OF Cons.prems(1) step] Cons.prems(3) by simp
    then show ?case
      using Cons.IH [of d1 s1] Cons.prems(2,3) step repair_one_issue_frames [OF Cons.prems(1) step] by simp
  qed simp
  moreover have "i \<notin> set (remdups (map task_issue_id (filter (\<lambda>t. is_active t \<and> task_issue_sequence t = None) (tasks d))))"
    using assms(3) by (auto simp: exists_active_null_def list_ex_iff)
  ultimately show ?thesis using assms(1,2) by (simp add: repair_active_null_sequence_issues_def)
qed

lemma legal_head_local:
  assumes "issue_tasks d' (task_issue_id t) = issue_tasks d (task_issue_id t)"
  shows "is_legal_head d' t = is_legal_head d t"
proof -
  have "exists_active_null e (task_issue_id t) = list_ex (\<lambda>u. is_active u \<and> task_issue_sequence u = None) (issue_tasks e (task_issue_id t))"
    and "has_active_predecessor e t = list_ex (\<lambda>u. is_active u
       \<and> (case (task_issue_sequence u, task_issue_sequence t) of (Some r, Some q) \<Rightarrow> r < q | _ \<Rightarrow> False)) (issue_tasks e (task_issue_id t))" for e
    by (auto simp: exists_active_null_def has_active_predecessor_def issue_tasks_def list_ex_iff)
  then show ?thesis using assms by (simp add: is_legal_head_def)
qed

lemma table_reads_cong:
  assumes "snapshots d' = snapshots d" "bundles d' = bundles d" "readiness d' = readiness d"
  shows "has_v2_bundle d' t = has_v2_bundle d t" "waits_for_kit sha256 d' k = waits_for_kit sha256 d k"
proof -
  have eqs: "get_bundle d' = get_bundle d" "get_snapshot d' = get_snapshot d" "get_readiness d' = get_readiness d"
    using assms by (simp_all add: fun_eq_iff get_bundle_def get_snapshot_def get_readiness_def)
  have "read_runtime_readiness sha256 d' = read_runtime_readiness sha256 d"
    by (intro ext) (simp only: read_runtime_readiness_def eqs(3))
  then show "has_v2_bundle d' t = has_v2_bundle d t" "waits_for_kit sha256 d' k = waits_for_kit sha256 d k"
    by (simp_all only: has_v2_bundle_def task_bundle_def waits_for_kit_def eqs)
qed

text \<open>
  C4. A due head does not wait for anything but its issue and its Kit: when a waiting task is the
  legal head of its issue, is due, its issue is neither locked nor running, its bundle is executable
  and its Kit is not known to be missing, then the queueing pass of the same cycle leaves it queued
  as a candidate, and the cycle has a next task, of no lower rank than this one.
\<close>

theorem due_head_is_offered:
  assumes wf: "wf_db d" and run: "mark_eligible_as_queued sha256 cfg now s d = (s', d')"
    and t: "t \<in> set (tasks d)" "task_status t = PENDING \<or> task_status t = QUEUED"
    and head: "is_legal_head d t" "is_due now t"
    and free: "get_lock d (task_issue_id t) = None" "task_issue_id t \<notin> running_issues s"
    and v2: "cfg_harness_execution_mode cfg = ''v2_only'' \<Longrightarrow> has_v2_bundle d t"
    and kit: "\<not> waits_for_kit sha256 d (task_id t)"
  shows "\<exists>u. get_next_task cfg s' d' = Some u \<and> is_candidate cfg s' d' (t\<lparr>task_status := QUEUED\<rparr>)
    \<and> t\<lparr>task_status := QUEUED\<rparr> \<in> set (tasks d') \<and> dispatch_key u \<le> dispatch_key t"
proof -
  obtain d1 where rep: "repair_active_null_sequence_issues sha256 s d = (s', d1)"
    and d': "d' = promote_due_heads sha256 cfg s' (normalize_illegal_queued_tasks d1) now"
    using run by (auto simp: mark_eligible_as_queued_def Let_def split: prod.splits)
  define d2 where "d2 = normalize_illegal_queued_tasks d1"
  let ?t = "t\<lparr>task_status := QUEUED\<rparr>"
  note fr = repair_active_null_frames [OF wf rep]
  have same: "issue_tasks d1 (task_issue_id t) = issue_tasks d (task_issue_id t)"
    by (rule repair_leaves_numbered_issues [OF wf rep]) (use head(1) in \<open>simp add: is_legal_head_def\<close>)
  have "t \<in> set (issue_tasks d (task_issue_id t))" using t(1) by (simp add: issue_tasks_def)
  then have t1: "t \<in> set (tasks d1)" unfolding same [symmetric] by (simp add: issue_tasks_def)
  have head1: "is_legal_head d1 t" using legal_head_local [OF same] head(1) by simp
  then have "\<not> is_illegal_queued d1 t" by (simp add: is_illegal_queued_def is_legal_head_def)
  then have t2: "t \<in> set (tasks d2)"
    using t1 by (auto simp: d2_def normalize_illegal_queued_tasks_def set_update_where intro: rev_image_eqI)
  have head2: "is_legal_head d2 t" using head1 same_activity_heads(3) [OF normalize_same_activity, of t t d1] by (simp add: d2_def)
  have tables: "locks d2 = locks d" "snapshots d2 = snapshots d" "bundles d2 = bundles d" "readiness d2 = readiness d"
    "running_issues s' = running_issues s"
    using fr by (simp_all add: d2_def normalize_illegal_queued_tasks_def)
  have reads: "get_lock d2 (task_issue_id t) = None" "has_v2_bundle d2 t = has_v2_bundle d t"
    "waits_for_kit sha256 d2 (task_id t) = waits_for_kit sha256 d (task_id t)"
    using free(1) tables(1) table_reads_cong [OF tables(2-4)] by (simp_all add: get_lock_def)
  have "task_status t = PENDING \<Longrightarrow> is_promoted sha256 cfg s' d2 now t"
    using head2 head(2) reads free(2) v2 kit tables(5) by (simp add: is_promoted_def is_promotion_eligible_def)
  moreover have "task_status t = QUEUED \<Longrightarrow> \<not> is_promoted sha256 cfg s' d2 now t \<and> ?t = t"
    by (simp add: is_promoted_def is_promotion_eligible_def)
  ultimately have "?t = (if is_promoted sha256 cfg s' d2 now t then t\<lparr>task_status := QUEUED\<rparr> else t)"
    using t(2) by auto
  then have q: "?t \<in> set (tasks d')"
    unfolding d' d2_def [symmetric] promote_tasks set_update_where by (rule image_eqI [OF _ t2])
  have "is_legal_head d' ?t"
    using same_activity_heads(3) [OF promote_same_activity, of ?t t] head2 by (simp add: d' d2_def)
  moreover have "has_v2_bundle d' ?t = has_v2_bundle d2 t" "get_lock d' (task_issue_id t) = get_lock d2 (task_issue_id t)"
    using table_reads_cong(1) [of d' d2 t] by (simp_all add: d' d2_def [symmetric] get_lock_def has_v2_bundle_def task_bundle_def)
  ultimately have cand: "is_candidate cfg s' d' ?t"
    using reads free(2) v2 tables(5) by (simp add: is_candidate_def)
  then have "first_by dispatch_key (filter (is_candidate cfg s' d') (tasks d')) \<noteq> None"
    using q by (auto simp: first_by_None filter_empty_conv)
  then obtain u where u: "get_next_task cfg s' d' = Some u" unfolding get_next_task_def by blast
  have "dispatch_key u \<le> dispatch_key ?t"
    using first_byD(2) [OF u [unfolded get_next_task_def]] q cand by simp
  then show ?thesis using u cand q by (simp add: dispatch_key_def)
qed

lemma due_head_is_offered_witness:
  "\<exists>s' d' u. mark_eligible_as_queued (\<lambda>s. s) sample_settings 100 idle_scheduler out_of_turn_db = (s', d')
     \<and> get_next_task sample_settings s' d' = Some u \<and> (sample_task 1 7 PENDING (Some 1))\<lparr>task_status := QUEUED\<rparr> \<in> set (tasks d')"
proof -
  let ?t = "sample_task 1 7 PENDING (Some 1)"
  have wf: "wf_db out_of_turn_db"
    by (simp add: out_of_turn_db_def wf_db_def unique_sequences_def sample_defs)
  obtain s' d' where run: "mark_eligible_as_queued (\<lambda>s. s) sample_settings 100 idle_scheduler out_of_turn_db = (s', d')"
    by fastforce
  have "?t \<in> set (tasks out_of_turn_db)" "task_status ?t = PENDING \<or> task_status ?t = QUEUED"
    by (simp_all add: out_of_turn_db_def sample_defs)
  moreover have "is_legal_head out_of_turn_db ?t" "is_due 100 ?t" "get_lock out_of_turn_db (task_issue_id ?t) = None"
    "task_issue_id ?t \<notin> running_issues idle_scheduler" "\<not> waits_for_kit (\<lambda>s. s) out_of_turn_db (task_id ?t)"
    "cfg_harness_execution_mode sample_settings \<noteq> ''v2_only''"
    by code_simp+
  ultimately show ?thesis
    using due_head_is_offered [OF wf run] run by blast
qed

end
