(* ===== verification/Scheduler_Claim.thy ===== *)
theory Scheduler_Claim
  imports Scheduler_Queue
begin

text \<open>
  The claim side of the scheduler, \<^verbatim>\<open>scheduler.py\<close>: the runtime readiness gate with the ways it
  parks or fails a task, and \<open>execute_task\<close>, the atomic claim of one task.

  Each commit is a new database; what a rollback discards is not carried on. The gate works on the
  task as it was read before (\<open>t\<close>): its tests see that row, its writes go to the current row of the
  same id. Error payloads are reduced to their code. The Docker probe, the daemon key of a snapshot
  and what other sessions commit during a probe are the record \<open>probe_env\<close>; \<open>over_limit\<close> is the
  verdict of the usage quota service for a user.
\<close>

record probe_env =
  pe_daemon_key :: "worker_snapshot \<Rightarrow> string"
  pe_probe :: "check_result option"
  pe_others :: "database \<Rightarrow> database"
  pe_later :: timestamp

definition FAILURE_WORKER_KIT_NOT_FOUND :: string where
  "FAILURE_WORKER_KIT_NOT_FOUND = ''worker_kit_not_found''"

text \<open>\<^verbatim>\<open>value or utcnow()\<close> for a timestamp column.\<close>

definition or_now :: "timestamp option \<Rightarrow> timestamp \<Rightarrow> timestamp option" where
  "or_now v now = (case v of None \<Rightarrow> Some now | Some _ \<Rightarrow> v)"


section \<open>Parking and failing\<close>

definition park_queued_task :: "task \<Rightarrow> scheduler \<times> database \<Rightarrow> scheduler \<times> database" where
  "park_queued_task t = (\<lambda>(s, d).
     if task_status t \<noteq> QUEUED then (s, d)
     else (emit_event ''runtime_unavailable_task_parked'' ''worker_runtime_unavailable''
             (Some (task_issue_id t)) (Some (task_id t)) s,
           put_task (task_id t) (\<lambda>u. u\<lparr>task_status := PENDING\<rparr>) d))"

definition in_readiness_scope :: "database \<Rightarrow> string \<Rightarrow> bool \<Rightarrow> row_id \<Rightarrow> bool" where
  "in_readiness_scope d fingerprint req k \<longleftrightarrow> list_ex (\<lambda>snap. snap_task_id snap = k
     \<and> snap_runtime_locator_fingerprint snap = Some fingerprint
     \<and> (if req then snap_runtime_contract_version snap = Some HARNESS_CONTRACT_VERSION_V2
        else snap_runtime_contract_version snap \<noteq> Some HARNESS_CONTRACT_VERSION_V2)) (snapshots d)"

definition park_other_queued_tasks ::
  "task \<Rightarrow> string \<Rightarrow> bool \<Rightarrow> scheduler \<times> database \<Rightarrow> scheduler \<times> database" where
  "park_other_queued_tasks t fingerprint req = (\<lambda>(s, d).
     foldl (\<lambda>sd u. park_queued_task u sd) (s, d)
       (filter (\<lambda>u. task_status u = QUEUED \<and> task_id u \<noteq> task_id t
                    \<and> in_readiness_scope d fingerprint req (task_id u)) (tasks d)))"

definition park_tasks_for_unavailable_runtime ::
  "task \<Rightarrow> string \<Rightarrow> bool \<Rightarrow> scheduler \<times> database \<Rightarrow> scheduler \<times> database" where
  "park_tasks_for_unavailable_runtime t fingerprint req sd =
     park_other_queued_tasks t fingerprint req (park_queued_task t sd)"

definition failed_with :: "string \<Rightarrow> timestamp \<Rightarrow> task \<Rightarrow> task" where
  "failed_with code now u = u\<lparr>task_status := FAILED, task_error_message := Some code,
     task_completed_at := Some now, task_raw_logs_finalized_at := or_now (task_raw_logs_finalized_at u) now\<rparr>"

definition fail_task_for_runtime_check ::
  "timestamp \<Rightarrow> task \<Rightarrow> runtime_readiness \<Rightarrow> scheduler \<times> database \<Rightarrow> scheduler \<times> database" where
  "fail_task_for_runtime_check now t r = (\<lambda>(s, d).
     (emit_event ''runtime_readiness_check_failed''
        (case rr_failure_code r of None \<Rightarrow> ''worker_runtime_check_failed''
         | Some c \<Rightarrow> if c = [] then ''worker_runtime_check_failed'' else c)
        (Some (task_issue_id t)) (Some (task_id t)) s,
      maybe_update_issue_status
        (put_task (task_id t) (failed_with ''worker_runtime_check_failed'' now) d) (task_issue_id t)))"

definition fail_task_for_execution_identity ::
  "timestamp \<Rightarrow> task \<Rightarrow> scheduler \<times> database \<Rightarrow> scheduler \<times> database" where
  "fail_task_for_execution_identity now t = (\<lambda>(s, d).
     (emit_event ''execution_contract_mismatch'' ''execution_contract_mismatch''
        (Some (task_issue_id t)) (Some (task_id t)) s,
      maybe_update_issue_status
        (put_task (task_id t) (failed_with ''execution_contract_mismatch'' now) d) (task_issue_id t)))"

definition demote_queued_task :: "task \<Rightarrow> string \<Rightarrow> scheduler \<times> database \<Rightarrow> scheduler \<times> database" where
  "demote_queued_task t reason = (\<lambda>(s, d).
     (emit_event ''issue_queue_invalid_queued_normalized'' reason (Some (task_issue_id t)) (Some (task_id t)) s,
      put_task (task_id t) (\<lambda>u. u\<lparr>task_status := PENDING\<rparr>) d))"


section \<open>The readiness gate\<close>

text \<open>The reasons for which the observed Kit differs from the frozen baseline.\<close>

definition kit_drift ::
  "worker_snapshot \<Rightarrow> runtime_readiness \<Rightarrow> string list \<times> (string option \<times> pyval) \<times> (string option \<times> pyval)" where
  "kit_drift snap r =
     (let member = (\<lambda>v. case v of PDict e \<Rightarrow> dict_get e ''manifest_sha256'' | _ \<Rightarrow> PNone);
          expected_identity = (case snap_harness_config_snapshot snap of
             PDict c \<Rightarrow> dict_get c ''worker_kit_identity'' | _ \<Rightarrow> PNone);
          expected_digest = member expected_identity;
          observed_digest = member (rr_kit_identity r);
          expected_version = snap_worker_kit_version snap;
          observed_version = rr_worker_kit_version r;
          set_str = (\<lambda>v. v \<noteq> None \<and> v \<noteq> Some []);
          reasons = (if set_str expected_version \<and> set_str observed_version \<and> expected_version \<noteq> observed_version
                     then [''worker_kit_version_drift_warning''] else [])
                  @ (if py_truthy expected_digest \<and> py_truthy observed_digest \<and> \<not> py_eq expected_digest observed_digest
                     then [''worker_kit_manifest_drift_warning''] else [])
      in (reasons, (expected_version, expected_digest), (observed_version, observed_digest)))"

definition same_warning :: "kit_warning \<Rightarrow> kit_warning \<Rightarrow> bool" where
  "same_warning w v \<longleftrightarrow> warn_task_id v = warn_task_id w \<and> warn_reasons v = warn_reasons w
     \<and> fst (warn_baseline v) = fst (warn_baseline w) \<and> py_eq (snd (warn_baseline v)) (snd (warn_baseline w))
     \<and> fst (warn_actual v) = fst (warn_actual w) \<and> py_eq (snd (warn_actual v)) (snd (warn_actual w))"

definition warn_if_frozen_kit_version_mismatch ::
  "task \<Rightarrow> worker_snapshot \<Rightarrow> runtime_readiness \<Rightarrow> scheduler \<times> database \<Rightarrow> scheduler \<times> database" where
  "warn_if_frozen_kit_version_mismatch t snap r = (\<lambda>(s, d).
     let (reasons, baseline, actual) = kit_drift snap r;
         w = \<lparr>warn_task_id = task_id t, warn_reasons = reasons, warn_baseline = baseline, warn_actual = actual\<rparr>
     in if \<not> is_ready r \<or> reasons = [] then (s, d)
        else if list_ex (same_warning w) (kit_warnings d) then (s, d)
        else (emit_event ''worker_kit_runtime_drift_warning'' (hd reasons)
                (Some (task_issue_id t)) (Some (task_id t)) s,
              d\<lparr>kit_warnings := kit_warnings d @ [w]\<rparr>))"

text \<open>\<open>True\<close>: the task must not be claimed in this cycle.\<close>

definition harness_availability_gate ::
  "timestamp \<Rightarrow> task \<Rightarrow> worker_snapshot option \<Rightarrow> runtime_readiness \<Rightarrow> scheduler \<times> database
     \<Rightarrow> bool \<times> scheduler \<times> database" where
  "harness_availability_gate now t snapshot r sd =
     (let config_version = (case snapshot of None \<Rightarrow> PNone | Some snap \<Rightarrow>
            (case snap_harness_config_snapshot snap of
               PDict c \<Rightarrow> dict_get c ''requested_runtime_contract_version'' | _ \<Rightarrow> PNone));
          requested = (if py_truthy config_version then config_version
                       else case snapshot of None \<Rightarrow> PNone | Some snap \<Rightarrow> opt_str (snap_runtime_contract_version snap))
      in if requested \<noteq> PStr HARNESS_CONTRACT_VERSION_V2 then (False, sd)
         else if \<not> frozen_v2_snapshot_is_complete snapshot then (True, fail_task_for_execution_identity now t sd)
         else
           let snap = the snapshot;
               harness_key = (case snap_harness_key snap of None \<Rightarrow> [] | Some k \<Rightarrow> k)
           in if snap_cli_source snap = Some ''host_mount'' then (False, sd)
              else if \<not> is_ready r then (False, sd)
              else if is_harness_available r harness_key = Some False then
                (let (s, d) = sd
                 in (True,
                     emit_event ''harness_cli_unavailable'' ''harness_cli_unavailable''
                       (Some (task_issue_id t)) (Some (task_id t)) s,
                     maybe_update_issue_status
                       (put_task (task_id t) (\<lambda>u. u\<lparr>task_status := FAILED,
                          task_error_message := Some ''harness_cli_unavailable'',
                          task_completed_at := or_now (task_completed_at t) now\<rparr>) d)
                       (task_issue_id t)))
              else (False, sd))"

definition on_unavailable ::
  "timestamp \<Rightarrow> task \<Rightarrow> string \<Rightarrow> bool \<Rightarrow> runtime_readiness \<Rightarrow> scheduler \<times> database \<Rightarrow> scheduler \<times> database" where
  "on_unavailable now t fingerprint req r sd =
     (if rr_failure_code r = Some FAILURE_WORKER_KIT_NOT_FOUND
      then park_tasks_for_unavailable_runtime t fingerprint req sd
      else fail_task_for_runtime_check now t r sd)"

definition apply_runtime_readiness_gate ::
  "(string \<Rightarrow> string) \<Rightarrow> probe_env \<Rightarrow> timestamp \<Rightarrow> task \<Rightarrow> scheduler \<times> database \<Rightarrow> bool \<times> scheduler \<times> database" where
  "apply_runtime_readiness_gate sha256 env now t sd =
     (let (s, d) = sd;
          snapshot = get_snapshot d (task_id t);
          fingerprint = (case snapshot of None \<Rightarrow> None | Some snap \<Rightarrow> snap_runtime_locator_fingerprint snap);
          v2 = (case snapshot of None \<Rightarrow> False | Some snap \<Rightarrow>
                  snap_runtime_contract_version snap = Some HARNESS_CONTRACT_VERSION_V2)
      in if v2 \<and> \<not> frozen_v2_snapshot_is_complete snapshot
         then (True, fail_task_for_execution_identity now t sd)
         else (case (snapshot, fingerprint) of
           (Some snap, Some f) \<Rightarrow>
             if f = [] then (False, sd)
             else
               let r = read_runtime_readiness sha256 d (Some f) v2;
                   sd1 = warn_if_frozen_kit_version_mismatch t snap r sd
               in if is_unavailable r then (True, on_unavailable now t f v2 r sd1)
                  else if v2 then harness_availability_gate now t snapshot r sd1
                  else if is_ready r then harness_availability_gate now t snapshot r sd1
                  else
                    (case run_deterministic_kit_probe sha256 (pe_probe env) (pe_others env) (snd sd1)
                            (pe_daemon_key env snap) (snap_runtime_mode snap)
                            (Some (case snap_worker_kit_path snap of None \<Rightarrow> [] | Some p \<Rightarrow> p))
                            v2 now (pe_later env) of
                       (Inl RuntimeProbeTransientError, d2) \<Rightarrow>
                         (True, emit_event ''runtime_readiness_probe_transient'' ''probe_transient''
                                  (Some (task_issue_id t)) (Some (task_id t)) (fst sd1), d2)
                     | (Inl (ProbeValueError _), d2) \<Rightarrow> (True, fst sd1, d2)
                     | (Inr (r2, _), d2) \<Rightarrow>
                         if is_ready r2
                         then harness_availability_gate now t snapshot r2
                                (warn_if_frozen_kit_version_mismatch t snap r2 (fst sd1, d2))
                         else if is_unavailable r2 then (True, on_unavailable now t f v2 r2 (fst sd1, d2))
                         else (True, fst sd1, d2))
         | _ \<Rightarrow> (False, sd)))"



section \<open>The claim\<close>

text \<open>
  Everything after the gate. \<open>d\<close> is the last committed database: the branches that roll back return
  it, the others commit what was written since.
\<close>

definition claim_rejected :: "string \<Rightarrow> task \<Rightarrow> scheduler \<Rightarrow> scheduler" where
  "claim_rejected reason t s =
     emit_event ''issue_task_claim_rejected'' reason (Some (task_issue_id t)) (Some (task_id t)) s"

definition start_running ::
  "timestamp \<Rightarrow> int \<Rightarrow> task \<Rightarrow> scheduler \<Rightarrow> database \<Rightarrow> scheduler \<times> database" where
  "start_running now timeout_seconds t s d =
     (s\<lparr>running_tasks := insert (task_id t) (running_tasks s),
        running_issues := insert (task_issue_id t) (running_issues s),
        worker_tasks := (worker_tasks s)(task_id t \<mapsto> False)\<rparr>,
      transition_issue_to_in_progress
        (put_task (task_id t) (\<lambda>u. u\<lparr>task_status := RUNNING, task_started_at := Some now,
           task_execution_timeout_seconds := Some timeout_seconds\<rparr>) d) (task_issue_id t))"

text \<open>The head of its issue, due and queued: contract, quota, lock, start. \<open>d1\<close> is not committed yet.\<close>

definition claim_head ::
  "settings \<Rightarrow> (database \<Rightarrow> row_id \<Rightarrow> bool) \<Rightarrow> timestamp \<Rightarrow> task \<Rightarrow> task \<Rightarrow> scheduler \<Rightarrow> database \<Rightarrow> database
     \<Rightarrow> scheduler \<times> database" where
  "claim_head cfg over_limit now t u s d d1 =
     (case require_task_executable_contract (get_snapshot d1 (task_id u)) (task_bundle d1 u)
             (cfg_harness_execution_mode cfg) None False of
        Inl code \<Rightarrow>
          (claim_rejected code t s,
           maybe_update_issue_status
             (put_task (task_id u) (\<lambda>v. v\<lparr>
                task_status := (if code = LEGACY_CONTRACT_NOT_EXECUTABLE then CANCELLED else FAILED),
                task_error_message := Some code, task_completed_at := Some now,
                task_raw_logs_finalized_at := or_now (task_raw_logs_finalized_at v) now\<rparr>) d1)
             (task_issue_id t))
      | Inr _ \<Rightarrow>
          if (case task_initiator_user_id u of None \<Rightarrow> False | Some user \<Rightarrow> over_limit d1 user)
          then (s, maybe_update_issue_status
                    (put_task (task_id u) (failed_with ''usage_limit_exceeded'' now) d1) (task_issue_id t))
          else
            let (d2, acquired) = acquire_issue_execution_lock d1 (task_issue_id u) (task_id u) now
            in if \<not> acquired then (claim_rejected ''issue_locked'' t s, d)
               else (case select_task_timeout (cfg_timeouts cfg) now of
                       None \<Rightarrow> (s, d)
                     | Some (_, timeout_seconds) \<Rightarrow> start_running now timeout_seconds u s d2))"

definition claim_task ::
  "(string \<Rightarrow> string) \<Rightarrow> settings \<Rightarrow> (database \<Rightarrow> row_id \<Rightarrow> bool) \<Rightarrow> timestamp \<Rightarrow> task \<Rightarrow> scheduler \<Rightarrow> database
     \<Rightarrow> scheduler \<times> database" where
  "claim_task sha256 cfg over_limit now t s d =
     (case ensure_issue_order_integrity_locked sha256 d (task_issue_id t) True of
        Inl _ \<Rightarrow> (claim_rejected ''sequence_repair_required'' t s, d)
      | Inr (_, d1) \<Rightarrow>
          (case get_task d1 (task_id t) of
             None \<Rightarrow> (s, d)
           | Some u \<Rightarrow>
               if task_status u \<noteq> QUEUED then (claim_rejected ''task_state_changed'' t s, d)
               else if task_issue_sequence u = None then demote_queued_task u ''sequence_repair_required'' (s, d1)
               else if \<not> is_due now u then demote_queued_task u ''schedule_not_due'' (s, d1)
               else if has_active_predecessor d1 u then demote_queued_task u ''predecessor_active'' (s, d1)
               else claim_head cfg over_limit now t u s d d1))"

definition execute_task ::
  "(string \<Rightarrow> string) \<Rightarrow> settings \<Rightarrow> (database \<Rightarrow> row_id \<Rightarrow> bool) \<Rightarrow> probe_env \<Rightarrow> timestamp \<Rightarrow> task
     \<Rightarrow> scheduler \<Rightarrow> database \<Rightarrow> scheduler \<times> database" where
  "execute_task sha256 cfg over_limit env now t s d =
     (case apply_runtime_readiness_gate sha256 env now t (s, d) of
        (True, s', d') \<Rightarrow> (s', d')
      | (False, s', d') \<Rightarrow> claim_task sha256 cfg over_limit now t s' d')"

end
