(* ===== verification/Turn_Safety.thy ===== *)
theory Turn_Safety
  imports Scheduler_Claim
begin

text \<open>
  Why an issue never runs two tasks and never runs them out of turn. The invariant \<open>turn_invariant\<close>
  says of every running task that the turns before it all exist and are over; \<open>evolves\<close> is what a
  step may do to the tasks so that the invariant survives. The operations of the scheduler are
  shown to evolve, except the claim, which is shown to establish the invariant for the task it
  starts.
\<close>

definition positive_sequences :: "database \<Rightarrow> bool" where
  "positive_sequences d \<longleftrightarrow> list_all (\<lambda>t. case task_issue_sequence t of None \<Rightarrow> True | Some q \<Rightarrow> 1 \<le> q) (tasks d)"

definition turns_before_done :: "database \<Rightarrow> row_id \<Rightarrow> int \<Rightarrow> bool" where
  "turns_before_done d issue q \<longleftrightarrow>
     (\<forall>p. 1 \<le> p \<and> p < q \<longrightarrow> (\<exists>v\<in>set (tasks d). task_issue_id v = issue \<and> task_issue_sequence v = Some p \<and> \<not> is_active v))"

definition turn_invariant :: "database \<Rightarrow> bool" where
  "turn_invariant d \<longleftrightarrow> wf_db d \<and> positive_sequences d
     \<and> (\<forall>t\<in>set (tasks d). task_status t = RUNNING \<longrightarrow>
          (\<exists>q. task_issue_sequence t = Some q \<and> turns_before_done d (task_issue_id t) q))"

text \<open>A running task owns the execution lock of its issue.\<close>

definition running_locked :: "database \<Rightarrow> bool" where
  "running_locked d \<longleftrightarrow> list_all (\<lambda>t. task_status t = RUNNING \<longrightarrow> lock_owner d (task_issue_id t) = Some (task_id t)) (tasks d)"

text \<open>What the invariant gives: the turns before a running task are over, and it runs alone.\<close>

lemma running_turn_order:
  assumes inv: "turn_invariant d" and t: "t \<in> set (tasks d)" "task_status t = RUNNING" "task_issue_sequence t = Some q"
    and u: "u \<in> set (tasks d)" "task_issue_id u = task_issue_id t" "task_issue_sequence u = Some p" "p < q"
  shows "\<not> is_active u"
proof -
  have "1 \<le> p" using inv u by (auto simp: turn_invariant_def positive_sequences_def list_all_iff split: option.splits)
  then obtain v where v: "v \<in> set (tasks d)" "task_issue_id v = task_issue_id t" "task_issue_sequence v = Some p" "\<not> is_active v"
    using inv t u(4) by (force simp: turn_invariant_def turns_before_done_def)
  have wf: "wf_db d" using inv by (simp add: turn_invariant_def)
  have "u = v" using u v by (intro same_sequence [OF wf u(1) v(1) _ u(3) v(3)]) simp
  then show ?thesis using v(4) by simp
qed

lemma running_alone:
  assumes inv: "turn_invariant d" and t: "t \<in> set (tasks d)" "task_status t = RUNNING"
    and u: "u \<in> set (tasks d)" "task_status u = RUNNING" "task_issue_id u = task_issue_id t"
  shows "t = u"
proof -
  have wf: "wf_db d" using inv by (simp add: turn_invariant_def)
  obtain p q where pq: "task_issue_sequence t = Some p" "task_issue_sequence u = Some q"
    using inv t u by (force simp: turn_invariant_def)
  have "is_active t" "is_active u" using t u by (simp_all add: is_active_iff)
  then have "\<not> p < q" "\<not> q < p"
    using running_turn_order [OF inv t pq(1) u(1,3) pq(2)] running_turn_order [OF inv u(1,2) pq(2) t(1) u(3) [symmetric] pq(1)]
    by auto
  then have "q = p" by simp
  then show ?thesis using same_sequence [OF wf t(1) u(1) u(3) [symmetric] pq(1)] pq(2) by simp
qed


section \<open>Evolution\<close>

text \<open>
  No task is lost, moved to another issue or renumbered, nothing terminal becomes active again,
  and no task starts running.
\<close>

definition evolves :: "database \<Rightarrow> database \<Rightarrow> bool" where
  "evolves d d' \<longleftrightarrow>
     (\<forall>t\<in>set (tasks d). \<exists>t'\<in>set (tasks d'). task_id t' = task_id t \<and> task_issue_id t' = task_issue_id t
        \<and> (task_issue_sequence t \<noteq> None \<longrightarrow> task_issue_sequence t' = task_issue_sequence t)
        \<and> (\<not> is_active t \<longrightarrow> \<not> is_active t'))
   \<and> (\<forall>t'\<in>set (tasks d'). task_status t' = RUNNING \<longrightarrow>
        (\<exists>t\<in>set (tasks d). task_id t = task_id t' \<and> task_issue_id t = task_issue_id t' \<and> task_status t = RUNNING))"

lemma evolves_refl [simp]: "evolves d d"
  by (auto simp: evolves_def)

lemma evolves_trans:
  assumes "evolves d e" "evolves e f"
  shows "evolves d f"
proof -
  have "\<exists>t'\<in>set (tasks f). task_id t' = task_id t \<and> task_issue_id t' = task_issue_id t
        \<and> (task_issue_sequence t \<noteq> None \<longrightarrow> task_issue_sequence t' = task_issue_sequence t)
        \<and> (\<not> is_active t \<longrightarrow> \<not> is_active t')" if t: "t \<in> set (tasks d)" for t
  proof -
    obtain u where u: "u \<in> set (tasks e)" "task_id u = task_id t" "task_issue_id u = task_issue_id t"
      "task_issue_sequence t \<noteq> None \<longrightarrow> task_issue_sequence u = task_issue_sequence t" "\<not> is_active t \<longrightarrow> \<not> is_active u"
      using assms(1) t by (force simp: evolves_def)
    obtain v where "v \<in> set (tasks f)" "task_id v = task_id u" "task_issue_id v = task_issue_id u"
      "task_issue_sequence u \<noteq> None \<longrightarrow> task_issue_sequence v = task_issue_sequence u" "\<not> is_active u \<longrightarrow> \<not> is_active v"
      using assms(2) u(1) by (force simp: evolves_def)
    then show ?thesis using u by (intro bexI [of _ v]) auto
  qed
  moreover have "\<exists>t\<in>set (tasks d). task_id t = task_id t' \<and> task_issue_id t = task_issue_id t' \<and> task_status t = RUNNING"
    if t': "t' \<in> set (tasks f)" "task_status t' = RUNNING" for t'
  proof -
    obtain u where "u \<in> set (tasks e)" "task_id u = task_id t'" "task_issue_id u = task_issue_id t'" "task_status u = RUNNING"
      using assms(2) t' by (force simp: evolves_def)
    then obtain t where "t \<in> set (tasks d)" "task_id t = task_id u" "task_issue_id t = task_issue_id u" "task_status t = RUNNING"
      using assms(1) by (force simp: evolves_def)
    then show ?thesis using \<open>task_id u = task_id t'\<close> \<open>task_issue_id u = task_issue_id t'\<close> by auto
  qed
  ultimately show ?thesis by (simp add: evolves_def)
qed

lemma evolves_turns_before_done:
  assumes "evolves d d'" "turns_before_done d issue q"
  shows "turns_before_done d' issue q"
  unfolding turns_before_done_def
proof (intro allI impI)
  fix p assume "1 \<le> p \<and> p < q"
  then obtain v where v: "v \<in> set (tasks d)" "task_issue_id v = issue" "task_issue_sequence v = Some p" "\<not> is_active v"
    using assms(2) by (auto simp: turns_before_done_def)
  then show "\<exists>v\<in>set (tasks d'). task_issue_id v = issue \<and> task_issue_sequence v = Some p \<and> \<not> is_active v"
    using assms(1) unfolding evolves_def by (metis option.distinct(1))
qed

lemma evolves_invariant:
  assumes inv: "turn_invariant d" and ev: "evolves d d'" and wf': "wf_db d'" and pos: "positive_sequences d'"
  shows "turn_invariant d'"
proof -
  have "\<exists>q. task_issue_sequence t' = Some q \<and> turns_before_done d' (task_issue_id t') q"
    if t': "t' \<in> set (tasks d')" "task_status t' = RUNNING" for t'
  proof -
    obtain t where t: "t \<in> set (tasks d)" "task_id t = task_id t'" "task_issue_id t = task_issue_id t'" "task_status t = RUNNING"
      using ev t' unfolding evolves_def by blast
    obtain q where q: "task_issue_sequence t = Some q" "turns_before_done d (task_issue_id t) q"
      using inv t by (auto simp: turn_invariant_def)
    obtain u where u: "u \<in> set (tasks d')" "task_id u = task_id t"
      "task_issue_sequence t \<noteq> None \<longrightarrow> task_issue_sequence u = task_issue_sequence t"
      using ev t(1) unfolding evolves_def by blast
    have "u = t'" using same_task [OF wf' u(1) t'(1)] u(2) t(2) by simp
    then show ?thesis using u(3) q t(3) evolves_turns_before_done [OF ev q(2)] by auto
  qed
  then show ?thesis using wf' pos by (simp add: turn_invariant_def)
qed

lemma positive_sequences_update:
  assumes "positive_sequences d" "keeps_turn f" "tasks d' = update_where p f (tasks d)"
  shows "positive_sequences d'"
  using assms(1) keeps_turnD(3) [OF assms(2)]
  by (auto simp: positive_sequences_def list_all_iff assms(3) set_update_where)

lemma evolves_update:
  assumes "tasks d' = update_where p f (tasks d)" "keeps_turn f"
    and "\<And>t. t \<in> set (tasks d) \<Longrightarrow> p t \<Longrightarrow> (is_active (f t) \<longrightarrow> is_active t) \<and> (task_status (f t) = RUNNING \<longrightarrow> task_status t = RUNNING)"
  shows "evolves d d'"
proof -
  let ?g = "\<lambda>t. if p t then f t else t"
  have g: "task_id (?g t) = task_id t" "task_issue_id (?g t) = task_issue_id t" "task_issue_sequence (?g t) = task_issue_sequence t" for t
    using keeps_turnD [OF assms(2)] by simp_all
  have "\<exists>t'\<in>set (tasks d'). task_id t' = task_id t \<and> task_issue_id t' = task_issue_id t
        \<and> (task_issue_sequence t \<noteq> None \<longrightarrow> task_issue_sequence t' = task_issue_sequence t) \<and> (\<not> is_active t \<longrightarrow> \<not> is_active t')"
    if "t \<in> set (tasks d)" for t
    using that g [of t] assms(3) [OF that] by (intro bexI [of _ "?g t"]) (auto simp: assms(1) set_update_where)
  moreover have "\<exists>t\<in>set (tasks d). task_id t = task_id t' \<and> task_issue_id t = task_issue_id t' \<and> task_status t = RUNNING"
    if t': "t' \<in> set (tasks d')" "task_status t' = RUNNING" for t'
  proof -
    from t'(1) obtain t where "t \<in> set (tasks d)" "t' = ?g t" unfolding assms(1) by (rule in_update_whereE)
    then show ?thesis using t'(2) g [of t] assms(3) [of t] by (intro bexI [of _ t]) (auto split: if_splits)
  qed
  ultimately show ?thesis by (simp add: evolves_def)
qed


text \<open>A running task that owns the lock of its issue keeps it.\<close>

definition keeps_locks :: "database \<Rightarrow> database \<Rightarrow> bool" where
  "keeps_locks d d' \<longleftrightarrow> (\<forall>t\<in>set (tasks d'). task_status t = RUNNING
     \<and> lock_owner d (task_issue_id t) = Some (task_id t) \<longrightarrow> lock_owner d' (task_issue_id t) = Some (task_id t))"

lemma keeps_locks_same: "locks d' = locks d \<Longrightarrow> keeps_locks d d'"
  by (simp add: keeps_locks_def get_lock_locks_cong [of d' d])

lemma keeps_locks_trans:
  assumes "keeps_locks d e" "keeps_locks e f" "evolves e f"
  shows "keeps_locks d f"
  unfolding keeps_locks_def
proof (intro ballI impI)
  fix t assume t: "t \<in> set (tasks f)" "task_status t = RUNNING \<and> lock_owner d (task_issue_id t) = Some (task_id t)"
  then obtain u where "u \<in> set (tasks e)" "task_id u = task_id t" "task_issue_id u = task_issue_id t" "task_status u = RUNNING"
    using assms(3) unfolding evolves_def by blast
  then have "lock_owner e (task_issue_id t) = Some (task_id t)" using assms(1) t(2) unfolding keeps_locks_def by metis
  then show "lock_owner f (task_issue_id t) = Some (task_id t)" using assms(2) t unfolding keeps_locks_def by blast
qed

text \<open>An evolution that keeps the constraints and these locks.\<close>

definition ok_step :: "database \<Rightarrow> database \<Rightarrow> bool" where
  "ok_step d d' \<longleftrightarrow> evolves d d' \<and> wf_db d' \<and> (positive_sequences d \<longrightarrow> positive_sequences d') \<and> keeps_locks d d'"

lemma ok_step_refl [simp]: "wf_db d \<Longrightarrow> ok_step d d"
  by (simp add: ok_step_def keeps_locks_same)

lemma ok_step_trans: "ok_step d e \<Longrightarrow> ok_step e f \<Longrightarrow> ok_step d f"
  unfolding ok_step_def by (blast intro: evolves_trans keeps_locks_trans)

lemma ok_step_invariant: "turn_invariant d \<Longrightarrow> ok_step d d' \<Longrightarrow> turn_invariant d'"
  using evolves_invariant by (auto simp: ok_step_def turn_invariant_def)

lemma ok_step_wf: "ok_step d d' \<Longrightarrow> wf_db d'"
  by (simp add: ok_step_def)

lemma ok_step_locks:
  assumes "tasks d' = tasks d" "wf_db d'" "keeps_locks d d'"
  shows "ok_step d d'"
  using assms by (auto simp: ok_step_def evolves_def positive_sequences_def)

lemma ok_step_same_tasks: "tasks d' = tasks d \<Longrightarrow> wf_db d' \<Longrightarrow> locks d' = locks d \<Longrightarrow> ok_step d d'"
  by (simp add: ok_step_locks keeps_locks_same)

lemma ok_step_update:
  assumes "tasks d' = update_where p f (tasks d)" "keeps_turn f" "wf_db d'" "locks d' = locks d"
    and "\<And>t. t \<in> set (tasks d) \<Longrightarrow> p t \<Longrightarrow> (is_active (f t) \<longrightarrow> is_active t) \<and> (task_status (f t) = RUNNING \<longrightarrow> task_status t = RUNNING)"
  shows "ok_step d d'"
  using evolves_update [OF assms(1,2,5)] positive_sequences_update [OF _ assms(2,1)] assms(3) keeps_locks_same [OF assms(4)]
  by (auto simp: ok_step_def)

lemma ok_step_put_task:
  assumes "wf_db d" "keeps_turn f"
    and "\<And>t. t \<in> set (tasks d) \<Longrightarrow> task_id t = k \<Longrightarrow> (is_active (f t) \<longrightarrow> is_active t) \<and> (task_status (f t) = RUNNING \<longrightarrow> task_status t = RUNNING)"
  shows "ok_step d (put_task k f d)"
  by (rule ok_step_update [where p = "\<lambda>t. task_id t = k" and f = f])
     (use assms in \<open>auto intro: wf_db_put_task\<close>)

lemma ok_step_maybe_update: "ok_step d e \<Longrightarrow> ok_step d (maybe_update_issue_status e k)"
  by (rule ok_step_trans [of d e]) (auto intro!: ok_step_same_tasks maybe_update_issue_status_wf dest: ok_step_wf)

lemma ok_step_fail:
  assumes "wf_db d" "keeps_turn f" "\<And>t. \<not> is_active (f t)"
  shows "ok_step d (put_task k f d)"
  using assms by (intro ok_step_put_task) (auto simp: is_active_iff)


section \<open>Queueing\<close>

lemma ensure_ok_step:
  assumes run: "ensure_issue_order_integrity_locked sha256 d issue r = Inr (report, d1)" and wf: "wf_db d"
  shows "ok_step d d1"
    and "map (\<lambda>t. (task_id t, task_status t)) (tasks d1) = map (\<lambda>t. (task_id t, task_status t)) (tasks d)"
proof -
  obtain rows where rows: "repairs rows d issue" "d1 = flush_tasks rows d"
    "rank_consistent 1 (ordered_tasks d issue)"
    "map task_issue_sequence rows = map task_issue_sequence
       (if r then backfill_sequences 1 (ordered_tasks d issue) else ordered_tasks d issue)"
    using ensure_InrE [OF run wf] by metis
  have ranks: "rank_consistent 1 rows"
    using rows(3) rank_consistent_backfill [OF rows(3)] rank_consistent_cong [OF rows(4)] by (simp split: if_splits)
  have wf1: "wf_db d1" using flush_wf [OF rows(1) ranks] rows(2) by simp
  have status: "task_status (write_back rows t) = task_status t" "task_id (write_back rows t) = task_id t"
    "task_issue_id (write_back rows t) = task_issue_id t" if "t \<in> set (tasks d)" for t
    using erase_orderD [OF write_back_row(1) [OF rows(1) that]] by simp_all
  show "map (\<lambda>t. (task_id t, task_status t)) (tasks d1) = map (\<lambda>t. (task_id t, task_status t)) (tasks d)"
    using status by (simp add: rows(2) flush_tasks_def)
  have kept: "task_issue_sequence (write_back rows t) = task_issue_sequence t"
    if "t \<in> set (tasks d)" "task_issue_sequence t \<noteq> None" for t
    using write_back_sequence [OF rows(1,4) that(1)] that(2) by auto
  have tasks1: "tasks d1 = map (write_back rows) (tasks d)" by (simp add: rows(2) flush_tasks_def)
  have "evolves d d1"
    unfolding evolves_def
  proof (intro conjI ballI impI)
    fix t assume t: "t \<in> set (tasks d)"
    then show "\<exists>t'\<in>set (tasks d1). task_id t' = task_id t \<and> task_issue_id t' = task_issue_id t
        \<and> (task_issue_sequence t \<noteq> None \<longrightarrow> task_issue_sequence t' = task_issue_sequence t) \<and> (\<not> is_active t \<longrightarrow> \<not> is_active t')"
      using status [OF t] kept [OF t] by (intro bexI [of _ "write_back rows t"]) (auto simp: tasks1 is_active_def)
  next
    fix t' assume "t' \<in> set (tasks d1)" "task_status t' = RUNNING"
    then show "\<exists>t\<in>set (tasks d). task_id t = task_id t' \<and> task_issue_id t = task_issue_id t' \<and> task_status t = RUNNING"
      using status by (force simp: tasks1)
  qed
  moreover have "positive_sequences d1" if pos: "positive_sequences d"
  proof -
    have "1 \<le> p" if "t \<in> set (tasks d1)" "task_issue_sequence t = Some p" for t p
    proof (cases "task_issue_id t = issue")
      case True
      then have "t \<in> set (issue_tasks (flush_tasks rows d) issue)" using that(1) by (simp add: rows(2))
      then have "t \<in> set rows"
        using arg_cong [OF flush_ordered [OF rows(1)], of set] by (simp only: ordered_tasks_def set_sort)
      then obtain i where "i < length rows" "rows ! i = t" by (auto simp: in_set_conv_nth)
      then show ?thesis using ranks that(2) unfolding rank_consistent_def by force
    next
      case False
      then have "t \<in> set (issue_tasks (flush_tasks rows d) (task_issue_id t))" using that(1) by (simp add: rows(2))
      then have "t \<in> set (tasks d)" by (simp add: flush_other [OF rows(1) False])
      then show ?thesis using pos that(2) by (auto simp: positive_sequences_def list_all_iff)
    qed
    then show ?thesis by (auto simp: positive_sequences_def list_all_iff split: option.split)
  qed
  moreover have "keeps_locks d d1" by (rule keeps_locks_same) (simp add: rows(2) flush_tasks_def)
  ultimately show "ok_step d d1" using wf1 by (simp add: ok_step_def)
qed

lemma repair_ok_step:
  assumes "wf_db d" "repair_active_null_sequence_issues sha256 s d = (s', d')"
  shows "ok_step d d'"
proof -
  have one: "ok_step d (snd (repair_one_issue sha256 (s, d) k))" if "wf_db d" for s d k
    using that ensure_ok_step(1) [OF _ that]
    by (cases "ensure_issue_order_integrity_locked sha256 d k True")
       (auto simp: repair_one_issue_def split: order_error.split)
  have "wf_db d \<Longrightarrow> ok_step d (snd (foldl (repair_one_issue sha256) (s, d) ks))" for ks
  proof (induction ks arbitrary: s d)
    case (Cons k ks)
    obtain s1 d1 where step: "repair_one_issue sha256 (s, d) k = (s1, d1)" by fastforce
    with one [OF Cons.prems, of s k] have "ok_step d d1" by simp
    then show ?case using Cons.IH [of d1 s1] step ok_step_trans ok_step_wf by (metis foldl_Cons)
  qed simp
  then show ?thesis using assms by (metis repair_active_null_sequence_issues_def snd_conv)
qed

lemma normalize_ok_step: "wf_db d \<Longrightarrow> ok_step d (normalize_illegal_queued_tasks d)"
  by (rule ok_step_update [where p = "is_illegal_queued d" and f = "\<lambda>t. t\<lparr>task_status := PENDING\<rparr>"])
     (auto simp: normalize_illegal_queued_tasks_def is_illegal_queued_def is_active_iff keeps_turn_def
        intro: normalize_wf [unfolded normalize_illegal_queued_tasks_def])

lemma promote_ok_step: "wf_db d \<Longrightarrow> ok_step d (promote_due_heads sha256 cfg s d now)"
  by (rule ok_step_update [OF promote_tasks])
     (auto simp: is_promoted_def is_promotion_eligible_def is_active_iff keeps_turn_def intro: promote_wf)

lemma mark_eligible_ok_step:
  assumes "wf_db d" "mark_eligible_as_queued sha256 cfg now s d = (s', d')"
  shows "ok_step d d'"
proof -
  obtain d1 where rep: "repair_active_null_sequence_issues sha256 s d = (s', d1)"
    and d': "d' = promote_due_heads sha256 cfg s' (normalize_illegal_queued_tasks d1) now"
    using assms(2) by (auto simp: mark_eligible_as_queued_def Let_def split: prod.splits)
  have d1: "ok_step d d1" by (rule repair_ok_step [OF assms(1) rep])
  have d2: "ok_step d1 (normalize_illegal_queued_tasks d1)" by (rule normalize_ok_step [OF ok_step_wf [OF d1]])
  show ?thesis
    unfolding d' by (rule ok_step_trans [OF d1 ok_step_trans [OF d2 promote_ok_step [OF ok_step_wf [OF d2]]]])
qed



section \<open>The gate\<close>

text \<open>A row that was read as queued has not ended since.\<close>

definition still_open :: "database \<Rightarrow> task \<Rightarrow> bool" where
  "still_open d t \<longleftrightarrow> (task_status t = QUEUED \<longrightarrow> (\<forall>u\<in>set (tasks d). task_id u = task_id t \<longrightarrow> is_active u))"

lemma still_open_current: "wf_db d \<Longrightarrow> t \<in> set (tasks d) \<Longrightarrow> still_open d t"
  using same_task by (fastforce simp: still_open_def is_active_iff)

lemma park_ok_step:
  assumes "wf_db d" "still_open d t"
  shows "ok_step d (snd (park_queued_task t (s, d)))"
  using assms by (auto simp: park_queued_task_def still_open_def keeps_turn_def intro!: ok_step_put_task)

lemma park_keeps_others:
  assumes "u \<in> set (tasks d)" "task_id u \<noteq> task_id t"
  shows "u \<in> set (tasks (snd (park_queued_task t (s, d))))"
  using assms by (auto simp: park_queued_task_def set_update_where)

lemma park_all_ok_step:
  assumes "wf_db d" "set us \<subseteq> set (tasks d)" "distinct (map task_id us)"
  shows "ok_step d (snd (foldl (\<lambda>sd u. park_queued_task u sd) (s, d) us))"
  using assms
proof (induction us arbitrary: s d)
  case (Cons u us)
  obtain s1 d1 where step: "park_queued_task u (s, d) = (s1, d1)" by fastforce
  have "ok_step d d1" using park_ok_step [of d u s] still_open_current [of d u] Cons.prems step by simp
  moreover have "set us \<subseteq> set (tasks d1)"
  proof
    fix v assume v: "v \<in> set us"
    then have "task_id v \<noteq> task_id u" using Cons.prems(3) by (metis distinct.simps(2) image_eqI list.set_map list.simps(9))
    then show "v \<in> set (tasks d1)" using park_keeps_others [of v d u s] v Cons.prems(2) step by auto
  qed
  ultimately show ?case
    using Cons.IH [of d1 s1] Cons.prems(3) step ok_step_wf ok_step_trans by (metis distinct.simps(2) foldl_Cons list.simps(9))
qed simp

lemma park_tasks_ok_step:
  assumes "wf_db d" "still_open d t"
  shows "ok_step d (snd (park_tasks_for_unavailable_runtime t f req (s, d)))"
proof -
  obtain s1 d1 where step: "park_queued_task t (s, d) = (s1, d1)" by fastforce
  have d1: "ok_step d d1" using park_ok_step [OF assms, of s] step by simp
  let ?us = "filter (\<lambda>u. task_status u = QUEUED \<and> task_id u \<noteq> task_id t \<and> in_readiness_scope d1 f req (task_id u)) (tasks d1)"
  have "distinct (map task_id ?us)" using wf_dbD(1) [OF ok_step_wf [OF d1]] by (simp add: distinct_map_filter)
  then have "ok_step d1 (snd (foldl (\<lambda>sd u. park_queued_task u sd) (s1, d1) ?us))"
    by (intro park_all_ok_step [OF ok_step_wf [OF d1]]) auto
  then show ?thesis
    using d1 step by (auto simp: park_tasks_for_unavailable_runtime_def park_other_queued_tasks_def intro: ok_step_trans)
qed

lemma fail_ops_ok_step:
  assumes "wf_db d"
  shows "ok_step d (snd (fail_task_for_runtime_check now t r (s, d)))"
    and "ok_step d (snd (fail_task_for_execution_identity now t (s, d)))"
  using assms
  by (auto simp: fail_task_for_runtime_check_def fail_task_for_execution_identity_def failed_with_def
      is_active_iff keeps_turn_def intro!: ok_step_maybe_update ok_step_fail)

lemma on_unavailable_ok_step:
  assumes "wf_db d" "still_open d t"
  shows "ok_step d (snd (on_unavailable now t f req r (s, d)))"
  using park_tasks_ok_step [OF assms] fail_ops_ok_step [OF assms(1)] by (simp add: on_unavailable_def)

lemma availability_gate_ok_step:
  assumes "wf_db d"
  shows "ok_step d (snd (snd (harness_availability_gate now t snapshot r (s, d))))"
    and "\<not> fst (harness_availability_gate now t snapshot r (s, d)) \<Longrightarrow>
           snd (harness_availability_gate now t snapshot r (s, d)) = (s, d)"
  using fail_ops_ok_step(2) [OF assms, of now t s] assms
  by (auto simp: harness_availability_gate_def Let_def is_active_iff keeps_turn_def
      intro!: ok_step_maybe_update ok_step_fail)

text \<open>The tables a claim reads, unchanged.\<close>

definition same_queue :: "database \<Rightarrow> database \<Rightarrow> bool" where
  "same_queue d d' \<longleftrightarrow> tasks d' = tasks d \<and> issues d' = issues d \<and> locks d' = locks d
     \<and> snapshots d' = snapshots d \<and> bundles d' = bundles d"

lemma same_queue_wf: "same_queue d d' \<Longrightarrow> wf_db d \<Longrightarrow> wf_db d'"
  by (auto simp: same_queue_def wf_db_def)

lemma same_queue_refl [simp]: "same_queue d d"
  by (simp add: same_queue_def)

lemma same_queue_trans: "same_queue d e \<Longrightarrow> same_queue e f \<Longrightarrow> same_queue d f"
  by (simp add: same_queue_def)

lemma same_queue_ok_step: "same_queue d d' \<Longrightarrow> wf_db d \<Longrightarrow> ok_step d d'"
  by (intro ok_step_same_tasks) (auto simp: same_queue_def intro: same_queue_wf [unfolded same_queue_def])

lemma warn_same_queue: "same_queue d (snd (warn_if_frozen_kit_version_mismatch t snap r (s, d)))"
  by (auto simp: warn_if_frozen_kit_version_mismatch_def same_queue_def Let_def split: prod.split)

lemma readiness_writes_same_queue [simp]: "same_queue d (d\<lparr>readiness := r\<rparr>)"
  by (simp add: same_queue_def)

text \<open>A readiness check writes no more than its table around the wait for the probe.\<close>

lemma probe_frame:
  obtains e f where "same_queue d e" "f = e \<or> f = others e"
    "same_queue f (snd (run_deterministic_kit_probe sha256 probe others d a m p req now later))"
proof -
  have started: "same_queue d d1" if "begin_runtime_check sha256 d fp a m p req now = Inr (g, d1)" for d d1 fp g
    using that by (auto simp: begin_runtime_check_def Let_def split: option.splits if_splits)
  have finish: "same_queue d d1" if "finish_runtime_check sha256 d fp g r v req later = Inr (b, d1)" for d d1 fp g r v b
    using that by (auto simp: finish_runtime_check_def Let_def split: option.splits if_splits)
  have discard: "same_queue d (discard_incomplete_runtime_check sha256 d fp g req)" for d fp g
    by (auto simp: discard_incomplete_runtime_check_def split: option.splits)
  let ?fp = "runtime_locator_fingerprint sha256 a (Some m) p"
  show thesis
  proof (cases "\<exists>g e. ?fp \<noteq> None \<and> begin_runtime_check sha256 d ?fp a m p req now = Inr (g, e)")
    case True
    then obtain g e where e: "?fp \<noteq> None" "begin_runtime_check sha256 d ?fp a m p req now = Inr (g, e)" by blast
    have "same_queue (others e) (snd (run_deterministic_kit_probe sha256 probe others d a m p req now later))"
      using e discard finish
      by (auto simp: run_deterministic_kit_probe_def Let_def split: option.split sum.split)
    then show ?thesis using that started [OF e(2)] by blast
  next
    case False
    then have "snd (run_deterministic_kit_probe sha256 probe others d a m p req now later) = d"
      by (auto simp: run_deterministic_kit_probe_def Let_def split: sum.splits)
    then show ?thesis using that [of d d] by simp
  qed
qed


text \<open>The queue after a pass of the gate, when it lets the task through.\<close>

definition gate_ok :: "(database \<Rightarrow> database \<Rightarrow> bool) \<Rightarrow> database \<Rightarrow> bool \<times> scheduler \<times> database \<Rightarrow> bool" where
  "gate_ok keeps d res \<longleftrightarrow> ok_step d (snd (snd res)) \<and> (\<not> fst res \<longrightarrow> keeps d (snd (snd res)))"

text \<open>
  What the gate and the claim rely on about the other sessions, as an interface: \<open>keeps\<close> is what
  they may do to the database while the probe is awaited. It allows at least any change outside the
  queue tables, it is not disturbed by such changes before and after, it keeps the order and the
  locks, and it leaves queued tasks open.
\<close>

locale gate_frame =
  fixes keeps :: "database \<Rightarrow> database \<Rightarrow> bool"
  assumes keeps_same: "same_queue d e \<Longrightarrow> keeps d e"
    and keeps_frame: "same_queue d e \<Longrightarrow> keeps e f \<Longrightarrow> same_queue f g \<Longrightarrow> wf_db d \<Longrightarrow> keeps d g"
    and keeps_ok: "keeps d e \<Longrightarrow> wf_db d \<Longrightarrow> ok_step d e"
    and keeps_open: "keeps d e \<Longrightarrow> wf_db d \<Longrightarrow> t \<in> set (tasks d) \<Longrightarrow> still_open e t"
begin

lemma probe_keeps:
  assumes "\<And>d. wf_db d \<Longrightarrow> keeps d (others d)" "wf_db d" "same_queue d d1"
  shows "keeps d (snd (run_deterministic_kit_probe sha256 probe others d1 a m p req now later))"
proof -
  obtain e f where e: "same_queue d1 e" "f = e \<or> f = others e"
    "same_queue f (snd (run_deterministic_kit_probe sha256 probe others d1 a m p req now later))"
    by (rule probe_frame)
  have "same_queue d e" by (rule same_queue_trans [OF assms(3) e(1)])
  moreover have "keeps e f" using e(2) keeps_same assms(1) [OF same_queue_wf [OF \<open>same_queue d e\<close> assms(2)]] by auto
  ultimately show ?thesis using keeps_frame [OF _ _ e(3) assms(2)] by blast
qed

lemma gate_stay: "keeps d e \<Longrightarrow> wf_db d \<Longrightarrow> gate_ok keeps d (b, s, e)"
  by (simp add: gate_ok_def keeps_ok)

lemma gate_unavailable:
  assumes "keeps d (snd sd)" "wf_db d" "t \<in> set (tasks d)"
  shows "gate_ok keeps d (True, on_unavailable now t f v r sd)"
  using on_unavailable_ok_step [OF ok_step_wf keeps_open, of d "snd sd" d t now f v r "fst sd"] keeps_ok [OF assms(1,2)] assms
  by (auto simp: gate_ok_def intro: ok_step_trans)

lemma gate_availability:
  assumes "keeps d (snd sd)" "wf_db d"
  shows "gate_ok keeps d (harness_availability_gate now t sn r sd)"
  using availability_gate_ok_step [OF ok_step_wf [OF keeps_ok [OF assms]], of now t sn r "fst sd"] assms keeps_ok [OF assms]
  by (auto simp: gate_ok_def intro: ok_step_trans)

lemma gate_keeps:
  assumes quiet: "\<forall>d. wf_db d \<longrightarrow> keeps d (pe_others env d)" and wf: "wf_db d" and t: "t \<in> set (tasks d)"
  shows "gate_ok keeps d (apply_runtime_readiness_gate sha256 env now t (s, d))"
proof (cases "get_snapshot d (task_id t)")
  case None
  then show ?thesis using wf keeps_same by (simp add: apply_runtime_readiness_gate_def gate_stay Let_def)
next
  case (Some snap)
  note snapped = Some
  define v2 where "v2 \<longleftrightarrow> snap_runtime_contract_version snap = Some HARNESS_CONTRACT_VERSION_V2"
  have fail: "gate_ok keeps d (True, fail_task_for_execution_identity now t (s, d))"
    using fail_ops_ok_step(2) [OF wf, of now t s] by (simp add: gate_ok_def)
  have stay: "keeps d d" by (simp add: keeps_same)
  show ?thesis
  proof (cases "snap_runtime_locator_fingerprint snap")
    case None
    then show ?thesis using wf snapped fail stay by (simp add: apply_runtime_readiness_gate_def gate_stay Let_def)
  next
    case (Some f)
    define r where "r = read_runtime_readiness sha256 d (Some f) v2"
    define sd1 where "sd1 = warn_if_frozen_kit_version_mismatch t snap r (s, d)"
    have same1: "same_queue d (snd sd1)" by (simp add: sd1_def warn_same_queue)
    note sd1 = keeps_same [OF same1]
    obtain res d2 where probe: "run_deterministic_kit_probe sha256 (pe_probe env) (pe_others env) (snd sd1)
          (pe_daemon_key env snap) (snap_runtime_mode snap)
          (Some (case snap_worker_kit_path snap of None \<Rightarrow> [] | Some p \<Rightarrow> p)) False now (pe_later env) = (res, d2)"
      by fastforce
    have d2: "keeps d d2" using probe_keeps [OF _ wf same1, of "pe_others env"] quiet probe by (metis snd_conv)
    have warned: "keeps d (snd (warn_if_frozen_kit_version_mismatch t snap q (fst sd1, d2)))" for q
      by (rule keeps_frame [OF same_queue_refl d2 warn_same_queue wf])
    note parts = gate_stay [OF d2 wf] gate_availability [OF sd1 wf] gate_availability [OF warned wf]
      gate_unavailable [OF sd1 wf t] gate_unavailable [of d "(fst sd1, d2)", simplified, OF d2 wf t]
      gate_stay [OF stay wf]
    have "apply_runtime_readiness_gate sha256 env now t (s, d) =
        (if v2 \<and> \<not> frozen_v2_snapshot_is_complete (Some snap) then (True, fail_task_for_execution_identity now t (s, d))
         else if f = [] then (False, s, d)
         else if is_unavailable r then (True, on_unavailable now t f v2 r sd1)
         else if v2 \<or> is_ready r then harness_availability_gate now t (Some snap) r sd1
         else case res of
             Inl RuntimeProbeTransientError \<Rightarrow>
               (True, emit_event ''runtime_readiness_probe_transient'' ''probe_transient''
                        (Some (task_issue_id t)) (Some (task_id t)) (fst sd1), d2)
           | Inl (ProbeValueError _) \<Rightarrow> (True, fst sd1, d2)
           | Inr (r2, _) \<Rightarrow>
               if is_ready r2 then harness_availability_gate now t (Some snap) r2
                      (warn_if_frozen_kit_version_mismatch t snap r2 (fst sd1, d2))
               else if is_unavailable r2 then (True, on_unavailable now t f v2 r2 (fst sd1, d2))
               else (True, fst sd1, d2))"
      using probe
      by (cases v2; cases res)
         (simp_all add: apply_runtime_readiness_gate_def Some snapped Let_def sd1_def r_def v2_def cong: if_cong split: probe_error.split)
    then show ?thesis
      using parts fail by (auto split: sum.split probe_error.split)
  qed
qed

end

text \<open>Other sessions write no more than the readiness table while a probe runs.\<close>

definition quiet_env :: "probe_env \<Rightarrow> bool" where
  "quiet_env env \<longleftrightarrow> (\<forall>d. same_queue d (pe_others env d))"

text \<open>Other sessions may do anything that keeps order and locks, and end no queued task while a probe runs.\<close>

definition calm :: "database \<Rightarrow> database \<Rightarrow> bool" where
  "calm d e \<longleftrightarrow> (wf_db d \<longrightarrow> ok_step d e \<and> (\<forall>t\<in>set (tasks d). still_open e t))"

definition calm_env :: "probe_env \<Rightarrow> bool" where
  "calm_env env \<longleftrightarrow> (\<forall>d. calm d (pe_others env d))"

lemma same_queue_open: "same_queue d e \<Longrightarrow> wf_db d \<Longrightarrow> t \<in> set (tasks d) \<Longrightarrow> still_open e t"
  using still_open_current [of d t] by (simp add: same_queue_def still_open_def)

interpretation quiet: gate_frame same_queue
  by unfold_locales (auto intro: same_queue_trans same_queue_ok_step same_queue_open)

interpretation calm: gate_frame calm
proof unfold_locales
  fix d e f g :: database
  assume d: "same_queue d e" "calm e f" "same_queue f g" "wf_db d"
  have wf: "wf_db e" by (rule same_queue_wf [OF d(1,4)])
  then have ok: "ok_step e f" "\<forall>t\<in>set (tasks e). still_open f t" using d(2) by (simp_all add: calm_def)
  have "ok_step d g"
    by (rule ok_step_trans [OF same_queue_ok_step [OF d(1,4)] ok_step_trans [OF ok(1) same_queue_ok_step [OF d(3) ok_step_wf [OF ok(1)]]]])
  then show "calm d g" using ok(2) d(1,3) by (simp add: calm_def same_queue_def still_open_def)
qed (auto simp: calm_def intro: same_queue_ok_step same_queue_open)

lemma quiet_env_calm: "quiet_env env \<Longrightarrow> calm_env env"
  by (simp add: quiet_env_def calm_env_def calm.keeps_same)


section \<open>The claim\<close>

lemma ranks_turns_before_done:
  assumes "map task_issue_sequence (ordered_tasks d issue) = map Some [1..int n]" "wf_db d"
    and u: "u \<in> set (tasks d)" "task_issue_id u = issue" "task_issue_sequence u = Some q"
    and head: "\<not> has_active_predecessor d u"
  shows "turns_before_done d issue q"
proof -
  let ?ts = "ordered_tasks d issue"
  have members: "set ?ts = {v \<in> set (tasks d). task_issue_id v = issue}"
    using ordered_tasks_facts(1) [OF assms(2)] by auto
  have seqs: "task_issue_sequence ` set ?ts = Some ` {1..int n}"
    using arg_cong [OF assms(1), of set] by simp
  have "Some q \<in> Some ` {1..int n}" using u members seqs by (metis (mono_tags, lifting) imageI mem_Collect_eq)
  then have q: "q \<le> int n" by auto
  show ?thesis
    unfolding turns_before_done_def
  proof (intro allI impI)
    fix p assume p: "1 \<le> p \<and> p < q"
    then have "Some p \<in> task_issue_sequence ` set ?ts" using q by (simp add: seqs)
    then obtain v where v: "v \<in> set (tasks d)" "task_issue_id v = issue" "task_issue_sequence v = Some p"
      using members by auto
    moreover have "\<not> is_active v"
      using head v u(2,3) p by (auto simp: has_active_predecessor_def list_ex_iff)
    ultimately show "\<exists>v\<in>set (tasks d). task_issue_id v = issue \<and> task_issue_sequence v = Some p \<and> \<not> is_active v" by blast
  qed
qed

text \<open>The row of the task after a successful claim, and the rest of the tables.\<close>

definition claimed :: "timestamp \<Rightarrow> int \<Rightarrow> task \<Rightarrow> task" where
  "claimed now secs u = u\<lparr>task_status := RUNNING, task_started_at := Some now,
     task_execution_timeout_seconds := Some secs\<rparr>"

text \<open>
  \<open>claim_starts\<close>: the run started the task \<open>k\<close>, whose row \<open>u\<close> in the repaired database \<open>d1\<close> passed
  every test of the claim.
\<close>

definition claim_starts ::
  "settings \<Rightarrow> (database \<Rightarrow> row_id \<Rightarrow> bool) \<Rightarrow> timestamp \<Rightarrow> task \<Rightarrow> int \<Rightarrow> task \<Rightarrow> database \<Rightarrow> database \<Rightarrow> bool" where
  "claim_starts cfg over_limit now t secs u d1 d' \<longleftrightarrow>
     get_task d1 (task_id t) = Some u \<and> task_status u = QUEUED
     \<and> task_issue_sequence u \<noteq> None \<and> is_due now u \<and> \<not> has_active_predecessor d1 u
     \<and> require_task_executable_contract (get_snapshot d1 (task_id u)) (task_bundle d1 u)
         (cfg_harness_execution_mode cfg) None False = Inr ()
     \<and> (\<forall>user. task_initiator_user_id u = Some user \<longrightarrow> \<not> over_limit d1 user)
     \<and> lock_owner d1 (task_issue_id u) = None \<and> lock_owner d' = (lock_owner d1)(task_issue_id u \<mapsto> task_id u)
     \<and> (\<exists>tier. select_task_timeout (cfg_timeouts cfg) now = Some (tier, secs))
     \<and> tasks d' = update_where (\<lambda>v. task_id v = task_id u) (claimed now secs) (tasks d1) \<and> wf_db d'"

lemma start_running_tables:
  assumes "start_running now secs u s d = (s', d')"
  shows "tasks d' = update_where (\<lambda>v. task_id v = task_id u) (claimed now secs) (tasks d)"
    "lock_owner d' = lock_owner d" "wf_db d \<Longrightarrow> wf_db d'"
    "running_tasks s' = insert (task_id u) (running_tasks s)" "running_issues s' = insert (task_issue_id u) (running_issues s)"
  using assms
  by (auto simp: start_running_def claimed_def [abs_def] keeps_turn_def
      intro!: get_lock_locks_cong transition_issue_wf wf_db_put_task)

lemma demote_ok_step:
  assumes wf: "wf_db d" and u: "u \<in> set (tasks d)" "task_status u = QUEUED"
  shows "ok_step d (snd (demote_queued_task u reason (s, d)))"
proof -
  have "ok_step d (put_task (task_id u) (\<lambda>v. v\<lparr>task_status := PENDING\<rparr>) d)"
    using same_task [OF wf _ u(1)] u(2) by (intro ok_step_put_task [OF wf]) (auto simp: keeps_turn_def is_active_iff)
  then show ?thesis by (simp add: demote_queued_task_def)
qed

lemma claim_head_cases:
  assumes wf: "wf_db d" and wf1: "wf_db d1" and ok: "ok_step d d1"
    and head: "get_task d1 (task_id t) = Some u" "task_status u = QUEUED" "task_issue_sequence u \<noteq> None"
      "is_due now u" "\<not> has_active_predecessor d1 u"
    and run: "claim_head cfg over_limit now t u s d d1 = (s', d')"
  shows "ok_step d d' \<and> running_tasks s' = running_tasks s \<and> running_issues s' = running_issues s
    \<or> (\<exists>secs. claim_starts cfg over_limit now t secs u d1 d'
         \<and> running_tasks s' = insert (task_id u) (running_tasks s)
         \<and> running_issues s' = insert (task_issue_id u) (running_issues s))"
proof -
  have fail: "ok_step d (maybe_update_issue_status (put_task k f d1) i)" if "keeps_turn f" "\<And>v. \<not> is_active (f v)" for k f i
    by (intro ok_step_maybe_update ok_step_trans [OF ok] ok_step_fail [OF wf1 that])
  let ?over = "case task_initiator_user_id u of None \<Rightarrow> False | Some user \<Rightarrow> over_limit d1 user"
  show ?thesis
  proof (cases "require_task_executable_contract (get_snapshot d1 (task_id u)) (task_bundle d1 u)
          (cfg_harness_execution_mode cfg) None False")
    case (Inl code)
    then show ?thesis using run fail by (auto simp: claim_head_def claim_rejected_def keeps_turn_def is_active_iff)
  next
    case contract: (Inr unit)
    obtain d2 acquired where lock: "acquire_issue_execution_lock d1 (task_issue_id u) (task_id u) now = (d2, acquired)" by fastforce
    show ?thesis
    proof (cases "?over \<or> \<not> acquired \<or> select_task_timeout (cfg_timeouts cfg) now = None")
      case True
      then have "d' = d \<and> running_tasks s' = running_tasks s \<and> running_issues s' = running_issues s
          \<or> s' = s \<and> d' = maybe_update_issue_status (put_task (task_id u) (failed_with ''usage_limit_exceeded'' now) d1) (task_issue_id t)"
        using run by (auto simp: claim_head_def contract lock claim_rejected_def split: if_splits option.splits)
      then show ?thesis
        using wf fail [of "failed_with ''usage_limit_exceeded'' now"] by (auto simp: failed_with_def keeps_turn_def is_active_iff)
    next
      case False
      then obtain tier secs where go: "select_task_timeout (cfg_timeouts cfg) now = Some (tier, secs)" "acquired" "\<not> ?over"
        by auto
      then have start: "start_running now secs u s d2 = (s', d')"
        using run by (simp add: claim_head_def contract lock split: option.splits)
      have free: "lock_owner d1 (task_issue_id u) = None"
        using acquire_result [of d1 "task_issue_id u" "task_id u" now] lock go(2) by simp
      have d2: "tasks d2 = tasks d1" "wf_db d2" "lock_owner d2 = (lock_owner d1)(task_issue_id u \<mapsto> task_id u)"
        using lock_frames(1) [of d1] wf_db_acquire [OF wf1] acquire_owner [of d1] free lock by (metis fst_conv)+
      have "claim_starts cfg over_limit now t secs u d1 d'"
        unfolding claim_starts_def
        using head contract go free d2 start_running_tables [OF start] by (auto split: option.splits)
      then show ?thesis using start_running_tables(4,5) [OF start] by blast
    qed
  qed
qed

lemma claim_task_cases:
  assumes wf: "wf_db d" and run: "claim_task sha256 cfg over_limit now t s d = (s', d')"
  shows "ok_step d d' \<and> running_tasks s' = running_tasks s \<and> running_issues s' = running_issues s
    \<or> (\<exists>report d1 secs u. ensure_issue_order_integrity_locked sha256 d (task_issue_id t) True = Inr (report, d1)
         \<and> claim_starts cfg over_limit now t secs u d1 d'
         \<and> running_tasks s' = insert (task_id u) (running_tasks s)
         \<and> running_issues s' = insert (task_issue_id u) (running_issues s))"
proof (cases "ensure_issue_order_integrity_locked sha256 d (task_issue_id t) True")
  case (Inl e)
  then have "d' = d" "s' = claim_rejected ''sequence_repair_required'' t s" using run by (auto simp: claim_task_def)
  then show ?thesis using wf by (simp add: claim_rejected_def)
next
  case (Inr res)
  then obtain report d1 where ens: "ensure_issue_order_integrity_locked sha256 d (task_issue_id t) True = Inr (report, d1)"
    by (cases res) auto
  have ok: "ok_step d d1" and wf1: "wf_db d1" using ensure_ok_step(1) [OF ens wf] ok_step_wf by auto
  show ?thesis
  proof (cases "get_task d1 (task_id t)")
    case None
    then show ?thesis using run ens wf by (simp add: claim_task_def)
  next
    case (Some u)
    show ?thesis
    proof (cases "task_status u = QUEUED \<and> task_issue_sequence u \<noteq> None \<and> is_due now u \<and> \<not> has_active_predecessor d1 u")
      case True
      then have "claim_head cfg over_limit now t u s d d1 = (s', d')" using run by (auto simp: claim_task_def ens Some)
      then show ?thesis using claim_head_cases [OF wf wf1 ok Some] True ens by blast
    next
      case False
      then have "d' = d \<and> running_tasks s' = running_tasks s \<and> running_issues s' = running_issues s
          \<or> task_status u = QUEUED \<and> (\<exists>reason. demote_queued_task u reason (s, d1) = (s', d'))"
        using run by (auto simp: claim_task_def ens Some claim_rejected_def split: if_splits)
      moreover have "ok_step d (snd (demote_queued_task u reason (s, d1)))" if "task_status u = QUEUED" for reason
        using get_taskD [OF Some] that by (intro ok_step_trans [OF ok demote_ok_step [OF wf1]]) auto
      ultimately show ?thesis using wf by (auto simp: demote_queued_task_def)
    qed
  qed
qed

text \<open>A started task has all its earlier turns behind it.\<close>

lemma claim_starts_keeps_turns:
  assumes starts: "claim_starts cfg over_limit now t secs u d1 d'" and wf1: "wf_db d1"
    and before: "turns_before_done d1 issue p"
  shows "turns_before_done d' issue p"
  unfolding turns_before_done_def
proof (intro allI impI)
  fix x assume "1 \<le> x \<and> x < p"
  then obtain v where v: "v \<in> set (tasks d1)" "task_issue_id v = issue" "task_issue_sequence v = Some x" "\<not> is_active v"
    using before by (auto simp: turns_before_done_def)
  have u: "u \<in> set (tasks d1)" "task_status u = QUEUED"
    and d': "tasks d' = update_where (\<lambda>v. task_id v = task_id u) (claimed now secs) (tasks d1)"
    using starts get_taskD by (auto simp: claim_starts_def)
  have "task_id v \<noteq> task_id u"
    using same_task [OF wf1 v(1) u(1)] v(4) u(2) by (auto simp: is_active_iff)
  then show "\<exists>v\<in>set (tasks d'). task_issue_id v = issue \<and> task_issue_sequence v = Some x \<and> \<not> is_active v"
    using v by (auto simp: d' set_update_where)
qed

lemma claim_starts_invariant:
  assumes inv: "turn_invariant d"
    and ens: "ensure_issue_order_integrity_locked sha256 d (task_issue_id t) True = Inr (report, d1)"
    and t: "t \<in> set (tasks d)" and starts: "claim_starts cfg over_limit now t secs u d1 d'"
  shows "turn_invariant d'"
proof -
  have wf: "wf_db d" using inv by (simp add: turn_invariant_def)
  note ok = ensure_ok_step(1) [OF ens wf]
  have inv1: "turn_invariant d1" by (rule ok_step_invariant [OF inv ok])
  then have wf1: "wf_db d1" by (simp add: turn_invariant_def)
  from starts have d': "tasks d' = update_where (\<lambda>v. task_id v = task_id u) (claimed now secs) (tasks d1)" "wf_db d'"
    and head: "\<not> has_active_predecessor d1 u" by (simp_all add: claim_starts_def)
  obtain q where u: "u \<in> set (tasks d1)" "task_id u = task_id t" "task_issue_sequence u = Some q"
    using starts get_taskD by (fastforce simp: claim_starts_def)
  have "task_issue_id u = task_issue_id t"
    using ok t u(1,2) wf1 same_task unfolding ok_step_def evolves_def by metis
  then have done1: "turns_before_done d1 (task_issue_id u) q"
    using ranks_turns_before_done [OF ensure_ranks [OF ens wf] wf1 u(1) _ u(3) head] by simp
  have keeps: "keeps_turn (claimed now secs)" by (simp add: keeps_turn_def claimed_def)
  note kept = claim_starts_keeps_turns [OF starts wf1]
  have "\<exists>q. task_issue_sequence v = Some q \<and> turns_before_done d' (task_issue_id v) q"
    if v: "v \<in> set (tasks d')" "task_status v = RUNNING" for v
  proof -
    from v(1) obtain w where w: "w \<in> set (tasks d1)" "v = (if task_id w = task_id u then claimed now secs w else w)"
      unfolding d'(1) by (rule in_update_whereE)
    show ?thesis
    proof (cases "task_id w = task_id u")
      case True
      then have "w = u" using same_task [OF wf1 w(1) u(1)] by blast
      then show ?thesis using w(2) u(3) kept [OF done1] by (simp add: claimed_def)
    next
      case False
      then show ?thesis using w v(2) inv1 kept by (auto simp: turn_invariant_def)
    qed
  qed
  moreover have "positive_sequences d'"
    using inv1 positive_sequences_update [OF _ keeps d'(1)] by (simp add: turn_invariant_def)
  ultimately show ?thesis using d'(2) by (simp add: turn_invariant_def)
qed

context gate_frame
begin

lemma execute_task_cases:
  assumes quiet: "\<forall>d. wf_db d \<longrightarrow> keeps d (pe_others env d)" and wf: "wf_db d" and t: "t \<in> set (tasks d)"
    and run: "execute_task sha256 cfg over_limit env now t s d = (s', d')"
  shows "ok_step d d'
    \<or> (\<exists>d0 report d1 secs u. keeps d d0
         \<and> ensure_issue_order_integrity_locked sha256 d0 (task_issue_id t) True = Inr (report, d1)
         \<and> claim_starts cfg over_limit now t secs u d1 d')"
proof -
  obtain b s0 d0 where gate: "apply_runtime_readiness_gate sha256 env now t (s, d) = (b, s0, d0)" by (metis prod_cases3)
  have ok: "gate_ok keeps d (b, s0, d0)" using gate_keeps [OF quiet wf t, of sha256 now s] by (simp only: gate)
  show ?thesis
  proof (cases b)
    case True
    then show ?thesis using run ok by (simp add: execute_task_def gate gate_ok_def)
  next
    case False
    then have d0: "keeps d d0" "ok_step d d0" using ok by (simp_all add: gate_ok_def)
    have "claim_task sha256 cfg over_limit now t s0 d0 = (s', d')" using run False by (simp add: execute_task_def gate)
    from claim_task_cases [OF ok_step_wf [OF d0(2)] this] show ?thesis
      using d0 ok_step_trans [OF d0(2)] by blast
  qed
qed

lemma execute_task_invariant:
  assumes "\<forall>d. wf_db d \<longrightarrow> keeps d (pe_others env d)" "turn_invariant d" "t \<in> set (tasks d)"
    "execute_task sha256 cfg over_limit env now t s d = (s', d')"
  shows "turn_invariant d'"
proof -
  have wf: "wf_db d" using assms(2) by (simp add: turn_invariant_def)
  from execute_task_cases [OF assms(1) wf assms(3,4)] show ?thesis
  proof (elim disjE exE conjE)
    fix d0 report d1 secs u
    assume d0: "keeps d d0" and ens: "ensure_issue_order_integrity_locked sha256 d0 (task_issue_id t) True = Inr (report, d1)"
      and starts: "claim_starts cfg over_limit now t secs u d1 d'"
    note ok = keeps_ok [OF d0 wf]
    obtain t0 where t0: "t0 \<in> set (tasks d0)" "task_id t0 = task_id t" "task_issue_id t0 = task_issue_id t"
      using ok assms(3) unfolding ok_step_def evolves_def by blast
    have "claim_starts cfg over_limit now t0 secs u d1 d'" using starts t0(2) by (simp add: claim_starts_def)
    moreover have "ensure_issue_order_integrity_locked sha256 d0 (task_issue_id t0) True = Inr (report, d1)" using ens t0(3) by simp
    ultimately show ?thesis using claim_starts_invariant [OF ok_step_invariant [OF assms(2) ok] _ t0(1)] by blast
  qed (rule ok_step_invariant [OF assms(2)])
qed

end

lemma ok_step_running_locked:
  assumes "running_locked d" "ok_step d d'"
  shows "running_locked d'"
proof -
  have "lock_owner d' (task_issue_id t) = Some (task_id t)" if t: "t \<in> set (tasks d')" "task_status t = RUNNING" for t
  proof -
    obtain u where "u \<in> set (tasks d)" "task_id u = task_id t" "task_issue_id u = task_issue_id t" "task_status u = RUNNING"
      using assms(2) t unfolding ok_step_def evolves_def by blast
    then have "lock_owner d (task_issue_id t) = Some (task_id t)" using assms(1) unfolding running_locked_def list_all_iff by metis
    then show ?thesis using assms(2) t unfolding ok_step_def keeps_locks_def by blast
  qed
  then show ?thesis by (simp add: running_locked_def list_all_iff)
qed

lemma claim_starts_running_locked:
  assumes "running_locked d1" "wf_db d1" "claim_starts cfg over_limit now t secs u d1 d'"
  shows "running_locked d'"
proof -
  have own: "lock_owner d1 (task_issue_id u) = None" "lock_owner d' = (lock_owner d1)(task_issue_id u \<mapsto> task_id u)"
    and d': "tasks d' = update_where (\<lambda>v. task_id v = task_id u) (claimed now secs) (tasks d1)" and u: "u \<in> set (tasks d1)"
    using assms(3) get_taskD by (auto simp: claim_starts_def)
  have "lock_owner d' (task_issue_id v) = Some (task_id v)" if v: "v \<in> set (tasks d')" "task_status v = RUNNING" for v
  proof -
    from v(1) obtain w where w: "w \<in> set (tasks d1)" "v = (if task_id w = task_id u then claimed now secs w else w)"
      unfolding d' by (rule in_update_whereE)
    show ?thesis
    proof (cases "task_id w = task_id u")
      case True
      then have "w = u" using same_task [OF assms(2) w(1) u] by blast
      then show ?thesis using w(2) own(2) by (simp add: claimed_def)
    next
      case False
      then have "lock_owner d1 (task_issue_id v) = Some (task_id v)"
        using w v(2) assms(1) by (simp add: running_locked_def list_all_iff)
      then show ?thesis using own by auto
    qed
  qed
  then show ?thesis by (simp add: running_locked_def list_all_iff)
qed

context gate_frame
begin

lemma execute_task_running_locked:
  assumes "\<forall>d. wf_db d \<longrightarrow> keeps d (pe_others env d)" "wf_db d" "running_locked d" "t \<in> set (tasks d)"
    "execute_task sha256 cfg over_limit env now t s d = (s', d')"
  shows "running_locked d'"
  using execute_task_cases [OF assms(1,2,4,5)]
proof (elim disjE exE conjE)
  fix d0 report d1 secs u
  assume d0: "keeps d d0" and ens: "ensure_issue_order_integrity_locked sha256 d0 (task_issue_id t) True = Inr (report, d1)"
    and starts: "claim_starts cfg over_limit now t secs u d1 d'"
  note ok0 = keeps_ok [OF d0 assms(2)]
  have ok: "ok_step d d1" by (rule ok_step_trans [OF ok0 ensure_ok_step(1) [OF ens ok_step_wf [OF ok0]]])
  show ?thesis by (rule claim_starts_running_locked [OF ok_step_running_locked [OF assms(3) ok] ok_step_wf [OF ok] starts])
qed (rule ok_step_running_locked [OF assms(3)])

end

text \<open>The task the claim started, as it was before the run.\<close>

lemma ensure_row:
  assumes ens: "ensure_issue_order_integrity_locked sha256 d issue r = Inr (report, d1)" and wf: "wf_db d"
    and t: "t \<in> set (tasks d)" and u: "get_task d1 (task_id t) = Some u"
  shows "erase_order u = erase_order t" "snapshots d1 = snapshots d" "bundles d1 = bundles d" "locks d1 = locks d"
proof -
  obtain rows where rows: "repairs rows d issue" "d1 = flush_tasks rows d" using ensure_InrE [OF ens wf] by metis
  show "snapshots d1 = snapshots d" "bundles d1 = bundles d" "locks d1 = locks d" by (simp_all add: rows(2) frame_simps)
  obtain w where w: "w \<in> set (tasks d)" "u = write_back rows w" "task_id u = task_id t"
    using get_taskD [OF u] by (auto simp: rows(2) flush_tasks_def)
  have "task_id (write_back rows w) = task_id w" by (rule write_back_keys(1) [OF rows(1) w(1)])
  then have "w = t" using same_task [OF wf w(1) t] w(2,3) by simp
  then show "erase_order u = erase_order t" using write_back_row(1) [OF rows(1) w(1)] w(2) by simp
qed

lemma erase_order_claim:
  assumes "erase_order u = erase_order t"
  shows "is_due now u = is_due now t" "task_bundle d u = task_bundle d t" "task_status u = task_status t"
    "task_initiator_user_id u = task_initiator_user_id t" "task_issue_id u = task_issue_id t" "task_id u = task_id t"
  using arg_cong [OF assms, of task_scheduled_at] arg_cong [OF assms, of task_runtime_bundle_id]
    arg_cong [OF assms, of task_initiator_user_id] erase_orderD [OF assms]
  by (simp_all add: is_due_def task_bundle_def erase_order_def erase_projection_def)

lemma same_queue_reads:
  assumes "same_queue d d'"
  shows "get_snapshot d' = get_snapshot d" "task_bundle d' = task_bundle d" "lock_owner d' = lock_owner d"
  using assms
  by (auto simp: same_queue_def get_snapshot_def task_bundle_def get_bundle_def fun_eq_iff lock_owner_def get_lock_def
      split: option.split)

text \<open>
  C2. A run of \<open>_execute_task\<close> starts at most the task it was called for, and only if it may: a task
  that runs afterwards and did not run before is the given task; it was queued and due, its contract
  is executable, the execution lock of its issue was free and is now its own; all earlier turns of
  the issue exist and are over; and the row records the start and the timeout tier of this moment.
  Other sessions may commit readiness checks during the run, but do not touch the queue.
\<close>

theorem claim_starts_only_the_due_head:
  assumes "quiet_env env" "wf_db d" "t \<in> set (tasks d)"
    "execute_task sha256 cfg over_limit env now t s d = (s', d')"
    "v \<in> set (tasks d')" "task_status v = RUNNING"
    "\<forall>w\<in>set (tasks d). task_id w = task_id v \<longrightarrow> task_status w \<noteq> RUNNING"
  shows "task_id v = task_id t \<and> task_status t = QUEUED \<and> is_due now t
    \<and> require_task_executable_contract (get_snapshot d (task_id t)) (task_bundle d t)
        (cfg_harness_execution_mode cfg) None False = Inr ()
    \<and> lock_owner d (task_issue_id t) = None \<and> lock_owner d' = (lock_owner d)(task_issue_id t \<mapsto> task_id t)
    \<and> (\<exists>q. task_issue_sequence v = Some q \<and> turns_before_done d' (task_issue_id v) q)
    \<and> task_started_at v = Some now
    \<and> (\<exists>tier secs. select_task_timeout (cfg_timeouts cfg) now = Some (tier, secs)
         \<and> task_execution_timeout_seconds v = Some secs)"
proof -
  have "\<not> ok_step d d'" using assms(5-7) unfolding ok_step_def evolves_def by blast
  then obtain d0 report d1 secs u where same: "same_queue d d0"
    and ens: "ensure_issue_order_integrity_locked sha256 d0 (task_issue_id t) True = Inr (report, d1)"
    and starts: "claim_starts cfg over_limit now t secs u d1 d'"
    using quiet.execute_task_cases [OF _ assms(2-4)] assms(1) by (metis quiet_env_def)
  have wf0: "wf_db d0" and t0: "t \<in> set (tasks d0)"
    using same_queue_wf [OF same assms(2)] same assms(3) by (simp_all add: same_queue_def)
  have u: "get_task d1 (task_id t) = Some u" using starts by (simp add: claim_starts_def)
  note row = erase_order_claim [OF ensure_row(1) [OF ens wf0 t0 u]]
  have reads: "get_snapshot d1 = get_snapshot d" "task_bundle d1 = task_bundle d" "lock_owner d1 = lock_owner d"
    using ensure_row(2-4) [OF ens wf0 t0 u] same
    by (auto simp: same_queue_def get_snapshot_def task_bundle_def get_bundle_def fun_eq_iff lock_owner_def get_lock_def
        split: option.split)
  have ok1: "ok_step d d1" by (rule ok_step_trans [OF same_queue_ok_step [OF same assms(2)] ensure_ok_step(1) [OF ens wf0]])
  have d': "tasks d' = update_where (\<lambda>v. task_id v = task_id u) (claimed now secs) (tasks d1)"
    using starts by (simp add: claim_starts_def)
  from assms(5) obtain w where w: "w \<in> set (tasks d1)" "v = (if task_id w = task_id u then claimed now secs w else w)"
    unfolding d' by (rule in_update_whereE)
  have "task_id w = task_id u"
  proof (rule ccontr)
    assume "task_id w \<noteq> task_id u"
    then have "v = w" using w(2) by simp
    then obtain x where "x \<in> set (tasks d)" "task_id x = task_id v" "task_status x = RUNNING"
      using ok1 w(1) assms(6) unfolding ok_step_def evolves_def by blast
    then show False using assms(7) by blast
  qed
  then have v: "v = claimed now secs u" using w(2) same_task [OF ok_step_wf [OF ok1] w(1)] get_taskD [OF u] by metis
  obtain q where q: "task_issue_sequence u = Some q" using starts by (auto simp: claim_starts_def)
  have "turns_before_done d1 (task_issue_id u) q"
    using ranks_turns_before_done [OF ensure_ranks [OF ens wf0] ok_step_wf [OF ok1] _ _ q] starts get_taskD [OF u] row(5)
    by (simp add: claim_starts_def)
  then have "turns_before_done d' (task_issue_id u) q" using claim_starts_keeps_turns [OF starts ok_step_wf [OF ok1]] by blast
  moreover have "is_due now t" "task_status t = QUEUED" "lock_owner d (task_issue_id t) = None"
    "lock_owner d' = (lock_owner d)(task_issue_id t \<mapsto> task_id t)"
    "require_task_executable_contract (get_snapshot d (task_id t)) (task_bundle d t) (cfg_harness_execution_mode cfg) None False = Inr ()"
    "\<exists>tier. select_task_timeout (cfg_timeouts cfg) now = Some (tier, secs)"
    using starts by (simp_all add: claim_starts_def reads row)
  ultimately show ?thesis using q by (auto simp: v row claimed_def)
qed

section \<open>A concrete claim\<close>

definition quiet_probe :: probe_env where
  "quiet_probe = \<lparr>pe_daemon_key = (\<lambda>_. ''tcp://h''), pe_probe = None, pe_others = (\<lambda>d. d), pe_later = 101\<rparr>"

definition v2_settings :: settings where
  "v2_settings = sample_settings\<lparr>cfg_harness_execution_mode := ''v2_only''\<rparr>"

definition runnable_task :: task where
  "runnable_task = (sample_task 2 7 QUEUED (Some 2))\<lparr>task_runtime_bundle_id := Some 5, task_session_mode := ''fresh''\<rparr>"

text \<open>The first turn is over, the second one is queued with a complete V2 identity.\<close>

definition runnable_db :: database where
  "runnable_db = (sample_db [sample_task 1 7 COMPLETED (Some 1), runnable_task] [])\<lparr>
     snapshots := [(complete_snapshot 2)\<lparr>snap_runtime_bundle_digest := Some ''d''\<rparr>],
     bundles := [\<lparr>bundle_id = 5, bundle_digest = ''d'', bundle_contract_version = HARNESS_CONTRACT_VERSION_V2,
       bundle_manifest = [(''adapters'', PDict [(''pi'', PDict [])])]\<rparr>]\<rparr>"

lemma runnable_db_wf: "wf_db runnable_db"
  by (simp add: runnable_db_def runnable_task_def wf_db_def unique_sequences_def sample_defs complete_snapshot_def)

lemma runnable_db_runs:
  "map task_status (tasks (snd (execute_task (\<lambda>s. s) v2_settings (\<lambda>_ _. False) quiet_probe 100 runnable_task idle_scheduler runnable_db)))
     = [COMPLETED, RUNNING]"
  by code_simp

theorem claim_starts_only_the_due_head_witness:
  "\<exists>s' d' v. execute_task (\<lambda>s. s) v2_settings (\<lambda>_ _. False) quiet_probe 100 runnable_task idle_scheduler runnable_db = (s', d')
     \<and> v \<in> set (tasks d') \<and> task_status v = RUNNING \<and> task_id v = 2 \<and> lock_owner d' 7 = Some 2"
proof -
  obtain s' d' where run: "execute_task (\<lambda>s. s) v2_settings (\<lambda>_ _. False) quiet_probe 100 runnable_task idle_scheduler runnable_db = (s', d')"
    by fastforce
  then have "RUNNING \<in> set (map task_status (tasks d'))" using runnable_db_runs by simp
  then obtain v where v: "v \<in> set (tasks d')" "task_status v = RUNNING" by auto
  have "quiet_env quiet_probe" by (simp add: quiet_env_def quiet_probe_def)
  moreover have "runnable_task \<in> set (tasks runnable_db)" "task_id runnable_task = 2" "task_issue_id runnable_task = 7"
    "\<forall>w\<in>set (tasks runnable_db). task_id w = task_id v \<longrightarrow> task_status w \<noteq> RUNNING"
    by (simp_all add: runnable_db_def runnable_task_def sample_defs)
  ultimately show ?thesis
    using claim_starts_only_the_due_head [OF _ runnable_db_wf _ run v] run v by auto
qed

end
