(* ===== verification/Harness_Registry.thy ===== *)
theory Harness_Registry
  imports Execution_Policy "HOL-Library.List_Lexorder" "HOL-Library.Char_ord"
begin

text \<open>
  The Harness registry, \<^verbatim>\<open>core/harness_registry.py\<close>, with the manifest validator of
  \<^verbatim>\<open>core/harness_protocol.py\<close>: which Harness keys, capabilities and model protocols a profile and a
  frozen Runtime Bundle may declare, and which control commands a bundle supports. A raise is \<open>Inl\<close>
  with a short code; \<open>TypeError\<close> and \<open>AttributeError\<close> are Python's own.
\<close>

section \<open>Tables\<close>

definition CANONICAL_EVENT_SCHEMA :: string where "CANONICAL_EVENT_SCHEMA = ''codify.worker.event/v1''"
definition CANONICAL_RESULT_SCHEMA_V2 :: string where "CANONICAL_RESULT_SCHEMA_V2 = ''codify.worker.result/v2''"
definition COMMAND_SCHEMA_V2 :: string where "COMMAND_SCHEMA_V2 = ''codify.worker.command/v2''"
definition RUNTIME_MANIFEST_SCHEMA_V2 :: string where
  "RUNTIME_MANIFEST_SCHEMA_V2 = ''codify.worker.runtime-manifest/v2''"

definition CONTROL_TRANSPORT_KINDS :: "string list" where
  "CONTROL_TRANSPORT_KINDS = [''rpc_stdio'', ''server_http'', ''cli_stream_json'', ''cli_jsonl'']"

definition HARNESS_CAPABILITY_KEYS :: "string list" where
  "HARNESS_CAPABILITY_KEYS =
     [''resume'', ''task_skills'', ''usage_tokens'', ''steering'', ''follow_up'', ''subagents'']"

text \<open>The transport column of \<^verbatim>\<open>HARNESS_PROTOCOL_MATRIX\<close>.\<close>

definition HARNESS_TRANSPORTS :: "(string \<times> string \<times> string) list" where
  "HARNESS_TRANSPORTS = [(''pi'', ''rpc_stdio'', ''pi-rpc''), (''opencode'', ''server_http'', ''opencode-server''),
     (''claude'', ''cli_stream_json'', ''claude-json''), (''codex'', ''rpc_stdio'', ''codex-app-server-v2'')]"

definition TIGHTENABLE_CONSTRAINTS :: "string list" where
  "TIGHTENABLE_CONSTRAINTS = [''max_turns'', ''sandbox_mode'', ''network_enabled'', ''timeout_seconds'']"

definition v1_capabilities :: "bool \<Rightarrow> bool \<Rightarrow> bool \<Rightarrow> pydict" where
  "v1_capabilities max_turns run_text codegraph = [(''resume'', PBool True), (''task_skills'', PBool True),
     (''max_turns'', PBool max_turns), (''usage_tokens'', PBool True), (''usage_cost'', PBool True),
     (''run_text'', PBool run_text), (''codegraph'', PBool codegraph), (''sandbox_mode'', PStr ''container-boundary'')]"

definition SYSTEM_CAPABILITIES :: "(string \<times> pydict) list" where
  "SYSTEM_CAPABILITIES = [(''claude'', v1_capabilities True True True), (''codex'', v1_capabilities False False False),
     (''pi'', v1_capabilities True True True), (''opencode'', v1_capabilities False True False)]"

definition V2_SYSTEM_CAPABILITY_UPPER_BOUND :: "(string \<times> (string \<times> bool) list) list" where
  "V2_SYSTEM_CAPABILITY_UPPER_BOUND =
     map (\<lambda>(key, control). (key, [(''resume'', True), (''task_skills'', True), (''usage_tokens'', True),
        (''steering'', control), (''follow_up'', control), (''subagents'', True)]))
       [(''pi'', True), (''opencode'', False), (''claude'', False), (''codex'', False)]"

definition DISPLAY_NAMES :: "(string \<times> string) list" where
  "DISPLAY_NAMES = [(''claude'', ''Claude''), (''codex'', ''Codex''), (''pi'', ''Pi''), (''opencode'', ''OpenCode'')]"

lemmas registry_tables = HARNESS_KEYS_def HARNESS_TRANSPORTS_def SYSTEM_CAPABILITIES_def
  V2_SYSTEM_CAPABILITY_UPPER_BOUND_def HARNESS_CAPABILITY_KEYS_def HARNESS_PROVIDER_PROTOCOLS_def


section \<open>Profile declarations\<close>

definition validate_harness_key :: "string \<Rightarrow> (string, unit) result" where
  "validate_harness_key key = require (key \<in> set HARNESS_KEYS) ''unknown_harness_key''"

text \<open>\<^verbatim>\<open>list(dict.fromkeys(enabled))\<close> keeps the first occurrences.\<close>

fun fromkeys :: "'a list \<Rightarrow> 'a list" where
  "fromkeys [] = []"
| "fromkeys (x # xs) = x # filter (\<lambda>y. y \<noteq> x) (fromkeys xs)"

definition validate_enabled_harnesses :: "string list \<Rightarrow> string \<Rightarrow> (string, string list) result" where
  "validate_enabled_harnesses enabled default_key =
     (let enabled_list = fromkeys enabled in
      bind_result (require (enabled_list \<noteq> []) ''enabled_harnesses_empty'') (\<lambda>_.
      bind_result (require_each validate_harness_key enabled_list) (\<lambda>_.
      bind_result (validate_harness_key default_key) (\<lambda>_.
      bind_result (require (default_key \<in> set enabled_list) ''default_not_enabled'') (\<lambda>_.
      Inr enabled_list)))))"

definition only_keys :: "pydict \<Rightarrow> string list \<Rightarrow> string \<Rightarrow> (string, unit) result" where
  "only_keys d allowed code = require (list_all (\<lambda>(k, _). k \<in> set allowed) d) code"

definition validate_harness_runtime :: "string \<Rightarrow> pyval \<Rightarrow> (string, unit) result" where
  "validate_harness_runtime key runtime =
     bind_result (validate_harness_key key) (\<lambda>_.
     case runtime of
       PDict r \<Rightarrow>
         bind_result (require_in_strs (dict_get r ''source'') [''worker_kit'', ''host_mount''] ''source'') (\<lambda>_.
         bind_result
           (if dict_get r ''source'' = PStr ''worker_kit''
            then only_keys r [''source'', ''contract_version''] ''worker_kit_forbidden_keys''
            else bind_result
                   (only_keys r [''source'', ''executable_path'', ''version'', ''binary_digest'', ''contract_version'']
                      ''unknown_keys'') (\<lambda>_.
                 require (\<exists>p\<in>set (case dict_get r ''executable_path'' of PStr p \<Rightarrow> [p] | _ \<Rightarrow> []). startswith p ''/'')
                   ''executable_path'')) (\<lambda>_.
         require (dict_get r ''contract_version'' = PNone
                  \<or> dict_get r ''contract_version'' = PStr HARNESS_CONTRACT_VERSION_V2) ''contract_version''))
     | _ \<Rightarrow> Inl ''runtime_not_an_object'')"

definition validate_harness_runtimes :: "pyval \<Rightarrow> (string, pydict) result" where
  "validate_harness_runtimes runtimes = (case runtimes of
     PDict d \<Rightarrow> bind_result (require_each (\<lambda>(key, r). validate_harness_runtime key r) d) (\<lambda>_. Inr d)
   | _ \<Rightarrow> Inl ''runtimes_not_an_object'')"

definition validate_harness_constraints :: "pyval \<Rightarrow> (string, pydict) result" where
  "validate_harness_constraints constraints = (case constraints of
     PDict d \<Rightarrow> bind_result (only_keys d TIGHTENABLE_CONSTRAINTS ''cannot_constrain'') (\<lambda>_. Inr d)
   | _ \<Rightarrow> Inl ''constraints_not_an_object'')"

text \<open>\<^verbatim>\<open>isinstance(v, int) and v >= 1\<close>; a \<^verbatim>\<open>bool\<close> is an \<^verbatim>\<open>int\<close>.\<close>

definition positive_int :: "pyval \<Rightarrow> bool" where
  "positive_int v = (case v of PInt i \<Rightarrow> 1 \<le> i | PBool b \<Rightarrow> b | _ \<Rightarrow> False)"

definition capability_policy :: "string \<Rightarrow> pyval \<Rightarrow> (string, pydict) result" where
  "capability_policy key constraints =
     bind_result (validate_harness_key key) (\<lambda>_.
     let upper = (case map_of SYSTEM_CAPABILITIES key of None \<Rightarrow> [] | Some u \<Rightarrow> u) in
     bind_result (validate_harness_constraints (if py_truthy constraints then constraints else PDict [])) (\<lambda>c.
     let turns = dict_get c ''max_turns''; mode = dict_get c ''sandbox_mode''; timeout = dict_get c ''timeout_seconds'' in
     bind_result (require (turns = PNone \<or> positive_int turns) ''max_turns'') (\<lambda>_.
     let e1 = (if turns = PNone then upper
               else dict_set (dict_set upper ''max_turns'' turns) ''max_turns_tightened'' (PBool True)) in
     bind_result (if has_key c ''sandbox_mode''
                  then require_in_strs mode [''container-boundary'', ''sandboxed''] ''sandbox_mode'' else Inr ()) (\<lambda>_.
     let e2 = (if has_key c ''sandbox_mode'' then dict_set e1 ''sandbox_mode'' mode else e1);
         e3 = (if has_key c ''network_enabled''
               then dict_set e2 ''network_enabled'' (PBool (py_truthy (dict_get c ''network_enabled''))) else e2) in
     bind_result (require (timeout = PNone \<or> positive_int timeout) ''timeout_seconds'') (\<lambda>_.
     Inr (if timeout = PNone then e3 else dict_set e3 ''timeout_seconds'' timeout))))))"

definition provider_protocols :: "string \<Rightarrow> string list" where
  "provider_protocols key = (case map_of HARNESS_PROVIDER_PROTOCOLS key of None \<Rightarrow> [] | Some ps \<Rightarrow> ps)"

definition validate_protocol_compatibility ::
  "string \<Rightarrow> string \<Rightarrow> string list option \<Rightarrow> (string, unit) result" where
  "validate_protocol_compatibility key model_protocol allowed_protocols =
     bind_result (validate_harness_key key) (\<lambda>_.
     require (model_protocol \<in> set (case allowed_protocols of None \<Rightarrow> provider_protocols key | Some ps \<Rightarrow> ps))
       ''incompatible_protocol'')"

definition compatible_harness_keys :: "string option \<Rightarrow> string list" where
  "compatible_harness_keys model_protocol =
     (let p = (case model_protocol of None \<Rightarrow> ''anthropic_messages''
               | Some m \<Rightarrow> if m = [] then ''anthropic_messages'' else m)
      in sort (map fst (filter (\<lambda>(_, ps). p \<in> set ps) HARNESS_PROVIDER_PROTOCOLS)))"


section \<open>V1 bundles\<close>

definition validate_adapter_capabilities :: "string \<Rightarrow> pyval \<Rightarrow> (string, unit) result" where
  "validate_adapter_capabilities key capabilities =
     bind_result (validate_harness_key key) (\<lambda>_.
     case capabilities of
       PDict caps \<Rightarrow>
         let upper = (case map_of SYSTEM_CAPABILITIES key of None \<Rightarrow> [] | Some u \<Rightarrow> u)
         in require (list_all (\<lambda>(name, v). \<not> (v = PBool True \<and> map_of upper name = Some (PBool False))) caps)
              ''capability_above_bound''
     | _ \<Rightarrow> Inl ''capabilities_not_an_object'')"

definition v1_adapter_protocol :: "string \<Rightarrow> pyval \<Rightarrow> (string, unit) result" where
  "v1_adapter_protocol key protocol = (case protocol of
     PStr p \<Rightarrow> require (replace_char (CHR ''-'') (CHR ''_'') p \<in> set (provider_protocols key)) ''unsupported_protocol''
   | _ \<Rightarrow> Inl ''AttributeError'')"

definition validate_v1_adapter :: "string \<Rightarrow> pyval \<Rightarrow> (string, unit) result" where
  "validate_v1_adapter key adapter =
     bind_result (validate_harness_key key) (\<lambda>_.
     case adapter of
       PDict a \<Rightarrow>
         bind_result (require (py_truthy (dict_get a ''version'')) ''adapter_version'') (\<lambda>_.
         bind_result (require (py_truthy (dict_get a ''digest'')) ''adapter_digest'') (\<lambda>_.
         bind_result (if dict_get a ''capabilities'' = PNone then Inr ()
                      else validate_adapter_capabilities key (dict_get a ''capabilities'')) (\<lambda>_.
         (case (if has_key a ''provider_protocols'' then dict_get a ''provider_protocols''
                else dict_get a ''model_protocols'') of
            PList ps \<Rightarrow> bind_result (require (ps \<noteq> []) ''adapter_protocols'') (\<lambda>_.
              require_each (v1_adapter_protocol key) ps)
          | _ \<Rightarrow> Inl ''adapter_protocols''))))
     | _ \<Rightarrow> Inl ''adapter_not_an_object'')"

definition validate_runtime_bundle_manifest :: "pydict \<Rightarrow> (string, unit) result" where
  "validate_runtime_bundle_manifest manifest =
     bind_result (require (dict_get manifest ''contract_version'' = PStr HARNESS_CONTRACT_VERSION) ''contract'') (\<lambda>_.
     bind_result (require (dict_get manifest ''event_schema'' = PStr CANONICAL_EVENT_SCHEMA) ''event_schema'') (\<lambda>_.
     case dict_get manifest ''adapters'' of
       PDict adapters \<Rightarrow> bind_result (require (adapters \<noteq> []) ''no_adapters'') (\<lambda>_.
         require_each (\<lambda>(key, a). validate_v1_adapter key a) adapters)
     | _ \<Rightarrow> Inl ''no_adapters''))"


section \<open>V2 bundles\<close>

definition require_fields :: "pydict \<Rightarrow> string list \<Rightarrow> string \<Rightarrow> (string, unit) result" where
  "require_fields d required code = require (list_all (has_key d) required) code"

definition validate_manifest_adapter :: "string \<Rightarrow> pydict \<Rightarrow> (string, unit) result" where
  "validate_manifest_adapter key adapter = (case dict_get adapter ''control_transport'' of
     PDict transport \<Rightarrow>
       bind_result (require_in_strs (dict_get transport ''kind'') CONTROL_TRANSPORT_KINDS ''transport_kind'') (\<lambda>_.
       bind_result (require ((case map_of HARNESS_TRANSPORTS key of None \<Rightarrow> False
            | Some (kind, protocol) \<Rightarrow> dict_get transport ''kind'' = PStr kind
                \<and> dict_get transport ''protocol'' = PStr protocol)) ''transport_mismatch'') (\<lambda>_.
       (case dict_get adapter ''model_protocols'' of
          PList ps \<Rightarrow>
            bind_result (require (ps \<noteq> []) ''model_protocols_required'') (\<lambda>_.
            bind_result (require (list_all (\<lambda>p. in_strs p MODEL_PROTOCOLS) ps) ''model_protocols_unsupported'') (\<lambda>_.
            bind_result (require (list_all (\<lambda>p. in_strs p (provider_protocols key)) ps) ''model_protocols_mismatch'') (\<lambda>_.
            (case dict_get adapter ''capabilities'' of
               PDict caps \<Rightarrow> only_keys caps HARNESS_CAPABILITY_KEYS ''unknown_capability''
             | _ \<Rightarrow> Inl ''capabilities_required''))))
        | _ \<Rightarrow> Inl ''model_protocols_required'')))
   | _ \<Rightarrow> Inl ''control_transport_required'')"

definition validate_manifest_item :: "string \<times> pyval \<Rightarrow> (string, unit) result" where
  "validate_manifest_item item = (case snd item of
     PDict adapter \<Rightarrow> validate_manifest_adapter (fst item) adapter | _ \<Rightarrow> Inl ''adapter_not_an_object'')"

definition validate_manifest_file :: "pyval \<Rightarrow> (string, unit) result" where
  "validate_manifest_file item = (case item of
     PDict f \<Rightarrow> (case (dict_get f ''path'', dict_get f ''sha256'') of
       (PStr _, PStr _) \<Rightarrow> Inr () | _ \<Rightarrow> Inl ''file_fields'')
   | _ \<Rightarrow> Inl ''file_not_an_object'')"

definition validate_manifest :: "pydict \<Rightarrow> (string, pydict) result" where
  "validate_manifest manifest =
     bind_result (require_fields manifest [''schema'', ''maturity'', ''contract_version'', ''event_schema'',
        ''command_schema'', ''result_schema'', ''adapters'', ''files''] ''missing_fields'') (\<lambda>_.
     bind_result (require (dict_get manifest ''schema'' = PStr RUNTIME_MANIFEST_SCHEMA_V2) ''schema'') (\<lambda>_.
     bind_result (require (dict_get manifest ''contract_version'' = PStr HARNESS_CONTRACT_VERSION_V2) ''contract_version'') (\<lambda>_.
     bind_result (require (dict_get manifest ''event_schema'' = PStr CANONICAL_EVENT_SCHEMA_V2) ''event_schema'') (\<lambda>_.
     bind_result (require (dict_get manifest ''command_schema'' = PStr COMMAND_SCHEMA_V2) ''command_schema'') (\<lambda>_.
     bind_result (require (dict_get manifest ''result_schema'' = PStr CANONICAL_RESULT_SCHEMA_V2) ''result_schema'') (\<lambda>_.
     case dict_get manifest ''adapters'' of
       PDict adapters \<Rightarrow>
         bind_result (require (adapters \<noteq> []) ''adapters'') (\<lambda>_.
         bind_result (only_keys adapters HARNESS_KEYS ''non_approved_adapter'') (\<lambda>_.
         bind_result (require_each validate_manifest_item adapters) (\<lambda>_.
         (case dict_get manifest ''files'' of
            PList files \<Rightarrow> bind_result (require_each validate_manifest_file files) (\<lambda>_. Inr manifest)
          | _ \<Rightarrow> Inl ''files''))))
     | _ \<Rightarrow> Inl ''adapters''))))))"

definition validate_v2_manifest_adapter_capabilities :: "string \<Rightarrow> pyval \<Rightarrow> (string, unit) result" where
  "validate_v2_manifest_adapter_capabilities key capabilities =
     bind_result (validate_harness_key key) (\<lambda>_.
     case capabilities of
       PDict caps \<Rightarrow>
         let upper = (case map_of V2_SYSTEM_CAPABILITY_UPPER_BOUND key of None \<Rightarrow> [] | Some u \<Rightarrow> u)
         in require (list_all (\<lambda>(name, v). \<not> (name \<in> set HARNESS_CAPABILITY_KEYS \<and> v = PBool True
                \<and> map_of upper name = Some False)) caps) ''capability_above_bound''
     | _ \<Rightarrow> Inl ''capabilities_not_an_object'')"

record catalog_entry =
  entry_key :: string
  entry_display_name :: string
  entry_support_tier :: pyval
  entry_control_transport :: pyval
  entry_model_protocols :: pyval
  entry_capabilities :: pydict
  entry_options_schema :: pyval

definition or_empty :: "pyval \<Rightarrow> pyval \<Rightarrow> pyval" where
  "or_empty v w = (if py_truthy v then v else w)"

definition catalog_item :: "pydict \<Rightarrow> string \<Rightarrow> (string, catalog_entry) result" where
  "catalog_item adapters key =
     (let adapter = (case dict_get adapters key of PDict a \<Rightarrow> a | _ \<Rightarrow> []);
          capabilities = or_empty (dict_get adapter ''capabilities'') (PDict [])
      in bind_result (validate_v2_manifest_adapter_capabilities key capabilities) (\<lambda>_.
         Inr \<lparr>entry_key = key,
              entry_display_name = (case map_of DISPLAY_NAMES key of None \<Rightarrow> key | Some n \<Rightarrow> n),
              entry_support_tier = dict_get adapter ''support_tier'',
              entry_control_transport = or_empty (dict_get adapter ''control_transport'') (PDict []),
              entry_model_protocols = or_empty (dict_get adapter ''model_protocols'') (PList []),
              entry_capabilities = (case capabilities of PDict c \<Rightarrow> c | _ \<Rightarrow> []),
              entry_options_schema = dict_get adapter ''options_schema''\<rparr>))"

fun catalog_items :: "pydict \<Rightarrow> string list \<Rightarrow> (string, catalog_entry list) result" where
  "catalog_items adapters [] = Inr []"
| "catalog_items adapters (key # keys) =
     bind_result (catalog_item adapters key) (\<lambda>e. bind_result (catalog_items adapters keys) (\<lambda>es. Inr (e # es)))"

definition registry_catalog_from_manifest :: "pydict \<Rightarrow> (string, catalog_entry list) result" where
  "registry_catalog_from_manifest manifest =
     bind_result (validate_manifest manifest) (\<lambda>validated.
     case dict_get validated ''adapters'' of
       PDict adapters \<Rightarrow> catalog_items adapters (sort (map fst adapters))
     | _ \<Rightarrow> Inr [])"


section \<open>Control commands\<close>

text \<open>
  The Harness manifest of a bundle: the column itself when it has that shape, else what the bundle's
  archive holds as \<^verbatim>\<open>worker-entrypoint/harness/manifest.json\<close>, the parameter \<open>archived\<close>.
\<close>

definition harness_manifest_from_bundle ::
  "(runtime_bundle \<Rightarrow> pydict option) \<Rightarrow> runtime_bundle \<Rightarrow> pydict option" where
  "harness_manifest_from_bundle archived b =
     (if has_key (bundle_manifest b) ''command_schema'' then Some (bundle_manifest b) else archived b)"

definition bundle_supports_command ::
  "(runtime_bundle \<Rightarrow> pydict option) \<Rightarrow> runtime_bundle option \<Rightarrow> string \<Rightarrow> string \<Rightarrow> bool" where
  "bundle_supports_command archived bundle key command_type =
     (if command_type \<notin> {''steer'', ''follow_up''} then False
      else case bundle of None \<Rightarrow> False | Some b \<Rightarrow>
        bundle_contract_version b = HARNESS_CONTRACT_VERSION_V2 \<and>
        (case harness_manifest_from_bundle archived b of None \<Rightarrow> False | Some manifest \<Rightarrow>
          (case registry_catalog_from_manifest manifest of Inl _ \<Rightarrow> False | Inr catalog \<Rightarrow>
            (case find (\<lambda>e. entry_key e = key) catalog of None \<Rightarrow> False | Some adapter \<Rightarrow>
               dict_get (entry_capabilities adapter)
                 (if command_type = ''steer'' then ''steering'' else ''follow_up'') = PBool True))))"


section \<open>Properties\<close>

lemma catalog_itemD:
  assumes "catalog_item adapters key = Inr e"
  shows "entry_key e = key"
    and "validate_v2_manifest_adapter_capabilities key (PDict (entry_capabilities e)) = Inr ()"
proof -
  let ?c = "or_empty (dict_get (case dict_get adapters key of PDict a \<Rightarrow> a | _ \<Rightarrow> []) ''capabilities'') (PDict [])"
  have v: "validate_v2_manifest_adapter_capabilities key ?c = Inr ()"
    and e: "entry_capabilities e = (case ?c of PDict c \<Rightarrow> c | _ \<Rightarrow> [])" "entry_key e = key"
    using assms by (auto simp: catalog_item_def Let_def bind_result_eq_Inr)
  then show "entry_key e = key" by simp
  from v have "\<exists>c. ?c = PDict c"
    by (cases ?c) (auto simp: validate_v2_manifest_adapter_capabilities_def bind_result_eq_Inr)
  then show "validate_v2_manifest_adapter_capabilities key (PDict (entry_capabilities e)) = Inr ()"
    using v e by auto
qed

lemma catalog_itemsD:
  assumes "catalog_items adapters keys = Inr es" "e \<in> set es"
  shows "entry_key e \<in> set keys \<and> catalog_item adapters (entry_key e) = Inr e"
  using assms
proof (induction keys arbitrary: es)
  case (Cons key keys)
  then obtain e0 es' where "catalog_item adapters key = Inr e0" "catalog_items adapters keys = Inr es'" "es = e0 # es'"
    by (auto simp: bind_result_eq_Inr)
  then show ?case using Cons catalog_itemD(1) [of adapters key e0] by auto
qed simp

lemma dict_get_mem: "dict_get d k = v \<Longrightarrow> v \<noteq> PNone \<Longrightarrow> (k, v) \<in> set d"
  by (auto simp: dict_get_def split: option.splits dest: map_of_SomeD)

lemma control_bound_is_pi:
  assumes "validate_v2_manifest_adapter_capabilities key (PDict caps) = Inr ()"
    and "dict_get caps name = PBool True" "name = ''steering'' \<or> name = ''follow_up''"
  shows "key = ''pi''"
proof -
  have "(name, PBool True) \<in> set caps" using dict_get_mem [OF assms(2)] by simp
  moreover have "name \<in> set HARNESS_CAPABILITY_KEYS" using assms(3) by (auto simp: HARNESS_CAPABILITY_KEYS_def)
  ultimately have bound: "map_of (case map_of V2_SYSTEM_CAPABILITY_UPPER_BOUND key of None \<Rightarrow> [] | Some u \<Rightarrow> u) name \<noteq> Some False"
    and key: "key \<in> set HARNESS_KEYS"
    using assms(1)
    by (auto simp: validate_v2_manifest_adapter_capabilities_def validate_harness_key_def bind_result_eq_Inr Let_def list_all_iff)
  from key consider "key = ''pi''" | "key = ''opencode''" | "key = ''claude''" | "key = ''codex''"
    by (auto simp: HARNESS_KEYS_def)
  then show ?thesis using bound assms(3) by cases (auto simp: V2_SYSTEM_CAPABILITY_UPPER_BOUND_def)
qed

lemma validate_manifestD:
  assumes "validate_manifest manifest = Inr v"
  shows "v = manifest"
    and "\<exists>adapters. dict_get manifest ''adapters'' = PDict adapters
      \<and> list_all (\<lambda>item. validate_manifest_item item = Inr ()) adapters"
  using assms by (auto simp: validate_manifest_def bind_result_eq_Inr split: pyval.splits)

lemma pi_transport:
  assumes "validate_manifest_adapter ''pi'' adapter = Inr ()"
  shows "\<exists>transport. dict_get adapter ''control_transport'' = PDict transport
    \<and> dict_get transport ''kind'' = PStr ''rpc_stdio'' \<and> dict_get transport ''protocol'' = PStr ''pi-rpc''"
  using assms
  by (auto simp: validate_manifest_adapter_def bind_result_eq_Inr HARNESS_TRANSPORTS_def split: pyval.splits)

text \<open>
  Steering and follow-up commands reach only Pi: a bundle, whatever its manifest and archive
  say, supports a control command for a Harness key only when the key is \<^verbatim>\<open>pi\<close>, the bundle is V2 and
  the manifest passed the validation, which fixes the transport of the adapter.
\<close>

theorem only_pi_supports_commands:
  assumes "bundle_supports_command archived bundle key command_type"
  shows "key = ''pi'' \<and> command_type \<in> {''steer'', ''follow_up''}
    \<and> (\<exists>b manifest adapters adapter transport. bundle = Some b
         \<and> bundle_contract_version b = HARNESS_CONTRACT_VERSION_V2
         \<and> harness_manifest_from_bundle archived b = Some manifest \<and> validate_manifest manifest = Inr manifest
         \<and> dict_get manifest ''adapters'' = PDict adapters \<and> (''pi'', PDict adapter) \<in> set adapters
         \<and> dict_get adapter ''control_transport'' = PDict transport
         \<and> dict_get transport ''kind'' = PStr ''rpc_stdio'' \<and> dict_get transport ''protocol'' = PStr ''pi-rpc'')"
proof -
  let ?cap = "if command_type = ''steer'' then ''steering'' else ''follow_up''"
  from assms obtain b manifest catalog e where type: "command_type \<in> {''steer'', ''follow_up''}"
    and b: "bundle = Some b" "bundle_contract_version b = HARNESS_CONTRACT_VERSION_V2"
    and m: "harness_manifest_from_bundle archived b = Some manifest"
    and cat: "registry_catalog_from_manifest manifest = Inr catalog"
    and e: "find (\<lambda>e. entry_key e = key) catalog = Some e" "dict_get (entry_capabilities e) ?cap = PBool True"
    by (auto simp: bundle_supports_command_def split: if_splits option.splits sum.splits)
  have e': "e \<in> set catalog" "entry_key e = key" using e(1) by (auto simp: find_Some_iff)
  have val: "validate_manifest manifest = Inr manifest"
    using cat validate_manifestD(1) by (auto simp: registry_catalog_from_manifest_def bind_result_eq_Inr)
  obtain adapters where adapters: "dict_get manifest ''adapters'' = PDict adapters"
    "list_all (\<lambda>item. validate_manifest_item item = Inr ()) adapters"
    using validate_manifestD(2) [OF val] by blast
  have items: "catalog_items adapters (sort (map fst adapters)) = Inr catalog"
    using cat val adapters(1) by (auto simp: registry_catalog_from_manifest_def)
  note item = catalog_itemsD [OF items e'(1)]
  have "key = ''pi''" using control_bound_is_pi [OF catalog_itemD(2) e(2)] item e'(2) by auto
  moreover obtain a where a: "(key, a) \<in> set adapters" using item e'(2) by auto
  then have "validate_manifest_item (key, a) = Inr ()" using adapters(2) by (simp add: list_all_iff)
  then obtain adapter where "a = PDict adapter" "validate_manifest_adapter key adapter = Inr ()"
    by (cases a) (auto simp: validate_manifest_item_def)
  ultimately show ?thesis using a type b m val adapters(1) pi_transport by blast
qed

text \<open>A manifest that declares a steerable Pi.\<close>

definition pi_manifest :: pydict where
  "pi_manifest = [(''schema'', PStr RUNTIME_MANIFEST_SCHEMA_V2), (''maturity'', PStr ''stable''),
     (''contract_version'', PStr HARNESS_CONTRACT_VERSION_V2), (''event_schema'', PStr CANONICAL_EVENT_SCHEMA_V2),
     (''command_schema'', PStr COMMAND_SCHEMA_V2), (''result_schema'', PStr CANONICAL_RESULT_SCHEMA_V2),
     (''adapters'', PDict [(''pi'', PDict [(''control_transport'', PDict [(''kind'', PStr ''rpc_stdio''),
        (''protocol'', PStr ''pi-rpc'')]), (''model_protocols'', PList [PStr ''anthropic_messages'']),
        (''capabilities'', PDict [(''steering'', PBool True), (''follow_up'', PBool True)])])]), (''files'', PList [])]"

definition pi_bundle :: runtime_bundle where
  "pi_bundle = \<lparr>bundle_id = 5, bundle_digest = ''d'', bundle_contract_version = HARNESS_CONTRACT_VERSION_V2,
     bundle_manifest = pi_manifest\<rparr>"

lemma pi_bundle_supports: "bundle_supports_command (\<lambda>_. None) (Some pi_bundle) ''pi'' ''follow_up''"
  by code_simp

theorem only_pi_supports_commands_witness: "validate_manifest pi_manifest = Inr pi_manifest"
  using only_pi_supports_commands [OF pi_bundle_supports]
  by (auto simp: harness_manifest_from_bundle_def pi_bundle_def pi_manifest_def has_key_def)

text \<open>A profile constraint can raise a capability that the system bound denies.\<close>

lemma policy_raises_codex_max_turns:
  "map_of SYSTEM_CAPABILITIES ''codex'' = Some (v1_capabilities False False False)
   \<and> (\<exists>e. capability_policy ''codex'' (PDict [(''max_turns'', PInt 5)]) = Inr e \<and> dict_get e ''max_turns'' = PInt 5)"
proof -
  have "(case capability_policy ''codex'' (PDict [(''max_turns'', PInt 5)]) of
      Inl _ \<Rightarrow> False | Inr e \<Rightarrow> dict_get e ''max_turns'' = PInt 5)" by code_simp
  then show ?thesis by (auto simp: SYSTEM_CAPABILITIES_def split: sum.splits)
qed

end
