(* ===== verification/Harness_Commands.thy ===== *)
theory Harness_Commands
  imports Harness_Registry Codify_Models
begin

text \<open>
  Control commands of a running Harness attempt: creation and the compare-and-set primitives of
  \<^verbatim>\<open>core/task_harness_commands.py\<close>, the identifiers, the text limit and the payload digest of
  \<^verbatim>\<open>core/harness_protocol.py\<close>, and the control gate of \<^verbatim>\<open>core/task_command_gate.py\<close>.

  Each function is one transaction on the tables; a row read \<^verbatim>\<open>FOR UPDATE\<close> is the current row. The
  lost race for a command id at the flush of \<open>create_command\<close> is the case in which the row exists.
  \<open>sha256\<close> is the hexadecimal digest of a byte string and \<open>float_repr\<close> Python's text of a float.
  Rejection texts are reduced to their codes.
\<close>

section \<open>Identifiers and text\<close>

definition to_lower :: "char \<Rightarrow> char" where
  "to_lower c = (if char_in_range (CHR ''A'') (CHR ''Z'') c then char_of (of_char c + 32 :: nat) else c)"

definition to_upper :: "char \<Rightarrow> char" where
  "to_upper c = (if char_in_range (CHR ''a'') (CHR ''z'') c then char_of (of_char c - 32 :: nat) else c)"

definition is_hex :: "char \<Rightarrow> bool" where
  "is_hex c \<longleftrightarrow> is_lower_hex c \<or> char_in_range (CHR ''A'') (CHR ''F'') c"

text \<open>\<^verbatim>\<open>_UUID_COMMAND_ID_RE\<close> and \<^verbatim>\<open>_ULID_COMMAND_ID_RE\<close> with \<^verbatim>\<open>fullmatch\<close>.\<close>

definition is_uuid :: "string \<Rightarrow> bool" where
  "is_uuid s \<longleftrightarrow> map length (split_on (CHR ''-'') s) = [8, 4, 4, 4, 12]
     \<and> list_all (list_all is_hex) (split_on (CHR ''-'') s)"

definition is_ulid_char :: "char \<Rightarrow> bool" where
  "is_ulid_char c \<longleftrightarrow> is_digit c
     \<or> (char_in_range (CHR ''A'') (CHR ''Z'') c \<and> c \<notin> set ''ILOU'')
     \<or> (char_in_range (CHR ''a'') (CHR ''z'') c \<and> c \<notin> set ''ilou'')"

definition is_ulid :: "string \<Rightarrow> bool" where
  "is_ulid s \<longleftrightarrow> length s = 26 \<and> list_all is_ulid_char s"

definition normalize_command_id :: "pyval \<Rightarrow> string option" where
  "normalize_command_id v = (case v of
     PStr s \<Rightarrow> if is_uuid s then Some (map to_lower s)
               else if is_ulid s then Some (map to_upper s) else None
   | _ \<Rightarrow> None)"

definition is_valid_command_id :: "pyval \<Rightarrow> bool" where
  "is_valid_command_id v \<longleftrightarrow> normalize_command_id v \<noteq> None"

definition MAX_COMMAND_TEXT_UTF16_CODE_UNITS :: int where "MAX_COMMAND_TEXT_UTF16_CODE_UNITS = 4000"

text \<open>Text as a list of code points.\<close>

definition command_text_utf16_code_units :: "int list \<Rightarrow> int" where
  "command_text_utf16_code_units text = sum_list (map (\<lambda>c. if c < 0x10000 then 1 else 2) text)"

definition is_valid_command_text :: "int list \<Rightarrow> bool" where
  "is_valid_command_text text \<longleftrightarrow> \<not> list_ex (\<lambda>c. 0xD800 \<le> c \<and> c \<le> 0xDFFF) text
     \<and> command_text_utf16_code_units text \<le> MAX_COMMAND_TEXT_UTF16_CODE_UNITS"


section \<open>The payload digest\<close>

definition json_hex :: "nat \<Rightarrow> char" where
  "json_hex n = (if n < 10 then char_of (48 + n) else char_of (87 + n))"

text \<open>One character of a string literal of \<^verbatim>\<open>json.dumps(..., ensure_ascii=False)\<close>, UTF-8 encoded.\<close>

definition json_char :: "char \<Rightarrow> string" where
  "json_char c = (let n = of_char c :: nat in
     if c = CHR 0x22 then [CHR 0x5C, CHR 0x22]
     else if c = CHR 0x5C then [CHR 0x5C, CHR 0x5C]
     else if n = 8 then [CHR 0x5C, CHR ''b''] else if n = 9 then [CHR 0x5C, CHR ''t'']
     else if n = 10 then [CHR 0x5C, CHR ''n''] else if n = 12 then [CHR 0x5C, CHR ''f'']
     else if n = 13 then [CHR 0x5C, CHR ''r'']
     else if n < 32 then [CHR 0x5C, CHR ''u'', CHR ''0'', CHR ''0'', json_hex (n div 16), json_hex (n mod 16)]
     else if n < 128 then [c] else [char_of (192 + n div 64), char_of (128 + n mod 64)])"

definition json_text :: "string \<Rightarrow> string" where
  "json_text s = [CHR 0x22] @ concat (map json_char s) @ [CHR 0x22]"

definition join_comma :: "string list \<Rightarrow> string" where
  "join_comma parts = (case parts of [] \<Rightarrow> [] | p # ps \<Rightarrow> p @ concat (map (\<lambda>q. CHR '','' # q) ps))"

primrec canonical_json_bytes :: "(rat \<Rightarrow> string) \<Rightarrow> pyval \<Rightarrow> string" where
  "canonical_json_bytes fr PNone = ''null''"
| "canonical_json_bytes fr (PBool b) = (if b then ''true'' else ''false'')"
| "canonical_json_bytes fr (PInt i) = int_repr i"
| "canonical_json_bytes fr (PFloat r) = fr r"
| "canonical_json_bytes fr (PStr s) = json_text s"
| "canonical_json_bytes fr (PList xs) = ''['' @ join_comma (map (canonical_json_bytes fr) xs) @ '']''"
| "canonical_json_bytes fr (PDict d) =
     ''{'' @ join_comma (map (\<lambda>(k, v). json_text k @ '':'' @ v)
               (sort_key fst (map (map_prod id (canonical_json_bytes fr)) d))) @ ''}''"

definition content_digest :: "(string \<Rightarrow> string) \<Rightarrow> (rat \<Rightarrow> string) \<Rightarrow> pyval \<Rightarrow> string" where
  "content_digest sha256 fr v = sha256 (canonical_json_bytes fr v)"

definition command_payload_digest ::
  "(string \<Rightarrow> string) \<Rightarrow> (rat \<Rightarrow> string) \<Rightarrow> row_id \<Rightarrow> string \<Rightarrow> string \<Rightarrow> pydict \<Rightarrow> string" where
  "command_payload_digest sha256 fr k attempt command_type payload =
     sha256 (canonical_json_bytes fr (PDict [(''task_id'', PInt k), (''attempt_id'', PStr attempt),
       (''type'', PStr command_type), (''payload'', PDict payload)]))"


section \<open>Rows\<close>

definition get_command :: "database \<Rightarrow> string \<Rightarrow> harness_command option" where
  "get_command d k = row_by cmd_id k (commands d)"

definition put_command :: "string \<Rightarrow> (harness_command \<Rightarrow> harness_command) \<Rightarrow> database \<Rightarrow> database" where
  "put_command k f d = d\<lparr>commands := update_where (\<lambda>c. cmd_id c = k) f (commands d)\<rparr>"

definition get_attempt :: "database \<Rightarrow> string \<Rightarrow> harness_attempt option" where
  "get_attempt d a = row_by attempt_id a (attempts d)"

definition put_attempt :: "string \<Rightarrow> (harness_attempt \<Rightarrow> harness_attempt) \<Rightarrow> database \<Rightarrow> database" where
  "put_attempt a f d = d\<lparr>attempts := update_where (\<lambda>r. attempt_id r = a) f (attempts d)\<rparr>"

definition load_current_attempt :: "database \<Rightarrow> row_id \<Rightarrow> harness_attempt option" where
  "load_current_attempt d k =
     first_by (\<lambda>a. - attempt_no a) (filter (\<lambda>a. attempt_task_id a = k) (attempts d))"

definition is_terminal_command :: "harness_command \<Rightarrow> bool" where
  "is_terminal_command c \<longleftrightarrow> cmd_status c \<noteq> Queued \<and> cmd_status c \<noteq> Dispatching"


section \<open>Creation\<close>

record create_result =
  created_command_id :: string
  created_sequence_no :: int
  created :: bool
  create_outcome :: string

definition create_refused :: "string \<Rightarrow> string \<Rightarrow> create_result" where
  "create_refused k code = \<lparr>created_command_id = k, created_sequence_no = 0, created = False, create_outcome = code\<rparr>"

definition new_command ::
  "string \<Rightarrow> row_id \<Rightarrow> harness_attempt \<Rightarrow> string \<Rightarrow> pydict \<Rightarrow> string \<Rightarrow> string \<Rightarrow> timestamp \<Rightarrow> harness_command" where
  "new_command k t a command_type payload digest created_by now =
     \<lparr>cmd_id = k, cmd_task_id = t, cmd_attempt_id = attempt_id a, cmd_sequence_no = attempt_next_command_sequence a,
      cmd_type = command_type, cmd_payload = payload, cmd_payload_digest = digest, cmd_status = Queued,
      cmd_created_by = created_by, cmd_created_at = now, cmd_delivery_attempts = 0, cmd_last_attempt_at = None,
      cmd_dispatch_started_at = None, cmd_native_request_id = None, cmd_native_sent_at = None,
      cmd_native_ack_at = None, cmd_outcome_unknown_at = None, cmd_delivered_at = None, cmd_rejected_at = None,
      cmd_rejection_code = None\<rparr>"

text \<open>Eligibility of a new command id, after the idempotency check.\<close>

definition create_new_command ::
  "(string \<Rightarrow> string) \<Rightarrow> (rat \<Rightarrow> string) \<Rightarrow> (runtime_bundle \<Rightarrow> pydict option) \<Rightarrow> timestamp \<Rightarrow> database
     \<Rightarrow> row_id \<Rightarrow> string \<Rightarrow> string \<Rightarrow> pydict \<Rightarrow> string \<Rightarrow> (string, create_result \<times> database) result" where
  "create_new_command sha256 fr archived now d t k command_type payload created_by =
     (case get_task d t of
        None \<Rightarrow> Inl ''task_not_found''
      | Some task \<Rightarrow>
          if task_status task \<noteq> RUNNING then Inr (create_refused k ''task_not_running'', d)
          else (case load_current_attempt d t of
            None \<Rightarrow> Inr (create_refused k ''task_not_running'', d)
          | Some a \<Rightarrow>
              if attempt_event_schema a \<noteq> CANONICAL_EVENT_SCHEMA_V2
              then Inr (create_refused k ''attempt_mismatch'', d)
              else if \<not> bundle_supports_command archived (task_bundle d task) (attempt_harness_key a) command_type
              then Inr (create_refused k ''unsupported_harness'', d)
              else if attempt_control_state a \<noteq> Accepting
              then Inr (create_refused k ''control_gate_closed'', d)
              else
                let n = attempt_next_command_sequence a;
                    digest = command_payload_digest sha256 fr t (attempt_id a) command_type payload;
                    d1 = d\<lparr>commands := commands d @ [new_command k t a command_type payload digest created_by now]\<rparr>
                in Inr (\<lparr>created_command_id = k, created_sequence_no = n, created = True, create_outcome = ''created''\<rparr>,
                        put_attempt (attempt_id a) (\<lambda>r. r\<lparr>attempt_next_command_sequence := n + 1\<rparr>) d1)))"

definition create_command ::
  "(string \<Rightarrow> string) \<Rightarrow> (rat \<Rightarrow> string) \<Rightarrow> (runtime_bundle \<Rightarrow> pydict option) \<Rightarrow> timestamp \<Rightarrow> database
     \<Rightarrow> row_id \<Rightarrow> string \<Rightarrow> string \<Rightarrow> pydict \<Rightarrow> string \<Rightarrow> (string, create_result \<times> database) result" where
  "create_command sha256 fr archived now d t command_id command_type payload created_by =
     (case normalize_command_id (PStr command_id) of
        None \<Rightarrow> Inr (create_refused [] ''invalid_command_id'', d)
      | Some k \<Rightarrow>
          if command_type \<notin> {''steer'', ''follow_up''} then Inr (create_refused k ''invalid_command_type'', d)
          else (case dict_get payload ''text'' of
            PStr text \<Rightarrow>
              if \<not> is_valid_command_text (map of_char text) then Inr (create_refused k ''payload_too_large'', d)
              else (case get_command d k of
                Some c \<Rightarrow>
                  if cmd_payload_digest c = command_payload_digest sha256 fr t (cmd_attempt_id c) command_type payload
                  then Inr (\<lparr>created_command_id = k, created_sequence_no = cmd_sequence_no c, created = False,
                             create_outcome = ''existing_same''\<rparr>, d)
                  else Inr (create_refused k ''existing_conflict'', d)
              | None \<Rightarrow> create_new_command sha256 fr archived now d t k command_type payload created_by)
          | _ \<Rightarrow> Inr (create_refused k ''invalid_command_type'', d)))"


section \<open>Compare and set\<close>

text \<open>The shape of the primitives: normalize the id, lock the row, test it, write it.\<close>

definition cas_command ::
  "(harness_command \<Rightarrow> bool) \<Rightarrow> (harness_command \<Rightarrow> harness_command) \<Rightarrow> string \<Rightarrow> database \<Rightarrow> bool \<times> database" where
  "cas_command test write command_id d =
     (case normalize_command_id (PStr command_id) of
        None \<Rightarrow> (False, d)
      | Some k \<Rightarrow> (case get_command d k of
          None \<Rightarrow> (False, d)
        | Some c \<Rightarrow> if test c then (True, put_command k write d) else (False, d)))"

definition write_command_delivery :: "string \<Rightarrow> timestamp \<Rightarrow> database \<Rightarrow> bool \<times> database" where
  "write_command_delivery k stamp = cas_command (\<lambda>c. cmd_status c = Dispatching)
     (\<lambda>c. c\<lparr>cmd_status := Delivered, cmd_delivered_at := Some stamp, cmd_last_attempt_at := Some stamp,
           cmd_native_ack_at := Some stamp\<rparr>) k"

definition write_command_rejection :: "string \<Rightarrow> string \<Rightarrow> timestamp \<Rightarrow> database \<Rightarrow> bool \<times> database" where
  "write_command_rejection k code stamp = cas_command (\<lambda>c. cmd_status c = Queued \<or> cmd_status c = Dispatching)
     (\<lambda>c. c\<lparr>cmd_status := Rejected, cmd_rejected_at := Some stamp, cmd_rejection_code := Some code,
           cmd_last_attempt_at := Some stamp,
           cmd_native_ack_at := (if cmd_native_sent_at c \<noteq> None then Some stamp else cmd_native_ack_at c)\<rparr>) k"

definition begin_command_dispatch :: "string \<Rightarrow> timestamp \<Rightarrow> database \<Rightarrow> bool \<times> database" where
  "begin_command_dispatch k stamp = cas_command (\<lambda>c. cmd_status c = Queued)
     (\<lambda>c. c\<lparr>cmd_status := Dispatching, cmd_dispatch_started_at := Some stamp, cmd_last_attempt_at := Some stamp,
           cmd_delivery_attempts := cmd_delivery_attempts c + 1\<rparr>) k"

definition mark_command_native_sent :: "string \<Rightarrow> string option \<Rightarrow> timestamp \<Rightarrow> database \<Rightarrow> bool \<times> database" where
  "mark_command_native_sent k native stamp = cas_command (\<lambda>c. cmd_status c = Dispatching)
     (\<lambda>c. c\<lparr>cmd_native_request_id := native, cmd_native_sent_at := Some stamp\<rparr>) k"

definition requeue_pre_send_failure :: "string \<Rightarrow> database \<Rightarrow> bool \<times> database" where
  "requeue_pre_send_failure k = cas_command (\<lambda>c. cmd_status c = Dispatching \<and> cmd_native_sent_at c = None)
     (\<lambda>c. c\<lparr>cmd_status := Queued, cmd_dispatch_started_at := None\<rparr>) k"

definition write_command_outcome_unknown :: "string \<Rightarrow> timestamp \<Rightarrow> database \<Rightarrow> bool \<times> database" where
  "write_command_outcome_unknown k stamp = cas_command (\<lambda>c. cmd_status c = Dispatching)
     (\<lambda>c. c\<lparr>cmd_status := OutcomeUnknown, cmd_outcome_unknown_at := Some stamp,
           cmd_rejection_code := Some ''delivery_outcome_unknown'', cmd_last_attempt_at := Some stamp\<rparr>) k"

lemmas cas_defs = write_command_delivery_def write_command_rejection_def begin_command_dispatch_def
  mark_command_native_sent_def requeue_pre_send_failure_def write_command_outcome_unknown_def

definition list_commands :: "database \<Rightarrow> row_id \<Rightarrow> harness_command list" where
  "list_commands d t = sort_key (\<lambda>c. (cmd_attempt_id c, cmd_sequence_no c))
     (filter (\<lambda>c. cmd_task_id c = t) (commands d))"



section \<open>The normal form of an id\<close>

lemma of_char_less_256: "(of_char c :: nat) < 256"
  by (cases c) (auto simp: of_char_def horner_sum_simps split: if_splits)

lemma code_of_case:
  "(of_char (to_lower c) :: nat) = (if 65 \<le> (of_char c :: nat) \<and> (of_char c :: nat) \<le> 90 then of_char c + 32 else of_char c)"
  "(of_char (to_upper c) :: nat) = (if 97 \<le> (of_char c :: nat) \<and> (of_char c :: nat) \<le> 122 then of_char c - 32 else of_char c)"
  using of_char_less_256 [of c] by (auto simp: to_lower_def to_upper_def char_in_range_def)

lemma char_eq_code: "c = e \<longleftrightarrow> (of_char c :: nat) = of_char e"
  by simp

lemma lower_chars:
  "is_hex (to_lower c) = is_hex c" "to_lower (to_lower c) = to_lower c"
  "(to_lower c = CHR ''-'') = (c = CHR ''-'')" "to_upper (to_upper c) = to_upper c"
  by (simp_all add: is_hex_def is_lower_hex_def is_digit_def char_in_range_def code_of_case char_eq_code)
     (auto simp: code_of_case)

lemma ulid_upper: "is_ulid_char (to_upper c) = is_ulid_char c"
  unfolding is_ulid_char_def char_in_range_def is_digit_def set_simps insert_iff empty_iff
  by (simp only: char_eq_code code_of_case) (auto simp: code_of_case)

lemma nat_case_fold:
  "(if 65 \<le> m \<and> m \<le> 90 then m + 32 else m) = (if 65 \<le> n \<and> n \<le> 90 then n + 32 else (n :: nat)) \<longleftrightarrow>
   (if 97 \<le> m \<and> m \<le> 122 then m - 32 else m) = (if 97 \<le> n \<and> n \<le> 122 then n - 32 else n)"
  by auto

lemma case_fold: "to_lower c = to_lower e \<longleftrightarrow> to_upper c = to_upper e"
  unfolding char_eq_code [of "to_lower c"] char_eq_code [of "to_upper c"] code_of_case by (rule nat_case_fold)

lemma map_case_fold: "map to_lower s = map to_lower s' \<longleftrightarrow> map to_upper s = map to_upper s'"
  by (induction s s' rule: list_induct2') (simp_all add: case_fold)

lemma split_lower: "split_on (CHR ''-'') (map to_lower s) = map (map to_lower) (split_on (CHR ''-'') s)"
  by (induction s) (auto simp: lower_chars split: list.splits)

lemma uuid_lower: "is_uuid (map to_lower s) = is_uuid s"
  by (simp add: is_uuid_def split_lower comp_def list.pred_map lower_chars)

lemma ulid_upper_string: "is_ulid (map to_upper s) = is_ulid s"
  by (simp add: is_ulid_def list.pred_map comp_def ulid_upper)

lemma uuid_fold: "map to_lower s = map to_lower s' \<Longrightarrow> is_uuid s = is_uuid s'"
  using uuid_lower by metis

lemma ulid_fold: "map to_lower s = map to_lower s' \<Longrightarrow> is_ulid s = is_ulid s'"
  using ulid_upper_string map_case_fold by metis

lemma normalize_normal:
  assumes "normalize_command_id (PStr s) = Some k"
  shows "normalize_command_id (PStr k) = Some k"
proof -
  have "map to_lower (map to_upper s) = map to_lower s" using map_case_fold [of "map to_upper s" s] by (simp add: comp_def lower_chars)
  then have "is_uuid (map to_upper s) = is_uuid s" by (rule uuid_fold)
  then show ?thesis using assms
    by (auto simp: normalize_command_id_def uuid_lower ulid_upper_string lower_chars comp_def split: if_splits)
qed

text \<open>
  A command id has one normal form: normalizing is idempotent, two ids that differ only in case
  have the same normal form, and two ids with the same normal form differ only in case.
\<close>

theorem command_id_normal_form:
  assumes "normalize_command_id (PStr s) = Some k"
  shows "normalize_command_id (PStr k) = Some k
    \<and> (normalize_command_id (PStr s') = Some k) = (map to_lower s' = map to_lower s)"
proof -
  have upper_lower: "map to_lower (map to_upper x) = map to_lower x" for x
    using map_case_fold [of "map to_upper x" x] by (simp add: comp_def lower_chars)
  have lower: "map to_lower k = map to_lower s" if "normalize_command_id (PStr s) = Some k" for s k
    using that upper_lower by (auto simp: normalize_command_id_def lower_chars comp_def split: if_splits)
  have "normalize_command_id (PStr s') = Some k" if "map to_lower s' = map to_lower s" for s'
    using assms that uuid_fold [OF that] ulid_fold [OF that] map_case_fold [of s' s]
    by (auto simp: normalize_command_id_def split: if_splits)
  then show ?thesis using lower [of s k] lower [of s' k] assms by auto
qed

theorem command_id_normal_form_witness:
  "normalize_command_id (PStr ''01hzzzzzzzzzzzzzzzzzzzzzzz'') = Some ''01HZZZZZZZZZZZZZZZZZZZZZZZ''
   \<and> normalize_command_id (PStr ''01HZZZZZZZZZZZZZZZZZZZZZZZ'') = Some ''01HZZZZZZZZZZZZZZZZZZZZZZZ''"
proof -
  have "normalize_command_id (PStr ''01hzzzzzzzzzzzzzzzzzzzzzzz'') = Some ''01HZZZZZZZZZZZZZZZZZZZZZZZ''" by code_simp
  from this command_id_normal_form [OF this] show ?thesis by blast
qed

end
