(* ===== verification/Command_Gate.thy ===== *)
theory Command_Gate
  imports Harness_Commands
begin

text \<open>
  The control gate of an attempt, \<^verbatim>\<open>core/task_command_gate.py\<close>, and what the operations on commands
  together guarantee. \<open>command_op\<close> names every operation that writes the command table; the
  invariant \<open>wf_commands\<close> holds the table's unique keys and check constraints.
\<close>

section \<open>The gate\<close>

definition PUBLIC_REJECTION_CODES :: "string list" where
  "PUBLIC_REJECTION_CODES = [''existing_conflict'', ''task_not_running'', ''attempt_mismatch'', ''unsupported_harness'',
     ''control_gate_closed'', ''payload_too_large'', ''invalid_command_id'', ''invalid_command_type'', ''not_authorized'',
     ''wrong_attempt'', ''container_unreachable'', ''container_missing'', ''delivery_outcome_unknown'']"

definition public_rejection :: "string option \<Rightarrow> string option" where
  "public_rejection code = (case code of None \<Rightarrow> None
     | Some c \<Rightarrow> if c \<in> set PUBLIC_REJECTION_CODES then Some c else Some ''command_rejected'')"

definition log_control :: "string \<Rightarrow> string option \<Rightarrow> harness_command \<Rightarrow> database \<Rightarrow> database" where
  "log_control type code c d = d\<lparr>control_logs := control_logs d @
     [\<lparr>clog_task_id = cmd_task_id c, clog_type = type, clog_command_id = cmd_id c, clog_code = code\<rparr>]\<rparr>"

definition add_rejected_command_log :: "string \<Rightarrow> harness_command \<Rightarrow> database \<Rightarrow> database" where
  "add_rejected_command_log code = log_control ''control.command.rejected'' (public_rejection (Some code))"

definition begin_control_drain :: "string \<Rightarrow> database \<Rightarrow> bool \<times> database" where
  "begin_control_drain a d = (case get_attempt d a of
     None \<Rightarrow> (False, d)
   | Some r \<Rightarrow> if attempt_control_state r \<noteq> Accepting \<and> attempt_control_state r \<noteq> Starting then (False, d)
       else (True, put_attempt a (\<lambda>r. r\<lparr>attempt_control_state := Closing\<rparr>) d))"

definition task_running :: "database \<Rightarrow> row_id \<Rightarrow> bool" where
  "task_running d t \<longleftrightarrow> list_ex (\<lambda>u. task_id u = t \<and> task_status u = RUNNING) (tasks d)"

definition reopen_control_after_native_turn_start ::
  "string \<Rightarrow> string option \<Rightarrow> string option \<Rightarrow> database \<Rightarrow> bool \<times> database" where
  "reopen_control_after_native_turn_start a command_id native_id d =
     (let hit = (\<lambda>r. attempt_id r = a \<and> attempt_control_state r = Closing \<and> attempt_awaiting_follow_up_turn r
            \<and> \<not> attempt_force_close_requested r \<and> attempt_pending_follow_up_command_id r = command_id
            \<and> attempt_pending_follow_up_native_id r = native_id \<and> task_running d (attempt_task_id r))
      in if list_ex hit (attempts d)
         then (True, d\<lparr>attempts := update_where hit (\<lambda>r. r\<lparr>attempt_control_state := Accepting,
                attempt_awaiting_follow_up_turn := False, attempt_pending_follow_up_command_id := None,
                attempt_pending_follow_up_native_id := None, attempt_force_close_requested := False\<rparr>) (attempts d)\<rparr>)
         else (False, d))"

text \<open>The two loops over commands that were selected before, with the writes and logs of each turn.\<close>

definition reject_pending :: "timestamp \<Rightarrow> database \<Rightarrow> harness_command \<Rightarrow> database" where
  "reject_pending now d c =
     (let (rejected, d1) = write_command_rejection (cmd_id c) ''control_gate_closed'' now d
      in if rejected then add_rejected_command_log ''control_gate_closed'' c d1 else d1)"

definition forget_dispatching :: "timestamp \<Rightarrow> database \<Rightarrow> harness_command \<Rightarrow> database" where
  "forget_dispatching now d c =
     (let (changed, d1) = write_command_outcome_unknown (cmd_id c) now d
      in if changed then log_control ''control.command.outcome_unknown'' (Some ''delivery_outcome_unknown'') c d1 else d1)"

definition attempt_commands :: "string \<Rightarrow> command_status \<Rightarrow> database \<Rightarrow> harness_command list" where
  "attempt_commands a st d = filter (\<lambda>c. cmd_attempt_id c = a \<and> cmd_status c = st) (commands d)"

definition close_control_gate :: "timestamp \<Rightarrow> string \<Rightarrow> database \<Rightarrow> database" where
  "close_control_gate now a d =
     (let d1 = put_attempt a (\<lambda>r. r\<lparr>attempt_control_state := Closed, attempt_awaiting_follow_up_turn := False,
                 attempt_pending_follow_up_command_id := None, attempt_pending_follow_up_native_id := None,
                 attempt_force_close_requested := False\<rparr>) d;
          d2 = foldl (reject_pending now) d1 (attempt_commands a Queued d1)
      in foldl (forget_dispatching now) d2 (attempt_commands a Dispatching d2))"

definition request_force_close_after_unknown_follow_up ::
  "timestamp \<Rightarrow> string \<Rightarrow> string \<Rightarrow> string option \<Rightarrow> database \<Rightarrow> bool \<times> database" where
  "request_force_close_after_unknown_follow_up now a command_id native_id d =
     (let hit = (\<lambda>r. attempt_id r = a \<and> task_running d (attempt_task_id r) \<and> attempt_control_state r = Closing
            \<and> attempt_pending_follow_up_command_id r = Some command_id \<and> attempt_pending_follow_up_native_id r = native_id)
      in if \<not> list_ex hit (attempts d) then (False, d)
         else
           let d1 = d\<lparr>attempts := update_where hit (\<lambda>r. r\<lparr>attempt_awaiting_follow_up_turn := False,
                  attempt_pending_follow_up_command_id := None, attempt_pending_follow_up_native_id := None,
                  attempt_force_close_requested := True\<rparr>) (attempts d)\<rparr>
           in (True, foldl (reject_pending now) d1 (attempt_commands a Queued d1)))"

definition close_task_control_gates :: "timestamp \<Rightarrow> row_id \<Rightarrow> database \<Rightarrow> database" where
  "close_task_control_gates now t d =
     foldl (\<lambda>d a. close_control_gate now (attempt_id a) d) d
       (filter (\<lambda>a. attempt_task_id a = t \<and> attempt_control_state a \<in> {Starting, Accepting, Closing}) (attempts d))"


section \<open>The command table\<close>

datatype command_op =
    CreateCommand timestamp row_id string string pydict string
  | BeginDispatch string timestamp
  | NativeSent string "string option" timestamp
  | Deliver string timestamp
  | Reject string string timestamp
  | Requeue string
  | Unknown string timestamp
  | CloseGate timestamp string
  | ForceClose timestamp string string "string option"
  | Drain string
  | Reopen string "string option" "string option"

fun run_command_op ::
  "(string \<Rightarrow> string) \<Rightarrow> (rat \<Rightarrow> string) \<Rightarrow> (runtime_bundle \<Rightarrow> pydict option) \<Rightarrow> database \<Rightarrow> command_op \<Rightarrow> database" where
  "run_command_op sha256 fr archived d (CreateCommand now t k ty payload by_user) =
     (case create_command sha256 fr archived now d t k ty payload by_user of Inl _ \<Rightarrow> d | Inr (_, d') \<Rightarrow> d')"
| "run_command_op sha256 fr archived d (BeginDispatch k stamp) = snd (begin_command_dispatch k stamp d)"
| "run_command_op sha256 fr archived d (NativeSent k native stamp) = snd (mark_command_native_sent k native stamp d)"
| "run_command_op sha256 fr archived d (Deliver k stamp) = snd (write_command_delivery k stamp d)"
| "run_command_op sha256 fr archived d (Reject k code stamp) = snd (write_command_rejection k code stamp d)"
| "run_command_op sha256 fr archived d (Requeue k) = snd (requeue_pre_send_failure k d)"
| "run_command_op sha256 fr archived d (Unknown k stamp) = snd (write_command_outcome_unknown k stamp d)"
| "run_command_op sha256 fr archived d (CloseGate now a) = close_control_gate now a d"
| "run_command_op sha256 fr archived d (ForceClose now a k native) =
     snd (request_force_close_after_unknown_follow_up now a k native d)"
| "run_command_op sha256 fr archived d (Drain a) = snd (begin_control_drain a d)"
| "run_command_op sha256 fr archived d (Reopen a k native) = snd (reopen_control_after_native_turn_start a k native d)"

text \<open>The check constraints of one row, and that its id is in normal form.\<close>

definition command_consistent :: "harness_command \<Rightarrow> bool" where
  "command_consistent c \<longleftrightarrow> 1 \<le> cmd_sequence_no c \<and> cmd_type c \<in> {''steer'', ''follow_up''}
     \<and> (cmd_status c \<in> {Queued, Dispatching, OutcomeUnknown}) = (cmd_delivered_at c = None \<and> cmd_rejected_at c = None)
     \<and> (cmd_status c = Delivered) = (cmd_delivered_at c \<noteq> None)
     \<and> (cmd_status c = Rejected) = (cmd_rejected_at c \<noteq> None)
     \<and> (cmd_status c = OutcomeUnknown) = (cmd_outcome_unknown_at c \<noteq> None)
     \<and> (cmd_status c = Queued \<longrightarrow> cmd_native_sent_at c = None)
     \<and> normalize_command_id (PStr (cmd_id c)) = Some (cmd_id c)"

definition wf_commands :: "database \<Rightarrow> bool" where
  "wf_commands d \<longleftrightarrow> distinct (map cmd_id (commands d)) \<and> distinct (map attempt_id (attempts d))
     \<and> distinct (map (\<lambda>c. (cmd_attempt_id c, cmd_sequence_no c)) (commands d))
     \<and> list_all command_consistent (commands d)
     \<and> list_all (\<lambda>a. 1 \<le> attempt_next_command_sequence a) (attempts d)
     \<and> (\<forall>c\<in>set (commands d). \<forall>a\<in>set (attempts d). attempt_id a = cmd_attempt_id c
          \<longrightarrow> cmd_sequence_no c < attempt_next_command_sequence a)"


section \<open>Progress of a command\<close>

text \<open>
  What any operation may do to a row: its identity stays, a terminal row stays as it is, the
  constraints stay true, and once the native send is recorded the row is not queued again.
\<close>

definition identity :: "harness_command \<Rightarrow> string \<times> row_id \<times> string \<times> int \<times> string \<times> pydict \<times> string" where
  "identity c = (cmd_id c, cmd_task_id c, cmd_attempt_id c, cmd_sequence_no c, cmd_type c, cmd_payload c, cmd_payload_digest c)"

definition progress :: "harness_command \<Rightarrow> harness_command \<Rightarrow> bool" where
  "progress c c' \<longleftrightarrow> identity c' = identity c \<and> (is_terminal_command c \<longrightarrow> c' = c)
     \<and> (command_consistent c \<longrightarrow> command_consistent c')
     \<and> (cmd_native_sent_at c \<noteq> None \<and> cmd_status c \<noteq> Queued \<longrightarrow> cmd_native_sent_at c' \<noteq> None
          \<and> cmd_status c' \<noteq> Queued \<and> cmd_delivery_attempts c' = cmd_delivery_attempts c)"

lemma progress_refl [simp]: "progress c c"
  by (simp add: progress_def)

lemma progress_trans: "progress c c' \<Longrightarrow> progress c' c'' \<Longrightarrow> progress c c''"
  by (auto simp: progress_def)

lemma list_all2_progress_trans:
  "list_all2 progress xs ys \<Longrightarrow> list_all2 progress ys zs \<Longrightarrow> list_all2 progress xs zs"
  by (rule list_all2_trans [of progress progress progress]) (auto intro: progress_trans)

text \<open>\<open>quiet\<close>: no new row, and the sequence counters of the attempts stay.\<close>

definition quiet :: "database \<Rightarrow> database \<Rightarrow> bool" where
  "quiet d d' \<longleftrightarrow> list_all2 progress (commands d) (commands d')
     \<and> map (\<lambda>a. (attempt_id a, attempt_next_command_sequence a)) (attempts d')
       = map (\<lambda>a. (attempt_id a, attempt_next_command_sequence a)) (attempts d)"

lemma quiet_refl [simp]: "quiet d d"
  by (simp add: quiet_def list_all2_refl)

lemma quiet_trans: "quiet d e \<Longrightarrow> quiet e f \<Longrightarrow> quiet d f"
  by (auto simp: quiet_def intro: list_all2_progress_trans)

lemma map_progress:
  assumes "list_all2 progress xs ys" "\<And>c c'. identity c' = identity c \<Longrightarrow> g c' = g c"
  shows "map g ys = map g xs"
  using assms(1) by (induction rule: list_all2_induct) (auto simp: progress_def intro: assms(2))

lemma progress_mem:
  assumes "list_all2 progress xs ys" "y \<in> set ys"
  shows "\<exists>x\<in>set xs. progress x y"
  using assms by (induction rule: list_all2_induct) auto

lemma quiet_wf:
  assumes wf: "wf_commands d" and q: "quiet d d'"
  shows "wf_commands d'"
proof -
  have rows: "list_all2 progress (commands d) (commands d')"
    and keys: "map (\<lambda>a. (attempt_id a, attempt_next_command_sequence a)) (attempts d')
       = map (\<lambda>a. (attempt_id a, attempt_next_command_sequence a)) (attempts d)" using q by (auto simp: quiet_def)
  have ids: "map cmd_id (commands d') = map cmd_id (commands d)"
    and seqs: "map (\<lambda>c. (cmd_attempt_id c, cmd_sequence_no c)) (commands d') = map (\<lambda>c. (cmd_attempt_id c, cmd_sequence_no c)) (commands d)"
    by (rule map_progress [OF rows]; simp add: identity_def)+
  have aids: "map attempt_id (attempts d') = map attempt_id (attempts d)"
    using arg_cong [OF keys, of "map fst"] by (simp add: comp_def)
  have old: "\<exists>b\<in>set (attempts d). attempt_id b = attempt_id a \<and> attempt_next_command_sequence b = attempt_next_command_sequence a"
    if "a \<in> set (attempts d')" for a
  proof -
    have "(attempt_id a, attempt_next_command_sequence a)
        \<in> set (map (\<lambda>a. (attempt_id a, attempt_next_command_sequence a)) (attempts d))"
      unfolding keys [symmetric] using that by simp
    then show ?thesis by auto
  qed
  have "command_consistent c" if "c \<in> set (commands d')" for c
    using progress_mem [OF rows that] wf by (auto simp: wf_commands_def list_all_iff progress_def)
  moreover have "cmd_sequence_no c < attempt_next_command_sequence a"
    if c: "c \<in> set (commands d')" and a: "a \<in> set (attempts d')" "attempt_id a = cmd_attempt_id c" for c a
  proof -
    obtain c0 where "c0 \<in> set (commands d)" "identity c = identity c0" using progress_mem [OF rows c] by (auto simp: progress_def)
    moreover obtain b where "b \<in> set (attempts d)" "attempt_id b = attempt_id a" "attempt_next_command_sequence b = attempt_next_command_sequence a"
      using old [OF a(1)] by blast
    ultimately show ?thesis using wf a(2) by (force simp: wf_commands_def identity_def)
  qed
  moreover have "1 \<le> attempt_next_command_sequence a" if "a \<in> set (attempts d')" for a
    using old [OF that] wf by (auto simp: wf_commands_def list_all_iff)
  ultimately show ?thesis
    using wf unfolding wf_commands_def ids seqs aids by (simp add: list_all_iff)
qed

lemma update_progress:
  assumes "\<And>c. c \<in> set cs \<Longrightarrow> p c \<Longrightarrow> progress c (f c)"
  shows "list_all2 progress cs (update_where p f cs)"
  using assms by (induction cs) auto

lemma cas_quiet:
  assumes wf: "wf_commands d" and ok: "\<And>c. test c \<Longrightarrow> progress c (write c)"
  shows "quiet d (snd (cas_command test write k d))"
proof -
  have "quiet d (put_command j write d)" if "get_command d j = Some c" "test c" for j c
  proof -
    have "e = c" if "e \<in> set (commands d)" "cmd_id e = j" for e
      using \<open>get_command d j = Some c\<close> that wf row_by_SomeD [of cmd_id j "commands d" c] distinct_keyD [of cmd_id "commands d" e c]
      by (auto simp: get_command_def wf_commands_def)
    then show ?thesis using ok that(2) by (auto simp: quiet_def put_command_def intro!: update_progress)
  qed
  then show ?thesis by (auto simp: cas_command_def split: option.split)
qed

lemma cas_ops_quiet:
  assumes "wf_commands d"
  shows "quiet d (snd (write_command_delivery k stamp d))" "quiet d (snd (write_command_rejection k code stamp d))"
    "quiet d (snd (begin_command_dispatch k stamp d))" "quiet d (snd (mark_command_native_sent k native stamp d))"
    "quiet d (snd (requeue_pre_send_failure k d))" "quiet d (snd (write_command_outcome_unknown k stamp d))"
  unfolding cas_defs using assms
  by (auto intro!: cas_quiet simp: progress_def identity_def is_terminal_command_def command_consistent_def)

lemma log_control_quiet [simp]: "quiet d (log_control ty code c d)"
  by (simp add: quiet_def log_control_def list_all2_refl)

lemma put_attempt_quiet:
  assumes "\<And>r. attempt_id (f r) = attempt_id r \<and> attempt_next_command_sequence (f r) = attempt_next_command_sequence r"
  shows "quiet d (d\<lparr>attempts := update_where p f (attempts d)\<rparr>)"
  using assms by (simp add: quiet_def list_all2_refl map_key_update_where)

lemma foldl_quiet:
  assumes "\<And>d x. wf_commands d \<Longrightarrow> quiet d (f d x)" "wf_commands d"
  shows "quiet d (foldl f d xs)"
  using assms(2)
proof (induction xs arbitrary: d)
  case (Cons x xs)
  then show ?case using assms(1) [OF Cons.prems, of x] quiet_wf quiet_trans by (metis foldl_Cons)
qed simp

lemma gate_loops_quiet:
  assumes "wf_commands d"
  shows "quiet d (foldl (reject_pending now) d cs)" "quiet d (foldl (forget_dispatching now) d cs)"
proof -
  have "quiet d (reject_pending now d c)" "quiet d (forget_dispatching now d c)" if "wf_commands d" for d c
    using cas_ops_quiet(2) [OF that, of "cmd_id c" "''control_gate_closed''" now]
      cas_ops_quiet(6) [OF that, of "cmd_id c" now]
    by (auto simp: reject_pending_def forget_dispatching_def add_rejected_command_log_def Let_def
        intro: quiet_trans split: prod.split)
  then show "quiet d (foldl (reject_pending now) d cs)" "quiet d (foldl (forget_dispatching now) d cs)"
    using assms by (auto intro: foldl_quiet)
qed

lemma gate_ops_quiet:
  assumes "wf_commands d"
  shows "quiet d (close_control_gate now a d)"
    "quiet d (snd (request_force_close_after_unknown_follow_up now a k native d))"
    "quiet d (snd (begin_control_drain a d))" "quiet d (snd (reopen_control_after_native_turn_start a k' native d))"
    "quiet d (close_task_control_gates now t d)"
proof -
  have close: "quiet d (close_control_gate now a d)" if "wf_commands d" for d a
  proof -
    let ?d1 = "put_attempt a (\<lambda>r. r\<lparr>attempt_control_state := Closed, attempt_awaiting_follow_up_turn := False,
                 attempt_pending_follow_up_command_id := None, attempt_pending_follow_up_native_id := None,
                 attempt_force_close_requested := False\<rparr>) d"
    let ?d2 = "foldl (reject_pending now) ?d1 (attempt_commands a Queued ?d1)"
    have 1: "quiet d ?d1" by (simp add: put_attempt_def put_attempt_quiet)
    have 2: "quiet ?d1 ?d2" by (rule gate_loops_quiet [OF quiet_wf [OF that 1]])
    have 3: "quiet ?d2 (foldl (forget_dispatching now) ?d2 (attempt_commands a Dispatching ?d2))"
      by (rule gate_loops_quiet [OF quiet_wf [OF quiet_wf [OF that 1] 2]])
    show ?thesis unfolding close_control_gate_def Let_def by (rule quiet_trans [OF quiet_trans [OF 1 2] 3])
  qed
  show "quiet d (close_control_gate now a d)" by (rule close [OF assms])
  show "quiet d (close_task_control_gates now t d)"
    unfolding close_task_control_gates_def using close assms by (intro foldl_quiet) auto
  show "quiet d (snd (begin_control_drain a d))"
    by (auto simp: begin_control_drain_def put_attempt_def intro!: put_attempt_quiet split: option.split)
  show "quiet d (snd (reopen_control_after_native_turn_start a k' native d))"
    by (auto simp: reopen_control_after_native_turn_start_def Let_def intro!: put_attempt_quiet)
  show "quiet d (snd (request_force_close_after_unknown_follow_up now a k native d))"
    using assms
    by (auto simp: request_force_close_after_unknown_follow_up_def Let_def
        intro!: quiet_trans [OF put_attempt_quiet gate_loops_quiet(1)] quiet_wf [OF _ put_attempt_quiet])
qed

text \<open>A successful creation appends one row with the next sequence number of the attempt.\<close>

lemma current_attemptD:
  assumes "load_current_attempt d t = Some a"
  shows "a \<in> set (attempts d)" "attempt_task_id a = t"
  using first_byD(1) [OF assms [unfolded load_current_attempt_def]] by auto

lemma create_new_commandD:
  assumes "create_new_command sha256 fr archived now d t k ty payload by_user = Inr (res, d')"
  shows "d' = d \<and> \<not> created res \<or> (\<exists>a. load_current_attempt d t = Some a \<and> attempt_control_state a = Accepting
      \<and> res = \<lparr>created_command_id = k, created_sequence_no = attempt_next_command_sequence a, created = True, create_outcome = ''created''\<rparr>
      \<and> d' = put_attempt (attempt_id a) (\<lambda>r. r\<lparr>attempt_next_command_sequence := attempt_next_command_sequence a + 1\<rparr>)
         (d\<lparr>commands := commands d @ [new_command k t a ty payload
            (command_payload_digest sha256 fr t (attempt_id a) ty payload) by_user now]\<rparr>))"
  using assms
  by (auto simp: create_new_command_def create_refused_def Let_def split: option.splits if_splits)

lemma create_commandD:
  assumes "create_command sha256 fr archived now d t command_id ty payload by_user = Inr (res, d')"
  shows "d' = d \<and> \<not> created res \<or>
    (\<exists>k text. normalize_command_id (PStr command_id) = Some k \<and> get_command d k = None \<and> ty \<in> {''steer'', ''follow_up''}
       \<and> dict_get payload ''text'' = PStr text \<and> is_valid_command_text (map of_char text)
       \<and> create_new_command sha256 fr archived now d t k ty payload by_user = Inr (res, d'))"
proof (cases "normalize_command_id (PStr command_id)")
  case None
  then show ?thesis using assms by (auto simp: create_command_def create_refused_def)
next
  case (Some k)
  note run = assms [unfolded create_command_def Some option.case]
  show ?thesis
  proof (cases "\<exists>text. ty \<in> {''steer'', ''follow_up''} \<and> dict_get payload ''text'' = PStr text
      \<and> is_valid_command_text (map of_char text)")
    case True
    then show ?thesis using run Some by (auto simp: create_refused_def split: option.splits if_splits)
  next
    case False
    then show ?thesis using run by (auto simp: create_refused_def split: pyval.splits if_splits)
  qed
qed

lemma create_commandE:
  assumes "create_command sha256 fr archived now d t command_id ty payload by_user = Inr (res, d')"
  obtains "d' = d" "\<not> created res"
  | a k where "normalize_command_id (PStr command_id) = Some k" "get_command d k = None" "a \<in> set (attempts d)"
      "ty \<in> {''steer'', ''follow_up''}" "attempt_control_state a = Accepting" "attempt_task_id a = t"
      "res = \<lparr>created_command_id = k, created_sequence_no = attempt_next_command_sequence a, created = True, create_outcome = ''created''\<rparr>"
      "d' = put_attempt (attempt_id a) (\<lambda>r. r\<lparr>attempt_next_command_sequence := attempt_next_command_sequence a + 1\<rparr>)
         (d\<lparr>commands := commands d @ [new_command k t a ty payload
            (command_payload_digest sha256 fr t (attempt_id a) ty payload) by_user now]\<rparr>)"
      "\<exists>text. dict_get payload ''text'' = PStr text \<and> is_valid_command_text (map of_char text)"
proof -
  from create_commandD [OF assms] show thesis
  proof (elim disjE exE conjE)
    assume "d' = d" "\<not> created res" then show thesis by (rule that(1))
  next
    fix k body
    assume k: "normalize_command_id (PStr command_id) = Some k" "get_command d k = None" "ty \<in> {''steer'', ''follow_up''}"
      "dict_get payload ''text'' = PStr body" "is_valid_command_text (map of_char body)"
      and new: "create_new_command sha256 fr archived now d t k ty payload by_user = Inr (res, d')"
    from create_new_commandD [OF new] show thesis
    proof (elim disjE exE conjE)
      assume "d' = d" "\<not> created res" then show thesis by (rule that(1))
    next
      fix a assume a: "load_current_attempt d t = Some a" "attempt_control_state a = Accepting"
        and res: "res = \<lparr>created_command_id = k, created_sequence_no = attempt_next_command_sequence a, created = True, create_outcome = ''created''\<rparr>"
        and d': "d' = put_attempt (attempt_id a) (\<lambda>r. r\<lparr>attempt_next_command_sequence := attempt_next_command_sequence a + 1\<rparr>)
         (d\<lparr>commands := commands d @ [new_command k t a ty payload
            (command_payload_digest sha256 fr t (attempt_id a) ty payload) by_user now]\<rparr>)"
      show thesis
        by (rule that(2) [OF k(1,2) current_attemptD(1) [OF a(1)] k(3) a(2) current_attemptD(2) [OF a(1)] res d'])
           (use k(4,5) in blast)
    qed
  qed
qed

lemma create_wf:
  assumes wf: "wf_commands d" and run: "create_command sha256 fr archived now d t command_id ty payload by_user = Inr (res, d')"
  shows "wf_commands d'"
  using run
proof (cases rule: create_commandE)
  case (2 a k)
  let ?f = "\<lambda>r. r\<lparr>attempt_next_command_sequence := attempt_next_command_sequence a + 1\<rparr>"
  let ?c = "new_command k t a ty payload (command_payload_digest sha256 fr t (attempt_id a) ty payload) by_user now"
  have att: "attempts d' = update_where (\<lambda>r. attempt_id r = attempt_id a) ?f (attempts d)" "commands d' = commands d @ [?c]"
    by (simp_all add: 2(8) put_attempt_def)
  have same: "b = a" if "b \<in> set (attempts d)" "attempt_id b = attempt_id a" for b
    using wf that 2(3) distinct_keyD [of attempt_id "attempts d" b a] by (simp add: wf_commands_def)
  have fresh: "k \<notin> cmd_id ` set (commands d)" using 2(2) by (simp add: get_command_def row_by_None_iff)
  have below: "cmd_sequence_no c < attempt_next_command_sequence a" if "c \<in> set (commands d)" "cmd_attempt_id c = attempt_id a" for c
    using wf 2(3) that unfolding wf_commands_def by metis
  have "1 \<le> attempt_next_command_sequence a" using wf 2(3) by (simp add: wf_commands_def list_all_iff)
  then have "command_consistent ?c" using 2(4) normalize_normal [OF 2(1)] by (simp add: command_consistent_def new_command_def)
  moreover have "distinct (map (\<lambda>c. (cmd_attempt_id c, cmd_sequence_no c)) (commands d @ [?c]))"
    using wf below by (force simp: wf_commands_def new_command_def)
  moreover have "cmd_sequence_no c < attempt_next_command_sequence b"
    if "c \<in> set (commands d @ [?c])" "b \<in> set (attempts d')" "attempt_id b = cmd_attempt_id c" for c b
  proof -
    from that(2) obtain b0 where b0: "b0 \<in> set (attempts d)" "b = (if attempt_id b0 = attempt_id a then ?f b0 else b0)"
      unfolding att(1) by (rule in_update_whereE)
    show ?thesis
    proof (cases "attempt_id b0 = attempt_id a")
      case True
      then have b: "attempt_next_command_sequence b = attempt_next_command_sequence a + 1" "attempt_id b = attempt_id a"
        using b0 by simp_all
      from that(1) consider "c \<in> set (commands d)" | "c = ?c" by auto
      then show ?thesis
      proof cases
        case 1
        then show ?thesis using below [of c] b that(3) by simp
      next
        case 2
        then show ?thesis using b by (simp add: new_command_def)
      qed
    next
      case False
      then show ?thesis using b0 that wf by (auto simp: wf_commands_def new_command_def)
    qed
  qed
  moreover have "1 \<le> attempt_next_command_sequence b" if "b \<in> set (attempts d')" for b
    using that wf \<open>1 \<le> attempt_next_command_sequence a\<close> unfolding att(1)
    by (auto simp: set_update_where wf_commands_def list_all_iff)
  ultimately show ?thesis
    using wf fresh by (simp add: wf_commands_def att(2) list_all_iff) (simp add: att(1) map_key_update_where new_command_def)
qed (use wf in simp)


section \<open>Histories\<close>

definition extends :: "database \<Rightarrow> database \<Rightarrow> bool" where
  "extends d d' \<longleftrightarrow> (\<exists>cs news. commands d' = cs @ news \<and> list_all2 progress (commands d) cs)"

lemma quiet_extends: "quiet d d' \<Longrightarrow> extends d d'"
  by (auto simp: quiet_def extends_def intro: exI [of _ "[]"])

lemma extends_refl [simp]: "extends d d"
  by (simp add: quiet_extends)

lemma extends_trans:
  assumes "extends d e" "extends e f"
  shows "extends d f"
proof -
  obtain cs news where e: "commands e = cs @ news" "list_all2 progress (commands d) cs" using assms(1) by (auto simp: extends_def)
  obtain cs' news' where f: "commands f = cs' @ news'" "list_all2 progress (cs @ news) cs'" using assms(2) e(1) by (auto simp: extends_def)
  then obtain xs ys where "cs' = xs @ ys" "list_all2 progress cs xs" by (auto simp: list_all2_append1)
  then show ?thesis using f(1) list_all2_progress_trans [OF e(2)] by (auto simp: extends_def)
qed

lemma op_extends:
  assumes "wf_commands d"
  shows "wf_commands (run_command_op sha256 fr archived d p) \<and> extends d (run_command_op sha256 fr archived d p)"
proof (cases p)
  case (CreateCommand now t k ty payload by_user)
  have "wf_commands d' \<and> extends d d'" if run: "create_command sha256 fr archived now d t k ty payload by_user = Inr (r, d')" for r d'
  proof -
    have "extends d d'"
      using run by (cases rule: create_commandE) (auto simp: extends_def put_attempt_def list_all2_refl)
    then show ?thesis using create_wf [OF assms run] by simp
  qed
  then show ?thesis using assms CreateCommand by (auto split: sum.split)
qed (use assms cas_ops_quiet gate_ops_quiet in \<open>auto intro: quiet_extends quiet_wf\<close>)

lemma ops_extends:
  assumes "wf_commands d"
  shows "wf_commands (foldl (run_command_op sha256 fr archived) d ops) \<and> extends d (foldl (run_command_op sha256 fr archived) d ops)"
  using assms
proof (induction ops arbitrary: d)
  case (Cons p ops)
  then show ?case using op_extends [OF Cons.prems, of sha256 fr archived p] extends_trans by (metis foldl_Cons)
qed simp

lemma row_by_progress:
  "list_all2 progress xs cs \<Longrightarrow> row_by cmd_id k xs = Some c \<Longrightarrow> \<exists>c'. row_by cmd_id k (cs @ news) = Some c' \<and> progress c c'"
  by (induction rule: list_all2_induct) (auto simp: progress_def identity_def row_by_def split: if_splits)

lemma extends_get:
  assumes "extends d d'" "get_command d k = Some c"
  shows "\<exists>c'. get_command d' k = Some c' \<and> progress c c'"
  using assms row_by_progress unfolding extends_def get_command_def by metis

text \<open>
  C24. The constraints of the command table survive every history: whatever operations run, in any
  order and with any arguments, command ids and the sequence numbers of an attempt stay unique, each
  row satisfies the check constraints of the schema and has a normal id, a queued row was never sent,
  and the sequence counter of an attempt stays above the numbers it has given out.
\<close>

theorem command_table_stays_consistent:
  assumes "wf_commands d"
  shows "wf_commands (foldl (run_command_op sha256 fr archived) d ops)"
  using ops_extends [OF assms] by blast

text \<open>
  C23. At most one native send: after any history a delivered, rejected or unknown command is
  exactly the row it was, and a command whose native send is recorded is never queued and never
  dispatched again; its place in the sequence and its payload never change.
\<close>

theorem settled_commands_are_final:
  assumes "wf_commands d" "get_command d k = Some c"
  shows "\<exists>c'. get_command (foldl (run_command_op sha256 fr archived) d ops) k = Some c'
    \<and> identity c' = identity c
    \<and> (is_terminal_command c \<longrightarrow> c' = c)
    \<and> (cmd_native_sent_at c \<noteq> None \<longrightarrow> cmd_status c' \<noteq> Queued \<and> cmd_delivery_attempts c' = cmd_delivery_attempts c)"
proof -
  have "command_consistent c"
    using assms row_by_SomeD [of cmd_id k "commands d" c] by (auto simp: wf_commands_def get_command_def list_all_iff)
  then have sent: "cmd_native_sent_at c \<noteq> None \<longrightarrow> cmd_status c \<noteq> Queued" by (auto simp: command_consistent_def)
  obtain c' where "get_command (foldl (run_command_op sha256 fr archived) d ops) k = Some c'" "progress c c'"
    using extends_get [OF conjunct2 [OF ops_extends [OF assms(1), of sha256 fr archived ops]] assms(2)] by blast
  then show ?thesis using sent unfolding progress_def by blast
qed

text \<open>
  C25. Creation is idempotent: repeating a successful creation, at any later time, after any history
  and with any spelling of the id, creates nothing and answers with the same sequence number; a
  created command has a text within the limit, belongs to an accepting attempt of the task and got
  the attempt's next number.
\<close>

theorem create_command_is_idempotent:
  assumes wf: "wf_commands d" and run: "create_command sha256 fr archived now d t command_id ty payload by_user = Inr (res, d1)"
    and new: "created res" and same: "normalize_command_id (PStr again) = normalize_command_id (PStr command_id)"
  shows "create_command sha256 fr archived later (foldl (run_command_op sha256 fr archived) d1 ops) t again ty payload by_user'
      = Inr (res\<lparr>created := False, create_outcome := ''existing_same''\<rparr>, foldl (run_command_op sha256 fr archived) d1 ops)
    \<and> (\<exists>a\<in>set (attempts d). attempt_task_id a = t \<and> attempt_control_state a = Accepting
          \<and> created_sequence_no res = attempt_next_command_sequence a)
    \<and> (\<exists>body. dict_get payload ''text'' = PStr body \<and> is_valid_command_text (map of_char body))"
  using run
proof (cases rule: create_commandE)
  case (2 a k)
  let ?digest = "command_payload_digest sha256 fr t (attempt_id a) ty payload"
  let ?c = "new_command k t a ty payload ?digest by_user now"
  obtain body where body: "dict_get payload ''text'' = PStr body" "is_valid_command_text (map of_char body)" using 2(9) by blast
  have "get_command d1 k = Some ?c"
    using 2(2) by (simp add: 2(8) get_command_def put_attempt_def row_by_append new_command_def)
  from extends_get [OF conjunct2 [OF ops_extends [OF create_wf [OF wf run], of sha256 fr archived ops]] this]
  obtain c where c: "get_command (foldl (run_command_op sha256 fr archived) d1 ops) k = Some c" "identity c = identity ?c"
    by (auto simp: progress_def)
  then have "cmd_payload_digest c = ?digest" "cmd_attempt_id c = attempt_id a" "cmd_sequence_no c = attempt_next_command_sequence a"
    by (simp_all add: identity_def new_command_def)
  then have "create_command sha256 fr archived later (foldl (run_command_op sha256 fr archived) d1 ops) t again ty payload by_user'
      = Inr (res\<lparr>created := False, create_outcome := ''existing_same''\<rparr>, foldl (run_command_op sha256 fr archived) d1 ops)"
    using 2(4) by (simp add: create_command_def same 2(1,7) body c(1) del: foldl.simps)
  moreover have "created_sequence_no res = attempt_next_command_sequence a" by (simp add: 2(7))
  ultimately show ?thesis using 2(3,5,6) body by blast
qed (use new in simp)

text \<open>A running task whose second attempt accepts commands.\<close>

definition pi_attempt :: harness_attempt where
  "pi_attempt = \<lparr>attempt_id = ''a2'', attempt_task_id = 2, attempt_no = 2, attempt_event_schema = CANONICAL_EVENT_SCHEMA_V2,
     attempt_harness_key = ''pi'', attempt_adapter_version = ''1'', attempt_cli_version = None,
     attempt_control_state = Accepting, attempt_awaiting_follow_up_turn = False,
     attempt_pending_follow_up_command_id = None, attempt_pending_follow_up_native_id = None,
     attempt_force_close_requested = False, attempt_next_command_sequence = 1, attempt_dispatch_owner = None,
     attempt_dispatch_expires_at = None, attempt_last_seq = 0, attempt_terminal_event_id = None,
     attempt_terminal_event_type = None, attempt_terminal_at = None\<rparr>"

definition control_db :: database where
  "control_db = (sample_db [(sample_task 2 7 RUNNING (Some 1))\<lparr>task_runtime_bundle_id := Some 5\<rparr>] [])\<lparr>
     bundles := [pi_bundle], attempts := [pi_attempt]\<rparr>"

definition ulid_a :: string where "ulid_a = ''01HZZZZZZZZZZZZZZZZZZZZZZZ''"

definition hello :: pydict where "hello = [(''text'', PStr ''go'')]"

abbreviation run_ops :: "database \<Rightarrow> command_op list \<Rightarrow> database" where
  "run_ops \<equiv> foldl (run_command_op (\<lambda>s. s) (\<lambda>_. ''0.0'') (\<lambda>_. None))"

lemma control_db_wf: "wf_commands control_db"
  by (simp add: control_db_def wf_commands_def sample_defs pi_attempt_def)

lemma control_db_creates:
  "create_command (\<lambda>s. s) (\<lambda>_. ''0.0'') (\<lambda>_. None) 10 control_db 2 ulid_a ''steer'' hello ''u''
     = Inr (\<lparr>created_command_id = ulid_a, created_sequence_no = 1, created = True, create_outcome = ''created''\<rparr>,
            run_ops control_db [CreateCommand 10 2 ulid_a ''steer'' hello ''u''])"
  by code_simp

theorem command_table_stays_consistent_witness:
  "wf_commands (run_ops control_db [CreateCommand 10 2 ulid_a ''steer'' hello ''u'', BeginDispatch ulid_a 11, CloseGate 12 ''a2''])
   \<and> map cmd_status (commands (run_ops control_db [CreateCommand 10 2 ulid_a ''steer'' hello ''u'', BeginDispatch ulid_a 11,
        CloseGate 12 ''a2''])) = [OutcomeUnknown]"
proof
  show "wf_commands (run_ops control_db [CreateCommand 10 2 ulid_a ''steer'' hello ''u'', BeginDispatch ulid_a 11, CloseGate 12 ''a2''])"
    by (rule command_table_stays_consistent [OF control_db_wf])
qed code_simp

text \<open>A command that was sent and is asked to be queued again stays where it is.\<close>

theorem settled_commands_are_final_witness:
  "\<exists>c'. get_command (run_ops (run_ops control_db [CreateCommand 10 2 ulid_a ''steer'' hello ''u'', BeginDispatch ulid_a 11,
        NativeSent ulid_a None 12]) [Requeue ulid_a, Deliver ulid_a 13, Reject ulid_a ''wrong_attempt'' 14]) ulid_a = Some c'
     \<and> cmd_status c' \<noteq> Queued \<and> cmd_delivery_attempts c' = 1"
proof -
  let ?d = "run_ops control_db [CreateCommand 10 2 ulid_a ''steer'' hello ''u'', BeginDispatch ulid_a 11, NativeSent ulid_a None 12]"
  have "wf_commands ?d" using ops_extends [OF control_db_wf] by blast
  moreover have "(case get_command ?d ulid_a of None \<Rightarrow> False
      | Some c \<Rightarrow> cmd_native_sent_at c \<noteq> None \<and> cmd_delivery_attempts c = 1)" by code_simp
  then obtain c where "get_command ?d ulid_a = Some c" "cmd_native_sent_at c \<noteq> None" "cmd_delivery_attempts c = 1"
    by (auto split: option.splits)
  ultimately show ?thesis
    using settled_commands_are_final [of ?d ulid_a c "\<lambda>s. s" "\<lambda>_. ''0.0''" "\<lambda>_. None"
        "[Requeue ulid_a, Deliver ulid_a 13, Reject ulid_a ''wrong_attempt'' 14]"] by (auto simp del: foldl.simps)
qed

theorem create_command_is_idempotent_witness:
  "let d = run_ops control_db [CreateCommand 10 2 ulid_a ''steer'' hello ''u'']
   in create_command (\<lambda>s. s) (\<lambda>_. ''0.0'') (\<lambda>_. None) 99 (run_ops d [CloseGate 50 ''a2'']) 2 ''01hzzzzzzzzzzzzzzzzzzzzzzz'' ''steer'' hello ''v''
     = Inr (\<lparr>created_command_id = ulid_a, created_sequence_no = 1, created = False, create_outcome = ''existing_same''\<rparr>,
            run_ops d [CloseGate 50 ''a2''])"
proof -
  have "normalize_command_id (PStr ''01hzzzzzzzzzzzzzzzzzzzzzzz'') = normalize_command_id (PStr ulid_a)" by code_simp
  from create_command_is_idempotent [OF control_db_wf control_db_creates _ this, of 99 "[CloseGate 50 ''a2'']" "''v''"]
  show ?thesis by (simp del: foldl.simps)
qed


section \<open>Closing the gate\<close>

text \<open>What closing does to one row.\<close>

definition rejected_row :: "timestamp \<Rightarrow> harness_command \<Rightarrow> harness_command" where
  "rejected_row now c = c\<lparr>cmd_status := Rejected, cmd_rejected_at := Some now, cmd_rejection_code := Some ''control_gate_closed'',
     cmd_last_attempt_at := Some now, cmd_native_ack_at := (if cmd_native_sent_at c \<noteq> None then Some now else cmd_native_ack_at c)\<rparr>"

definition forgotten_row :: "timestamp \<Rightarrow> harness_command \<Rightarrow> harness_command" where
  "forgotten_row now c = c\<lparr>cmd_status := OutcomeUnknown, cmd_outcome_unknown_at := Some now,
     cmd_rejection_code := Some ''delivery_outcome_unknown'', cmd_last_attempt_at := Some now\<rparr>"

definition closed_command :: "timestamp \<Rightarrow> string \<Rightarrow> harness_command \<Rightarrow> harness_command" where
  "closed_command now a c =
     (if cmd_attempt_id c \<noteq> a then c else if cmd_status c = Queued then rejected_row now c
      else if cmd_status c = Dispatching then forgotten_row now c else c)"

text \<open>A loop of guarded writes over selected rows is one write to each of them.\<close>

lemma fold_cas:
  assumes ids: "distinct (map cmd_id cs)" "set cs \<subseteq> set (commands d)" and wf: "distinct (map cmd_id (commands d))"
    and norm: "list_all command_consistent (commands d)" and ok: "\<And>c. c \<in> set cs \<Longrightarrow> test c"
    and keep: "\<And>c. test c \<Longrightarrow> command_consistent c \<Longrightarrow> command_consistent (wr c)"
    and wr: "\<And>c. cmd_id (wr c) = cmd_id c"
    and step: "\<And>d c. step d c = (let (hit, d1) = cas_command test wr (cmd_id c) d in if hit then lg c d1 else d1)"
    and lg: "\<And>c d. commands (lg c d) = commands d"
  shows "commands (foldl step d cs) = update_where (\<lambda>c. c \<in> set cs) wr (commands d)"
  using ids wf norm ok
proof (induction cs arbitrary: d)
  case Nil
  then show ?case by simp
next
  case (Cons c cs)
  have c: "c \<in> set (commands d)" "test c" "cmd_id c \<notin> cmd_id ` set cs" using Cons.prems by auto
  then have "normalize_command_id (PStr (cmd_id c)) = Some (cmd_id c)" "get_command d (cmd_id c) = Some c"
    using Cons.prems by (auto simp: command_consistent_def list_all_iff get_command_def row_by_iff)
  then have "commands (step d c) = update_where (\<lambda>e. cmd_id e = cmd_id c) wr (commands d)"
    using c(2) by (simp add: step cas_command_def lg put_command_def)
  also have one: "\<dots> = update_where (\<lambda>e. e = c) wr (commands d)"
    using distinct_keyD [OF Cons.prems(3) _ c(1)] unfolding update_where_def by (intro map_cong refl) auto
  finally have s: "commands (step d c) = update_where (\<lambda>e. e = c) wr (commands d)" .
  have "commands (foldl step (step d c) cs) = update_where (\<lambda>e. e \<in> set cs) wr (commands (step d c))"
  proof (rule Cons.IH)
    show "set cs \<subseteq> set (commands (step d c))"
      using Cons.prems(2) c(3) unfolding s by (force simp: set_update_where)
    show "distinct (map cmd_id (commands (step d c)))" unfolding s using Cons.prems(3) by (simp add: map_key_update_where wr)
    show "list_all command_consistent (commands (step d c))" using Cons.prems(4) keep [OF c(2)] unfolding s
      by (auto simp: list_all_iff set_update_where)
  qed (use Cons.prems in auto)
  also have "\<dots> = update_where (\<lambda>e. e \<in> set (c # cs)) wr (commands d)"
    unfolding s update_where_def using c(3) wr
    by (auto intro!: map_cong) (metis image_eqI wr)+
  finally show ?case by simp
qed

lemma attempt_commands_rows:
  assumes "wf_commands d"
  shows "distinct (map cmd_id (attempt_commands a st d))" "set (attempt_commands a st d) \<subseteq> set (commands d)"
    "distinct (map cmd_id (commands d))" "list_all command_consistent (commands d)"
    "update_where (\<lambda>c. c \<in> set (attempt_commands a st d)) f (commands d)
       = update_where (\<lambda>c. cmd_attempt_id c = a \<and> cmd_status c = st) f (commands d)"
  using assms by (auto simp: wf_commands_def attempt_commands_def update_where_def)

lemma gate_loop_rows:
  assumes "wf_commands d"
  shows "commands (foldl (reject_pending now) d (attempt_commands a Queued d))
      = update_where (\<lambda>c. cmd_attempt_id c = a \<and> cmd_status c = Queued) (rejected_row now) (commands d)" (is ?R)
    and "commands (foldl (forget_dispatching now) d (attempt_commands a Dispatching d))
      = update_where (\<lambda>c. cmd_attempt_id c = a \<and> cmd_status c = Dispatching) (forgotten_row now) (commands d)" (is ?F)
proof -
  show ?R
    unfolding attempt_commands_rows(5) [OF assms, symmetric]
    by (rule fold_cas [where test = "\<lambda>c. cmd_status c = Queued \<or> cmd_status c = Dispatching"
          and lg = "add_rejected_command_log ''control_gate_closed''"])
       (use attempt_commands_rows(1-4) [OF assms] in \<open>auto simp: attempt_commands_def reject_pending_def write_command_rejection_def
          rejected_row_def [abs_def] add_rejected_command_log_def log_control_def command_consistent_def\<close>)
  show ?F
    unfolding attempt_commands_rows(5) [OF assms, symmetric]
    by (rule fold_cas [where test = "\<lambda>c. cmd_status c = Dispatching"
          and lg = "log_control ''control.command.outcome_unknown'' (Some ''delivery_outcome_unknown'')"])
       (use attempt_commands_rows(1-4) [OF assms] in \<open>auto simp: attempt_commands_def forget_dispatching_def write_command_outcome_unknown_def
          forgotten_row_def [abs_def] log_control_def command_consistent_def\<close>)
qed

text \<open>
  C26. Closing the gate settles everything: afterwards the attempt is closed with no follow-up
  pending, and none of its commands is open; a command that was queued is rejected with
  \<open>control_gate_closed\<close>, one that was being dispatched has an unknown outcome, and every other row
  is as it was.
\<close>

theorem closing_settles_every_command:
  assumes wf: "wf_commands d"
  shows "commands (close_control_gate now a d) = map (closed_command now a) (commands d)
    \<and> \<not> (\<exists>c\<in>set (commands (close_control_gate now a d)). cmd_attempt_id c = a \<and> \<not> is_terminal_command c)"
proof -
  define d1 where "d1 = put_attempt a (\<lambda>r. r\<lparr>attempt_control_state := Closed, attempt_awaiting_follow_up_turn := False,
                 attempt_pending_follow_up_command_id := None, attempt_pending_follow_up_native_id := None,
                 attempt_force_close_requested := False\<rparr>) d"
  define d2 where "d2 = foldl (reject_pending now) d1 (attempt_commands a Queued d1)"
  have wf1: "wf_commands d1" unfolding d1_def put_attempt_def by (rule quiet_wf [OF wf put_attempt_quiet]) simp
  have wf2: "wf_commands d2" unfolding d2_def by (rule quiet_wf [OF wf1 gate_loops_quiet(1) [OF wf1]])
  have "commands (close_control_gate now a d) = update_where (\<lambda>c. cmd_attempt_id c = a \<and> cmd_status c = Dispatching) (forgotten_row now)
      (update_where (\<lambda>c. cmd_attempt_id c = a \<and> cmd_status c = Queued) (rejected_row now) (commands d1))"
    unfolding close_control_gate_def Let_def d1_def [symmetric] d2_def [symmetric] gate_loop_rows(2) [OF wf2]
    by (simp add: d2_def gate_loop_rows(1) [OF wf1])
  also have "\<dots> = map (closed_command now a) (commands d1)"
    unfolding update_where_def map_map
    by (intro map_cong refl) (simp add: closed_command_def rejected_row_def)
  also have "commands d1 = commands d" by (simp add: d1_def put_attempt_def)
  finally have rows: "commands (close_control_gate now a d) = map (closed_command now a) (commands d)" .
  have "is_terminal_command (closed_command now a c)" if "cmd_attempt_id (closed_command now a c) = a" for c
    using that by (cases "cmd_status c") (simp_all add: closed_command_def rejected_row_def forgotten_row_def is_terminal_command_def split: if_splits)
  then have "\<not> (\<exists>c\<in>set (map (closed_command now a) (commands d)). cmd_attempt_id c = a \<and> \<not> is_terminal_command c)"
    by (simp only: set_map bex_simps) blast
  then show ?thesis unfolding rows by (intro conjI refl)
qed

theorem closing_settles_every_command_witness:
  "map cmd_status (commands (close_control_gate 12 ''a2'' (run_ops control_db [CreateCommand 10 2 ulid_a ''steer'' hello ''u''])))
     = [Rejected]"
proof -
  let ?d = "run_ops control_db [CreateCommand 10 2 ulid_a ''steer'' hello ''u'']"
  have "wf_commands ?d" using ops_extends [OF control_db_wf] by blast
  moreover have "map cmd_status (map (closed_command 12 ''a2'') (commands ?d)) = [Rejected]" by code_simp
  ultimately show ?thesis using closing_settles_every_command by simp
qed

end
