(* ===== verification/Scheduler_State.thy ===== *)
theory Scheduler_State
  imports Turn_Safety Command_Gate
begin

text \<open>
  The rest of the scheduler's own state handling, \<^verbatim>\<open>scheduler.py\<close>: remediation of legacy contracts,
  the start-up audit, reconciliation of the in-memory sets with the database, the blocks of retained
  containers, the periodic lock cleanup, what a worker coroutine does when it ends, and the cycle.
  Docker is met through the record \<open>container_view\<close>: how looking the container of a task up, reading
  its state, stopping it, reading its log and removing it turn out.
\<close>

definition TERMINAL_WORKER_STUCK_SECONDS :: timestamp where
  "TERMINAL_WORKER_STUCK_SECONDS = 120 * 1000000"

definition LOCK_CLEANUP_INTERVAL_SECONDS :: timestamp where
  "LOCK_CLEANUP_INTERVAL_SECONDS = 300 * 1000000"

definition RETAINED_CONTAINER_CLEANUP_BATCH_SIZE :: nat where
  "RETAINED_CONTAINER_CLEANUP_BATCH_SIZE = 20"

definition QUIESCENT_CONTAINER_STATUSES :: "string list" where
  "QUIESCENT_CONTAINER_STATUSES = [''created'', ''exited'', ''dead'', ''removing'']"


section \<open>Remediation of legacy contracts\<close>

definition release_issue_lock :: "row_id \<Rightarrow> row_id \<Rightarrow> scheduler \<times> database \<Rightarrow> scheduler \<times> database" where
  "release_issue_lock issue owner = (\<lambda>(s, d).
     let (d', released) = release_issue_execution_lock d issue owner
     in (if released then s
         else emit_event ''issue_lock_release_owner_mismatch'' ''lock_not_owned_or_already_released'' (Some issue) (Some owner) s,
         d'))"

text \<open>The rejection of a task by the recovery pass; \<open>None\<close> when it is deferred or executable.\<close>

definition remediation_code :: "scheduler \<Rightarrow> database \<Rightarrow> task \<Rightarrow> string option" where
  "remediation_code s d t =
     (let attempt = load_current_attempt d (task_id t); running = (task_status t = RUNNING)
      in if running \<and> attempt = None \<and> worker_tasks s (task_id t) = Some False then None
         else (case require_task_executable_contract (get_snapshot d (task_id t)) (task_bundle d t) ''v2_only''
                 (if running then attempt else None) running of
                 Inl code \<Rightarrow> Some code | Inr _ \<Rightarrow> None))"

definition terminalized :: "timestamp \<Rightarrow> string \<Rightarrow> task \<Rightarrow> task" where
  "terminalized now code t =
     t\<lparr>task_status := (if task_status t \<noteq> RUNNING \<or> task_cancel_requested_at t \<noteq> None then CANCELLED else FAILED),
       task_error_message := Some code, task_completed_at := Some now,
       task_container_id := (if task_status t \<noteq> RUNNING then None else task_container_id t)\<rparr>"

definition remediate_task ::
  "timestamp \<Rightarrow> (scheduler \<times> database) \<times> task list \<Rightarrow> task \<Rightarrow> (scheduler \<times> database) \<times> task list" where
  "remediate_task now = (\<lambda>((s, d), ts) t. case remediation_code s d t of
     None \<Rightarrow> ((s, d), ts)
   | Some code \<Rightarrow> (release_issue_lock (task_issue_id t) (task_id t) (s, put_task (task_id t) (terminalized now code) d), ts @ [t]))"

definition remediate_legacy_contracts :: "timestamp \<Rightarrow> scheduler \<Rightarrow> database \<Rightarrow> row_id set \<times> scheduler \<times> database" where
  "remediate_legacy_contracts now s d =
     (let ((s1, d1), ts) = foldl (remediate_task now) ((s, d), []) (filter is_active (tasks d))
      in (task_id ` set ts, s1\<lparr>running_issues := running_issues s1 - task_issue_id ` set ts\<rparr>, d1))"

definition startup_sequence_audit :: "scheduler \<Rightarrow> database \<Rightarrow> scheduler" where
  "startup_sequence_audit s d = foldl (\<lambda>s t.
       if task_issue_sequence t = None
       then emit_event ''issue_sequence_integrity_failed'' ''active_null_sequence'' (Some (task_issue_id t)) (Some (task_id t)) s
       else if task_status t = QUEUED
       then emit_event ''issue_queue_head_promoted'' ''recovered'' (Some (task_issue_id t)) (Some (task_id t)) s
       else s) s
     (filter (\<lambda>t. is_active t \<and> (task_issue_sequence t = None \<or> task_status t = QUEUED)) (tasks d))"


section \<open>Reconciliation\<close>

definition reconcile_retained_issue_blocks :: "scheduler \<Rightarrow> database \<Rightarrow> scheduler" where
  "reconcile_retained_issue_blocks s d =
     (let still = task_issue_id ` set (filter (\<lambda>t. is_terminal t \<and> task_container_id t \<noteq> None) (tasks d))
      in s\<lparr>retained_blocked_issues := (retained_blocked_issues s \<union> still) - (retained_blocked_issues s \<union> still - still),
           running_issues := running_issues s \<union> still\<rparr>)"

definition block_issue_for_retained_container :: "task \<Rightarrow> scheduler \<Rightarrow> bool \<times> scheduler" where
  "block_issue_for_retained_container t s = (case task_container_id t of
     None \<Rightarrow> (False, s)
   | Some c \<Rightarrow> if \<not> non_blank c then (False, s)
       else (True, s\<lparr>retained_blocked_issues := insert (task_issue_id t) (retained_blocked_issues s),
                     running_issues := insert (task_issue_id t) (running_issues s)\<rparr>))"

definition clear_retained_container_reference :: "task \<Rightarrow> scheduler \<times> database \<Rightarrow> scheduler \<times> database" where
  "clear_retained_container_reference t = (\<lambda>(s, d).
     let d1 = put_task (task_id t) (\<lambda>u. u\<lparr>task_container_id := None\<rparr>) d;
         other = list_ex (\<lambda>u. task_issue_id u = task_issue_id t \<and> task_id u \<noteq> task_id t \<and> task_container_id u \<noteq> None) (tasks d1);
         hit = (\<lambda>l. lock_issue_id l = task_issue_id t \<and> lock_task_id l = task_id t \<and> \<not> other)
     in (if list_ex hit (locks d1)
         then s\<lparr>retained_blocked_issues := retained_blocked_issues s - {task_issue_id t},
                running_issues := running_issues s - {task_issue_id t}\<rparr>
         else s,
         d1\<lparr>locks := filter (\<lambda>l. \<not> hit l) (locks d1)\<rparr>))"

definition worker_handle_is_active :: "timestamp \<Rightarrow> row_id \<Rightarrow> task_status \<Rightarrow> scheduler \<Rightarrow> bool \<times> scheduler" where
  "worker_handle_is_active clock k st s =
     (if st = CANCELLED then (False, s)
      else if worker_tasks s k \<noteq> Some False then (False, s)
      else let first_seen = (case terminal_worker_seen_at s k of None \<Rightarrow> clock | Some x \<Rightarrow> x)
           in (clock - first_seen < TERMINAL_WORKER_STUCK_SECONDS,
               s\<lparr>terminal_worker_seen_at := (terminal_worker_seen_at s)(k \<mapsto> first_seen)\<rparr>))"

definition forget_worker_handle_if_finished :: "row_id \<Rightarrow> scheduler \<Rightarrow> scheduler" where
  "forget_worker_handle_if_finished k s =
     (if worker_tasks s k = Some False then s
      else s\<lparr>worker_tasks := (worker_tasks s)(k := None), terminal_worker_seen_at := (terminal_worker_seen_at s)(k := None)\<rparr>)"

text \<open>The rows of the tasks believed to run: which of them still count, and their issues.\<close>

definition reconcile_row ::
  "timestamp \<Rightarrow> scheduler \<times> row_id set \<times> row_id set \<Rightarrow> task \<Rightarrow> scheduler \<times> row_id set \<times> row_id set" where
  "reconcile_row clock = (\<lambda>(s, ts, issues) t.
     if task_status t = RUNNING
     then (s\<lparr>terminal_worker_seen_at := (terminal_worker_seen_at s)(task_id t := None)\<rparr>,
           insert (task_id t) ts, insert (task_issue_id t) issues)
     else let (active, s1) = worker_handle_is_active clock (task_id t) (task_status t) s
          in if active then (s1, insert (task_id t) ts, insert (task_issue_id t) issues) else (s1, ts, issues))"

text \<open>Dropping the handles of a set of tasks, in whatever order the set is walked.\<close>

definition forget_all :: "row_id set \<Rightarrow> scheduler \<Rightarrow> scheduler" where
  "forget_all ks s = s\<lparr>
     terminal_worker_seen_at := (\<lambda>k. if k \<in> ks \<and> worker_tasks s k \<noteq> Some False then None else terminal_worker_seen_at s k),
     worker_tasks := (\<lambda>k. if k \<in> ks \<and> worker_tasks s k \<noteq> Some False then None else worker_tasks s k)\<rparr>"

lemma forget_all_insert: "forget_worker_handle_if_finished k (forget_all ks s) = forget_all (insert k ks) s"
  by (auto simp: forget_all_def forget_worker_handle_if_finished_def fun_eq_iff)

definition reconcile_running_state :: "timestamp \<Rightarrow> scheduler \<Rightarrow> database \<Rightarrow> scheduler" where
  "reconcile_running_state clock s d =
     (let s0 = reconcile_retained_issue_blocks s d
      in if running_tasks s0 \<noteq> {}
         then
           let (s1, active, issues) = foldl (reconcile_row clock) (s0, {}, {})
                 (filter (\<lambda>t. task_id t \<in> running_tasks s0) (tasks d));
               s2 = forget_all (running_tasks s1 - active) s1
           in s2\<lparr>running_tasks := running_tasks s2 \<inter> active,
                 running_issues := running_issues s2 \<inter> (issues \<union> retained_blocked_issues s2)\<rparr>
         else
           let issues = task_issue_id ` set (filter (\<lambda>t. task_issue_id t \<in> running_issues s0 \<and> task_status t = RUNNING) (tasks d))
           in s0\<lparr>running_issues := running_issues s0 \<inter> (issues \<union> retained_blocked_issues s0)\<rparr>)"

definition maybe_cleanup_issue_locks :: "timestamp \<Rightarrow> scheduler \<times> database \<Rightarrow> scheduler \<times> database" where
  "maybe_cleanup_issue_locks now = (\<lambda>(s, d).
     if now - last_lock_cleanup_at s < LOCK_CLEANUP_INTERVAL_SECONDS then (s, d)
     else (s\<lparr>last_lock_cleanup_at := now\<rparr>, fst (cleanup_inactive_issue_execution_locks d)))"


section \<open>The end of a worker\<close>

definition finish_task_background :: "row_id \<Rightarrow> scheduler \<times> database \<Rightarrow> scheduler \<times> database" where
  "finish_task_background k = (\<lambda>(s, d).
     let s1 = s\<lparr>worker_tasks := (worker_tasks s)(k := None), terminal_worker_seen_at := (terminal_worker_seen_at s)(k := None),
                running_tasks := running_tasks s - {k}\<rparr>
     in case get_task d k of
          None \<Rightarrow> (s1, d)
        | Some t \<Rightarrow>
            if lock_owner d (task_issue_id t) \<noteq> None \<and> lock_owner d (task_issue_id t) \<noteq> Some k then (s1, d)
            else (case block_issue_for_retained_container t s1 of
                (True, s2) \<Rightarrow> (s2, d)
              | (False, s2) \<Rightarrow>
                  let (s3, d1) = release_issue_lock (task_issue_id t) k (s2\<lparr>running_issues := running_issues s2 - {task_issue_id t}\<rparr>, d)
                  in (s3, maybe_update_issue_status d1 (task_issue_id t))))"

definition bootstrap_failed :: "timestamp \<Rightarrow> bool \<Rightarrow> string \<Rightarrow> task \<Rightarrow> task" where
  "bootstrap_failed now cancelled message u =
     u\<lparr>task_status := (if cancelled then CANCELLED else FAILED), task_error_message := Some message,
       task_completed_at := Some now,
       task_raw_logs_finalized_at := (if task_container_id u = None then or_now (task_raw_logs_finalized_at u) now
                                      else task_raw_logs_finalized_at u)\<rparr>"

text \<open>\<open>policy\<close> is the code of the exception when it is an \<^verbatim>\<open>ExecutionPolicyError\<close>.\<close>

definition mark_worker_bootstrap_failed ::
  "timestamp \<Rightarrow> row_id \<Rightarrow> string option \<Rightarrow> scheduler \<times> database \<Rightarrow> scheduler \<times> database" where
  "mark_worker_bootstrap_failed now k policy = (\<lambda>(s, d). case get_task d k of
     None \<Rightarrow> (s, d)
   | Some t \<Rightarrow>
       if task_status t \<noteq> RUNNING then (s, d)
       else
         let cancelled = (task_cancel_requested_at t \<noteq> None);
             message = (if cancelled then ''cancelled_before_worker_startup''
                        else case policy of Some code \<Rightarrow> code | None \<Rightarrow> ''worker_failed_to_start'');
             d1 = put_task k (bootstrap_failed now cancelled message) d;
             (s2, d2) = (case block_issue_for_retained_container t s of
                 (True, s1) \<Rightarrow> (s1, d1)
               | (False, s1) \<Rightarrow>
                   let (s3, d3) = release_issue_lock (task_issue_id t) k (s1, d1)
                   in (s3\<lparr>running_issues := running_issues s3 - {task_issue_id t}\<rparr>, d3))
         in (s2, close_task_control_gates now k d2))"

text \<open>
  A worker that lost sight of Docker during its start hands the task over to a recovery coroutine,
  which takes the place of its handle; the task, its lock and its slots stay as they are.
\<close>

definition defer_task_recovery :: "row_id \<Rightarrow> scheduler \<times> database \<Rightarrow> scheduler \<times> database" where
  "defer_task_recovery k = (\<lambda>(s, d).
     (s\<lparr>worker_tasks := (worker_tasks s)(k \<mapsto> False),
        terminal_worker_seen_at := (terminal_worker_seen_at s)(k := None)\<rparr>, d))"

text \<open>How the executor call ends: it returns, it raises one of the two Docker errors, or another exception.\<close>

datatype background_outcome = ExecutorReturned | DockerViewLost | ExecutorRaised "string option"

definition run_task_background ::
  "timestamp \<Rightarrow> row_id \<Rightarrow> background_outcome \<Rightarrow> scheduler \<times> database \<Rightarrow> scheduler \<times> database" where
  "run_task_background now k outcome sd = (case outcome of
     ExecutorReturned \<Rightarrow> finish_task_background k sd
   | DockerViewLost \<Rightarrow> defer_task_recovery k sd
   | ExecutorRaised policy \<Rightarrow> finish_task_background k (mark_worker_bootstrap_failed now k policy sd))"


section \<open>Retained containers\<close>

datatype lookup_result = ContainerFound | ContainerNotFound | ContainerUnknown
datatype reload_result = Reloaded string | ReloadGone | ReloadFailed

record container_view =
  cv_lookup :: lookup_result
  cv_reload :: reload_result
  cv_stops :: bool
  cv_log_read :: bool
  cv_removes :: bool

definition reap_retained :: "timestamp \<Rightarrow> container_view \<Rightarrow> task \<Rightarrow> scheduler \<times> database \<Rightarrow> scheduler \<times> database" where
  "reap_retained now v t = (\<lambda>(s, d).
     let finalized = (\<lambda>d. put_task (task_id t) (\<lambda>u. u\<lparr>task_raw_logs_finalized_at := or_now (task_raw_logs_finalized_at u) now\<rparr>) d)
     in case cv_lookup v of
          ContainerNotFound \<Rightarrow> clear_retained_container_reference t (s, finalized d)
        | ContainerUnknown \<Rightarrow> (s, d)
        | ContainerFound \<Rightarrow> (case cv_reload v of
            ReloadGone \<Rightarrow> clear_retained_container_reference t (s, finalized d)
          | ReloadFailed \<Rightarrow> (s, d)
          | Reloaded st \<Rightarrow>
              if st \<notin> set QUIESCENT_CONTAINER_STATUSES \<and> \<not> cv_stops v then (s, d)
              else if task_raw_logs_finalized_at t = None \<and> \<not> cv_log_read v then (s, d)
              else let d1 = finalized d
                   in if \<not> cv_removes v then (s, d1) else clear_retained_container_reference t (s, d1)))"

definition reap_candidate :: "(task \<Rightarrow> container_view) \<Rightarrow> timestamp \<Rightarrow> scheduler \<times> database \<Rightarrow> row_id \<Rightarrow> scheduler \<times> database" where
  "reap_candidate view now = (\<lambda>(s, d) k.
     if worker_tasks s k = Some False then (s, d)
     else case get_task d k of
       None \<Rightarrow> (s, d)
     | Some t \<Rightarrow> if is_terminal t \<and> task_container_id t \<noteq> None then reap_retained now (view t) t (s, d) else (s, d))"

text \<open>
  The rows are re-read under a lock before each is reaped; \<open>updated_at\<close> is the column the candidates
  are ordered by.
\<close>

definition cleanup_retained_container_batch ::
  "(row_id \<Rightarrow> timestamp) \<Rightarrow> (task \<Rightarrow> container_view) \<Rightarrow> timestamp \<Rightarrow> scheduler \<times> database \<Rightarrow> scheduler \<times> database" where
  "cleanup_retained_container_batch updated_at view now = (\<lambda>(s, d).
     let candidates = take RETAINED_CONTAINER_CLEANUP_BATCH_SIZE
           (sort_key (\<lambda>t. (updated_at (task_id t), task_id t))
              (filter (\<lambda>t. is_terminal t \<and> task_container_id t \<noteq> None \<and> worker_tasks s (task_id t) \<noteq> Some False) (tasks d)))
     in foldl (reap_candidate view now) (s, d) (map task_id candidates))"


section \<open>The cycle\<close>

definition run_cycle ::
  "(string \<Rightarrow> string) \<Rightarrow> settings \<Rightarrow> (database \<Rightarrow> row_id \<Rightarrow> bool) \<Rightarrow> probe_env \<Rightarrow> timestamp \<Rightarrow> timestamp
     \<Rightarrow> scheduler \<times> database \<Rightarrow> scheduler \<times> database" where
  "run_cycle sha256 cfg over_limit env now clock = (\<lambda>(s, d).
     let (s1, d1) = (if is_v2_only (cfg_harness_execution_mode cfg) then snd (remediate_legacy_contracts now s d) else (s, d));
         (s2, d2) = maybe_cleanup_issue_locks now (s1, d1);
         s3 = reconcile_running_state clock s2 d2;
         (s4, d4) = mark_eligible_as_queued sha256 cfg now s3 d2
     in if cfg_max_concurrency cfg \<le> get_running_count d4 then (s4, d4)
        else case get_next_task cfg s4 d4 of
          None \<Rightarrow> (s4, d4)
        | Some t \<Rightarrow>
            if task_issue_id t \<in> running_issues s4 then (s4, d4)
            else execute_task sha256 cfg over_limit env now t s4 d4)"


section \<open>The order and the locks survive\<close>

lemma keeps_locks_filter:
  assumes "wf_db d" "locks d' = filter (\<lambda>l. \<not> gone l) (locks d)" "tasks d' = tasks d"
    and "\<And>l t. l \<in> set (locks d) \<Longrightarrow> gone l \<Longrightarrow> t \<in> set (tasks d) \<Longrightarrow> task_id t = lock_task_id l \<Longrightarrow> task_status t \<noteq> RUNNING"
  shows "keeps_locks d d'"
  unfolding keeps_locks_def
proof (intro ballI impI)
  fix t assume t: "t \<in> set (tasks d')" "task_status t = RUNNING \<and> lock_owner d (task_issue_id t) = Some (task_id t)"
  then obtain l where l: "l \<in> set (locks d)" "lock_issue_id l = task_issue_id t" "lock_task_id l = task_id t"
    using lock_owner_Some [OF assms(1)] by auto
  have "\<not> gone l" using assms(4) [OF l(1)] t l(3) assms(3) by auto
  then have "l \<in> set (locks d')" using l(1) assms(2) by simp
  moreover have "distinct (map lock_issue_id (locks d'))" using wf_dbD(3) [OF assms(1)] assms(2) by auto
  ultimately show "lock_owner d' (task_issue_id t) = Some (task_id t)"
    using l row_by_unique [of lock_issue_id "locks d'" l] by (simp add: lock_owner_def get_lock_def)
qed

lemma ok_step_drop_locks:
  assumes "wf_db d" "d' = d\<lparr>locks := filter (\<lambda>l. \<not> gone l) (locks d)\<rparr>"
    and "\<And>l t. l \<in> set (locks d) \<Longrightarrow> gone l \<Longrightarrow> t \<in> set (tasks d) \<Longrightarrow> task_id t = lock_task_id l \<Longrightarrow> task_status t \<noteq> RUNNING"
  shows "ok_step d d'"
proof (rule ok_step_locks)
  show "wf_db d'" using assms(1) unfolding assms(2) by (auto simp: wf_db_def)
  show "keeps_locks d d'" by (rule keeps_locks_filter [OF assms(1) _ _ assms(3)]) (simp_all add: assms(2))
qed (simp add: assms(2))

lemma release_ok_step:
  assumes "wf_db d" "\<And>t. t \<in> set (tasks d) \<Longrightarrow> task_id t = owner \<Longrightarrow> task_status t \<noteq> RUNNING"
  shows "ok_step d (snd (release_issue_lock issue owner (s, d)))"
proof -
  have "snd (release_issue_lock issue owner (s, d))
      = d\<lparr>locks := filter (\<lambda>l. \<not> (lock_issue_id l = issue \<and> lock_task_id l = owner)) (locks d)\<rparr>"
    by (simp add: release_issue_lock_def release_issue_execution_lock_def Let_def)
  then show ?thesis by (rule ok_step_drop_locks [OF assms(1)]) (use assms(2) in auto)
qed

lemma cleanup_locks_ok_step:
  assumes "wf_db d"
  shows "ok_step d (snd (maybe_cleanup_issue_locks now (s, d)))"
proof -
  have "task_status t \<noteq> RUNNING" if "is_stale_owner d (task_id t)" "t \<in> set (tasks d)" for t
    using that get_task_iff [OF assms, of "task_id t" t] by (auto simp: is_stale_owner_def is_active_iff)
  then have "ok_step d (d\<lparr>locks := filter (\<lambda>l. \<not> (lock_issue_id l, lock_task_id l) \<in>
      set (map (\<lambda>l. (lock_issue_id l, lock_task_id l)) (filter (\<lambda>l. is_stale_owner d (lock_task_id l)) (locks d)))) (locks d)\<rparr>)"
    by (intro ok_step_drop_locks [OF assms refl]) auto
  then show ?thesis
    using assms by (simp add: maybe_cleanup_issue_locks_def cleanup_inactive_issue_execution_locks_def Let_def)
qed

lemma put_task_status:
  assumes "t \<in> set (tasks (put_task k f d))" "task_id t = k" "\<And>u. task_status (f u) \<noteq> RUNNING" "keeps_turn f"
  shows "task_status t \<noteq> RUNNING"
  using assms by (auto simp: set_update_where keeps_turn_def)

lemma terminalize_release_ok_step:
  assumes "wf_db d" "keeps_turn f" "\<And>u. \<not> is_active (f u)"
  shows "ok_step d (snd (release_issue_lock issue k (s, put_task k f d)))"
proof -
  have ok: "ok_step d (put_task k f d)" by (rule ok_step_fail [OF assms])
  have "task_status (f u) \<noteq> RUNNING" for u using assms(3) [of u] by (auto simp: is_active_iff)
  then show ?thesis
    by (intro ok_step_trans [OF ok release_ok_step [OF ok_step_wf [OF ok]]]) (blast dest: put_task_status intro: assms(2))
qed

lemma remediate_ok_step:
  assumes "wf_db d"
  shows "ok_step d (snd (snd (remediate_legacy_contracts now s d)))"
proof -
  have "ok_step d (snd (fst (foldl (remediate_task now) ((s, d), ts) us)))" if "wf_db d" for us ts s d
    using that
  proof (induction us arbitrary: s d ts)
    case (Cons u us)
    obtain s1 d1 ts1 where step: "remediate_task now ((s, d), ts) u = ((s1, d1), ts1)" by (metis prod_cases3 prod.collapse)
    have "ok_step d d1"
    proof (cases "remediation_code s d u")
      case None
      then show ?thesis using step Cons.prems by (simp add: remediate_task_def)
    next
      case (Some code)
      have "ok_step d (snd (release_issue_lock (task_issue_id u) (task_id u) (s, put_task (task_id u) (terminalized now code) d)))"
        by (rule terminalize_release_ok_step [OF Cons.prems]) (auto simp: keeps_turn_def terminalized_def is_active_iff)
      then show ?thesis using step Some by (simp add: remediate_task_def)
    qed
    then show ?case using Cons.IH [of d1 s1 ts1] ok_step_wf ok_step_trans by (simp add: step)
  qed simp
  from this [OF assms, of s "[]" "filter is_active (tasks d)"] show ?thesis
    by (simp add: remediate_legacy_contracts_def Let_def split_def)
qed

lemma clear_retained_ok_step:
  assumes "wf_db d" "\<And>u. u \<in> set (tasks d) \<Longrightarrow> task_id u = task_id t \<Longrightarrow> task_status u \<noteq> RUNNING"
  shows "ok_step d (snd (clear_retained_container_reference t (s, d)))"
proof -
  have ok: "ok_step d (put_task (task_id t) (\<lambda>u. u\<lparr>task_container_id := None\<rparr>) d)" (is "ok_step d ?d1")
    using assms(1) by (intro ok_step_put_task) (auto simp: keeps_turn_def is_active_iff)
  have "task_status u \<noteq> RUNNING" if "u \<in> set (tasks ?d1)" "task_id u = task_id t" for u
    using that assms(2) by (auto simp: set_update_where)
  then show ?thesis
    unfolding clear_retained_container_reference_def Let_def split snd_conv
    by (intro ok_step_trans [OF ok ok_step_drop_locks [OF ok_step_wf [OF ok] refl]]) auto
qed

lemma finish_background_ok_step:
  assumes "wf_db d" "\<And>t. t \<in> set (tasks d) \<Longrightarrow> task_id t = k \<Longrightarrow> task_status t \<noteq> RUNNING"
  shows "ok_step d (snd (finish_task_background k (s, d)))"
proof -
  have "ok_step d (maybe_update_issue_status (snd (release_issue_lock i k (s', d))) i')" for i i' s'
    by (intro ok_step_maybe_update release_ok_step assms)
  then show ?thesis
    using assms(1)
    by (auto simp: finish_task_background_def Let_def split_def split: option.split bool.split)
qed

text \<open>Whatever the state of the task: the tasks themselves are not touched.\<close>

lemma finish_background_frames:
  assumes "wf_db d"
  shows "tasks (snd (finish_task_background k (s, d))) = tasks d" "wf_db (snd (finish_task_background k (s, d)))"
proof -
  have "tasks (snd (release_issue_lock i k (s', d))) = tasks d" "wf_db (snd (release_issue_lock i k (s', d)))" for i s'
    using wf_db_release [OF assms] by (simp_all add: release_issue_lock_def split_def Let_def lock_frames)
  then show "tasks (snd (finish_task_background k (s, d))) = tasks d" "wf_db (snd (finish_task_background k (s, d)))"
    using assms
    by (auto simp: finish_task_background_def Let_def split_def intro!: maybe_update_issue_status_wf split: option.split bool.split)
qed

lemma close_gates_same_queue: "same_queue d (close_task_control_gates now k d)"
proof -
  have cas: "same_queue d (snd (cas_command test wr k d))" for test wr k d
    by (auto simp: cas_command_def put_command_def same_queue_def split: option.split)
  have one: "same_queue d (reject_pending now d c)" "same_queue d (forget_dispatching now d c)" for d c
    using cas [of d _ _ "cmd_id c"]
    by (auto simp: reject_pending_def forget_dispatching_def write_command_rejection_def write_command_outcome_unknown_def
        add_rejected_command_log_def log_control_def same_queue_def split_def Let_def)
  have loop: "same_queue d (foldl f d xs)" if "\<And>d x. same_queue d (f d x)" for f xs and d :: database
    using that by (induction xs arbitrary: d) (auto intro: same_queue_trans)
  have "same_queue d (close_control_gate now a d)" for a d
    unfolding close_control_gate_def Let_def
    by (rule same_queue_trans [OF same_queue_trans [OF _ loop] loop]) (auto simp: put_attempt_def same_queue_def one [unfolded same_queue_def])
  then show ?thesis unfolding close_task_control_gates_def by (rule loop)
qed

lemma bootstrap_failed_ok_step:
  assumes "wf_db d"
  shows "ok_step d (snd (mark_worker_bootstrap_failed now k policy (s, d)))"
proof (cases "get_task d k")
  case (Some t)
  have f: "keeps_turn (bootstrap_failed now c m)" "\<not> is_active (bootstrap_failed now c m u)" for c m u
    by (simp_all add: keeps_turn_def is_active_iff bootstrap_failed_def)
  have close: "ok_step d (close_task_control_gates now k e)" if "ok_step d e" for e
    by (rule ok_step_trans [OF that same_queue_ok_step [OF close_gates_same_queue ok_step_wf [OF that]]])
  show ?thesis
    using assms Some close [OF ok_step_fail [OF assms f]] close [OF terminalize_release_ok_step [OF assms f]]
    by (auto simp: mark_worker_bootstrap_failed_def Let_def split_def split: bool.split)
qed (use assms in \<open>simp add: mark_worker_bootstrap_failed_def\<close>)

lemma reap_ok_step:
  assumes "wf_db d" "get_task d (task_id t) = Some t" "\<not> is_active t"
  shows "ok_step d (snd (reap_retained now v t (s, d)))"
proof -
  let ?f = "\<lambda>u. u\<lparr>task_raw_logs_finalized_at := or_now (task_raw_logs_finalized_at u) now\<rparr>"
  have idle: "task_status u \<noteq> RUNNING" if "u \<in> set (tasks d)" "task_id u = task_id t" for u
    using that assms get_task_iff [OF assms(1)] same_task [OF assms(1)] by (metis is_active_iff)
  have ok: "ok_step d (put_task (task_id t) ?f d)" using assms(1) by (intro ok_step_put_task) (auto simp: keeps_turn_def is_active_iff)
  have "ok_step d (snd (clear_retained_container_reference t (s, put_task (task_id t) ?f d)))"
    by (rule ok_step_trans [OF ok clear_retained_ok_step [OF ok_step_wf [OF ok]]]) (use idle in \<open>auto simp: set_update_where\<close>)
  then show ?thesis
    using ok assms(1) by (simp add: reap_retained_def Let_def split: lookup_result.split reload_result.split)
qed

lemma retained_batch_ok_step:
  assumes "wf_db d"
  shows "ok_step d (snd (cleanup_retained_container_batch updated_at view now (s, d)))"
proof -
  have one: "ok_step d (snd (reap_candidate view now (s, d) k))" if "wf_db d" for s d k
    using that reap_ok_step [OF that] get_taskD [of d k] by (auto simp: reap_candidate_def split: option.split)
  have "wf_db d \<Longrightarrow> ok_step d (snd (foldl (reap_candidate view now) (s, d) ks))" for ks
  proof (induction ks arbitrary: s d)
    case (Cons k ks)
    obtain s1 d1 where step: "reap_candidate view now (s, d) k = (s1, d1)" by fastforce
    with one [OF Cons.prems, of s k] have "ok_step d d1" by simp
    then show ?case using Cons.IH [of d1 s1] step ok_step_trans ok_step_wf by (metis foldl_Cons)
  qed simp
  then show ?thesis using assms by (simp add: cleanup_retained_container_batch_def Let_def)
qed


section \<open>What remediation leaves\<close>

lemma release_issue_lock_frames [simp]:
  "worker_tasks (fst (release_issue_lock i k sd)) = worker_tasks (fst sd)"
  "tasks (snd (release_issue_lock i k sd)) = tasks (snd sd)" "attempts (snd (release_issue_lock i k sd)) = attempts (snd sd)"
  "snapshots (snd (release_issue_lock i k sd)) = snapshots (snd sd)" "bundles (snd (release_issue_lock i k sd)) = bundles (snd sd)"
  by (auto simp: release_issue_lock_def release_issue_execution_lock_def Let_def split_def)

lemma remediation_code_cong:
  assumes "worker_tasks s' = worker_tasks s" "attempts d' = attempts d" "snapshots d' = snapshots d" "bundles d' = bundles d"
  shows "remediation_code s' d' = remediation_code s d"
  using assms
  by (simp add: remediation_code_def fun_eq_iff load_current_attempt_def get_snapshot_def task_bundle_def get_bundle_def
      Let_def cong: option.case_cong)

definition remediated :: "timestamp \<Rightarrow> string option \<Rightarrow> task \<Rightarrow> task" where
  "remediated now code t = (case code of None \<Rightarrow> t | Some c \<Rightarrow> terminalized now c t)"

lemma remediate_task_step:
  assumes "remediate_task now ((s, d), ts) u = ((s1, d1), ts1)"
  shows "tasks d1 = update_where (\<lambda>t. task_id t = task_id u) (remediated now (remediation_code s d u)) (tasks d)"
    "remediation_code s1 d1 = remediation_code s d" "ts1 = ts @ (if remediation_code s d u = None then [] else [u])"
    "locks d1 = filter (\<lambda>l. remediation_code s d u \<noteq> None \<longrightarrow> \<not> (lock_issue_id l = task_issue_id u \<and> lock_task_id l = task_id u)) (locks d)"
proof -
  let ?sd = "\<lambda>code. (s, put_task (task_id u) (terminalized now code) d)"
  have res: "(s1, d1) = release_issue_lock (task_issue_id u) (task_id u) (?sd code)" if "remediation_code s d u = Some code" for code
    using assms that by (simp add: remediate_task_def)
  have d1: "s1 = fst (release_issue_lock (task_issue_id u) (task_id u) (?sd code))"
      "d1 = snd (release_issue_lock (task_issue_id u) (task_id u) (?sd code))" if "remediation_code s d u = Some code" for code
    using arg_cong [OF res [OF that], of fst] arg_cong [OF res [OF that], of snd] by simp_all
  have stay: "s1 = s \<and> d1 = d" if "remediation_code s d u = None" using assms that by (simp add: remediate_task_def)
  show "tasks d1 = update_where (\<lambda>t. task_id t = task_id u) (remediated now (remediation_code s d u)) (tasks d)"
  proof (cases "remediation_code s d u")
    case None
    have "remediated now None = (\<lambda>t. t)" by (simp add: remediated_def fun_eq_iff)
    then show ?thesis using stay None by (simp add: update_where_def)
  next
    case (Some code)
    have "remediated now (Some code) = terminalized now code" by (simp add: remediated_def fun_eq_iff)
    then show ?thesis by (simp only: Some d1(2) [OF Some] release_issue_lock_frames snd_conv put_task_frames)
  qed
  show "remediation_code s1 d1 = remediation_code s d"
  proof (cases "remediation_code s d u")
    case (Some code)
    show ?thesis
      by (rule remediation_code_cong) (simp_all only: d1 [OF Some] release_issue_lock_frames snd_conv fst_conv put_task_frames)
  qed (use stay in simp)
  show "ts1 = ts @ (if remediation_code s d u = None then [] else [u])"
    using assms by (auto simp: remediate_task_def split: option.splits)
  show "locks d1 = filter (\<lambda>l. remediation_code s d u \<noteq> None \<longrightarrow> \<not> (lock_issue_id l = task_issue_id u \<and> lock_task_id l = task_id u)) (locks d)"
  proof (cases "remediation_code s d u")
    case (Some code)
    then show ?thesis by (simp add: d1(2) [OF Some] release_issue_lock_def release_issue_execution_lock_def split_def Let_def)
  qed (use stay in simp)
qed

lemma remediate_fold:
  assumes "distinct (map task_id us)" "foldl (remediate_task now) ((s, d), ts) us = ((s', d'), ts')"
  shows "tasks d' = map (\<lambda>t. case row_by task_id (task_id t) us of None \<Rightarrow> t | Some u \<Rightarrow> remediated now (remediation_code s d u) t) (tasks d)
    \<and> remediation_code s' d' = remediation_code s d \<and> ts' = ts @ filter (\<lambda>u. remediation_code s d u \<noteq> None) us
    \<and> locks d' = filter (\<lambda>l. \<forall>u\<in>set us. remediation_code s d u \<noteq> None \<longrightarrow> \<not> (lock_issue_id l = task_issue_id u \<and> lock_task_id l = task_id u)) (locks d)"
  using assms
proof (induction us arbitrary: s d ts)
  case (Cons u us)
  obtain s1 d1 ts1 where step: "remediate_task now ((s, d), ts) u = ((s1, d1), ts1)" by (metis prod_cases3 prod.collapse)
  note one = remediate_task_step [OF step]
  have run: "foldl (remediate_task now) ((s1, d1), ts1) us = ((s', d'), ts')" using Cons.prems(2) step by simp
  have ih: "tasks d' = map (\<lambda>t. case row_by task_id (task_id t) us of None \<Rightarrow> t
        | Some u \<Rightarrow> remediated now (remediation_code s d u) t) (tasks d1)"
      "remediation_code s' d' = remediation_code s d" "ts' = ts1 @ filter (\<lambda>u. remediation_code s d u \<noteq> None) us"
      "locks d' = filter (\<lambda>l. \<forall>u\<in>set us. remediation_code s d u \<noteq> None \<longrightarrow> \<not> (lock_issue_id l = task_issue_id u \<and> lock_task_id l = task_id u)) (locks d1)"
    using Cons.IH [OF _ run, unfolded one(2)] Cons.prems(1) by simp_all
  have same: "task_id (remediated now c t) = task_id t" for c t by (simp add: remediated_def terminalized_def split: option.split)
  have none: "row_by task_id (task_id u) us = None" using Cons.prems(1) by (auto simp: row_by_None_iff)
  have "tasks d' = map (\<lambda>t. case row_by task_id (task_id t) (u # us) of None \<Rightarrow> t
        | Some u \<Rightarrow> remediated now (remediation_code s d u) t) (tasks d)"
    unfolding ih(1) one(1) update_where_def map_map by (intro map_cong refl) (auto simp: same none)
  moreover have "locks d' = filter (\<lambda>l. \<forall>u\<in>set (u # us). remediation_code s d u \<noteq> None
      \<longrightarrow> \<not> (lock_issue_id l = task_issue_id u \<and> lock_task_id l = task_id u)) (locks d)"
    unfolding ih(4) one(4) by (auto intro!: filter_cong)
  ultimately show ?case using ih(2,3) one(3) by simp
qed simp

lemma remediation_tables:
  assumes wf: "wf_db d" and run: "remediate_legacy_contracts now s d = (ids, s', d')"
  shows "tasks d' = map (\<lambda>t. if is_active t then remediated now (remediation_code s d t) t else t) (tasks d)"
    "ids = task_id ` {t \<in> set (tasks d). is_active t \<and> remediation_code s d t \<noteq> None}"
    "locks d' = filter (\<lambda>l. \<forall>u\<in>set (tasks d). is_active u \<and> remediation_code s d u \<noteq> None
       \<longrightarrow> \<not> (lock_issue_id l = task_issue_id u \<and> lock_task_id l = task_id u)) (locks d)"
proof -
  let ?us = "filter is_active (tasks d)"
  obtain s1 d1 ts where fold: "foldl (remediate_task now) ((s, d), []) ?us = ((s1, d1), ts)" by (metis prod_cases3 prod.collapse)
  have us: "distinct (map task_id ?us)" using wf_dbD(1) [OF wf] by auto
  note r = remediate_fold [OF us fold]
  have d': "d' = d1" "ids = task_id ` set ts" using run fold by (auto simp: remediate_legacy_contracts_def)
  have "row_by task_id (task_id t) ?us = (if is_active t then Some t else None)" if "t \<in> set (tasks d)" for t
    using that row_by_iff [OF us, of "task_id t" t] same_task [OF wf that]
    by (cases "is_active t") (auto simp: row_by_None_iff)
  then have "map (\<lambda>t. case row_by task_id (task_id t) ?us of None \<Rightarrow> t | Some u \<Rightarrow> remediated now (remediation_code s d u) t) (tasks d)
      = map (\<lambda>t. if is_active t then remediated now (remediation_code s d t) t else t) (tasks d)"
    by (intro map_cong refl) simp
  with conjunct1 [OF r] show "tasks d' = map (\<lambda>t. if is_active t then remediated now (remediation_code s d t) t else t) (tasks d)"
    unfolding d'(1) by (rule trans)
  show "ids = task_id ` {t \<in> set (tasks d). is_active t \<and> remediation_code s d t \<noteq> None}" using r d'(2) by auto
  show "locks d' = filter (\<lambda>l. \<forall>u\<in>set (tasks d). is_active u \<and> remediation_code s d u \<noteq> None
       \<longrightarrow> \<not> (lock_issue_id l = task_issue_id u \<and> lock_task_id l = task_id u)) (locks d)"
    using r d'(1) by (auto intro!: filter_cong)
qed

lemma remediation_locks:
  assumes wf: "wf_db d" and run: "remediate_legacy_contracts now s d = (ids, s', d')"
  shows "t \<in> set (tasks d) \<Longrightarrow> is_active t \<Longrightarrow> remediation_code s d t \<noteq> None \<Longrightarrow> lock_owner d' (task_issue_id t) \<noteq> Some (task_id t)"
    and "lock_owner d i = Some k \<Longrightarrow> k \<notin> ids \<Longrightarrow> lock_owner d' i = Some k"
proof -
  note locks' = remediation_tables(3) [OF wf run]
  have wf': "wf_db d'" using remediate_ok_step [OF wf, of now s] run ok_step_wf by simp
  show "t \<in> set (tasks d) \<Longrightarrow> is_active t \<Longrightarrow> remediation_code s d t \<noteq> None \<Longrightarrow> lock_owner d' (task_issue_id t) \<noteq> Some (task_id t)"
    by (auto simp: lock_owner_Some [OF wf'] locks')
  show "lock_owner d i = Some k \<Longrightarrow> k \<notin> ids \<Longrightarrow> lock_owner d' i = Some k"
    unfolding lock_owner_Some [OF wf'] lock_owner_Some [OF wf] locks' remediation_tables(2) [OF wf run] by force
qed

text \<open>
  C30. The remediation pass under \<open>v2_only\<close>, row by row. An active task whose frozen contract is
  refused under \<open>v2_only\<close> (a running task together with its latest attempt) becomes failed when it was
  running without a requested cancellation and cancelled otherwise, records the code and the time,
  keeps its container only when it was running, and no longer owns the lock of its issue. The only
  refused task it leaves alone is a running one without an attempt whose local worker is alive.
  Every other row is unchanged and no task outside the returned set loses a lock.
\<close>

theorem remediation_is_complete:
  assumes wf: "wf_db d" and run: "remediate_legacy_contracts now s d = (ids, s', d')" and t: "t \<in> set (tasks d)"
  shows "let running = (task_status t = RUNNING); attempt = load_current_attempt d (task_id t);
             bootstrapping = (running \<and> attempt = None \<and> worker_tasks s (task_id t) = Some False)
         in (case require_task_executable_contract (get_snapshot d (task_id t)) (task_bundle d t) ''v2_only''
                    (if running then attempt else None) running of
               Inl code \<Rightarrow> is_active t \<and> \<not> bootstrapping \<longrightarrow>
                 task_id t \<in> ids \<and> lock_owner d' (task_issue_id t) \<noteq> Some (task_id t)
                 \<and> get_task d' (task_id t) = Some (t\<lparr>task_status := (if running \<and> task_cancel_requested_at t = None then FAILED else CANCELLED),
                     task_error_message := Some code, task_completed_at := Some now,
                     task_container_id := (if running then task_container_id t else None)\<rparr>)
             | Inr _ \<Rightarrow> task_id t \<notin> ids \<and> get_task d' (task_id t) = Some t)
          \<and> (\<not> is_active t \<or> bootstrapping \<longrightarrow> task_id t \<notin> ids \<and> get_task d' (task_id t) = Some t)
          \<and> map task_id (tasks d') = map task_id (tasks d)
          \<and> (\<forall>i k. lock_owner d i = Some k \<and> k \<notin> ids \<longrightarrow> lock_owner d' i = Some k)"
proof -
  let ?f = "\<lambda>t. if is_active t then remediated now (remediation_code s d t) t else t"
  note tables = remediation_tables [OF wf run] and locked = remediation_locks [OF wf run]
  have wf': "wf_db d'" using remediate_ok_step [OF wf, of now s] run ok_step_wf by simp
  have key: "task_id (?f u) = task_id u" for u by (simp add: remediated_def terminalized_def split: option.split)
  have row: "get_task d' (task_id t) = Some (?f t)"
    using t key [of t] by (simp add: get_task_iff [OF wf'] tables(1))
  have ids: "task_id t \<in> ids \<longleftrightarrow> is_active t \<and> remediation_code s d t \<noteq> None"
    using t same_task [OF wf] by (auto simp: tables(2))
  have keys: "map task_id (tasks d') = map task_id (tasks d)"
    unfolding tables(1) map_map by (intro map_cong refl) (simp only: comp_apply key)
  have "lock_owner d' (task_issue_id t) \<noteq> Some (task_id t)" if "is_active t" "remediation_code s d t \<noteq> None"
    using locked(1) [OF t that] .
  moreover have "\<forall>i k. lock_owner d i = Some k \<and> k \<notin> ids \<longrightarrow> lock_owner d' i = Some k" using locked(2) by blast
  ultimately show ?thesis
    unfolding Let_def row ids keys
    by (auto simp: remediation_code_def remediated_def terminalized_def Let_def split: sum.splits)
qed

text \<open>A running task without any contract and without a worker, whose issue is locked by it, fails.\<close>

definition legacy_running_db :: database where
  "legacy_running_db = sample_db [sample_task 2 7 RUNNING (Some 2), sample_task 1 7 COMPLETED (Some 1)] [sample_lock 7 2]"

theorem remediation_is_complete_witness:
  "map task_status (tasks (snd (snd (remediate_legacy_contracts 100 idle_scheduler legacy_running_db)))) = [FAILED, COMPLETED]
     \<and> lock_owner (snd (snd (remediate_legacy_contracts 100 idle_scheduler legacy_running_db))) 7 \<noteq> Some 2"
proof -
  let ?t = "sample_task 2 7 RUNNING (Some 2)"
  obtain ids s' d' where run: "remediate_legacy_contracts 100 idle_scheduler legacy_running_db = (ids, s', d')" by (metis prod_cases3)
  have "wf_db legacy_running_db" by (simp add: legacy_running_db_def wf_db_def unique_sequences_def sample_defs)
  moreover have "?t \<in> set (tasks legacy_running_db)" by (simp add: legacy_running_db_def sample_defs)
  moreover have "is_active ?t" "task_issue_id ?t = 7" "task_id ?t = 2" by (simp_all add: sample_defs is_active_iff)
  moreover have "isl (require_task_executable_contract (get_snapshot legacy_running_db 2) (task_bundle legacy_running_db ?t) ''v2_only''
      (if task_status ?t = RUNNING then load_current_attempt legacy_running_db 2 else None) (task_status ?t = RUNNING))"
    "worker_tasks idle_scheduler 2 = None" by code_simp+
  ultimately have "lock_owner d' 7 \<noteq> Some 2"
    using remediation_is_complete [OF _ run, of ?t] by (auto simp: Let_def split: sum.splits)
  moreover have "map task_status (tasks (snd (snd (remediate_legacy_contracts 100 idle_scheduler legacy_running_db)))) = [FAILED, COMPLETED]"
    by code_simp
  ultimately show ?thesis by (simp add: run)
qed


section \<open>What reconciliation keeps\<close>

lemma reconcile_row_frames:
  assumes "reconcile_row clock (s, ts, js) t = (s', ts', js')"
  shows "worker_tasks s' = worker_tasks s" "running_tasks s' = running_tasks s" "running_issues s' = running_issues s"
    "retained_blocked_issues s' = retained_blocked_issues s"
    "k \<noteq> task_id t \<Longrightarrow> terminal_worker_seen_at s' k = terminal_worker_seen_at s k"
  using assms
  by (auto simp: reconcile_row_def worker_handle_is_active_def Let_def split: if_splits)

text \<open>A task that ended in the database still counts while its worker cleans up, for two minutes.\<close>

definition lingering :: "timestamp \<Rightarrow> scheduler \<Rightarrow> task \<Rightarrow> bool" where
  "lingering clock s t \<longleftrightarrow> task_status t \<noteq> CANCELLED \<and> worker_tasks s (task_id t) = Some False
     \<and> clock - (case terminal_worker_seen_at s (task_id t) of None \<Rightarrow> clock | Some x \<Rightarrow> x) < TERMINAL_WORKER_STUCK_SECONDS"

lemma reconcile_row_active:
  assumes "reconcile_row clock (s, ts, js) t = (s', ts', js')"
  shows "ts' = (if task_status t = RUNNING \<or> lingering clock s t then insert (task_id t) ts else ts)"
    "js' = (if task_status t = RUNNING \<or> lingering clock s t then insert (task_issue_id t) js else js)"
  using assms
  by (auto simp: reconcile_row_def worker_handle_is_active_def lingering_def Let_def split: if_splits)

lemma reconcile_fold:
  assumes "distinct (map task_id us)" "foldl (reconcile_row clock) (s, ts, js) us = (s', ts', js')"
  shows "worker_tasks s' = worker_tasks s \<and> running_tasks s' = running_tasks s \<and> running_issues s' = running_issues s
    \<and> retained_blocked_issues s' = retained_blocked_issues s
    \<and> ts' = ts \<union> task_id ` {t \<in> set us. task_status t = RUNNING \<or> lingering clock s t}
    \<and> js' = js \<union> task_issue_id ` {t \<in> set us. task_status t = RUNNING \<or> lingering clock s t}"
  using assms
proof (induction us arbitrary: s ts js)
  case (Cons u us)
  obtain s1 ts1 js1 where step: "reconcile_row clock (s, ts, js) u = (s1, ts1, js1)" by (metis prod_cases3)
  note f = reconcile_row_frames [OF step] and a = reconcile_row_active [OF step]
  have run: "foldl (reconcile_row clock) (s1, ts1, js1) us = (s', ts', js')" using Cons.prems(2) step by simp
  have "task_id t \<noteq> task_id u" if "t \<in> set us" for t using that Cons.prems(1) by (auto simp: image_iff)
  then have same: "lingering clock s1 t = lingering clock s t" if "t \<in> set us" for t
    using that f(1) f(5) [of "task_id t"] by (simp add: lingering_def)
  then have sets: "{t \<in> set us. task_status t = RUNNING \<or> lingering clock s1 t} = {t \<in> set us. task_status t = RUNNING \<or> lingering clock s t}"
    by blast
  have split: "{t \<in> set (u # us). P t} = (if P u then {u} else {}) \<union> {t \<in> set us. P t}" for P by auto
  show ?case
    using Cons.IH [OF _ run] Cons.prems(1) f(1-4) a unfolding sets split by auto
qed simp

text \<open>
  Reconciliation neither forgets live work nor keeps dead work: of the tasks the scheduler
  believes to run it keeps exactly those that are running in the database or whose worker is still
  cleaning up, a finished, non-cancelled task for less than two minutes after it was first seen so;
  it keeps an issue slot exactly when such a task of the issue or a retained container holds it (or,
  when no task is tracked at all, a running task of the issue), and it blocks every issue with a
  retained container.
\<close>

theorem reconciliation_keeps_exactly_live_work:
  assumes wf: "wf_db d"
  shows "let s' = reconcile_running_state clock s d;
             retained = task_issue_id ` {t \<in> set (tasks d). \<not> is_active t \<and> task_container_id t \<noteq> None};
             live = {t \<in> set (tasks d). task_id t \<in> running_tasks s \<and> (task_status t = RUNNING \<or> lingering clock s t)}
         in running_tasks s' = task_id ` live \<and> retained_blocked_issues s' = retained
          \<and> running_issues s' = retained \<union> (running_issues s \<inter>
               task_issue_id ` (if running_tasks s = {} then {t \<in> set (tasks d). task_status t = RUNNING} else live))"
proof -
  let ?retained = "task_issue_id ` {t \<in> set (tasks d). \<not> is_active t \<and> task_container_id t \<noteq> None}"
  let ?live = "{t \<in> set (tasks d). task_id t \<in> running_tasks s \<and> (task_status t = RUNNING \<or> lingering clock s t)}"
  define s0 where "s0 = reconcile_retained_issue_blocks s d"
  have s0: "retained_blocked_issues s0 = ?retained" "running_issues s0 = running_issues s \<union> ?retained" "running_tasks s0 = running_tasks s"
    "worker_tasks s0 = worker_tasks s" "terminal_worker_seen_at s0 = terminal_worker_seen_at s"
    by (auto simp: s0_def reconcile_retained_issue_blocks_def Let_def)
  have linger: "lingering clock s0 = lingering clock s" by (simp add: lingering_def fun_eq_iff s0)
  show ?thesis
  proof (cases "running_tasks s = {}")
    case True
    then have "reconcile_running_state clock s d = s0\<lparr>running_issues := running_issues s0
        \<inter> (task_issue_id ` set (filter (\<lambda>t. task_issue_id t \<in> running_issues s0 \<and> task_status t = RUNNING) (tasks d)) \<union> ?retained)\<rparr>"
      by (simp add: reconcile_running_state_def s0_def [symmetric] s0 Let_def)
    then show ?thesis using True by (auto simp: s0 Let_def)
  next
    case False
    let ?us = "filter (\<lambda>t. task_id t \<in> running_tasks s) (tasks d)"
    obtain s1 ts js where fold: "foldl (reconcile_row clock) (s0, {}, {}) ?us = (s1, ts, js)" by (metis prod_cases3)
    have "distinct (map task_id ?us)" using wf_dbD(1) [OF wf] by auto
    note r = reconcile_fold [OF this fold]
    have sel: "{t \<in> set ?us. task_status t = RUNNING \<or> lingering clock s0 t} = ?live" by (auto simp: linger)
    have "reconcile_running_state clock s d = (forget_all (running_tasks s1 - ts) s1)\<lparr>
        running_tasks := running_tasks s1 \<inter> ts, running_issues := running_issues s1 \<inter> (js \<union> retained_blocked_issues s1)\<rparr>"
      using False by (simp add: reconcile_running_state_def s0_def [symmetric] s0(3) fold Let_def forget_all_def)
    then show ?thesis using r False unfolding sel by (auto simp: s0 Let_def forget_all_def)
  qed
qed

theorem reconciliation_keeps_exactly_live_work_witness:
  "running_tasks (reconcile_running_state 200000000 (idle_scheduler\<lparr>running_tasks := {1, 2}, running_issues := {7},
      worker_tasks := [1 \<mapsto> False], terminal_worker_seen_at := [1 \<mapsto> 0]\<rparr>)
     (sample_db [sample_task 1 7 COMPLETED (Some 1), sample_task 2 7 RUNNING (Some 2)] [])) = {2}"
proof -
  let ?d = "sample_db [sample_task 1 7 COMPLETED (Some 1), sample_task 2 7 RUNNING (Some 2)] []"
  have wf: "wf_db ?d" by (simp add: wf_db_def unique_sequences_def sample_defs)
  show ?thesis
    unfolding conjunct1 [OF reconciliation_keeps_exactly_live_work [OF wf, unfolded Let_def]] set_filter [symmetric]
    by (simp add: sample_defs lingering_def TERMINAL_WORKER_STUCK_SECONDS_def)
qed

end
