(* ===== verification/Task_Actions.thy ===== *)
theory Task_Actions
  imports Scheduler_State Issue_Schedule
begin

text \<open>
  What a user may do to a task through the API, \<^verbatim>\<open>api/task_action_routes.py\<close> and
  \<^verbatim>\<open>api/task_operations.py\<close>: cancel, override the status, execute now and reschedule, with the slot
  capacity of \<^verbatim>\<open>core/slot_capacity.py\<close>. An error is the HTTP status. The handlers load the task
  before they take the issue lock; that row, which the session keeps as an object, is the argument
  \<open>t\<close>, and the database the later statements see is \<open>d\<close>.
\<close>

section \<open>Slot capacity\<close>

record slot_settings =
  slot_max_tasks :: int
  slot_max_tasks_enforce :: bool

record slot_capacity_info =
  slot_hour_start :: timestamp
  slot_hour_end :: timestamp
  slot_count :: int
  slot_max :: int
  slot_is_full :: bool
  slot_enforce :: bool

definition get_slot_boundaries :: "timestamp \<Rightarrow> timestamp \<times> timestamp" where
  "get_slot_boundaries t = (let hour_start = t - t mod hour_us in (hour_start, hour_start + hour_us))"

definition check_slot_capacity :: "slot_settings \<Rightarrow> database \<Rightarrow> timestamp \<Rightarrow> row_id option \<Rightarrow> slot_capacity_info" where
  "check_slot_capacity slots d scheduled exclude =
     (let (hour_start, hour_end) = get_slot_boundaries scheduled;
          count = int (length (filter (\<lambda>t. (case task_scheduled_at t of None \<Rightarrow> False | Some s \<Rightarrow> hour_start \<le> s \<and> s < hour_end)
                    \<and> is_active t \<and> Some (task_id t) \<noteq> exclude) (tasks d)))
      in \<lparr>slot_hour_start = hour_start, slot_hour_end = hour_end, slot_count = count, slot_max = slot_max_tasks slots,
          slot_is_full = (slot_max_tasks slots > 0 \<and> count \<ge> slot_max_tasks slots),
          slot_enforce = slot_max_tasks_enforce slots\<rparr>)"


section \<open>Guards\<close>

definition is_waiting :: "task \<Rightarrow> bool" where
  "is_waiting t \<longleftrightarrow> task_status t = PENDING \<or> task_status t = QUEUED"

definition require_task_execution_writer :: "settings \<Rightarrow> database \<Rightarrow> task \<Rightarrow> (int, unit) result" where
  "require_task_execution_writer cfg d t =
     (case require_task_executable_contract (get_snapshot d (task_id t)) (task_bundle d t) (cfg_harness_execution_mode cfg) None False of
        Inl _ \<Rightarrow> Inl 409 | Inr _ \<Rightarrow> Inr ())"

definition validate_task_status_for_cancel :: "task \<Rightarrow> (int, unit) result" where
  "validate_task_status_for_cancel t = require (is_active t) 400"

definition validate_task_status_for_retry :: "task \<Rightarrow> (int, unit) result" where
  "validate_task_status_for_retry t = require (task_status t = FAILED \<or> task_status t = CANCELLED) 400"

definition validate_task_status_for_execute :: "task \<Rightarrow> (int, unit) result" where
  "validate_task_status_for_execute t = require (is_waiting t) 400"

definition validate_task_status_for_reschedule :: "task \<Rightarrow> (int, unit) result" where
  "validate_task_status_for_reschedule t =
     bind_result (require (is_waiting t) 400) (\<lambda>_.
     require (\<not> (task_status t = PENDING \<and> task_scheduled_at t = None)) 400)"

definition validate_scheduled_datetime_in_future :: "timestamp \<Rightarrow> timestamp \<Rightarrow> (int, timestamp) result" where
  "validate_scheduled_datetime_in_future now scheduled = (if scheduled \<le> now then Inl 400 else Inr scheduled)"


section \<open>Cancellation\<close>

text \<open>Phase A, under the locks of the issue and the task.\<close>

definition cancel_phase_a :: "settings \<Rightarrow> timestamp \<Rightarrow> task \<Rightarrow> database \<Rightarrow> (int, task \<times> database) result" where
  "cancel_phase_a cfg now t d =
     bind_result (validate_task_status_for_cancel t) (\<lambda>_.
     bind_result (if is_v2_only (cfg_harness_execution_mode cfg) \<and> is_waiting t then require_task_execution_writer cfg d t else Inr ()) (\<lambda>_.
     case get_task d (task_id t) of
       None \<Rightarrow> Inl 404
     | Some u \<Rightarrow>
         bind_result (validate_task_status_for_cancel u) (\<lambda>_.
         Inr (u, if is_waiting u
              then put_task (task_id t) (\<lambda>r. r\<lparr>task_status := CANCELLED, task_completed_at := Some now,
                     task_error_message := Some ''cancelled_by_user''\<rparr>) d
              else put_task (task_id t) (\<lambda>r. r\<lparr>task_cancel_requested_at := or_now (task_cancel_requested_at r) now\<rparr>) d))))"

text \<open>
  Between the phases: whether the container is known to be absent and whether its log was read, or
  503 when neither stopping nor absence can be confirmed.
\<close>

definition cancel_container :: "container_view \<Rightarrow> task \<Rightarrow> (int, bool \<times> bool) result" where
  "cancel_container v u =
     (if is_waiting u then Inr (True, False)
      else case cv_lookup v of
        ContainerNotFound \<Rightarrow>
          if (case task_container_id u of None \<Rightarrow> True | Some c \<Rightarrow> \<not> non_blank c) then Inl 503 else Inr (True, False)
      | ContainerUnknown \<Rightarrow> Inl 503
      | ContainerFound \<Rightarrow> if cv_stops v then Inr (False, cv_log_read v) else Inl 503)"

definition cancel_phase_b :: "timestamp \<Rightarrow> bool \<Rightarrow> bool \<Rightarrow> row_id \<Rightarrow> row_id \<Rightarrow> database \<Rightarrow> database" where
  "cancel_phase_b now container_absent log_read issue k d =
     (case get_task d k of
        None \<Rightarrow> d
      | Some u \<Rightarrow>
          let finalized = container_absent \<or> log_read \<or> task_raw_logs_finalized_at u \<noteq> None;
              container = (if container_absent \<and> finalized then None else task_container_id u);
              d1 = put_task k (\<lambda>r. r\<lparr>task_raw_logs_finalized_at := (if finalized then or_now (task_raw_logs_finalized_at r) now
                       else task_raw_logs_finalized_at r), task_container_id := container\<rparr>) d
          in if is_terminal u \<and> container = None then fst (release_issue_execution_lock d1 issue k) else d1)"

text \<open>
  The whole route. What phase A committed stays even when the route answers 503; \<open>others\<close> is what
  other sessions commit between the phases.
\<close>

definition cancel_task ::
  "settings \<Rightarrow> timestamp \<Rightarrow> (database \<Rightarrow> database) \<Rightarrow> container_view \<Rightarrow> task \<Rightarrow> database \<Rightarrow> (int, unit) result \<times> database" where
  "cancel_task cfg now others v t d = (case cancel_phase_a cfg now t d of
     Inl code \<Rightarrow> (Inl code, d)
   | Inr (u, d1) \<Rightarrow> (case cancel_container v u of
       Inl code \<Rightarrow> (Inl code, d1)
     | Inr (container_absent, log_read) \<Rightarrow>
         (Inr (), maybe_update_issue_status
            (cancel_phase_b now container_absent log_read (task_issue_id t) (task_id t) (others d1)) (task_issue_id t))))"


section \<open>Override, execute now, reschedule\<close>

definition override_task_status :: "settings \<Rightarrow> string \<Rightarrow> task \<Rightarrow> database \<Rightarrow> (int, database) result" where
  "override_task_status cfg requested t d =
     bind_result (require (requested = ''completed'' \<or> requested = ''failed'') 400) (\<lambda>_.
     bind_result (require_task_execution_writer cfg d t) (\<lambda>_.
     let new_status = (if requested = ''completed'' then COMPLETED else FAILED)
     in bind_result (require (task_status t = COMPLETED \<or> task_status t = FAILED) 400) (\<lambda>_.
        bind_result (require (task_status t \<noteq> new_status) 400) (\<lambda>_.
        Inr (maybe_update_issue_status (put_task (task_id t) (\<lambda>r. r\<lparr>task_status := new_status\<rparr>) d) (task_issue_id t))))))"

definition execute_task_now :: "settings \<Rightarrow> task \<Rightarrow> database \<Rightarrow> (int, database) result" where
  "execute_task_now cfg t d =
     bind_result (validate_task_status_for_execute t) (\<lambda>_.
     bind_result (require_task_execution_writer cfg d t) (\<lambda>_.
     Inr (put_task (task_id t) (\<lambda>r. r\<lparr>task_scheduled_at := None\<rparr>) d)))"

text \<open>
  The status is decided by the row loaded before the lock: the session's object is not refreshed.
\<close>

definition reschedule_task ::
  "(string \<Rightarrow> string) \<Rightarrow> settings \<Rightarrow> slot_settings \<Rightarrow> timestamp \<Rightarrow> timestamp \<Rightarrow> task \<Rightarrow> database \<Rightarrow> (int, database) result" where
  "reschedule_task sha256 cfg slots now scheduled t d =
     bind_result (validate_task_status_for_reschedule t) (\<lambda>_.
     bind_result (require_task_execution_writer cfg d t) (\<lambda>_.
     bind_result (validate_scheduled_datetime_in_future now scheduled) (\<lambda>at'.
     if get_issue d (task_issue_id t) = None then Inl 404
     else case validate_schedule_time_locked sha256 d (task_issue_id t) at' (Some (task_id t)) of
       Inl _ \<Rightarrow> Inl 409
     | Inr (_, d1) \<Rightarrow>
         let slot = check_slot_capacity slots d1 at' (Some (task_id t))
         in if slot_is_full slot \<and> slot_enforce slot then Inl 409
            else Inr (put_task (task_id t) (\<lambda>r. r\<lparr>task_scheduled_at := Some at',
                   task_status := (if task_status t = QUEUED then PENDING else task_status r)\<rparr>) d1))))"


section \<open>The order and the locks survive\<close>

lemma release_table: "snd (release_issue_lock i k (s, d)) = fst (release_issue_execution_lock d i k)"
  by (simp add: release_issue_lock_def split: prod.split)

lemma cancel_phase_a_ok_step:
  assumes "wf_db d" "cancel_phase_a cfg now t d = Inr (u, d1)"
  shows "ok_step d d1" "get_task d (task_id t) = Some u" "is_active u"
proof -
  have u: "get_task d (task_id t) = Some u" "is_active u"
    "d1 = (if is_waiting u
              then put_task (task_id t) (\<lambda>r. r\<lparr>task_status := CANCELLED, task_completed_at := Some now,
                     task_error_message := Some ''cancelled_by_user''\<rparr>) d
              else put_task (task_id t) (\<lambda>r. r\<lparr>task_cancel_requested_at := or_now (task_cancel_requested_at r) now\<rparr>) d)"
    using assms(2)
    by (auto simp: cancel_phase_a_def bind_result_eq_Inr validate_task_status_for_cancel_def split: option.splits)
  then show "get_task d (task_id t) = Some u" "is_active u" by simp_all
  show "ok_step d d1"
    unfolding u(3) using assms(1) by (auto intro!: ok_step_put_task simp: keeps_turn_def is_active_iff)
qed

lemma cancel_phase_b_ok_step:
  assumes wf: "wf_db d"
  shows "ok_step d (cancel_phase_b now absent log_read issue k d)"
proof (cases "get_task d k")
  case (Some u)
  have put: "ok_step d (put_task k (\<lambda>r. r\<lparr>task_raw_logs_finalized_at := g r, task_container_id := c\<rparr>) d)" (is "ok_step d (?d1 g c)") for g c
    using wf by (auto intro!: ok_step_put_task simp: keeps_turn_def is_active_iff)
  have rel: "ok_step d (fst (release_issue_execution_lock (?d1 g c) issue k))" if "\<not> is_active u" for g c
  proof -
    have "task_status t \<noteq> RUNNING" if t: "t \<in> set (tasks (?d1 g c))" "task_id t = k" for t
    proof -
      obtain r where r: "r \<in> set (tasks d)" "task_id t = task_id r" "task_status t = task_status r"
        using t(1) by (auto simp: set_update_where)
      then have "r = u" using same_task [OF wf r(1)] get_taskD [OF Some] t(2) by simp
      then show ?thesis using \<open>\<not> is_active u\<close> r(3) by (auto simp: is_active_iff)
    qed
    from release_ok_step [where issue = issue and s = idle_scheduler, OF ok_step_wf [OF put] this]
    have "ok_step (?d1 g c) (fst (release_issue_execution_lock (?d1 g c) issue k))"
      unfolding release_table .
    then show ?thesis by (rule ok_step_trans [OF put])
  qed
  show ?thesis using put rel by (simp add: cancel_phase_b_def Some Let_def)
qed (use wf in \<open>simp add: cancel_phase_b_def\<close>)

lemma cancel_rest_ok_step:
  assumes "wf_db d" "\<forall>e. wf_db e \<longrightarrow> ok_step e (others e)" "cancel_phase_a cfg now t d = Inr (u, d1)"
    and "cancel_task cfg now others v t d = (res, d')"
  shows "ok_step d1 d'"
proof -
  have wf1: "wf_db d1" by (rule ok_step_wf [OF cancel_phase_a_ok_step(1) [OF assms(1,3)]])
  have o: "ok_step d1 (others d1)" using assms(2) wf1 by blast
  have "ok_step d1 (maybe_update_issue_status (cancel_phase_b now x y i k (others d1)) j)" for x y i k j
    by (intro ok_step_maybe_update ok_step_trans [OF o cancel_phase_b_ok_step [OF ok_step_wf [OF o]]])
  then show ?thesis using wf1 assms(3,4) by (auto simp: cancel_task_def split: sum.splits)
qed

lemma cancel_task_ok_step:
  assumes "wf_db d" "\<forall>e. wf_db e \<longrightarrow> ok_step e (others e)" "cancel_task cfg now others v t d = (res, d')"
  shows "ok_step d d'"
proof (cases "cancel_phase_a cfg now t d")
  case (Inr p)
  obtain u d1 where p: "p = (u, d1)" by fastforce
  note a = Inr [unfolded p]
  show ?thesis by (rule ok_step_trans [OF cancel_phase_a_ok_step(1) [OF assms(1) a] cancel_rest_ok_step [OF assms(1,2) a assms(3)]])
qed (use assms in \<open>simp add: cancel_task_def\<close>)

text \<open>
  The other routes act on the row they loaded before. An override and an immediate execution keep the
  order whatever happened to the row since; a reschedule does unless it read the row as queued and the
  task has ended since, which would bring it back.
\<close>

lemma override_ok_step:
  assumes "wf_db d" "override_task_status cfg requested t d = Inr d'"
  shows "ok_step d d'"
proof -
  have "task_status t = COMPLETED \<or> task_status t = FAILED"
    "d' = maybe_update_issue_status (put_task (task_id t) (\<lambda>r. r\<lparr>task_status := (if requested = ''completed'' then COMPLETED else FAILED)\<rparr>) d) (task_issue_id t)"
    using assms(2) by (auto simp: override_task_status_def bind_result_eq_Inr Let_def split: if_splits)
  then show ?thesis
    using assms(1) by (auto intro!: ok_step_maybe_update ok_step_fail simp: keeps_turn_def is_active_iff)
qed

lemma execute_now_ok_step:
  assumes "wf_db d" "execute_task_now cfg t d = Inr d'"
  shows "ok_step d d'"
  using assms by (auto simp: execute_task_now_def bind_result_eq_Inr keeps_turn_def is_active_iff intro!: ok_step_put_task)

lemma rescheduleE:
  assumes "reschedule_task sha256 cfg slots now scheduled t d = Inr d'"
  obtains w d1 where "is_waiting t" "now < scheduled"
    "validate_schedule_time_locked sha256 d (task_issue_id t) scheduled (Some (task_id t)) = Inr (w, d1)"
    "\<not> (slot_is_full (check_slot_capacity slots d1 scheduled (Some (task_id t))) \<and> slot_max_tasks_enforce slots)"
    "d' = put_task (task_id t) (\<lambda>r. r\<lparr>task_scheduled_at := Some scheduled,
             task_status := (if task_status t = QUEUED then PENDING else task_status r)\<rparr>) d1"
  using assms that
  by (auto simp: reschedule_task_def bind_result_eq_Inr validate_task_status_for_reschedule_def
      validate_scheduled_datetime_in_future_def check_slot_capacity_def Let_def split_def split: if_splits sum.splits)

lemma reschedule_ok_step:
  assumes wf: "wf_db d" and t: "still_open d t" and run: "reschedule_task sha256 cfg slots now scheduled t d = Inr d'"
  shows "ok_step d d'"
  using run
proof (cases rule: rescheduleE)
  case (1 w d1)
  obtain r where ens: "ensure_issue_order_integrity_locked sha256 d (task_issue_id t) False = Inr (r, d1)"
    using 1(3) by (auto simp: validate_schedule_time_locked_def split: sum.splits if_splits)
  note ok = ensure_ok_step [OF ens wf]
  have "is_active u" if q: "task_status t = QUEUED" and u: "u \<in> set (tasks d1)" "task_id u = task_id t" for u
  proof -
    have "(task_id u, task_status u) \<in> set (map (\<lambda>t. (task_id t, task_status t)) (tasks d))"
      unfolding ok(2) [symmetric] using u(1) by simp
    then obtain x where x: "x \<in> set (tasks d)" "task_id x = task_id t" "task_status x = task_status u" using u(2) by auto
    from t q x(1,2) have "is_active x" unfolding still_open_def by blast
    then show ?thesis using x(3) by (simp add: is_active_iff)
  qed
  then have "ok_step d1 d'"
    unfolding 1(5) using ok_step_wf [OF ok(1)]
    by (intro ok_step_put_task) (auto simp: keeps_turn_def is_active_iff)
  then show ?thesis by (rule ok_step_trans [OF ok(1)])
qed


section \<open>Properties\<close>

lemma cancel_phase_a_row:
  assumes "cancel_phase_a cfg now t d = Inr (u, d1)" "get_task d (task_id t) = Some u"
  shows "get_task d1 (task_id t) = Some (if is_waiting u
    then u\<lparr>task_status := CANCELLED, task_completed_at := Some now, task_error_message := Some ''cancelled_by_user''\<rparr>
    else u\<lparr>task_cancel_requested_at := or_now (task_cancel_requested_at u) now\<rparr>)"
  using assms get_taskD [OF assms(2)]
  by (auto simp: cancel_phase_a_def bind_result_eq_Inr get_task_put_task keeps_turn_def split: if_splits)

lemma get_task_frames [simp]:
  "get_task (maybe_update_issue_status d i) k = get_task d k"
  "get_task (fst (release_issue_execution_lock d i j)) k = get_task d k"
  by (simp_all add: get_task_def lock_frames)

lemma lock_owner_frames [simp]:
  "lock_owner (maybe_update_issue_status d i) = lock_owner d" "lock_owner (put_task k f d) = lock_owner d"
  by (rule get_lock_locks_cong, simp)+

text \<open>
  C11. A cancellation takes no lock away from a running task, whichever task of the issue is cancelled
  and whatever other sessions commit between its two transactions, as long as that keeps order and
  locks: a task that runs afterwards and owned the lock of its issue before still owns it. The route
  answers a finished task with an error and changes nothing; a waiting task is over afterwards unless
  the request was refused without a change; a running task whose row nobody settles in between stays
  running with its cancellation requested, whatever Docker answers.
\<close>

theorem cancel_never_frees_a_running_task:
  assumes wf: "wf_db d" and others: "\<forall>e. wf_db e \<longrightarrow> ok_step e (others e)"
    and u: "get_task d (task_id t) = Some u"
    and run: "cancel_task cfg now others v t d = (res, d')"
  shows "(\<forall>w\<in>set (tasks d'). task_status w = RUNNING \<and> lock_owner d (task_issue_id w) = Some (task_id w)
             \<longrightarrow> lock_owner d' (task_issue_id w) = Some (task_id w))
    \<and> (\<not> is_active u \<longrightarrow> isl res \<and> d' = d)
    \<and> (is_waiting u \<longrightarrow> isl res \<and> d' = d \<or> (\<exists>u'. get_task d' (task_id t) = Some u' \<and> \<not> is_active u'))
    \<and> (task_status u = RUNNING \<and> (\<forall>e. get_task (others e) (task_id t) = get_task e (task_id t)) \<longrightarrow>
         isl res \<and> d' = d
         \<or> (\<exists>u'. get_task d' (task_id t) = Some u' \<and> task_status u' = RUNNING \<and> task_cancel_requested_at u' \<noteq> None))"
proof -
  have ok: "ok_step d d'" by (rule cancel_task_ok_step [OF wf others run])
  then have locks': "\<forall>w\<in>set (tasks d'). task_status w = RUNNING \<and> lock_owner d (task_issue_id w) = Some (task_id w)
      \<longrightarrow> lock_owner d' (task_issue_id w) = Some (task_id w)"
    by (simp add: ok_step_def keeps_locks_def)
  show ?thesis
  proof (cases "cancel_phase_a cfg now t d")
    case (Inl code)
    then have "d' = d" "isl res" using run by (auto simp: cancel_task_def)
    then show ?thesis using locks' by simp
  next
    case (Inr p)
    obtain x d1 where p: "p = (x, d1)" by fastforce
    have "x = u" using cancel_phase_a_ok_step(2) [OF wf Inr [unfolded p]] u by simp
    note a = Inr [unfolded p this]
    have act: "is_active u" using cancel_phase_a_ok_step(3) [OF wf a] .
    note row = cancel_phase_a_row [OF a u]
    have over: "\<exists>u'. get_task d' (task_id t) = Some u' \<and> \<not> is_active u'" if waiting: "is_waiting u"
    proof -
      obtain y where y: "get_task d1 (task_id t) = Some y" "\<not> is_active y" using row waiting by (auto simp: is_active_iff)
      have "\<exists>u'\<in>set (tasks d'). task_id u' = task_id t \<and> \<not> is_active u'"
        using cancel_rest_ok_step [OF wf others a run] get_taskD [OF y(1)] y(2) unfolding ok_step_def evolves_def by metis
      then show ?thesis using get_task_iff [OF ok_step_wf [OF ok]] by blast
    qed
    have asked: "\<exists>u'. get_task d' (task_id t) = Some u' \<and> task_status u' = RUNNING \<and> task_cancel_requested_at u' \<noteq> None"
      if running: "task_status u = RUNNING" and kept: "\<forall>e. get_task (others e) (task_id t) = get_task e (task_id t)"
    proof -
      obtain y where y: "get_task d1 (task_id t) = Some y" "task_status y = RUNNING" "task_cancel_requested_at y \<noteq> None"
        using row running by (auto simp: is_waiting_def or_now_def split: option.splits)
      then have "get_task (others d1) (task_id t) = Some y" using kept by simp
      then have "\<exists>u'. get_task (cancel_phase_b now b c i (task_id t) (others d1)) (task_id t) = Some u'
          \<and> task_status u' = RUNNING \<and> task_cancel_requested_at u' \<noteq> None" for b c i
        using y(2,3) get_taskD [OF y(1)] by (auto simp: cancel_phase_b_def Let_def get_task_put_task keeps_turn_def)
      then show ?thesis using run a y by (auto simp: cancel_task_def split: sum.splits)
    qed
    show ?thesis using locks' act over asked by blast
  qed
qed

text \<open>The third turn of an issue is cancelled while the second one runs and holds the lock.\<close>

theorem cancel_never_frees_a_running_task_witness:
  "\<exists>d'. cancel_task sample_settings 100 (\<lambda>d. d) \<lparr>cv_lookup = ContainerUnknown, cv_reload = ReloadGone, cv_stops = True, cv_log_read = True,
        cv_removes = True\<rparr> (sample_task 3 7 PENDING (Some 2)) (sample_db [sample_task 2 7 RUNNING (Some 1), sample_task 3 7 PENDING (Some 2)] [sample_lock 7 2])
        = (Inr (), d')
     \<and> lock_owner d' 7 = Some 2 \<and> (\<exists>u'. get_task d' 3 = Some u' \<and> \<not> is_active u')"
proof -
  let ?t = "sample_task 3 7 PENDING (Some 2)" and ?w = "sample_task 2 7 RUNNING (Some 1)"
  let ?v = "\<lparr>cv_lookup = ContainerUnknown, cv_reload = ReloadGone, cv_stops = True, cv_log_read = True, cv_removes = True\<rparr>"
  let ?d = "sample_db [?w, ?t] [sample_lock 7 2]"
  obtain res d' where run: "cancel_task sample_settings 100 (\<lambda>d. d) ?v ?t ?d = (res, d')" by fastforce
  have "fst (cancel_task sample_settings 100 (\<lambda>d. d) ?v ?t ?d) = Inr ()
      \<and> list_ex (\<lambda>w. task_status w = RUNNING \<and> task_issue_id w = 7 \<and> task_id w = 2) (tasks (snd (cancel_task sample_settings 100 (\<lambda>d. d) ?v ?t ?d)))"
    by code_simp
  then obtain w where res: "res = Inr ()" and w: "w \<in> set (tasks d')" "task_status w = RUNNING" "task_issue_id w = 7" "task_id w = 2"
    using run by (auto simp: list_ex_iff)
  have "wf_db ?d" by (simp add: wf_db_def unique_sequences_def sample_defs)
  moreover have "get_task ?d (task_id ?t) = Some ?t" "task_id ?t = 3" "is_waiting ?t" "lock_owner ?d 7 = Some 2"
    by (simp_all add: sample_defs get_task_def lock_owner_def get_lock_def is_waiting_def)
  ultimately show ?thesis
    using cancel_never_frees_a_running_task [OF _ _ _ run, of ?t] w run res by (auto simp: Ball_def)
qed

text \<open>
  An enforced slot is never overfilled by a reschedule: after an accepted one the hour holds at
  most the configured number of active tasks, the new time lies in the future and the task waits in
  the pending state.
\<close>

theorem accepted_reschedule_respects_the_slot:
  assumes wf: "wf_db d" and t: "t \<in> set (tasks d)" and slots: "0 < slot_max_tasks slots" "slot_max_tasks_enforce slots"
    and run: "reschedule_task sha256 cfg slots now scheduled t d = Inr d'"
  shows "now < scheduled \<and> slot_count (check_slot_capacity slots d' scheduled None) \<le> slot_max_tasks slots
    \<and> (\<exists>u. get_task d' (task_id t) = Some u \<and> task_status u = PENDING \<and> task_scheduled_at u = Some scheduled)"
  using run
proof (cases rule: rescheduleE)
  case (1 w d1)
  obtain r where ens: "ensure_issue_order_integrity_locked sha256 d (task_issue_id t) False = Inr (r, d1)"
    using 1(3) by (auto simp: validate_schedule_time_locked_def split: sum.splits if_splits)
  note ok = ensure_ok_step [OF ens wf]
  have wf1: "wf_db d1" by (rule ok_step_wf [OF ok(1)])
  have "(task_id t, task_status t) \<in> set (map (\<lambda>t. (task_id t, task_status t)) (tasks d1))" unfolding ok(2) using t by simp
  then obtain u where u: "u \<in> set (tasks d1)" "task_id u = task_id t" "task_status u = task_status t" by auto
  let ?f = "\<lambda>r. r\<lparr>task_scheduled_at := Some scheduled, task_status := (if task_status t = QUEUED then PENDING else task_status r)\<rparr>"
  let ?in = "\<lambda>x. (case task_scheduled_at x of None \<Rightarrow> False
      | Some s \<Rightarrow> fst (get_slot_boundaries scheduled) \<le> s \<and> s < snd (get_slot_boundaries scheduled)) \<and> is_active x"
  have "get_task d' (task_id t) = Some (?f u)"
    using get_task_iff [OF wf1, of "task_id t" u] u unfolding 1(5) by (simp add: get_task_put_task keeps_turn_def)
  moreover have "task_status (?f u) = PENDING" using 1(1) u(3) by (auto simp: is_waiting_def)
  moreover have "slot_count (check_slot_capacity slots d1 scheduled (Some (task_id t))) < slot_max_tasks slots"
    using 1(4) slots by (auto simp: check_slot_capacity_def Let_def split_def)
  then have count1: "int (length (filter (\<lambda>x. ?in x \<and> task_id x \<noteq> task_id t) (tasks d1))) < slot_max_tasks slots"
    by (simp add: check_slot_capacity_def Let_def split_def conj_assoc)
  have "length (filter ?in (update_where (\<lambda>x. task_id x = k) f xs)) \<le> length (filter (\<lambda>x. ?in x \<and> task_id x \<noteq> k) xs) + 1"
    if "distinct (map task_id xs)" for k f and xs :: "task list"
    using that
  proof (induction xs)
    case (Cons x xs)
    show ?case
    proof (cases "task_id x = k")
      case True
      then have "\<forall>y\<in>set xs. task_id y \<noteq> k" using Cons.prems by (auto simp: image_iff)
      then have "update_where (\<lambda>x. task_id x = k) f xs = xs" "filter (\<lambda>x. ?in x \<and> task_id x \<noteq> k) xs = filter ?in xs"
        by (auto simp: update_where_def map_idI intro: filter_cong)
      then show ?thesis using True by simp
    next
      case False
      then show ?thesis using Cons by simp
    qed
  qed simp
  from this [OF wf_dbD(1) [OF wf1], of "task_id t" ?f] count1
  have "int (length (filter ?in (tasks d'))) \<le> slot_max_tasks slots" unfolding 1(5) by simp
  then have "slot_count (check_slot_capacity slots d' scheduled None) \<le> slot_max_tasks slots"
    by (simp add: check_slot_capacity_def Let_def split_def conj_assoc)
  ultimately show ?thesis using 1(2) by auto
qed

text \<open>
  C34. A reschedule trusts the status it read before the lock: when the row was queued then and has
  been claimed since, an accepted reschedule turns the running task back into a pending one.
\<close>

theorem stale_reschedule_reopens_a_running_task:
  assumes "wf_db d" "u \<in> set (tasks d)" "task_id u = task_id t" "task_issue_id u = task_issue_id t"
    and "task_status t = QUEUED" "task_status u = RUNNING"
    and run: "reschedule_task sha256 cfg slots now scheduled t d = Inr d'"
  shows "\<exists>u'. get_task d' (task_id t) = Some u' \<and> task_status u' = PENDING"
  using run
proof (cases rule: rescheduleE)
  case (1 w d1)
  obtain r where ens: "ensure_issue_order_integrity_locked sha256 d (task_issue_id t) False = Inr (r, d1)"
    using 1(3) by (auto simp: validate_schedule_time_locked_def split: sum.splits if_splits)
  note ok = ensure_ok_step [OF ens assms(1)]
  have "(task_id t, RUNNING) \<in> set (map (\<lambda>t. (task_id t, task_status t)) (tasks d1))" unfolding ok(2) using assms(2,3,6) by (auto simp: image_iff intro!: bexI [of _ u])
  then obtain x where "x \<in> set (tasks d1)" "task_id x = task_id t" by auto
  then have "get_task d1 (task_id t) = Some x" using get_task_iff [OF ok_step_wf [OF ok(1)]] by blast
  then show ?thesis
    unfolding 1(5) using assms(5) \<open>task_id x = task_id t\<close> by (simp add: get_task_put_task keeps_turn_def)
qed


text \<open>The queued second turn of the database \<open>runnable_db\<close>, moved to a later hour.\<close>

definition one_per_hour :: slot_settings where
  "one_per_hour = \<lparr>slot_max_tasks = 1, slot_max_tasks_enforce = True\<rparr>"

theorem accepted_reschedule_respects_the_slot_witness:
  "\<exists>d'. reschedule_task (\<lambda>s. s) v2_settings one_per_hour 100 200 runnable_task runnable_db = Inr d'
     \<and> slot_count (check_slot_capacity one_per_hour d' 200 None) \<le> 1"
proof -
  have "\<not> isl (reschedule_task (\<lambda>s. s) v2_settings one_per_hour 100 200 runnable_task runnable_db)" by code_simp
  then obtain d' where run: "reschedule_task (\<lambda>s. s) v2_settings one_per_hour 100 200 runnable_task runnable_db = Inr d'"
    by (cases "reschedule_task (\<lambda>s. s) v2_settings one_per_hour 100 200 runnable_task runnable_db") auto
  have "runnable_task \<in> set (tasks runnable_db)" by (simp add: runnable_db_def sample_defs)
  from accepted_reschedule_respects_the_slot [OF runnable_db_wf this _ _ run] run show ?thesis by (auto simp: one_per_hour_def)
qed

theorem stale_reschedule_reopens_a_running_task_witness:
  "\<exists>d' u'. reschedule_task (\<lambda>s. s) v2_settings one_per_hour 100 200 runnable_task
       (put_task 2 (\<lambda>u. u\<lparr>task_status := RUNNING\<rparr>) runnable_db) = Inr d' \<and> get_task d' 2 = Some u' \<and> task_status u' = PENDING"
proof -
  let ?d = "put_task 2 (\<lambda>u. u\<lparr>task_status := RUNNING\<rparr>) runnable_db"
  have "\<not> isl (reschedule_task (\<lambda>s. s) v2_settings one_per_hour 100 200 runnable_task ?d)" by code_simp
  then obtain d' where run: "reschedule_task (\<lambda>s. s) v2_settings one_per_hour 100 200 runnable_task ?d = Inr d'"
    by (cases "reschedule_task (\<lambda>s. s) v2_settings one_per_hour 100 200 runnable_task ?d") auto
  have wf: "wf_db ?d" by (intro wf_db_put_task runnable_db_wf) (simp add: keeps_turn_def)
  have "runnable_task\<lparr>task_status := RUNNING\<rparr> \<in> set (tasks ?d)" by (simp add: runnable_db_def runnable_task_def sample_defs)
  from stale_reschedule_reopens_a_running_task [OF wf this _ _ _ _ run] run show ?thesis
    by (auto simp: runnable_task_def sample_task_def)
qed

end
