(* ===== verification/Task_Retry.thy ===== *)
theory Task_Retry
  imports Task_Actions
begin

text \<open>
  Retrying a finished task, \<^verbatim>\<open>retry_task_record\<close> of \<^verbatim>\<open>api/task_creation_service.py\<close>, with
  \<^verbatim>\<open>clone_task_worker_snapshot\<close> of \<^verbatim>\<open>core/worker_profiles.py\<close> and the retry half of
  \<^verbatim>\<open>bind_runtime_bundle\<close> of \<^verbatim>\<open>core/worker_runtime_bundle.py\<close>.

  The request runs in two parts. \<open>retry_admission\<close> reads without a lock; \<open>retry_locked\<close> runs under the
  lock of the issue, on the source row the request loaded before. Projection columns of the source
  are read after the repair, which is the only writer of those columns of a finished task. The
  primary key the insert assigns is \<open>new_id\<close>, the verdict of the quota service is \<open>over_limit\<close>, and an
  HTTP error is \<open>Inl\<close> of its status code.
\<close>

record retry_request =
  req_scheduled_datetime :: "timestamp option"
  req_fresh_retry :: bool

record api_user =
  user_id :: row_id
  user_gitlab_id :: "row_id option"


section \<open>Before the lock\<close>

definition active_retries :: "database \<Rightarrow> row_id \<Rightarrow> task list" where
  "active_retries d k = filter (\<lambda>t. task_retry_source_task_id t = Some k \<and> is_active t) (tasks d)"

text \<open>\<^verbatim>\<open>scalar_one_or_none\<close> raises when more than one row matches, which no handler turns into a response.\<close>

definition retry_admission ::
  "settings \<Rightarrow> (database \<Rightarrow> row_id \<Rightarrow> bool) \<Rightarrow> timestamp \<Rightarrow> retry_request \<Rightarrow> api_user option \<Rightarrow> task \<Rightarrow> database
     \<Rightarrow> (int, timestamp option) result" where
  "retry_admission cfg over_limit now req user t d =
     bind_result (validate_task_status_for_retry t) (\<lambda>_.
     bind_result (require_task_execution_writer cfg d t) (\<lambda>_.
     case active_retries d (task_id t) of
       _ # _ # _ \<Rightarrow> Inl 500
     | [_] \<Rightarrow> Inl 409
     | [] \<Rightarrow>
         bind_result (case req_scheduled_datetime req of
             None \<Rightarrow> Inr None
           | Some s \<Rightarrow> bind_result (validate_scheduled_datetime_in_future now s) (\<lambda>a. Inr (Some a))) (\<lambda>scheduled.
         bind_result (require (\<not> (case user of None \<Rightarrow> False | Some u \<Rightarrow> over_limit d (user_id u))) 409) (\<lambda>_.
         Inr scheduled))))"


section \<open>Under the lock\<close>

definition retry_readiness_gate :: "(string \<Rightarrow> string) \<Rightarrow> database \<Rightarrow> worker_snapshot \<Rightarrow> (int, unit) result" where
  "retry_readiness_gate sha256 d snap =
     (case snap_runtime_locator_fingerprint snap of
        None \<Rightarrow> Inr ()
      | Some f \<Rightarrow> if f = [] then Inr () else
          let r = read_runtime_readiness sha256 d (Some f)
                    (snap_runtime_contract_version snap = Some HARNESS_CONTRACT_VERSION_V2);
              key = (case snap_harness_key snap of None \<Rightarrow> [] | Some h \<Rightarrow> h)
          in bind_result (require (\<not> (is_unavailable r \<and> rr_failure_code r \<noteq> Some FAILURE_WORKER_KIT_NOT_FOUND)) 409) (\<lambda>_.
             require (\<not> (is_ready r \<and> snap_cli_source snap \<noteq> Some ''host_mount''
                          \<and> is_harness_available r key = Some False)) 409))"

definition retry_session_mode :: "task \<Rightarrow> string" where
  "retry_session_mode t =
     (if task_session_mode t = ''fresh''
         \<and> \<not> (case task_output_session_id t of None \<Rightarrow> False | Some s \<Rightarrow> non_blank s)
      then ''fresh'' else ''continue'')"

definition source_lineage ::
  "(string \<Rightarrow> string) \<Rightarrow> worker_snapshot \<Rightarrow> task \<Rightarrow> string \<times> string \<times> int option \<times> row_id option" where
  "source_lineage sha256 snap u =
     (let h = (case task_projected_harness_key u of None \<Rightarrow> [] | Some h \<Rightarrow> h);
          n = (case task_projected_session_namespace u of None \<Rightarrow> [] | Some n \<Rightarrow> n);
          k = (case snap_harness_key snap of None \<Rightarrow> LEGACY_NAMESPACE | Some k \<Rightarrow> if k = [] then LEGACY_NAMESPACE else k)
      in if h = [] \<or> n = []
         then (k, session_namespace_for sha256 k (endpoint_fingerprint snap) ''1'', None, None)
         else (h, n, task_projected_lineage_generation u, task_projected_reset_task_id u))"

text \<open>
  A fresh retry opens the next generation; a continuing one is accepted only when the whole lineage
  tuple of its source is that of the tail.
\<close>

definition retry_projection ::
  "bool \<Rightarrow> string \<times> string \<times> int option \<times> row_id option \<Rightarrow> projection option \<Rightarrow> (int, projection) result" where
  "retry_projection fresh src tail = (case src of (h, n, g, r) \<Rightarrow>
     if fresh then (case project_tail_lineage tail h n ''fresh'' of Inl _ \<Rightarrow> Inl 500 | Inr p \<Rightarrow> Inr p)
     else case tail of
       None \<Rightarrow> Inl 409
     | Some p \<Rightarrow>
         if (h, n, g, r) \<noteq> (proj_harness_key p, proj_session_namespace p, Some (proj_generation p), proj_reset_task_id p)
         then Inl 409
         else (case project_tail_lineage tail h n ''continue'' of Inl _ \<Rightarrow> Inl 500 | Inr q \<Rightarrow> Inr q))"

definition retry_schedule ::
  "(string \<Rightarrow> string) \<Rightarrow> slot_settings \<Rightarrow> timestamp option \<Rightarrow> task \<Rightarrow> database \<Rightarrow> (int, database) result" where
  "retry_schedule sha256 slots scheduled t d = (case scheduled of
     None \<Rightarrow> Inr d
   | Some a \<Rightarrow> (case validate_schedule_time_locked sha256 d (task_issue_id t) a None of
       Inl _ \<Rightarrow> Inl 409
     | Inr (_, d') \<Rightarrow>
         let slot = check_slot_capacity slots d' a (Some (task_id t))
         in if slot_is_full slot \<and> slot_enforce slot then Inl 409 else Inr d'))"

definition clone_task_worker_snapshot :: "row_id \<Rightarrow> worker_snapshot \<Rightarrow> worker_snapshot" where
  "clone_task_worker_snapshot k s = s\<lparr>snap_task_id := k,
     snap_harness_config_snapshot := (case snap_harness_config_snapshot s of PDict c \<Rightarrow> PDict c | _ \<Rightarrow> PNone),
     snap_model_endpoint_snapshot := (case snap_model_endpoint_snapshot s of PDict e \<Rightarrow> PDict e | _ \<Rightarrow> PNone)\<rparr>"

definition bind_source_bundle :: "database \<Rightarrow> task \<Rightarrow> (int, row_id) result" where
  "bind_source_bundle d t = (case task_runtime_bundle_id t of
     None \<Rightarrow> Inl 422
   | Some b \<Rightarrow> (case get_bundle d b of
       None \<Rightarrow> Inl 422
     | Some r \<Rightarrow> if bundle_contract_version r \<noteq> HARNESS_CONTRACT_VERSION_V2 then Inl 422 else Inr (bundle_id r)))"

definition retry_row ::
  "timestamp \<Rightarrow> row_id \<Rightarrow> timestamp option \<Rightarrow> api_user option \<Rightarrow> task \<Rightarrow> int \<Rightarrow> projection \<Rightarrow> row_id option \<Rightarrow> row_id \<Rightarrow> task" where
  "retry_row now new_id scheduled user t seq p reset bundle =
     \<lparr>task_id = new_id, task_issue_id = task_issue_id t, task_project_id = task_project_id t,
      task_runtime_bundle_id = Some bundle, task_session_mode = retry_session_mode t,
      task_input_session_id = None, task_output_session_id = None,
      task_initiator_user_id = map_option user_id user,
      task_initiator_gitlab_user_id = Option.bind user user_gitlab_id,
      task_status = PENDING, task_priority = task_priority t, task_scheduled_at = scheduled,
      task_issue_sequence = Some seq, task_projected_harness_key = Some (proj_harness_key p),
      task_projected_session_namespace = Some (proj_session_namespace p),
      task_projected_lineage_generation = Some (proj_generation p), task_projected_reset_task_id = reset,
      task_lineage_projection_reason = Some (proj_reason p), task_input_lineage_reason = None,
      task_container_id = None, task_commit_sha = None, task_error_message = None,
      task_mode = (if task_mode t = [] then ''execute'' else task_mode t), task_created_at = now,
      task_started_at = None, task_execution_timeout_seconds = None, task_completed_at = None,
      task_cancel_requested_at = None, task_raw_logs_finalized_at = None,
      task_retry_source_task_id = Some (task_id t), task_rendered_prompt = task_rendered_prompt t\<rparr>"

definition retry_insert ::
  "(string \<Rightarrow> string) \<Rightarrow> slot_settings \<Rightarrow> timestamp \<Rightarrow> row_id \<Rightarrow> bool \<Rightarrow> api_user option \<Rightarrow> timestamp option \<Rightarrow> task
     \<Rightarrow> worker_snapshot \<Rightarrow> integrity_report \<Rightarrow> database \<Rightarrow> (int, task \<times> database) result" where
  "retry_insert sha256 slots now new_id fresh user scheduled t snap report d1 =
     (let u = (case get_task d1 (task_id t) of Some u \<Rightarrow> u | None \<Rightarrow> t) in
     bind_result (retry_projection fresh (source_lineage sha256 snap u) (tail_projection report)) (\<lambda>p.
     bind_result (retry_schedule sha256 slots scheduled t d1) (\<lambda>d2.
     bind_result (require (case task_rendered_prompt t of None \<Rightarrow> False | Some x \<Rightarrow> non_blank x) 422) (\<lambda>_.
     bind_result (bind_source_bundle d2 t) (\<lambda>b.
     let reset = (if fresh \<and> proj_reset_task_id p = None then Some new_id else proj_reset_task_id p);
         row = retry_row now new_id scheduled user t (max_sequence report + 1) p reset b
     in Inr (row, d2\<lparr>tasks := tasks d2 @ [row], snapshots := snapshots d2 @ [clone_task_worker_snapshot new_id snap]\<rparr>))))))"

definition retry_locked ::
  "(string \<Rightarrow> string) \<Rightarrow> slot_settings \<Rightarrow> timestamp \<Rightarrow> row_id \<Rightarrow> retry_request \<Rightarrow> api_user option \<Rightarrow> timestamp option \<Rightarrow> task
     \<Rightarrow> database \<Rightarrow> (int, task \<times> database) result" where
  "retry_locked sha256 slots now new_id req user scheduled t d =
     (case get_issue d (task_issue_id t) of
        None \<Rightarrow> Inl 404
      | Some i \<Rightarrow> if issue_status i = CLOSED then Inl 400 else
     case get_snapshot d (task_id t) of
        None \<Rightarrow> Inl 409
      | Some snap \<Rightarrow>
     bind_result (retry_readiness_gate sha256 d snap) (\<lambda>_.
     case ensure_issue_order_integrity_locked sha256 d (task_issue_id t) True of
        Inl _ \<Rightarrow> Inl 409
      | Inr (report, d1) \<Rightarrow>
          retry_insert sha256 slots now new_id (retry_session_mode t = ''fresh'' \<or> req_fresh_retry req)
            user scheduled t snap report d1))"

definition retry_task_record ::
  "(string \<Rightarrow> string) \<Rightarrow> settings \<Rightarrow> slot_settings \<Rightarrow> (database \<Rightarrow> row_id \<Rightarrow> bool) \<Rightarrow> timestamp \<Rightarrow> row_id \<Rightarrow> retry_request
     \<Rightarrow> api_user option \<Rightarrow> row_id \<Rightarrow> database \<Rightarrow> (int, task \<times> database) result" where
  "retry_task_record sha256 cfg slots over_limit now new_id req user k d =
     (case get_task d k of
        None \<Rightarrow> Inl 404
      | Some t \<Rightarrow>
          bind_result (retry_admission cfg over_limit now req user t d) (\<lambda>scheduled.
          retry_locked sha256 slots now new_id req user scheduled t d))"


section \<open>What a retry appends\<close>

lemma schedule_check_after_repair:
  assumes "ensure_issue_order_integrity_locked sha256 d issue True = Inr (report, d1)" "wf_db d"
    and "validate_schedule_time_locked sha256 d1 issue a e = Inr (w, d2)"
  shows "d2 = d1"
  using assms(3) repair_again [OF assms(1,2), of False]
  by (auto simp: validate_schedule_time_locked_def split: sum.splits prod.splits if_splits)

lemma retry_insertE:
  assumes "retry_insert sha256 slots now new_id fresh user scheduled t snap report d1 = Inr (r, d')"
    and "\<And>d2. retry_schedule sha256 slots scheduled t d1 = Inr d2 \<Longrightarrow> d2 = d1"
  obtains p b where
    "retry_projection fresh (source_lineage sha256 snap (case get_task d1 (task_id t) of Some u \<Rightarrow> u | None \<Rightarrow> t))
       (tail_projection report) = Inr p"
    "bind_source_bundle d1 t = Inr b"
    "r = retry_row now new_id scheduled user t (max_sequence report + 1) p
       (if fresh \<and> proj_reset_task_id p = None then Some new_id else proj_reset_task_id p) b"
    "d' = d1\<lparr>tasks := tasks d1 @ [r], snapshots := snapshots d1 @ [clone_task_worker_snapshot new_id snap]\<rparr>"
proof -
  note run = assms(1) [unfolded retry_insert_def Let_def]
  obtain p where p: "retry_projection fresh (source_lineage sha256 snap (case get_task d1 (task_id t) of Some u \<Rightarrow> u | None \<Rightarrow> t))
      (tail_projection report) = Inr p"
    using run by (auto simp: bind_result_def split: sum.splits)
  note run = run [unfolded p bind_result_simps]
  obtain d2 where d2: "retry_schedule sha256 slots scheduled t d1 = Inr d2"
    using run by (auto simp: bind_result_def split: sum.splits)
  note run = run [unfolded d2 assms(2) [OF d2] bind_result_simps bind_result_eq_Inr]
  obtain b where b: "bind_source_bundle d1 t = Inr b"
    using run by blast
  show thesis
    by (rule that [OF p b]) (use run b in auto)
qed

lemma retry_lockedE:
  assumes "retry_locked sha256 slots now new_id req user scheduled t d = Inr (r, d')" "wf_db d"
  obtains snap report d1 p b fresh where
    "get_snapshot d (task_id t) = Some snap"
    "ensure_issue_order_integrity_locked sha256 d (task_issue_id t) True = Inr (report, d1)"
    "retry_projection fresh (source_lineage sha256 snap (case get_task d1 (task_id t) of Some u \<Rightarrow> u | None \<Rightarrow> t))
       (tail_projection report) = Inr p"
    "bind_source_bundle d1 t = Inr b"
    "r = retry_row now new_id scheduled user t (max_sequence report + 1) p
       (if fresh \<and> proj_reset_task_id p = None then Some new_id else proj_reset_task_id p) b"
    "d' = d1\<lparr>tasks := tasks d1 @ [r], snapshots := snapshots d1 @ [clone_task_worker_snapshot new_id snap]\<rparr>"
proof -
  obtain i snap where s: "get_issue d (task_issue_id t) = Some i" "issue_status i \<noteq> CLOSED" "get_snapshot d (task_id t) = Some snap"
    using assms(1) by (auto simp: retry_locked_def split: option.splits if_splits)
  obtain report d1 where e: "ensure_issue_order_integrity_locked sha256 d (task_issue_id t) True = Inr (report, d1)"
    and run: "retry_insert sha256 slots now new_id (retry_session_mode t = ''fresh'' \<or> req_fresh_retry req)
            user scheduled t snap report d1 = Inr (r, d')"
    using assms(1) s by (auto simp: retry_locked_def bind_result_eq_Inr split: sum.splits)
  have same: "d2 = d1" if "retry_schedule sha256 slots scheduled t d1 = Inr d2" for d2
    using that schedule_check_after_repair [OF e assms(2)]
    by (auto simp: retry_schedule_def Let_def split: option.splits sum.splits if_splits prod.splits)
  show thesis by (rule retry_insertE [OF run same]) (assumption, rule that [OF s(3) e])
qed

lemma repaired_row:
  assumes "ensure_issue_order_integrity_locked sha256 d issue r = Inr (report, d1)" "wf_db d"
  shows "map erase_order (tasks d1) = map erase_order (tasks d)" "snapshots d1 = snapshots d" "bundles d1 = bundles d"
    "locks d1 = locks d" "issues d1 = issues d" "valid_tail (tail_projection report)"
proof -
  obtain rows where rows: "repairs rows d issue" "d1 = flush_tasks rows d" "tail_projection report = tail_lineage rows"
    using ensure_InrE [OF assms] by metis
  show "map erase_order (tasks d1) = map erase_order (tasks d)" using flush_erase [OF rows(1)] rows(2) by simp
  show "snapshots d1 = snapshots d" "bundles d1 = bundles d" "locks d1 = locks d" "issues d1 = issues d"
    unfolding rows(2) by (simp_all add: flush_frames)
  show "valid_tail (tail_projection report)"
    unfolding rows(3) tail_lineage_def
    by (cases "max_by seq_or_zero rows") (simp add: valid_tail_def, simp add: valid_task_projection)
qed


lemma erase_order_retry:
  assumes "erase_order t = erase_order u"
  shows "task_retry_source_task_id t = task_retry_source_task_id u"
  using arg_cong [OF assms, of task_retry_source_task_id] by (simp add: erase_order_def erase_projection_def)

lemma repaired_rowD:
  assumes "map erase_order (tasks d1) = map erase_order (tasks d)" "v \<in> set (tasks d1)"
  obtains u where "u \<in> set (tasks d)" "erase_order v = erase_order u"
proof -
  have "erase_order v \<in> erase_order ` set (tasks d)"
    using assms by (metis image_eqI image_set)
  then show thesis using that by blast
qed

lemma active_retries_repaired:
  assumes "map erase_order (tasks d1) = map erase_order (tasks d)"
  shows "map task_id (active_retries d1 k) = map task_id (active_retries d k)"
proof -
  have "map task_id (filter (\<lambda>t. task_retry_source_task_id t = Some k \<and> is_active t) xs)
      = map task_id (filter (\<lambda>t. task_retry_source_task_id t = Some k \<and> is_active t) ys)"
    if "map erase_order xs = map erase_order ys" for xs ys
    using that
  proof (induction xs arbitrary: ys)
    case (Cons x xs)
    then obtain y zs where ys: "ys = y # zs" "erase_order x = erase_order y" "map erase_order xs = map erase_order zs" by auto
    then show ?case
      using Cons.IH [OF ys(3)] erase_order_retry [OF ys(2)] erase_orderD [OF ys(2)] by (simp add: is_active_iff)
  qed simp
  from this [OF assms] show ?thesis unfolding active_retries_def .
qed

lemma project_tail_lineage_valid:
  assumes run: "project_tail_lineage tail h n m = Inr p" and tl: "valid_tail tail"
  shows "proj_generation p \<le> 0 \<or> (m = ''fresh'' \<and> proj_reset_task_id p = None) \<or> proj_reset_task_id p \<noteq> None"
proof (cases tail)
  case None
  then show ?thesis using run by (cases "m = ''fresh''") (auto simp: project_tail_lineage_def)
next
  case (Some q)
  then have "proj_generation q \<le> 0 \<or> proj_reset_task_id q \<noteq> None"
    using tl by (simp add: valid_tail_def valid_projection_def)
  then show ?thesis
    using run Some
    by (cases "proj_session_namespace q = LEGACY_NAMESPACE"; cases "m = ''fresh''"; cases "h = proj_harness_key q \<and> n = proj_session_namespace q")
       (auto simp: project_tail_lineage_def)
qed

lemma retry_projection_valid:
  assumes "retry_projection fresh src tail = Inr p" "valid_tail tail"
  shows "proj_generation p \<le> 0 \<or> (fresh \<and> proj_reset_task_id p = None) \<or> proj_reset_task_id p \<noteq> None"
proof -
  obtain h n g r where src: "src = (h, n, g, r)" by (cases src) auto
  have "project_tail_lineage tail h n (if fresh then ''fresh'' else ''continue'') = Inr p"
    using assms(1) unfolding src retry_projection_def
    by (cases "project_tail_lineage tail h n (if fresh then ''fresh'' else ''continue'')"; cases tail) (auto split: if_splits)
  from project_tail_lineage_valid [OF this assms(2)] show ?thesis by (cases fresh) auto
qed

lemma clone_executable:
  assumes "require_task_executable_contract (Some s) bundle mode None False = Inr ()"
  shows "require_task_executable_contract (Some (clone_task_worker_snapshot k s)) bundle mode None False = Inr ()"
  using assms
  by (cases "snap_model_endpoint_snapshot s")
     (auto simp: require_task_executable_contract_def clone_task_worker_snapshot_def bind_result_eq_Inr
      require_endpoint_protocol_def split: option.splits)

text \<open>The frozen identity of a retry is that of its source.\<close>

definition same_frozen_identity :: "worker_snapshot \<Rightarrow> worker_snapshot \<Rightarrow> bool" where
  "same_frozen_identity s s' \<longleftrightarrow>
     s' = s\<lparr>snap_task_id := snap_task_id s', snap_harness_config_snapshot := snap_harness_config_snapshot s',
            snap_model_endpoint_snapshot := snap_model_endpoint_snapshot s'\<rparr>
     \<and> (\<forall>c. snap_harness_config_snapshot s = PDict c \<longrightarrow> snap_harness_config_snapshot s' = PDict c)
     \<and> (\<forall>e. snap_model_endpoint_snapshot s = PDict e \<longrightarrow> snap_model_endpoint_snapshot s' = PDict e)"

lemma retry_identity:
  assumes wf: "wf_db d" and run: "retry_locked sha256 slots now new_id req user scheduled t d = Inr (r, d')"
    and new: "new_id \<notin> snap_task_id ` set (snapshots d)"
  shows "\<exists>snap. get_snapshot d (task_id t) = Some snap \<and> get_snapshot d' (task_id r) = Some (clone_task_worker_snapshot new_id snap)"
    and "task_bundle d' r = task_bundle d t" "task_runtime_bundle_id r = task_runtime_bundle_id t"
    and "task_rendered_prompt r = task_rendered_prompt t"
proof -
  from run wf obtain snap report d1 p b reset where s: "get_snapshot d (task_id t) = Some snap"
    and e: "ensure_issue_order_integrity_locked sha256 d (task_issue_id t) True = Inr (report, d1)"
    and b: "bind_source_bundle d1 t = Inr b"
    and r: "r = retry_row now new_id scheduled user t (max_sequence report + 1) p reset b"
    and d': "d' = d1\<lparr>tasks := tasks d1 @ [r], snapshots := snapshots d1 @ [clone_task_worker_snapshot new_id snap]\<rparr>"
    by (rule retry_lockedE)
  note rep = repaired_row [OF e wf]
  have "get_snapshot d' (task_id r) = Some (clone_task_worker_snapshot new_id snap)"
    using new by (auto simp: d' r retry_row_def get_snapshot_def rep(2) row_by_append clone_task_worker_snapshot_def
        row_by_None_iff dest: row_by_SomeD split: option.split)
  then show "\<exists>snap. get_snapshot d (task_id t) = Some snap \<and> get_snapshot d' (task_id r) = Some (clone_task_worker_snapshot new_id snap)"
    using s by blast
  show "task_bundle d' r = task_bundle d t"
    using b by (auto simp: d' r retry_row_def task_bundle_def bind_source_bundle_def get_bundle_def rep(3)
        dest: row_by_SomeD split: option.splits if_splits)
  show "task_runtime_bundle_id r = task_runtime_bundle_id t"
    using b by (auto simp: r retry_row_def bind_source_bundle_def get_bundle_def dest: row_by_SomeD split: option.splits if_splits)
  show "task_rendered_prompt r = task_rendered_prompt t" by (simp add: r retry_row_def)
qed

lemma clone_same_identity: "same_frozen_identity s (clone_task_worker_snapshot k s)"
  by (simp add: same_frozen_identity_def clone_task_worker_snapshot_def)

lemma retry_contract:
  assumes wf: "wf_db d" and run: "retry_locked sha256 slots now new_id req user scheduled t d = Inr (r, d')"
    and new: "new_id \<notin> snap_task_id ` set (snapshots d)" and ok: "require_task_execution_writer cfg d t = Inr ()"
  shows "require_task_execution_writer cfg d' r = Inr ()"
  using retry_identity(1,2) [OF wf run new] ok clone_executable
  by (auto simp: require_task_execution_writer_def split: sum.splits)

lemma last_turn:
  assumes "wf_db d" "map task_issue_sequence (ordered_tasks d i) = map Some [1..int n + 1]"
    and "r \<in> set (tasks d)" "task_issue_id r = i" "task_issue_sequence r = Some (int n + 1)"
  shows "last (ordered_tasks d i) = r"
proof -
  let ?l = "last (ordered_tasks d i)"
  have "ordered_tasks d i \<noteq> []" using assms(2) by auto
  then have "?l \<in> set (ordered_tasks d i)" and seq: "task_issue_sequence ?l = Some (int n + 1)"
    using arg_cong [OF assms(2), of last] upto_rec2 [of 1 "int n + 1"] by (simp_all add: last_map)
  then have "?l \<in> set (tasks d)" "task_issue_id ?l = i" using ordered_tasks_facts(1) [OF assms(1)] by auto
  then show ?thesis using same_sequence [OF assms(1) _ assms(3)] seq assms(4,5) by simp
qed

text \<open>The facts of one accepted retry, on the repaired table.\<close>

lemma retry_appends:
  assumes wf: "wf_db d" and run: "retry_locked sha256 slots now new_id req user scheduled t d = Inr (r, d')"
    and new: "new_id \<notin> task_id ` set (tasks d)" "new_id \<notin> snap_task_id ` set (snapshots d)"
    and later: "list_all (\<lambda>u. (task_created_at u, task_id u) < (now, new_id)) (issue_tasks d (task_issue_id t))"
  shows "map task_issue_sequence (ordered_tasks d' (task_issue_id t))
           = map Some [1..int (length (issue_tasks d (task_issue_id t))) + 1]"
    and "wf_db d'" and "ok_step d d'" and "has_full_projection r"
    and "map task_id (active_retries d' k) = map task_id (active_retries d k) @ (if task_id t = k then [new_id] else [])"
    and "task_id r = new_id" "task_issue_id r = task_issue_id t" "task_status r = PENDING"
    "task_retry_source_task_id r = Some (task_id t)"
    and "r \<in> set (tasks d')"
    and "task_issue_sequence r = Some (int (length (issue_tasks d (task_issue_id t))) + 1)"
proof -
  from run wf obtain snap report d1 p b fresh where s: "get_snapshot d (task_id t) = Some snap"
    and e: "ensure_issue_order_integrity_locked sha256 d (task_issue_id t) True = Inr (report, d1)"
    and p: "retry_projection fresh (source_lineage sha256 snap (case get_task d1 (task_id t) of Some u \<Rightarrow> u | None \<Rightarrow> t))
       (tail_projection report) = Inr p"
    and r: "r = retry_row now new_id scheduled user t (max_sequence report + 1) p
       (if fresh \<and> proj_reset_task_id p = None then Some new_id else proj_reset_task_id p) b"
    and d': "d' = d1\<lparr>tasks := tasks d1 @ [r], snapshots := snapshots d1 @ [clone_task_worker_snapshot new_id snap]\<rparr>"
    by (rule retry_lockedE)
  note rep = repaired_row [OF e wf] and rk = repaired_ranks [OF e wf]
  let ?i = "task_issue_id t" and ?n = "length (issue_tasks d (task_issue_id t))" and ?e = "d1\<lparr>tasks := tasks d1 @ [r]\<rparr>"
  have row: "task_id r = new_id" "task_issue_id r = ?i" "task_created_at r = now" "task_status r = PENDING"
    "task_issue_sequence r = Some (int ?n + 1)" "task_retry_source_task_id r = Some (task_id t)"
    using rk by (simp_all add: r retry_row_def)
  have wf1: "wf_db d1" and ranks: "map task_issue_sequence (ordered_tasks d1 ?i) = map Some [1..int ?n]" using rk by blast+
  have fresh1: "task_id r \<notin> task_id ` set (tasks d1)"
    using new(1) row(1) by (auto elim!: repaired_rowD [OF rep(1)] dest: erase_orderD(1))
  have later1: "list_all (\<lambda>u. (task_created_at u, task_id u) < (task_created_at r, task_id r)) (issue_tasks d1 ?i)"
    unfolding list_all_iff row(1,3)
  proof
    fix v assume "v \<in> set (issue_tasks d1 ?i)"
    then have v: "v \<in> set (tasks d1)" "task_issue_id v = ?i" by (simp_all add: issue_tasks_def)
    obtain u where u: "u \<in> set (tasks d)" "erase_order v = erase_order u" using repaired_rowD [OF rep(1) v(1)] .
    then have "u \<in> set (issue_tasks d ?i)" using erase_orderD(2) [OF u(2)] v(2) by (simp add: issue_tasks_def)
    then show "(task_created_at v, task_id v) < (now, new_id)"
      using later erase_orderD(1,3) [OF u(2)] by (simp add: list_all_iff)
  qed
  have seq: "task_issue_sequence r = Some (allocate_next_sequence_locked d1 ?i)"
    using row(5) allocate_after_ranks [OF wf1 ranks] by simp
  note app = append_extends_the_ranks [OF wf1 ranks row(2) seq fresh1 later1]
  have "new_id \<notin> snap_task_id ` set (snapshots d1)" using new(2) rep(2) by simp
  then show wf': "wf_db d'"
    using app by (auto simp: d' wf_db_def clone_task_worker_snapshot_def)
  show "map task_issue_sequence (ordered_tasks d' ?i) = map Some [1..int ?n + 1]"
    using conjunct1 [OF app] by (simp add: d' ordered_tasks_def issue_tasks_def)
  have ok: "ok_step d d1" by (rule ensure_ok_step(1) [OF e wf])
  have "ok_step d1 d'"
    using wf' row(4,5) keeps_locks_same [of d' d1] by (auto simp: ok_step_def evolves_def positive_sequences_def d')
  with ok show "ok_step d d'" by (rule ok_step_trans)
  show "has_full_projection r"
    using retry_projection_valid [OF p rep(6)] by (auto simp: has_full_projection_def r retry_row_def)
  have "map task_id (active_retries d1 k) = map task_id (active_retries d k)"
    by (rule active_retries_repaired [OF rep(1)])
  then show "map task_id (active_retries d' k) = map task_id (active_retries d k) @ (if task_id t = k then [new_id] else [])"
    using row(1,4,6) by (auto simp: d' active_retries_def is_active_iff)
  show "task_id r = new_id" "task_issue_id r = task_issue_id t" "task_status r = PENDING"
    "task_retry_source_task_id r = Some (task_id t)" using row by simp_all
  show "r \<in> set (tasks d')" by (simp add: d')
  show "task_issue_sequence r = Some (int ?n + 1)" by (rule row(5))
qed




text \<open>Two requests that were both admitted before either took the lock, when both get through it.\<close>

lemma admitted_twice:
  assumes "wf_db d" and "task_id t = k"
    and "retry_admission cfg over_limit now req user t d = Inr scheduled"
    and "retry_admission cfg over_limit now' req' user' t d = Inr scheduled'"
    and "retry_locked sha256 slots now new_id req user scheduled t d = Inr (r, d1)"
    and "retry_locked sha256 slots now' new_id' req' user' scheduled' t d1 = Inr (r', d2)"
    and "new_id \<notin> task_id ` set (tasks d)" "new_id \<notin> snap_task_id ` set (snapshots d)"
    and "new_id' \<notin> task_id ` set (tasks d1)" "new_id' \<notin> snap_task_id ` set (snapshots d1)"
    and "list_all (\<lambda>u. (task_created_at u, task_id u) < (now, new_id)) (issue_tasks d (task_issue_id t))"
    and "list_all (\<lambda>u. (task_created_at u, task_id u) < (now', new_id')) (issue_tasks d1 (task_issue_id t))"
  shows "map task_id (active_retries d2 k) = [new_id, new_id'] \<and>
    (require_task_execution_writer cfg d2 t = Inr () \<longrightarrow>
     retry_admission cfg over_limit later_now req'' user'' t d2 = Inl 500)"
proof -
  note one = retry_appends [OF assms(1,5,7,8,11)]
  note two = retry_appends [OF one(2) assms(6,9,10,12)]
  have none: "active_retries d k = []" and st: "validate_task_status_for_retry t = Inr ()"
    using assms(2,3) by (auto simp: retry_admission_def bind_result_eq_Inr split: list.splits)
  have ids: "map task_id (active_retries d2 k) = [new_id, new_id']"
    using one(5) [of k] two(5) [of k] assms(2) none by simp
  then obtain a b where "active_retries d2 k = [a, b]" by auto
  then show ?thesis using ids st assms(2) by (simp add: retry_admission_def)
qed


section \<open>Concrete retries\<close>

definition failed_task :: task where
  "failed_task = runnable_task\<lparr>task_status := FAILED, task_rendered_prompt := Some ''go''\<rparr>"

definition failed_db :: database where
  "failed_db = runnable_db\<lparr>tasks := [sample_task 1 7 COMPLETED (Some 1), failed_task]\<rparr>"

definition plain_retry :: retry_request where
  "plain_retry = \<lparr>req_scheduled_datetime = None, req_fresh_retry = False\<rparr>"

definition no_slots :: slot_settings where "no_slots = \<lparr>slot_max_tasks = 0, slot_max_tasks_enforce = False\<rparr>"

lemma failed_db_wf: "wf_db failed_db"
  by (simp add: failed_db_def failed_task_def runnable_db_def runnable_task_def wf_db_def unique_sequences_def sample_defs complete_snapshot_def)

lemma failed_db_fresh_ids:
  "3 \<notin> task_id ` set (tasks failed_db)" "3 \<notin> snap_task_id ` set (snapshots failed_db)"
  "list_all (\<lambda>u. (task_created_at u, task_id u) < (100, 3)) (issue_tasks failed_db (task_issue_id failed_task))"
  by (simp_all add: failed_db_def failed_task_def runnable_db_def runnable_task_def sample_defs complete_snapshot_def issue_tasks_def)

definition one_retry :: "task \<times> database" where
  "one_retry = (case retry_locked (\<lambda>s. s) no_slots 100 3 plain_retry None None failed_task failed_db of
     Inr x \<Rightarrow> x | Inl _ \<Rightarrow> (failed_task, failed_db))"

lemma failed_db_retries:
  "get_task failed_db 2 = Some failed_task"
  "retry_admission v2_settings (\<lambda>_ _. False) now plain_retry None failed_task failed_db = Inr None"
  "retry_locked (\<lambda>s. s) no_slots 100 3 plain_retry None None failed_task failed_db = Inr one_retry"
proof -
  show "get_task failed_db 2 = Some failed_task" by code_simp
  show "retry_admission v2_settings (\<lambda>_ _. False) now plain_retry None failed_task failed_db = Inr None" by code_simp
  have "\<not> isl (retry_locked (\<lambda>s. s) no_slots 100 3 plain_retry None None failed_task failed_db)" by code_simp
  then show "retry_locked (\<lambda>s. s) no_slots 100 3 plain_retry None None failed_task failed_db = Inr one_retry"
    by (cases "retry_locked (\<lambda>s. s) no_slots 100 3 plain_retry None None failed_task failed_db") (simp_all add: one_retry_def)
qed



end
