(* ===== verification/Git_Delivery.thy ===== *)
theory Git_Delivery
  imports Codify_Value
begin

text \<open>
  The \<^verbatim>\<open>git_delivery\<close> contract of \<^verbatim>\<open>core/worker_git_delivery.py\<close>: validation and normalization of the
  object a worker reports, the commit it may project, and what may accompany \<^verbatim>\<open>run.completed\<close>.

  \<open>san\<close> is the callable argument that masks sensitive text; the callers pass \<open>sanitize_sensitive_data\<close> of
  \<open>Sensitive_Text\<close>, and nothing below depends on which function it is. A returned reason is \<open>Inl\<close> of its code, without
  the interpolated values; \<^verbatim>\<open>Inl ''TypeError''\<close> is the exception of a set test on a list or a dict.
\<close>

definition PUSH_STATUSES :: "string list" where
  "PUSH_STATUSES = [''not_needed'', ''not_attempted'', ''pushed'', ''already_present'', ''failed'']"

definition PUSH_ERROR_CODES :: "string list" where
  "PUSH_ERROR_CODES = [''branch_changed'', ''history_rewritten'', ''history_unverifiable'', ''remote_deleted'',
     ''remote_rewound'', ''remote_diverged'', ''remote_changed'', ''push_failed'', ''remote_unconfirmed'']"

definition confirmed_statuses :: "string list" where
  "confirmed_statuses = [''pushed'', ''already_present'']"

definition is_full_sha :: "pyval \<Rightarrow> bool" where
  "is_full_sha v = (case v of PStr s \<Rightarrow> length s = 40 \<and> list_all is_lower_hex s | _ \<Rightarrow> False)"

definition null_or_sha :: "pyval \<Rightarrow> bool" where
  "null_or_sha v \<longleftrightarrow> v = PNone \<or> is_full_sha v"


section \<open>Lists of commits and of files\<close>

definition clean_text :: "(string \<Rightarrow> string) \<Rightarrow> string \<Rightarrow> string" where
  "clean_text san s = clip 8000 (san s)"

definition normalize_commit :: "(string \<Rightarrow> string) \<Rightarrow> pyval \<Rightarrow> (string, pyval) result" where
  "normalize_commit san e = (case e of
     PDict d \<Rightarrow>
       bind_result (require (is_full_sha (dict_get d ''sha'')) ''commit sha must be a full 40-hex object id'') (\<lambda>_.
       case dict_get d ''subject'' of
         PStr s \<Rightarrow> Inr (PDict [(''sha'', dict_get d ''sha''), (''subject'', PStr (clean_text san s))])
       | _ \<Rightarrow> Inl ''commit subject must be a string'')
   | _ \<Rightarrow> Inl ''commit entries must be objects'')"

definition normalize_commit_list :: "(string \<Rightarrow> string) \<Rightarrow> pyval \<Rightarrow> (string, pyval) result" where
  "normalize_commit_list san v = (case v of
     PNone \<Rightarrow> Inr PNone
   | PList xs \<Rightarrow>
       bind_result (require (int (length xs) \<le> 2000) ''commits exceeds the entry limit'') (\<lambda>_.
       bind_result (map_result (normalize_commit san) xs) (\<lambda>ys. Inr (PList ys)))
   | _ \<Rightarrow> Inl ''commits must be an array or null'')"

definition normalize_file :: "pyval \<Rightarrow> (string, pyval) result" where
  "normalize_file e = (case e of
     PStr s \<Rightarrow> bind_result (require (int (length s) \<le> 4096) ''entry exceeds the char limit'') (\<lambda>_. Inr e)
   | _ \<Rightarrow> Inl ''entries must be strings'')"

definition normalize_file_list :: "pyval \<Rightarrow> (string, pyval) result" where
  "normalize_file_list v = (case v of
     PNone \<Rightarrow> Inr PNone
   | PList xs \<Rightarrow>
       bind_result (require (int (length xs) \<le> 50000) ''exceeds the entry limit'') (\<lambda>_.
       bind_result (map_result normalize_file xs) (\<lambda>ys. Inr (PList ys)))
   | _ \<Rightarrow> Inl ''must be an array or null'')"


section \<open>The diff and the push\<close>

text \<open>A collected count: \<^verbatim>\<open>None\<close> or a non-negative \<^verbatim>\<open>int\<close> that is not a \<^verbatim>\<open>bool\<close>.\<close>

definition count_or_null :: "pyval \<Rightarrow> bool" where
  "count_or_null v = (case v of PNone \<Rightarrow> True | PInt i \<Rightarrow> 0 \<le> i | _ \<Rightarrow> False)"

definition line_counts :: "pydict \<Rightarrow> (string, unit) result" where
  "line_counts d =
     bind_result (require_each (\<lambda>k. require (count_or_null (dict_get d k))
         ''diff count must be a non-negative integer or null'') [''additions'', ''deletions'', ''total'']) (\<lambda>_.
     bind_result (require ((dict_get d ''additions'' = PNone) = (dict_get d ''deletions'' = PNone))
         ''diff additions/deletions must both be collected or both null'') (\<lambda>_.
     case (dict_get d ''additions'', dict_get d ''deletions'') of
       (PInt a, PInt b) \<Rightarrow> require (dict_get d ''total'' = PInt (a + b)) ''diff.total does not equal additions + deletions''
     | _ \<Rightarrow> require (dict_get d ''total'' = PNone) ''diff.total requires collected line counts''))"

text \<open>\<^verbatim>\<open>xs or []\<close> of a normalized file list.\<close>

definition or_empty_list :: "pyval \<Rightarrow> pyval" where
  "or_empty_list v = (if v = PNone then PList [] else v)"

definition normalize_diff :: "pyval \<Rightarrow> (string, pyval) result" where
  "normalize_diff v = (case v of
     PNone \<Rightarrow> Inr PNone
   | PDict d \<Rightarrow>
       bind_result (line_counts d) (\<lambda>_.
       bind_result (normalize_file_list (dict_get d ''new_files'')) (\<lambda>nf.
       bind_result (normalize_file_list (dict_get d ''modified_files'')) (\<lambda>mf.
       bind_result (normalize_file_list (dict_get d ''deleted_files'')) (\<lambda>df.
       Inr (PDict [(''additions'', dict_get d ''additions''), (''deletions'', dict_get d ''deletions''),
         (''total'', dict_get d ''total''), (''new_files'', or_empty_list nf),
         (''modified_files'', or_empty_list mf), (''deleted_files'', or_empty_list df)])))))
   | _ \<Rightarrow> Inl ''diff must be an object or null'')"

definition normalize_push_error :: "(string \<Rightarrow> string) \<Rightarrow> pyval \<Rightarrow> (string, pyval) result" where
  "normalize_push_error san v = (case v of
     PNone \<Rightarrow> Inr PNone
   | PDict d \<Rightarrow>
       bind_result (require_in_strs (dict_get d ''code'') PUSH_ERROR_CODES ''push.error.code is invalid'') (\<lambda>_.
       case dict_get d ''message'' of
         PStr m \<Rightarrow> Inr (PDict [(''code'', dict_get d ''code''), (''message'', PStr (clip 2000 (san m)))])
       | _ \<Rightarrow> Inl ''push.error.message must be a string'')
   | _ \<Rightarrow> Inl ''push.error must be an object or null'')"

definition normalize_push :: "(string \<Rightarrow> string) \<Rightarrow> pyval \<Rightarrow> (string, pyval) result" where
  "normalize_push san v = (case v of
     PNone \<Rightarrow> Inr PNone
   | PDict d \<Rightarrow>
      (let status = dict_get d ''status''; remote_sha = dict_get d ''remote_sha'' in
       bind_result (require_in_strs status PUSH_STATUSES ''push.status is invalid'') (\<lambda>_.
       bind_result (require (null_or_sha remote_sha) ''push.remote_sha must be null or a full 40-hex sha'') (\<lambda>_.
       bind_result (normalize_push_error san (dict_get d ''error'')) (\<lambda>er.
       bind_result (require (\<not> (in_strs status confirmed_statuses \<and> er \<noteq> PNone))
         ''push.error is not allowed on a confirmed status'') (\<lambda>_.
       bind_result (require (\<not> (status = PStr ''failed'' \<and> er = PNone))
         ''push.error is required on status failed'') (\<lambda>_.
       bind_result (require (\<not> (in_strs status [''not_needed'', ''not_attempted''] \<and> er \<noteq> PNone))
         ''push.error requires status failed'') (\<lambda>_.
       bind_result (require (\<not> (status = PStr ''not_needed'' \<and> remote_sha \<noteq> PNone))
         ''push.remote_sha must be null on not_needed'') (\<lambda>_.
       bind_result (require (\<not> (in_strs status confirmed_statuses \<and> remote_sha = PNone))
         ''a confirmed status requires the confirmed remote_sha'') (\<lambda>_.
       Inr (PDict [(''status'', status), (''remote_sha'', remote_sha), (''error'', er)]))))))))))
   | _ \<Rightarrow> Inl ''push must be an object or null'')"


section \<open>The object\<close>

text \<open>
  \<^verbatim>\<open>^task-<id>-attempt-\d+-[0-9a-f]{12}$\<close> with \<^verbatim>\<open>match\<close>: the dollar also matches before a final newline.
\<close>

definition attempt_suffix :: "string \<Rightarrow> bool" where
  "attempt_suffix s \<longleftrightarrow> takeWhile is_digit s \<noteq> [] \<and>
     (case dropWhile is_digit s of
        c # h \<Rightarrow> c = CHR ''-'' \<and> length h = 12 \<and> list_all is_lower_hex h
      | [] \<Rightarrow> False)"

definition attempt_of_task :: "row_id \<Rightarrow> pyval \<Rightarrow> bool" where
  "attempt_of_task k v = (case v of
     PStr s \<Rightarrow> let p = ''task-'' @ int_repr k @ ''-attempt-''; r = drop (length p) s in
       startswith s p \<and> (attempt_suffix r \<or> (r \<noteq> [] \<and> last r = CHR 0x0A \<and> attempt_suffix (butlast r)))
   | _ \<Rightarrow> False)"

definition valid_branch :: "pyval \<Rightarrow> (string, unit) result" where
  "valid_branch v = (case v of
     PStr s \<Rightarrow> bind_result (require (non_blank s) ''branch is missing'') (\<lambda>_.
               require (int (length s) \<le> 500) ''branch exceeds the char limit'')
   | _ \<Rightarrow> Inl ''branch is missing'')"

text \<open>\<^verbatim>\<open>content\<close>: a truthy list of commits or of recovered commits; \<^verbatim>\<open>confirmed\<close>: a confirmed push.\<close>

definition has_content :: "pydict \<Rightarrow> bool" where
  "has_content d \<longleftrightarrow> py_truthy (dict_get d ''commits'') \<or> py_truthy (dict_get d ''recovered_commits'')"

definition push_status :: "pydict \<Rightarrow> pyval" where
  "push_status d = (case dict_get d ''push'' of PDict p \<Rightarrow> dict_get p ''status'' | _ \<Rightarrow> PNone)"

definition push_remote_sha :: "pydict \<Rightarrow> pyval" where
  "push_remote_sha d = (case dict_get d ''push'' of PDict p \<Rightarrow> dict_get p ''remote_sha'' | _ \<Rightarrow> PNone)"

definition is_confirmed :: "pydict \<Rightarrow> bool" where
  "is_confirmed d \<longleftrightarrow> in_strs (push_status d) confirmed_statuses"

definition cross_fields :: "pydict \<Rightarrow> (string, unit) result" where
  "cross_fields d =
     bind_result (require (\<not> (has_content d \<and> \<not> is_full_sha (dict_get d ''head_sha'')))
       ''content without a full head sha cannot be attributed'') (\<lambda>_.
     bind_result (require (\<not> (is_confirmed d \<and> \<not> has_content d))
       ''confirms a delivery without any listed commits or recovered commits'') (\<lambda>_.
     require (\<not> (push_status d = PStr ''pushed'' \<and> push_remote_sha d \<noteq> dict_get d ''head_sha''))
       ''pushed remote_sha must equal head_sha''))"

definition normalize_git_delivery :: "(string \<Rightarrow> string) \<Rightarrow> row_id \<Rightarrow> pyval \<Rightarrow> (string, pydict) result" where
  "normalize_git_delivery san k v = (case v of
     PDict d \<Rightarrow>
       bind_result (require (dict_get d ''schema'' = PStr ''codify.git-delivery.v1'') ''unexpected git_delivery schema'') (\<lambda>_.
       bind_result (require (attempt_of_task k (dict_get d ''attempt_id'')) ''attempt_id does not belong to task'') (\<lambda>_.
       bind_result (valid_branch (dict_get d ''branch'')) (\<lambda>_.
       bind_result (require_each (\<lambda>key. require (null_or_sha (dict_get d key)) ''must be null or a full 40-hex sha'')
         [''start_sha'', ''start_remote_sha'', ''head_sha'']) (\<lambda>_.
       bind_result (normalize_commit_list san (dict_get d ''commits'')) (\<lambda>commits.
       bind_result (normalize_commit_list san (dict_get d ''recovered_commits'')) (\<lambda>recovered.
       bind_result (normalize_diff (dict_get d ''diff'')) (\<lambda>df.
       bind_result (normalize_push san (dict_get d ''push'')) (\<lambda>push.
       let n = [(''schema'', dict_get d ''schema''), (''attempt_id'', dict_get d ''attempt_id''),
                (''branch'', dict_get d ''branch''), (''start_sha'', dict_get d ''start_sha''),
                (''start_remote_sha'', dict_get d ''start_remote_sha''), (''head_sha'', dict_get d ''head_sha''),
                (''commits'', commits), (''recovered_commits'', recovered), (''diff'', df), (''push'', push)]
       in bind_result (cross_fields n) (\<lambda>_. Inr n)))))))))
   | _ \<Rightarrow> Inl ''git_delivery must be an object'')"

definition project_delivery_commit_sha :: "pydict \<Rightarrow> pyval" where
  "project_delivery_commit_sha d =
     (if \<not> in_strs (push_status d) confirmed_statuses then PNone
      else if \<not> has_content d then PNone
      else if is_full_sha (dict_get d ''head_sha'') then dict_get d ''head_sha'' else PNone)"

definition completed_delivery_error :: "pydict \<Rightarrow> string option" where
  "completed_delivery_error d =
     (if as_list (dict_get d ''commits'') = None \<or> as_list (dict_get d ''recovered_commits'') = None
      then Some ''run.completed git_delivery requires collected commit lists''
      else if has_content d \<and> \<not> in_strs (push_status d) confirmed_statuses
      then Some ''run.completed git_delivery content requires a remote-confirmed push status''
      else if \<not> has_content d \<and> push_status d \<noteq> PStr ''not_needed''
      then Some ''run.completed git_delivery without content requires status not_needed''
      else None)"

definition delivery_push_status_text :: "string option \<Rightarrow> string option" where
  "delivery_push_status_text s = (case s of None \<Rightarrow> None | Some t \<Rightarrow> if t \<in> set PUSH_STATUSES then Some t else None)"


section \<open>What an accepted object satisfies\<close>

definition push_error :: "pydict \<Rightarrow> pyval" where
  "push_error d = (case dict_get d ''push'' of PDict p \<Rightarrow> dict_get p ''error'' | _ \<Rightarrow> PNone)"

lemmas result_eqs = bind_result_eq_Inr map_result_eq_Inr

lemma normalize_push_fields:
  assumes "normalize_push san v = Inr q"
  shows "q = PNone \<or> (\<exists>s r e. q = PDict [(''status'', PStr s), (''remote_sha'', r), (''error'', e)]
    \<and> s \<in> set PUSH_STATUSES \<and> null_or_sha r \<and> (s = ''failed'' \<longleftrightarrow> e \<noteq> PNone)
    \<and> (s \<in> set confirmed_statuses \<longrightarrow> is_full_sha r) \<and> (s = ''not_needed'' \<longrightarrow> r = PNone))"
proof (cases v)
  case (PDict p)
  obtain s where s: "dict_get p ''status'' = PStr s" "s \<in> set PUSH_STATUSES"
    using assms PDict by (auto simp: normalize_push_def bind_result_eq_Inr Let_def)
  obtain e where e: "normalize_push_error san (dict_get p ''error'') = Inr e"
    using assms by (cases "normalize_push_error san (dict_get p ''error'')")
      (simp_all add: PDict normalize_push_def Let_def bind_result_eq_Inr)
  have q: "q = PDict [(''status'', PStr s), (''remote_sha'', dict_get p ''remote_sha''), (''error'', e)]
      \<and> null_or_sha (dict_get p ''remote_sha'')
      \<and> (s \<in> set confirmed_statuses \<longrightarrow> e = PNone \<and> dict_get p ''remote_sha'' \<noteq> PNone)
      \<and> (s = ''failed'' \<longrightarrow> e \<noteq> PNone) \<and> (s \<in> set [''not_needed'', ''not_attempted''] \<longrightarrow> e = PNone)
      \<and> (s = ''not_needed'' \<longrightarrow> dict_get p ''remote_sha'' = PNone)"
    using assms by (simp add: PDict normalize_push_def Let_def bind_result_eq_Inr e s in_strs_def)
  have "s = ''failed'' \<longleftrightarrow> e \<noteq> PNone"
    using conjunct2 [OF conjunct2 [OF q]] s(2) unfolding PUSH_STATUSES_def confirmed_statuses_def
      list.set insert_iff empty_iff by satx
  moreover have "s \<in> set confirmed_statuses \<longrightarrow> is_full_sha (dict_get p ''remote_sha'')"
    using q unfolding null_or_sha_def by blast
  ultimately show ?thesis
    using q s(2) by blast
qed (use assms in \<open>auto simp: normalize_push_def\<close>)

lemma line_countsD:
  assumes "line_counts d = Inr u"
  shows "dict_get d ''additions'' = PNone \<and> dict_get d ''deletions'' = PNone \<and> dict_get d ''total'' = PNone
    \<or> (\<exists>a b. 0 \<le> a \<and> 0 \<le> b \<and> dict_get d ''additions'' = PInt a \<and> dict_get d ''deletions'' = PInt b
         \<and> dict_get d ''total'' = PInt (a + b))"
  using assms
  by (cases "dict_get d ''additions''"; cases "dict_get d ''deletions''")
     (auto simp: line_counts_def result_eqs count_or_null_def)

lemma normalize_diffE:
  assumes "normalize_diff v = Inr q"
  obtains "q = PNone"
  | d nf mf df where "v = PDict d" "line_counts d = Inr ()"
      "normalize_file_list (dict_get d ''new_files'') = Inr nf"
      "normalize_file_list (dict_get d ''modified_files'') = Inr mf"
      "normalize_file_list (dict_get d ''deleted_files'') = Inr df"
      "q = PDict [(''additions'', dict_get d ''additions''), (''deletions'', dict_get d ''deletions''),
         (''total'', dict_get d ''total''), (''new_files'', or_empty_list nf),
         (''modified_files'', or_empty_list mf), (''deleted_files'', or_empty_list df)]"
  using assms by (cases v) (auto simp: normalize_diff_def result_eqs)

lemma normalize_git_deliveryE:
  assumes "normalize_git_delivery san k v = Inr n"
  obtains d c r df p where "v = PDict d" "dict_get d ''schema'' = PStr ''codify.git-delivery.v1''"
    "attempt_of_task k (dict_get d ''attempt_id'')" "valid_branch (dict_get d ''branch'') = Inr ()"
    "null_or_sha (dict_get d ''start_sha'')" "null_or_sha (dict_get d ''start_remote_sha'')"
    "null_or_sha (dict_get d ''head_sha'')"
    "normalize_commit_list san (dict_get d ''commits'') = Inr c"
    "normalize_commit_list san (dict_get d ''recovered_commits'') = Inr r"
    "normalize_diff (dict_get d ''diff'') = Inr df" "normalize_push san (dict_get d ''push'') = Inr p"
    "n = [(''schema'', dict_get d ''schema''), (''attempt_id'', dict_get d ''attempt_id''),
          (''branch'', dict_get d ''branch''), (''start_sha'', dict_get d ''start_sha''),
          (''start_remote_sha'', dict_get d ''start_remote_sha''), (''head_sha'', dict_get d ''head_sha''),
          (''commits'', c), (''recovered_commits'', r), (''diff'', df), (''push'', p)]"
    "cross_fields n = Inr ()"
  using assms by (cases v) (auto simp: normalize_git_delivery_def result_eqs Let_def)

lemma cross_fieldsD:
  assumes "cross_fields d = Inr u"
  shows "has_content d \<Longrightarrow> is_full_sha (dict_get d ''head_sha'')"
    and "is_confirmed d \<Longrightarrow> has_content d"
    and "push_status d = PStr ''pushed'' \<Longrightarrow> push_remote_sha d = dict_get d ''head_sha''"
  using assms by (auto simp: cross_fields_def result_eqs)

lemma accepted_push:
  assumes "normalize_git_delivery san k v = Inr d"
  shows "push_status d = PStr ''failed'' \<longleftrightarrow> push_error d \<noteq> PNone" (is ?failed)
    and "is_confirmed d \<Longrightarrow> is_full_sha (push_remote_sha d)"
    and "push_status d = PStr ''not_needed'' \<Longrightarrow> push_remote_sha d = PNone"
proof -
  obtain w where "normalize_push san w = Inr (dict_get d ''push'')"
    using assms by (auto elim!: normalize_git_deliveryE)
  from normalize_push_fields [OF this]
  show ?failed "is_confirmed d \<Longrightarrow> is_full_sha (push_remote_sha d)"
    "push_status d = PStr ''not_needed'' \<Longrightarrow> push_remote_sha d = PNone"
    by (auto simp: push_status_def push_error_def push_remote_sha_def is_confirmed_def in_strs_def)
qed

lemma accepted_cross_fields:
  "normalize_git_delivery san k v = Inr d \<Longrightarrow> cross_fields d = Inr ()"
  by (auto elim!: normalize_git_deliveryE)

lemma line_counts_cong:
  assumes "dict_get d ''additions'' = dict_get e ''additions''" "dict_get d ''deletions'' = dict_get e ''deletions''"
    and "dict_get d ''total'' = dict_get e ''total''"
  shows "line_counts d = line_counts e"
  unfolding line_counts_def require_each.simps assms ..

lemma accepted_line_counts:
  assumes "normalize_git_delivery san k v = Inr d" "dict_get d ''diff'' = PDict df"
  shows "line_counts df = Inr ()"
proof -
  obtain w where "normalize_diff w = Inr (PDict df)"
    using assms by (auto elim!: normalize_git_deliveryE)
  then show ?thesis
  proof (cases rule: normalize_diffE)
    case (2 e nf mf xf)
    have "line_counts df = line_counts e"
      by (rule line_counts_cong) (use 2(6) in auto)
    then show ?thesis using 2(2) by simp
  qed simp
qed

text \<open>
  C31. Whatever object a worker reports, the one that is accepted is consistent: it names an attempt
  of the task; listed commits come with a full head commit; a confirmed push lists commits and a
  confirmed remote commit, which for \<^verbatim>\<open>pushed\<close> is the head itself; a push error is present exactly
  when the status is \<^verbatim>\<open>failed\<close>; and collected line counts add up to their total.
\<close>

theorem accepted_delivery_is_consistent:
  assumes "normalize_git_delivery san k v = Inr d"
  shows "attempt_of_task k (dict_get d ''attempt_id'')
    \<and> (has_content d \<longrightarrow> is_full_sha (dict_get d ''head_sha''))
    \<and> (is_confirmed d \<longrightarrow> has_content d \<and> is_full_sha (push_remote_sha d))
    \<and> (push_status d = PStr ''pushed'' \<longrightarrow> push_remote_sha d = dict_get d ''head_sha'')
    \<and> (push_status d = PStr ''failed'' \<longleftrightarrow> push_error d \<noteq> PNone)
    \<and> (\<forall>df a. dict_get d ''diff'' = PDict df \<and> dict_get df ''additions'' = PInt a \<longrightarrow>
         (\<exists>b. 0 \<le> a \<and> 0 \<le> b \<and> dict_get df ''deletions'' = PInt b \<and> dict_get df ''total'' = PInt (a + b)))"
proof -
  have "attempt_of_task k (dict_get d ''attempt_id'')"
    using assms by (auto elim!: normalize_git_deliveryE)
  moreover have "\<exists>b. 0 \<le> a \<and> 0 \<le> b \<and> dict_get df ''deletions'' = PInt b \<and> dict_get df ''total'' = PInt (a + b)"
    if "dict_get d ''diff'' = PDict df" "dict_get df ''additions'' = PInt a" for df a
    using line_countsD [OF accepted_line_counts [OF assms that(1)]] that(2) by auto
  ultimately show ?thesis
    using cross_fieldsD [OF accepted_cross_fields [OF assms]] accepted_push [OF assms] by blast
qed


section \<open>Normalizing twice\<close>

lemma normalize_commit_stable:
  assumes "normalize_commit san e = Inr y"
  shows "normalize_commit (\<lambda>s. s) y = Inr y"
  using assms
  by (auto simp: normalize_commit_def result_eqs clean_text_def split: pyval.splits)

lemma normalize_commit_list_stable:
  assumes "normalize_commit_list san v = Inr y"
  shows "normalize_commit_list (\<lambda>s. s) y = Inr y"
proof (cases v)
  case (PList xs)
  then obtain ys where y: "y = PList ys" "int (length xs) \<le> 2000"
    and ys: "list_all2 (\<lambda>x y. normalize_commit san x = Inr y) xs ys"
    using assms by (auto simp: normalize_commit_list_def result_eqs)
  have "list_all (\<lambda>y. normalize_commit (\<lambda>s. s) y = Inr y) ys"
    using ys normalize_commit_stable
    by (auto simp: list_all_length list_all2_conv_all_nth)
  then show ?thesis
    using y list_all2_lengthD [OF ys] by (simp add: normalize_commit_list_def map_result_fixed)
qed (use assms in \<open>auto simp: normalize_commit_list_def\<close>)

lemma normalize_file_same: "normalize_file e = Inr y \<Longrightarrow> y = e"
  by (auto simp: normalize_file_def result_eqs split: pyval.splits)

lemma normalize_file_list_stable:
  assumes "normalize_file_list v = Inr y"
  shows "y = v" and "normalize_file_list (or_empty_list y) = Inr (or_empty_list y)"
proof -
  have "list_all2 (\<lambda>x y. normalize_file x = Inr y) xs ys \<Longrightarrow> xs = ys" for xs ys
    by (induction rule: list_all2_induct) (auto dest: normalize_file_same)
  then show eq: "y = v"
    using assms by (auto simp: normalize_file_list_def result_eqs split: pyval.splits)
  show "normalize_file_list (or_empty_list y) = Inr (or_empty_list y)"
    using assms unfolding eq by (auto simp: or_empty_list_def normalize_file_list_def)
qed

lemma normalize_diff_stable:
  assumes "normalize_diff v = Inr q"
  shows "normalize_diff q = Inr q"
  using assms
proof (cases rule: normalize_diffE)
  case (2 d nf mf df)
  have "or_empty_list (or_empty_list x) = or_empty_list x" for x
    by (simp add: or_empty_list_def)
  moreover have "line_counts [(''additions'', dict_get d ''additions''), (''deletions'', dict_get d ''deletions''),
      (''total'', dict_get d ''total''), (''new_files'', x), (''modified_files'', y), (''deleted_files'', z)] = line_counts d"
    for x y z by (rule line_counts_cong) auto
  ultimately show ?thesis
    unfolding 2(6) using 2(2) 2(3-5)[THEN normalize_file_list_stable(2)] by (simp add: normalize_diff_def)
qed (simp add: normalize_diff_def)

lemma normalize_push_error_stable:
  assumes "normalize_push_error san v = Inr y"
  shows "normalize_push_error (\<lambda>s. s) y = Inr y"
  using assms by (cases v) (auto simp: normalize_push_error_def result_eqs split: pyval.splits)

lemma normalize_push_stable:
  assumes "normalize_push san v = Inr y"
  shows "normalize_push (\<lambda>s. s) y = Inr y"
  using assms normalize_push_error_stable
  by (cases v) (auto simp: normalize_push_def result_eqs Let_def)

text \<open>
  C32. Validating the normalized object once more, with its texts taken as they are, neither rejects
  nor changes it: what the validation itself does to an object it does at once. Whether a second pass
  changes a text is then a matter of the masking alone.
\<close>

theorem normalized_delivery_is_a_fixed_point:
  assumes "normalize_git_delivery san k v = Inr d"
  shows "normalize_git_delivery (\<lambda>s. s) k (PDict d) = Inr d"
  using assms
proof (cases rule: normalize_git_deliveryE)
  case (1 e c r df p)
  note stable = normalize_commit_list_stable [OF 1(8)] normalize_commit_list_stable [OF 1(9)]
    normalize_diff_stable [OF 1(10)] normalize_push_stable [OF 1(11)]
  show ?thesis
    using 1(2-7,13) stable unfolding 1(12) by (simp add: normalize_git_delivery_def Let_def)
qed

text \<open>A delivery that may accompany \<^verbatim>\<open>run.completed\<close> is published, or there was nothing to publish.\<close>

lemma published_or_empty:
  assumes "normalize_git_delivery san k v = Inr d" and "completed_delivery_error d = None"
  shows "if has_content d
    then is_confirmed d \<and> is_full_sha (dict_get d ''head_sha'')
         \<and> project_delivery_commit_sha d = dict_get d ''head_sha''
    else push_status d = PStr ''not_needed'' \<and> push_remote_sha d = PNone \<and> project_delivery_commit_sha d = PNone"
proof (cases "has_content d")
  case True
  then show ?thesis
    using assms(2) cross_fieldsD(1) [OF accepted_cross_fields [OF assms(1)]]
    by (auto simp: completed_delivery_error_def is_confirmed_def project_delivery_commit_sha_def split: if_splits)
next
  case False
  then have st: "push_status d = PStr ''not_needed''"
    using assms(2) by (auto simp: completed_delivery_error_def split: if_splits)
  moreover have "push_remote_sha d = PNone"
    using accepted_push(3) [OF assms(1)] st by simp
  ultimately show ?thesis
    using False by (simp add: project_delivery_commit_sha_def)
qed


section \<open>A concrete delivery\<close>

definition head_a :: string where "head_a = replicate 40 (CHR ''a'')"

definition pushed_delivery :: pydict where
  "pushed_delivery = [(''schema'', PStr ''codify.git-delivery.v1''),
     (''attempt_id'', PStr ''task-7-attempt-1-0123456789ab''), (''branch'', PStr ''issue-3''),
     (''start_sha'', PNone), (''start_remote_sha'', PNone), (''head_sha'', PStr head_a),
     (''commits'', PList [PDict [(''sha'', PStr head_a), (''subject'', PStr ''fix'')]]),
     (''recovered_commits'', PList []),
     (''diff'', PDict [(''additions'', PInt 3), (''deletions'', PInt 2), (''total'', PInt 5),
        (''new_files'', PList []), (''modified_files'', PList [PStr ''a.py'']), (''deleted_files'', PList [])]),
     (''push'', PDict [(''status'', PStr ''pushed''), (''remote_sha'', PStr head_a), (''error'', PNone)])]"

lemma pushed_delivery_accepted: "normalize_git_delivery id 7 (PDict pushed_delivery) = Inr pushed_delivery"
  by code_simp

lemma pushed_delivery_completes: "completed_delivery_error pushed_delivery = None"
  by code_simp

lemma accepted_delivery_is_consistent_witness:
  "push_status pushed_delivery = PStr ''pushed''
   \<and> push_remote_sha pushed_delivery = dict_get pushed_delivery ''head_sha''"
proof -
  have "push_status pushed_delivery = PStr ''pushed''" by code_simp
  then show ?thesis
    using accepted_delivery_is_consistent [OF pushed_delivery_accepted] by blast
qed

lemma normalized_delivery_is_a_fixed_point_witness:
  "normalize_git_delivery (\<lambda>s. s) 7 (PDict pushed_delivery) = Inr pushed_delivery"
  by (rule normalized_delivery_is_a_fixed_point [OF pushed_delivery_accepted])

end
