(* ===== verification/Issue_Lineage.thy ===== *)
theory Issue_Lineage
  imports Issue_Order
begin

text \<open>
  Session lineage at execution time, \<^verbatim>\<open>core/issue_task_lineage.py\<close>: which session a task resumes
  (\<open>resolve_projected_resume_session\<close>) and where the session it produced is recorded
  (\<open>record_projected_output_session\<close>). Rows are keyed by issue and generation.

  The flush of a changed row is an update by key; a raise carries no database.
\<close>

definition INPUT_REASON_FRESH :: string where "INPUT_REASON_FRESH = ''fresh''"
definition INPUT_REASON_RESUMED :: string where "INPUT_REASON_RESUMED = ''resumed''"
definition INPUT_REASON_FRESH_NO_MATCH :: string where "INPUT_REASON_FRESH_NO_MATCH = ''fresh_no_match''"

definition lineage_key :: "session_lineage \<Rightarrow> row_id \<times> int" where
  "lineage_key r = (lineage_issue_id r, lineage_generation r)"

definition get_lineage_row :: "database \<Rightarrow> row_id \<Rightarrow> int \<Rightarrow> session_lineage option" where
  "get_lineage_row d issue generation = row_by lineage_key (issue, generation) (lineages d)"

definition ensure_lineage_row ::
  "database \<Rightarrow> row_id \<Rightarrow> int \<Rightarrow> string \<Rightarrow> string \<Rightarrow> row_id option \<Rightarrow> string
     \<Rightarrow> session_lineage \<times> database" where
  "ensure_lineage_row d issue generation harness_key session_namespace reset_task_id reason =
     (case get_lineage_row d issue generation of
        Some row \<Rightarrow> (row, d)
      | None \<Rightarrow>
          let row = \<lparr>lineage_issue_id = issue, lineage_generation = generation,
                lineage_harness_key = harness_key, lineage_session_namespace = session_namespace,
                lineage_reset_task_id = reset_task_id, lineage_session_id = None,
                lineage_last_output_task_id = None, lineage_last_output_issue_sequence = None,
                lineage_reason = Some reason\<rparr>
          in (row, d\<lparr>lineages := lineages d @ [row]\<rparr>))"

definition put_lineage :: "row_id \<Rightarrow> int \<Rightarrow> (session_lineage \<Rightarrow> session_lineage) \<Rightarrow> database \<Rightarrow> database" where
  "put_lineage issue generation f d =
     d\<lparr>lineages := update_where (\<lambda>r. lineage_key r = (issue, generation)) f (lineages d)\<rparr>"

text \<open>\<open>projection_for_task\<close>: like \<open>task_projection\<close> but without the demand for a reset task.\<close>

definition projection_for_task :: "task \<Rightarrow> (string \<times> string \<times> int \<times> row_id option \<times> string option) option" where
  "projection_for_task t =
     (case (task_projected_harness_key t, task_projected_session_namespace t, task_projected_lineage_generation t) of
        (Some h, Some n, Some g) \<Rightarrow>
          Some (h, n, g, task_projected_reset_task_id t, task_lineage_projection_reason t)
      | _ \<Rightarrow> None)"

definition resolve_projected_resume_session ::
  "database \<Rightarrow> task \<Rightarrow> string \<Rightarrow> string \<Rightarrow> int \<Rightarrow> row_id option \<Rightarrow> string
     \<Rightarrow> (string option \<times> string) \<times> database" where
  "resolve_projected_resume_session d t harness_key session_namespace generation reset_task_id session_mode =
     (if session_mode = ''fresh'' then
        let (_, d1) = ensure_lineage_row d (task_issue_id t) generation harness_key session_namespace
                        reset_task_id ''fresh''
        in ((None, INPUT_REASON_FRESH),
            put_lineage (task_issue_id t) generation
              (\<lambda>r. r\<lparr>lineage_session_id := None, lineage_reason := Some ''fresh''\<rparr>) d1)
      else case get_lineage_row d (task_issue_id t) generation of
        Some row \<Rightarrow>
          if lineage_harness_key row = harness_key \<and> lineage_session_namespace row = session_namespace
             \<and> lineage_session_id row \<noteq> None \<and> lineage_session_id row \<noteq> Some []
          then ((lineage_session_id row, INPUT_REASON_RESUMED), d)
          else ((None, INPUT_REASON_FRESH_NO_MATCH), d)
      | None \<Rightarrow> ((None, INPUT_REASON_FRESH_NO_MATCH), d))"

datatype lineage_error = NoProjectedLineage | NoProjectedGeneration | CrossesGenerations | BehindLastOutput

definition record_projected_output_session ::
  "database \<Rightarrow> task \<Rightarrow> string option \<Rightarrow> (lineage_error, database) result" where
  "record_projected_output_session d t session_id =
     (case (task_projected_harness_key t, task_projected_session_namespace t) of
        (Some h, Some n) \<Rightarrow>
          (case task_projected_lineage_generation t of
             None \<Rightarrow> Inl NoProjectedGeneration
           | Some g \<Rightarrow>
               let (row, d1) = ensure_lineage_row d (task_issue_id t) g h n (task_projected_reset_task_id t)
                     (case task_lineage_projection_reason t of None \<Rightarrow> ''inherited''
                      | Some r \<Rightarrow> if r = [] then ''inherited'' else r)
               in if lineage_harness_key row \<noteq> h \<or> lineage_session_namespace row \<noteq> n
                  then Inl CrossesGenerations
                  else if (case (lineage_last_output_issue_sequence row, task_issue_sequence t) of
                             (Some l, Some q) \<Rightarrow> q < l | _ \<Rightarrow> False)
                  then Inl BehindLastOutput
                  else Inr (put_lineage (task_issue_id t) g
                         (\<lambda>r. r\<lparr>lineage_session_id := session_id,
                               lineage_last_output_task_id := Some (task_id t),
                               lineage_last_output_issue_sequence := task_issue_sequence t\<rparr>) d1))
      | _ \<Rightarrow> Inl NoProjectedLineage)"


section \<open>Rows by key\<close>

lemma lineage_key_updates [simp]:
  "lineage_key (r\<lparr>lineage_session_id := s, lineage_reason := x\<rparr>) = lineage_key r"
  "lineage_key (r\<lparr>lineage_session_id := s, lineage_last_output_task_id := a,
                 lineage_last_output_issue_sequence := b\<rparr>) = lineage_key r"
  by (simp_all add: lineage_key_def)

lemma get_put_lineage:
  assumes "\<And>r. lineage_key (f r) = lineage_key r"
  shows "get_lineage_row (put_lineage i g f d) i' g' =
    (if (i', g') = (i, g) then map_option f (get_lineage_row d i g) else get_lineage_row d i' g')"
proof -
  have "row_by lineage_key k (update_where (\<lambda>r. lineage_key r = l) f rows) =
      (if k = l then map_option f (row_by lineage_key l rows) else row_by lineage_key k rows)" for k l rows
    using assms by (induction rows) auto
  then show ?thesis by (simp add: get_lineage_row_def put_lineage_def)
qed

lemma ensure_lineage_row_get:
  assumes "ensure_lineage_row d i g h n r why = (row, d')"
  shows "get_lineage_row d' i g = Some row"
    and "(i', g') \<noteq> (i, g) \<Longrightarrow> get_lineage_row d' i' g' = get_lineage_row d i' g'"
    and "get_lineage_row d i g = Some old \<Longrightarrow> row = old"
    and "get_lineage_row d i g = None \<Longrightarrow> lineage_harness_key row = h \<and> lineage_session_namespace row = n
           \<and> lineage_session_id row = None \<and> lineage_last_output_issue_sequence row = None"
  using assms
  by (auto simp: ensure_lineage_row_def get_lineage_row_def Let_def row_by_append lineage_key_def
      split: option.splits)


section \<open>Properties of the lineage\<close>

text \<open>
  A task resumes a session only from the row of its own issue and generation, and only when
  that row carries its harness and namespace: a session is never taken from another generation,
  another harness or another namespace.
\<close>

theorem resume_only_exact_lineage:
  "(fst (resolve_projected_resume_session d t h n g r mode) = (Some s, INPUT_REASON_RESUMED)) =
     (mode \<noteq> ''fresh'' \<and> s \<noteq> [] \<and> (\<exists>row. get_lineage_row d (task_issue_id t) g = Some row
        \<and> lineage_harness_key row = h \<and> lineage_session_namespace row = n \<and> lineage_session_id row = Some s))"
  by (auto simp: resolve_projected_resume_session_def split: option.splits prod.splits)

text \<open>
  What a run records is what the next turn resumes: after a task recorded a session, a
  continuing task with the same projection resumes exactly that session, and what tasks of every
  other issue or generation resume is unchanged; after a fresh start nothing is resumed.
\<close>

theorem recorded_session_is_resumed:
  assumes "record_projected_output_session d t (Some s) = Inr d'" "s \<noteq> []"
    and "projection_for_task t = Some (h, n, g, r, why)"
    and "task_issue_id u = task_issue_id t" "mode \<noteq> ''fresh''"
  shows "fst (resolve_projected_resume_session d' u h n g r mode) = (Some s, INPUT_REASON_RESUMED)
    \<and> fst (resolve_projected_resume_session (snd (resolve_projected_resume_session d' u h n g r ''fresh'')) u h n g r mode)
        = (None, INPUT_REASON_FRESH_NO_MATCH)
    \<and> (\<forall>i' g'. (i', g') \<noteq> (task_issue_id t, g) \<longrightarrow> get_lineage_row d' i' g' = get_lineage_row d i' g')"
proof -
  from assms(3) have proj: "task_projected_harness_key t = Some h" "task_projected_session_namespace t = Some n"
    "task_projected_lineage_generation t = Some g"
    by (auto simp: projection_for_task_def split: option.splits)
  obtain row d1 where e: "ensure_lineage_row d (task_issue_id t) g h n (task_projected_reset_task_id t)
      (case task_lineage_projection_reason t of None \<Rightarrow> ''inherited'' | Some r \<Rightarrow> if r = [] then ''inherited'' else r)
      = (row, d1)" by fastforce
  let ?f = "\<lambda>r. r\<lparr>lineage_session_id := Some s, lineage_last_output_task_id := Some (task_id t),
              lineage_last_output_issue_sequence := task_issue_sequence t\<rparr>"
  have d': "d' = put_lineage (task_issue_id t) g ?f d1"
    and row: "lineage_harness_key row = h" "lineage_session_namespace row = n"
    using assms(1) proj e
    by (auto simp: record_projected_output_session_def split: if_splits)
  have row': "get_lineage_row d' (task_issue_id u) g = Some (?f row)"
    using ensure_lineage_row_get(1) [OF e] assms(4) by (simp add: d' get_put_lineage)
  have "get_lineage_row d' i' g' = get_lineage_row d i' g'" if "(i', g') \<noteq> (task_issue_id t, g)" for i' g'
    using that ensure_lineage_row_get(2) [OF e that] by (auto simp: d' get_put_lineage)
  moreover have "fst (resolve_projected_resume_session d' u h n g r mode) = (Some s, INPUT_REASON_RESUMED)"
    using row' row assms(2,5) by (simp add: resolve_projected_resume_session_def)
  moreover have "get_lineage_row (snd (resolve_projected_resume_session d' u h n g r ''fresh'')) (task_issue_id u) g
      = Some ((?f row)\<lparr>lineage_session_id := None, lineage_reason := Some ''fresh''\<rparr>)"
    using row' by (simp add: resolve_projected_resume_session_def ensure_lineage_row_def get_put_lineage)
  ultimately show ?thesis using assms(5) by (simp add: resolve_projected_resume_session_def)
qed

text \<open>
  Recording never goes back: a task behind the last recorded turn of its generation, or whose
  row belongs to another harness or namespace, is refused, so along any sequence of successful
  recordings of numbered tasks the last recorded turn of a generation never decreases.
\<close>

theorem recording_is_monotone:
  assumes "record_projected_output_session d t session_id = Inr d'" "task_issue_sequence t = Some q"
    and "get_lineage_row d i g = Some row" "lineage_last_output_issue_sequence row = Some l"
  shows "\<exists>row' l'. get_lineage_row d' i g = Some row' \<and> lineage_last_output_issue_sequence row' = Some l' \<and> l \<le> l'
    \<and> lineage_harness_key row' = lineage_harness_key row
    \<and> lineage_session_namespace row' = lineage_session_namespace row"
proof -
  from assms(1) obtain h n g' where proj: "task_projected_harness_key t = Some h"
    "task_projected_session_namespace t = Some n" "task_projected_lineage_generation t = Some g'"
    by (auto simp: record_projected_output_session_def split: option.splits)
  obtain row1 d1 where e: "ensure_lineage_row d (task_issue_id t) g' h n (task_projected_reset_task_id t)
      (case task_lineage_projection_reason t of None \<Rightarrow> ''inherited'' | Some r \<Rightarrow> if r = [] then ''inherited'' else r)
      = (row1, d1)" by fastforce
  let ?f = "\<lambda>r. r\<lparr>lineage_session_id := session_id, lineage_last_output_task_id := Some (task_id t),
              lineage_last_output_issue_sequence := task_issue_sequence t\<rparr>"
  have d': "d' = put_lineage (task_issue_id t) g' ?f d1"
    and ge: "\<And>l. lineage_last_output_issue_sequence row1 = Some l \<Longrightarrow> l \<le> q"
    using assms(1,2) proj e
    by (auto simp: record_projected_output_session_def split: if_splits)
  show ?thesis
  proof (cases "(i, g) = (task_issue_id t, g')")
    case True
    then have "row1 = row" "get_lineage_row d1 i g = Some row"
      using ensure_lineage_row_get(1,3) [OF e] assms(3) by auto
    then show ?thesis using True ge assms(2,4) by (simp add: d' get_put_lineage)
  next
    case False
    then show ?thesis using ensure_lineage_row_get(2) [OF e False] assms(3,4) by (auto simp: d' get_put_lineage)
  qed
qed


section \<open>Concrete runs\<close>

definition lineage_task :: task where
  "lineage_task = (sample_task 1 7 RUNNING (Some 1))\<lparr>task_projected_harness_key := Some ''claude'',
     task_projected_session_namespace := Some ''claude-1'', task_projected_lineage_generation := Some 0,
     task_lineage_projection_reason := Some ''initial''\<rparr>"

theorem recorded_session_is_resumed_witness:
  "\<exists>d'. record_projected_output_session (sample_db [] []) lineage_task (Some ''s1'') = Inr d'
     \<and> fst (resolve_projected_resume_session d' (sample_task 2 7 RUNNING (Some 2)) ''claude'' ''claude-1'' 0 None ''continue'')
         = (Some ''s1'', INPUT_REASON_RESUMED)"
proof -
  obtain d' where d': "record_projected_output_session (sample_db [] []) lineage_task (Some ''s1'') = Inr d'"
  proof -
    have "\<not> isl (record_projected_output_session (sample_db [] []) lineage_task (Some ''s1''))" by code_simp
    then show ?thesis using that by (cases "record_projected_output_session (sample_db [] []) lineage_task (Some ''s1'')") auto
  qed
  have "projection_for_task lineage_task = Some (''claude'', ''claude-1'', 0, None, Some ''initial'')"
    "task_issue_id (sample_task 2 7 RUNNING (Some 2)) = task_issue_id lineage_task"
    by code_simp+
  with d' recorded_session_is_resumed [OF d', of "''claude''" "''claude-1''" 0 None "Some ''initial''"
      "sample_task 2 7 RUNNING (Some 2)" "''continue''"]
  show ?thesis by auto
qed

theorem recording_is_monotone_witness:
  "\<exists>d1 d2 row. record_projected_output_session (sample_db [] []) lineage_task (Some ''s1'') = Inr d1
     \<and> record_projected_output_session d1 lineage_task (Some ''s2'') = Inr d2
     \<and> get_lineage_row d2 7 0 = Some row \<and> lineage_last_output_issue_sequence row \<noteq> None"
proof -
  have "case record_projected_output_session (sample_db [] []) lineage_task (Some ''s1'') of Inl _ \<Rightarrow> False
    | Inr d1 \<Rightarrow> (case record_projected_output_session d1 lineage_task (Some ''s2'') of Inl _ \<Rightarrow> False | Inr _ \<Rightarrow> True)
        \<and> (case get_lineage_row d1 7 0 of None \<Rightarrow> False | Some row \<Rightarrow> lineage_last_output_issue_sequence row = Some 1)"
    by code_simp
  then obtain d1 row d2 where d1: "record_projected_output_session (sample_db [] []) lineage_task (Some ''s1'') = Inr d1"
    and row: "get_lineage_row d1 7 0 = Some row" "lineage_last_output_issue_sequence row = Some 1"
    "record_projected_output_session d1 lineage_task (Some ''s2'') = Inr d2"
    by (auto split: sum.splits option.splits)
  have "task_issue_sequence lineage_task = Some 1" by code_simp
  from recording_is_monotone [OF row(3) this row(1,2)] d1 row(3) show ?thesis by auto
qed

end
