(* ===== verification/Worker_Outcome.thy ===== *)
theory Worker_Outcome
  imports Git_Delivery Issue_Lineage Scheduler_State
begin

text \<open>
  How a finished worker container becomes the outcome of its task: \<^verbatim>\<open>parse_task_result\<close> of
  \<^verbatim>\<open>core/worker_results.py\<close>, the tail of \<^verbatim>\<open>monitor_container_run\<close> and
  \<^verbatim>\<open>finalize_pre_container_cancellation\<close> of \<^verbatim>\<open>core/worker_task_lifecycle.py\<close>.

  The structured logs that the parser reads are the dicts of \<open>run_report\<close>; the verdict on an archived
  result envelope and the detail read from the archive are its fields \<open>rr_v2_error\<close> and
  \<open>rr_archived_detail\<close>. The columns modelled are the status, the completion time, the error, the commit,
  the output session, the container and the delivery; token counts, the model name, the commit
  message, the merge request and the change statistics do not enter these decisions. \<open>san\<close> masks
  sensitive text (\<open>sanitize_sensitive_data\<close> of \<open>Sensitive_Text\<close> in the program) and \<open>rp\<close> is Python's \<^verbatim>\<open>repr\<close> of a value. Removing the container may
  fail, which is the flag \<open>removed\<close>.
\<close>

record run_report =
  rr_run_result :: pydict
  rr_harness_result :: pydict
  rr_finalization :: pydict
  rr_v2_error :: string
  rr_archived_detail :: "string option"
  rr_logs :: string
  rr_exit_code :: int

record run_outcome =
  ro_task :: task
  ro_delivery :: "pydict option"
  ro_error_from_canonical :: bool

definition py_or :: "pyval \<Rightarrow> pyval \<Rightarrow> pyval" where
  "py_or a b = (if py_truthy a then a else b)"

definition latest_attempt_id :: "database \<Rightarrow> row_id \<Rightarrow> string option" where
  "latest_attempt_id d k = map_option attempt_id (load_current_attempt d k)"


section \<open>When an archived detail replaces the canonical reason\<close>

text \<open>
  \<^verbatim>\<open>core/task_failure_details.py\<close>. \<open>http_status_rest\<close> is the text after a match of
  \<^verbatim>\<open>^\s*(?:HTTP(?:Error)?\s*[:/]?\s*)?([1-5]\d{2})\b\<close>, which has one way to match. Lower-casing matters
  on ASCII letters only: no other character of the model has an ASCII lower case.
\<close>

fun contains_text :: "string \<Rightarrow> string \<Rightarrow> bool" where
  "contains_text [] p = (p = [])"
| "contains_text (c # s) p = (startswith (c # s) p \<or> contains_text s p)"

definition is_word_char :: "char \<Rightarrow> bool" where
  "is_word_char c = (is_alnum c \<or> c = CHR ''_'' \<or> (let n = of_char c :: nat in
     n \<in> set [170, 178, 179, 181, 185, 186, 188, 189, 190] \<or> (192 \<le> n \<and> n \<noteq> 215 \<and> n \<noteq> 247)))"

definition http_prefix :: "string \<Rightarrow> string" where
  "http_prefix s =
     (if map to_lower (take 4 s) = ''http'' then
        let a = drop 4 s;
            b = dropWhile is_space (if map to_lower (take 5 a) = ''error'' then drop 5 a else a)
        in dropWhile is_space (case b of c # r \<Rightarrow> if c = CHR '':'' \<or> c = CHR ''/'' then r else b | [] \<Rightarrow> b)
      else s)"

definition http_status_rest :: "string \<Rightarrow> string option" where
  "http_status_rest s = (case http_prefix (dropWhile is_space s) of
     a # b # c # r \<Rightarrow>
       if char_in_range (CHR ''1'') (CHR ''5'') a \<and> is_digit b \<and> is_digit c \<and> (r = [] \<or> \<not> is_word_char (hd r))
       then Some r else None
   | _ \<Rightarrow> None)"

definition raw_payload_markers :: "string list" where
  "raw_payload_markers =
     [''<!doctype html'', ''<html'', ''<script'', ''__next_f'', ''<body'', ''<head'', ''<?xml'']"

definition should_use_archived_failure_detail :: "string \<Rightarrow> bool" where
  "should_use_archived_failure_detail canonical_message =
     (let m = py_strip canonical_message in
      if m = [] then True
      else if 1000 < int (length m) then True
      else let body = (case http_status_rest m of
                 None \<Rightarrow> m
               | Some r \<Rightarrow> dropWhile (\<lambda>c. c \<in> set [CHR '' '', CHR '':'', CHR ''-'', CHR 0x09]) r);
               lowered = map to_lower body
           in startswith lowered ''{'' \<or> list_ex (contains_text lowered) raw_payload_markers)"


section \<open>The verdict on the delivery\<close>

text \<open>\<^verbatim>\<open>worker.finalization diff\<close> against the diff of the delivery, on the counts both have.\<close>

definition diff_contradicts :: "pydict \<Rightarrow> pydict \<Rightarrow> bool" where
  "diff_contradicts fin gd = (case (dict_get fin ''diff'', dict_get gd ''diff'') of
     (PDict tp, PDict df) \<Rightarrow>
       list_ex (\<lambda>k. dict_get tp k \<noteq> PNone \<and> dict_get df k \<noteq> PNone \<and> \<not> py_eq (dict_get tp k) (dict_get df k))
         [''additions'', ''deletions'', ''total'']
   | _ \<Rightarrow> False)"

definition check_delivery ::
  "(pyval \<Rightarrow> string) \<Rightarrow> (string \<Rightarrow> string) \<Rightarrow> string option \<Rightarrow> string option \<Rightarrow> row_id \<Rightarrow> string \<Rightarrow> pydict
     \<Rightarrow> (string, pydict) result" where
  "check_delivery rp san branch attempt k terminal_type fin =
     bind_result (normalize_git_delivery san k (dict_get fin ''git_delivery'')) (\<lambda>gd.
     let expected_branch = (case branch of None \<Rightarrow> [] | Some b \<Rightarrow> py_strip b) in
     bind_result (require (expected_branch \<noteq> []) ''the current Issue branch is unavailable'') (\<lambda>_.
     bind_result (require (dict_get gd ''branch'' = PStr expected_branch) ''branch does not match the current Issue branch'') (\<lambda>_.
     bind_result (require (attempt \<noteq> None \<and> attempt \<noteq> Some []) ''the canonical attempt is unavailable'') (\<lambda>_.
     bind_result (require (dict_get gd ''attempt_id'' = PStr (the attempt)) ''attempt_id does not match the canonical attempt'') (\<lambda>_.
     bind_result (case (if terminal_type = ''run.completed'' then completed_delivery_error gd else None) of
         None \<Rightarrow> Inr () | Some e \<Rightarrow> Inl e) (\<lambda>_.
     let top_commit_sha = py_strip (str_or_empty rp (dict_get fin ''commit_sha'')) in
     bind_result (require (top_commit_sha = [] \<or> project_delivery_commit_sha gd = PStr top_commit_sha)
         ''commit_sha projection contradicts git_delivery push state'') (\<lambda>_.
     bind_result (require (\<not> diff_contradicts fin gd) ''diff contradicts git_delivery.diff'') (\<lambda>_. Inr gd))))))))"

text \<open>
  The pair of \<^verbatim>\<open>git_delivery\<close> and \<^verbatim>\<open>git_delivery_error\<close>, the empty string meaning no error. The outer
  result is the exception of an unhashable status or code.
\<close>

definition delivery_verdict ::
  "(pyval \<Rightarrow> string) \<Rightarrow> (string \<Rightarrow> string) \<Rightarrow> string option \<Rightarrow> string option \<Rightarrow> task \<Rightarrow> string \<Rightarrow> pydict
     \<Rightarrow> (string, pydict option \<times> string) result" where
  "delivery_verdict rp san branch attempt t terminal_type fin =
     (let mode = (if task_mode t = [] then ''execute'' else task_mode t) in
      if \<not> has_key fin ''git_delivery'' then
        Inr (None, if terminal_type = ''run.completed'' \<and> mode \<noteq> ''plan''
                   then ''git_delivery is required for completed code tasks'' else [])
      else if dict_get fin ''git_delivery'' = PNone then Inr (None, ''git_delivery must be an object'')
      else case check_delivery rp san branch attempt (task_id t) terminal_type fin of
             Inl e \<Rightarrow> if e = ''TypeError'' then Inl e else Inr (None, ''git_delivery '' @ e)
           | Inr gd \<Rightarrow> Inr (Some gd, []))"


section \<open>The terminal decision\<close>

definition mark_failed :: "timestamp \<Rightarrow> string \<Rightarrow> task \<Rightarrow> task" where
  "mark_failed now err t = t\<lparr>task_status := FAILED, task_completed_at := Some now, task_error_message := Some err\<rparr>"

text \<open>\<^verbatim>\<open>finalization_exit_code not in {None, 0}\<close>, which raises on a list or a dict.\<close>

definition exit_state_conflicts :: "int \<Rightarrow> pyval \<Rightarrow> (string, bool) result" where
  "exit_state_conflicts exit_code fin_code =
     (if exit_code \<noteq> 0 then Inr True
      else if unhashable fin_code then Inl ''TypeError''
      else Inr (\<not> (fin_code = PNone \<or> py_number fin_code = Some 0)))"

definition failed_run_message :: "(pyval \<Rightarrow> string) \<Rightarrow> run_report \<Rightarrow> string" where
  "failed_run_message rp r =
     (let failure = as_dict (dict_get (rr_run_result r) ''failure'');
          kind = (case failure of None \<Rightarrow> [] | Some f \<Rightarrow> str_or_empty rp (dict_get f ''kind''));
          terminal_status = str_or_empty rp (dict_get (rr_run_result r) ''status'');
          m1 = (case failure of None \<Rightarrow> [] | Some f \<Rightarrow>
                  str_or_empty rp (py_or (dict_get f ''message'') (dict_get f ''kind'')));
          m2 = (if terminal_status = ''protocol_error'' \<or> kind = ''protocol_error''
                then ''protocol_error: '' @ (if m1 = [] then ''canonical attempt failed'' else m1) else m1)
      in case rr_archived_detail r of
           Some a \<Rightarrow> if a \<noteq> [] \<and> should_use_archived_failure_detail m2 then a else m2
         | None \<Rightarrow> m2)"

definition failed_run_status :: "(pyval \<Rightarrow> string) \<Rightarrow> run_report \<Rightarrow> task_status" where
  "failed_run_status rp r =
     (let kind = (case as_dict (dict_get (rr_run_result r) ''failure'') of
                    None \<Rightarrow> [] | Some f \<Rightarrow> str_or_empty rp (dict_get f ''kind''))
      in if str_or_empty rp (dict_get (rr_run_result r) ''status'') = ''cancelled'' \<or> kind = ''cancelled''
         then CANCELLED else FAILED)"

definition failed_run_text :: "(string \<Rightarrow> string) \<Rightarrow> string \<Rightarrow> string \<Rightarrow> string" where
  "failed_run_text san m logs =
     last_chars 1000 (san (if m \<noteq> [] then m
       else if last_chars 1000 logs \<noteq> [] then last_chars 1000 logs else ''Harness task failed''))"

definition decide_terminal ::
  "(pyval \<Rightarrow> string) \<Rightarrow> (string \<Rightarrow> string) \<Rightarrow> timestamp \<Rightarrow> run_report \<Rightarrow> string \<Rightarrow> task
     \<Rightarrow> (string, task \<times> bool) result" where
  "decide_terminal rp san now r delivery_error t =
     (let terminal_type = str_or_empty rp (dict_get (rr_run_result r) ''type'') in
      if terminal_type = [] then
        Inr (mark_failed now ''protocol_error: canonical attempt is missing a Task terminal'' t, False)
      else if terminal_type = ''run.completed'' then
        bind_result (exit_state_conflicts (rr_exit_code r) (dict_get (rr_finalization r) ''exit_code'')) (\<lambda>conflict.
        Inr (if conflict then mark_failed now
               ''protocol_error: run.completed conflicts with the worker process exit state'' t
             else if rr_v2_error r \<noteq> [] then mark_failed now (rr_v2_error r) t
             else if delivery_error \<noteq> [] then mark_failed now
               (''protocol_error: worker.finalization git_delivery rejected: '' @ delivery_error) t
             else t\<lparr>task_status := COMPLETED, task_completed_at := Some now\<rparr>, False))
      else if terminal_type = ''run.failed'' then
        let m = failed_run_message rp r in
        Inr (t\<lparr>task_status := failed_run_status rp r, task_completed_at := Some now,
               task_error_message := Some (failed_run_text san m (rr_logs r))\<rparr>, m \<noteq> [])
      else Inr (mark_failed now (''protocol_error: unknown Task terminal '' @ rp (PStr terminal_type)) t, False))"

definition with_commit :: "pyval \<Rightarrow> task \<Rightarrow> task" where
  "with_commit sha t = (case sha of PStr s \<Rightarrow> if s \<noteq> [] then t\<lparr>task_commit_sha := Some s\<rparr> else t | _ \<Rightarrow> t)"

definition with_session :: "string \<Rightarrow> task \<Rightarrow> task" where
  "with_session session t = (if session \<noteq> [] then t\<lparr>task_output_session_id := Some session\<rparr> else t)"

definition parse_task_result ::
  "(pyval \<Rightarrow> string) \<Rightarrow> (string \<Rightarrow> string) \<Rightarrow> timestamp \<Rightarrow> string option \<Rightarrow> string option \<Rightarrow> run_report \<Rightarrow> task
     \<Rightarrow> (string, run_outcome) result" where
  "parse_task_result rp san now branch attempt r t =
     bind_result (delivery_verdict rp san branch attempt t
         (str_or_empty rp (dict_get (rr_run_result r) ''type'')) (rr_finalization r)) (\<lambda>(gd, delivery_error).
     let sha = (case gd of None \<Rightarrow> PNone | Some g \<Rightarrow> project_delivery_commit_sha g);
         t1 = with_commit sha t
     in bind_result (decide_terminal rp san now r delivery_error t1) (\<lambda>(t2, canonical).
     let session = py_strip (str_or_empty rp (py_or (dict_get (rr_harness_result r) ''session_id'')
                     (dict_get (rr_run_result r) ''session_id'')))
     in Inr \<lparr>ro_task = with_session session t2, ro_delivery = gd,
             ro_error_from_canonical = (canonical \<or> (case task_error_message t2 of
                None \<Rightarrow> False | Some e \<Rightarrow> startswith e ''protocol_error:''))\<rparr>))"


section \<open>The end of a monitored run\<close>

text \<open>The flush of the columns that the parser assigned.\<close>

definition store_outcome :: "task \<Rightarrow> task \<Rightarrow> task" where
  "store_outcome r t = t\<lparr>task_status := task_status r, task_completed_at := task_completed_at r,
     task_error_message := task_error_message r, task_commit_sha := task_commit_sha r,
     task_output_session_id := task_output_session_id r\<rparr>"

datatype notice = SuccessNotice | FailureNotice | CancelledNotice

definition record_output_session :: "bool \<Rightarrow> task \<Rightarrow> database \<Rightarrow> database" where
  "record_output_session has_issue t d =
     (case task_output_session_id t of
        Some s \<Rightarrow> if has_issue \<and> s \<noteq> [] \<and> projection_for_task t \<noteq> None
                  then (case record_projected_output_session d t (Some s) of Inr d' \<Rightarrow> d' | Inl _ \<Rightarrow> d)
                  else d
      | None \<Rightarrow> d)"

definition failure_output :: "(string \<Rightarrow> string) \<Rightarrow> string \<Rightarrow> string" where
  "failure_output san logs =
     (let s = san logs in
      if 16000 < int (length s)
      then clip 8000 s @ [CHR 0x0A] @ ''...[failure output truncated]...'' @ [CHR 0x0A] @ last_chars 8000 s
      else s)"

definition wins_cancelled :: "bool \<Rightarrow> bool \<Rightarrow> task \<Rightarrow> bool" where
  "wins_cancelled cancellation_requested timed_out t \<longleftrightarrow>
     (task_status t = CANCELLED \<or> cancellation_requested) \<and> task_status t \<noteq> COMPLETED \<and> \<not> timed_out"

definition cancelled_row :: "timestamp \<Rightarrow> task \<Rightarrow> task" where
  "cancelled_row now t =
     (if task_status t = CANCELLED then t
      else t\<lparr>task_status := CANCELLED, task_completed_at := or_now (task_completed_at t) now,
             task_error_message := Some ''Cancelled by user''\<rparr>)"

text \<open>The frozen timeout of the task, which the monitor required when it started.\<close>

definition timeout_text :: "task \<Rightarrow> string" where
  "timeout_text t = (case frozen_task_timeout_seconds t of None \<Rightarrow> [] | Some n \<Rightarrow> int_repr n)"

definition finished_row ::
  "(string \<Rightarrow> string) \<Rightarrow> timestamp \<Rightarrow> run_report \<Rightarrow> bool \<Rightarrow> bool \<Rightarrow> task \<Rightarrow> task" where
  "finished_row san now r timed_out canonical t =
     (if timed_out then
        t\<lparr>task_status := FAILED, task_completed_at := or_now (task_completed_at t) now,
          task_error_message := Some (''Task timed out after '' @ timeout_text t @ ''s'' @ [CHR 0x0A] @ last_chars 800 (san (rr_logs r)))\<rparr>
      else if rr_exit_code r \<noteq> 0
        \<and> \<not> (canonical \<and> (case task_error_message t of None \<Rightarrow> False | Some e \<Rightarrow> py_strip e \<noteq> []))
      then t\<lparr>task_error_message := Some (failure_output san (rr_logs r))\<rparr>
      else t)"

definition drop_container :: "bool \<Rightarrow> task \<Rightarrow> task" where
  "drop_container gone t = (if gone then t\<lparr>task_container_id := None\<rparr> else t)"

definition finish_run ::
  "(pyval \<Rightarrow> string) \<Rightarrow> (string \<Rightarrow> string) \<Rightarrow> timestamp \<Rightarrow> (string option) option \<Rightarrow> run_report \<Rightarrow> bool \<Rightarrow> bool \<Rightarrow> bool
     \<Rightarrow> row_id \<Rightarrow> database \<Rightarrow> (string, bool \<times> notice \<times> database) result" where
  "finish_run rp san now issue_branch r timed_out logs_finalized removed k d =
     (case get_task d k of
        None \<Rightarrow> Inl ''InvalidRequestError''
      | Some t \<Rightarrow>
          let cancellation_requested = (task_cancel_requested_at t \<noteq> None);
              finalized = (logs_finalized \<or> task_raw_logs_finalized_at t \<noteq> None)
          in bind_result (parse_task_result rp san now (Option.bind issue_branch id) (latest_attempt_id d k) r t) (\<lambda>p.
             let t1 = ro_task p;
                 task_completed = (task_status t1 = COMPLETED);
                 d1 = close_task_control_gates now k (put_task k (store_outcome t1) d);
                 d2 = record_output_session (issue_branch \<noteq> None) t1 d1
             in Inr (if wins_cancelled cancellation_requested timed_out t1
                then (False, CancelledNotice,
                      put_task k (drop_container (finalized \<and> removed) \<circ> cancelled_row now) d2)
                else (let t2 = finished_row san now r timed_out (ro_error_from_canonical p) t1 in
                      (task_status t2 = COMPLETED,
                       if rr_exit_code r = 0 \<and> task_completed then SuccessNotice else FailureNotice,
                       put_task k (drop_container (finalized \<and> removed) \<circ> store_outcome t2) d2)))))"

definition finalize_pre_container_cancellation :: "timestamp \<Rightarrow> row_id \<Rightarrow> database \<Rightarrow> bool \<times> database" where
  "finalize_pre_container_cancellation now k d =
     (case get_task d k of
        None \<Rightarrow> (False, d)
      | Some t \<Rightarrow>
          if task_status t \<noteq> CANCELLED \<and> task_cancel_requested_at t = None then (False, d)
          else (True, put_task k (\<lambda>u. u\<lparr>task_status := CANCELLED,
                 task_completed_at := or_now (task_completed_at u) now,
                 task_error_message := Some ''Cancelled by user'',
                 task_raw_logs_finalized_at := (if task_container_id u = None
                    then or_now (task_raw_logs_finalized_at u) now else task_raw_logs_finalized_at u)\<rparr>) d))"


section \<open>What the parser decides\<close>

lemma project_sha_cases:
  "project_delivery_commit_sha g = PNone \<or> (\<exists>s. project_delivery_commit_sha g = PStr s \<and> s \<noteq> []
     \<and> dict_get g ''head_sha'' = PStr s \<and> is_confirmed g \<and> has_content g)"
  by (auto simp: project_delivery_commit_sha_def is_full_sha_def is_confirmed_def split: pyval.splits)

lemma check_deliveryE:
  assumes "check_delivery rp san branch attempt k ty fin = Inr gd"
  obtains b a where "normalize_git_delivery san k (dict_get fin ''git_delivery'') = Inr gd"
    "branch = Some b" "dict_get gd ''branch'' = PStr (py_strip b)"
    "attempt = Some a" "dict_get gd ''attempt_id'' = PStr a"
    "ty = ''run.completed'' \<Longrightarrow> completed_delivery_error gd = None"
  using assms
  by (auto simp: check_delivery_def bind_result_eq_Inr Let_def split: option.splits if_splits)

lemma delivery_verdictE:
  assumes "delivery_verdict rp san branch attempt t ty fin = Inr (gd, err)"
  obtains (no_object) "gd = None" "dict_get fin ''git_delivery'' = PNone"
      "ty = ''run.completed'' \<Longrightarrow> err = [] \<Longrightarrow> task_mode t = ''plan'' \<and> \<not> has_key fin ''git_delivery''"
  | (rejected) "gd = None" "err \<noteq> []"
  | (accepted) g where "gd = Some g" "err = []"
      "check_delivery rp san branch attempt (task_id t) ty fin = Inr g"
  using assms
  by (auto simp: delivery_verdict_def Let_def has_key_def dict_get_def split: sum.splits if_splits option.splits)

lemma with_commit_frame [simp]:
  "task_id (with_commit sha t) = task_id t" "task_status (with_commit sha t) = task_status t"
  by (simp_all add: with_commit_def split: pyval.split)

lemma with_session_frame [simp]:
  "task_id (with_session s t) = task_id t" "task_status (with_session s t) = task_status t"
  "task_commit_sha (with_session s t) = task_commit_sha t" "task_completed_at (with_session s t) = task_completed_at t"
  by (simp_all add: with_session_def)

lemma mark_failed_frame [simp]:
  "task_id (mark_failed now e t) = task_id t" "task_commit_sha (mark_failed now e t) = task_commit_sha t"
  "task_completed_at (mark_failed now e t) = Some now" "task_status (mark_failed now e t) = FAILED"
  by (simp_all add: mark_failed_def)

lemma failed_run_status_cases: "failed_run_status rp r = CANCELLED \<or> failed_run_status rp r = FAILED"
  by (simp add: failed_run_status_def Let_def)

lemma decide_terminal_cases:
  assumes "decide_terminal rp san now r err t = Inr (t', c)"
  obtains (failed) e where "t' = mark_failed now e t"
  | (completed) "t' = t\<lparr>task_status := COMPLETED, task_completed_at := Some now\<rparr>"
      "str_or_empty rp (dict_get (rr_run_result r) ''type'') = ''run.completed''" "rr_exit_code r = 0"
      "rr_v2_error r = []" "err = []"
  | (reported) e where "t' = t\<lparr>task_status := failed_run_status rp r, task_completed_at := Some now,
               task_error_message := Some e\<rparr>"
proof -
  define ty where "ty = str_or_empty rp (dict_get (rr_run_result r) ''type'')"
  note a = assms [unfolded decide_terminal_def Let_def, folded ty_def]
  consider "ty = []" | "ty = ''run.completed''" | "ty = ''run.failed''"
    | "ty \<noteq> []" "ty \<noteq> ''run.completed''" "ty \<noteq> ''run.failed''" by blast
  then show thesis
  proof cases
    case 2
    then obtain conflict where "exit_state_conflicts (rr_exit_code r) (dict_get (rr_finalization r) ''exit_code'') = Inr conflict"
      and t': "t' = (if conflict then mark_failed now
               ''protocol_error: run.completed conflicts with the worker process exit state'' t
             else if rr_v2_error r \<noteq> [] then mark_failed now (rr_v2_error r) t
             else if err \<noteq> [] then mark_failed now
               (''protocol_error: worker.finalization git_delivery rejected: '' @ err) t
             else t\<lparr>task_status := COMPLETED, task_completed_at := Some now\<rparr>)"
      using a by (auto simp: bind_result_eq_Inr)
    then have "conflict \<or> rr_exit_code r = 0" by (auto simp: exit_state_conflicts_def split: if_splits)
    then show thesis using 2 t' failed completed unfolding ty_def by (metis (no_types))
  qed (use a failed reported in auto)
qed

lemma decide_terminal_frame:
  assumes "decide_terminal rp san now r err t = Inr (t', c)"
  shows "task_id t' = task_id t" "task_commit_sha t' = task_commit_sha t" "task_completed_at t' = Some now"
    "task_status t' \<in> {COMPLETED, FAILED, CANCELLED}"
  using assms by (cases rule: decide_terminal_cases; use failed_run_status_cases [of rp r] in force)+

lemma decide_terminal_completed:
  assumes "decide_terminal rp san now r err t = Inr (t', c)" "task_status t' = COMPLETED"
  shows "str_or_empty rp (dict_get (rr_run_result r) ''type'') = ''run.completed''" "rr_exit_code r = 0"
    "rr_v2_error r = []" "err = []"
  using assms by (cases rule: decide_terminal_cases; use failed_run_status_cases [of rp r] in force)+

lemma parse_task_resultE:
  assumes "parse_task_result rp san now branch attempt r t = Inr p"
  obtains gd err t2 c where
    "delivery_verdict rp san branch attempt t (str_or_empty rp (dict_get (rr_run_result r) ''type'')) (rr_finalization r)
       = Inr (gd, err)"
    "decide_terminal rp san now r err
       (with_commit (case gd of None \<Rightarrow> PNone | Some g \<Rightarrow> project_delivery_commit_sha g) t) = Inr (t2, c)"
    "ro_delivery p = gd" "\<exists>s. ro_task p = with_session s t2"
  using assms by (auto simp: parse_task_result_def bind_result_eq_Inr Let_def) blast

lemma parsed_row:
  assumes "parse_task_result rp san now branch attempt r t = Inr p"
  shows "task_id (ro_task p) = task_id t" "task_completed_at (ro_task p) = Some now"
    "task_status (ro_task p) \<in> {COMPLETED, FAILED, CANCELLED}"
    "task_commit_sha (ro_task p) = task_commit_sha t
     \<or> (\<exists>g s. ro_delivery p = Some g \<and> task_commit_sha (ro_task p) = Some s \<and> project_delivery_commit_sha g = PStr s)"
proof -
  obtain gd err t2 c s where dt: "decide_terminal rp san now r err
       (with_commit (case gd of None \<Rightarrow> PNone | Some g \<Rightarrow> project_delivery_commit_sha g) t) = Inr (t2, c)"
    and p: "ro_delivery p = gd" "ro_task p = with_session s t2"
    using assms by (elim parse_task_resultE exE) blast
  note fr = decide_terminal_frame [OF dt]
  show "task_id (ro_task p) = task_id t" "task_completed_at (ro_task p) = Some now"
    "task_status (ro_task p) \<in> {COMPLETED, FAILED, CANCELLED}"
    using fr(1,3,4) by (simp_all add: p(2))
  show "task_commit_sha (ro_task p) = task_commit_sha t
     \<or> (\<exists>g s. ro_delivery p = Some g \<and> task_commit_sha (ro_task p) = Some s \<and> project_delivery_commit_sha g = PStr s)"
    using fr(2) by (auto simp: p with_commit_def split: option.splits pyval.splits if_splits)
qed


lemma accepted_verdict:
  assumes "delivery_verdict rp san branch attempt t ty fin = Inr (Some g, err)"
  shows "normalize_git_delivery san (task_id t) (dict_get fin ''git_delivery'') = Inr g"
    and "ty = ''run.completed'' \<Longrightarrow> completed_delivery_error g = None"
    and "\<exists>b. branch = Some b \<and> dict_get g ''branch'' = PStr (py_strip b)"
    and "\<exists>a. attempt = Some a \<and> dict_get g ''attempt_id'' = PStr a"
  using assms by (auto elim!: delivery_verdictE check_deliveryE)

definition delivered_by :: "string option \<Rightarrow> string option \<Rightarrow> pydict \<Rightarrow> bool" where
  "delivered_by branch attempt g \<longleftrightarrow> branch \<noteq> None \<and> dict_get g ''branch'' = PStr (py_strip (the branch))
     \<and> attempt \<noteq> None \<and> dict_get g ''attempt_id'' = PStr (the attempt)"

text \<open>
  C8. A run completes a task only when its worker exited cleanly and its delivery is accounted for.
  Except for a plan task without one, the report carries a delivery on the issue's branch by the
  current attempt: either it lists commits, the remote confirmed them and the task's commit is their
  head, or there was nothing to publish and the task's commit is untouched.
\<close>

theorem completed_run_is_delivered:
  assumes "parse_task_result rp san now branch attempt r t = Inr p"
    and "task_status (ro_task p) = COMPLETED"
  shows "rr_exit_code r = 0
    \<and> (case ro_delivery p of
         None \<Rightarrow> task_mode t = ''plan'' \<and> task_commit_sha (ro_task p) = task_commit_sha t
       | Some g \<Rightarrow> delivered_by branch attempt g
           \<and> (if has_content g
              then is_confirmed g \<and> task_commit_sha (ro_task p) = as_str (dict_get g ''head_sha'') \<and> is_full_sha (dict_get g ''head_sha'')
              else push_status g = PStr ''not_needed'' \<and> task_commit_sha (ro_task p) = task_commit_sha t))"
proof -
  define ty where "ty = str_or_empty rp (dict_get (rr_run_result r) ''type'')"
  obtain gd err t2 c s where v: "delivery_verdict rp san branch attempt t ty (rr_finalization r) = Inr (gd, err)"
    and dt: "decide_terminal rp san now r err
       (with_commit (case gd of None \<Rightarrow> PNone | Some g \<Rightarrow> project_delivery_commit_sha g) t) = Inr (t2, c)"
    and p: "ro_delivery p = gd" "ro_task p = with_session s t2"
    using assms(1) unfolding ty_def by (elim parse_task_resultE exE) blast
  have done2: "ty = ''run.completed''" "rr_exit_code r = 0" "err = []"
    using decide_terminal_completed [OF dt] assms(2) by (simp_all add: p(2) ty_def)
  have sha: "task_commit_sha (ro_task p)
      = task_commit_sha (with_commit (case gd of None \<Rightarrow> PNone | Some g \<Rightarrow> project_delivery_commit_sha g) t)"
    using decide_terminal_frame(2) [OF dt] by (simp add: p(2))
  show ?thesis
  proof (cases gd)
    case None
    have "task_mode t = ''plan''" using v None done2 by (auto elim!: delivery_verdictE)
    then show ?thesis using sha done2(2) None by (simp add: p(1) with_commit_def)
  next
    case (Some g)
    note av = accepted_verdict [OF v [unfolded Some]]
    note kinds = published_or_empty [OF av(1) av(2) [OF done2(1)]]
    have "delivered_by branch attempt g" using av(3,4) by (auto simp: delivered_by_def)
    then show ?thesis
      using sha done2(2) kinds Some
      by (auto simp: p(1) with_commit_def is_full_sha_def split: if_splits pyval.splits)
  qed
qed

text \<open>
  Whatever the outcome, a run changes the task's commit only to the full head of an accepted
  delivery with content that the remote confirmed, on the issue's branch and by the current attempt.
\<close>

theorem commit_comes_from_a_confirmed_delivery:
  assumes "parse_task_result rp san now branch attempt r t = Inr p"
    and "task_commit_sha (ro_task p) \<noteq> task_commit_sha t"
  shows "\<exists>g. ro_delivery p = Some g \<and> delivered_by branch attempt g \<and> is_confirmed g \<and> has_content g
    \<and> normalize_git_delivery san (task_id t) (dict_get (rr_finalization r) ''git_delivery'') = Inr g
    \<and> is_full_sha (dict_get g ''head_sha'') \<and> task_commit_sha (ro_task p) = as_str (dict_get g ''head_sha'')"
proof -
  obtain g s where g: "ro_delivery p = Some g" "task_commit_sha (ro_task p) = Some s" "project_delivery_commit_sha g = PStr s"
    using parsed_row(4) [OF assms(1)] assms(2) by blast
  obtain err where "delivery_verdict rp san branch attempt t (str_or_empty rp (dict_get (rr_run_result r) ''type''))
      (rr_finalization r) = Inr (Some g, err)"
    using assms(1) g(1) by (elim parse_task_resultE) metis
  note av = accepted_verdict [OF this]
  have "delivered_by branch attempt g" using av(3,4) by (auto simp: delivered_by_def)
  then show ?thesis
    using g av(1) by (auto simp: project_delivery_commit_sha_def is_confirmed_def is_full_sha_def split: if_splits pyval.splits)
qed


section \<open>The end of the run in the database\<close>

lemma completed_run_exit:
  assumes "parse_task_result rp san now branch attempt r t = Inr p" "task_status (ro_task p) = COMPLETED"
  shows "rr_exit_code r = 0"
  using assms by (auto elim!: parse_task_resultE dest: decide_terminal_completed(2))

lemma record_output_session_same_queue: "same_queue d (record_output_session b t d)"
proof -
  have "same_queue d d'" if "record_projected_output_session d t s = Inr d'" for s d'
    using that
    by (auto simp: record_projected_output_session_def ensure_lineage_row_def put_lineage_def same_queue_def Let_def
        split: option.splits if_splits)
  then show ?thesis
    by (auto simp: record_output_session_def same_queue_def split: option.split sum.split)
qed

lemma outcome_rows_keep_turn [simp]:
  "keeps_turn (store_outcome r)"
  "keeps_turn (drop_container g \<circ> cancelled_row now)" "keeps_turn (drop_container g \<circ> store_outcome r)"
  by (simp_all add: keeps_turn_def store_outcome_def drop_container_def cancelled_row_def)

lemma finish_runE:
  assumes "finish_run rp san now br r timed_out logs_finalized removed k d = Inr (ok, n, d')"
  obtains t p d2 f where "get_task d k = Some t"
    "parse_task_result rp san now (Option.bind br id) (latest_attempt_id d k) r t = Inr p"
    "same_queue (put_task k (store_outcome (ro_task p)) d) d2"
    "f = (if wins_cancelled (task_cancel_requested_at t \<noteq> None) timed_out (ro_task p) then cancelled_row now
          else store_outcome (finished_row san now r timed_out (ro_error_from_canonical p) (ro_task p)))"
    "d' = put_task k (drop_container ((logs_finalized \<or> task_raw_logs_finalized_at t \<noteq> None) \<and> removed) \<circ> f) d2"
    "ok \<longleftrightarrow> \<not> wins_cancelled (task_cancel_requested_at t \<noteq> None) timed_out (ro_task p)
       \<and> task_status (finished_row san now r timed_out (ro_error_from_canonical p) (ro_task p)) = COMPLETED"
    "n = (if wins_cancelled (task_cancel_requested_at t \<noteq> None) timed_out (ro_task p) then CancelledNotice
          else if rr_exit_code r = 0 \<and> task_status (ro_task p) = COMPLETED then SuccessNotice else FailureNotice)"
proof (cases "get_task d k")
  case (Some t)
  from assms Some obtain p where p: "parse_task_result rp san now (Option.bind br id) (latest_attempt_id d k) r t = Inr p"
    by (auto simp: finish_run_def bind_result_eq_Inr Let_def)
  define d1 where "d1 = close_task_control_gates now k (put_task k (store_outcome (ro_task p)) d)"
  have sq: "same_queue (put_task k (store_outcome (ro_task p)) d) (record_output_session (br \<noteq> None) (ro_task p) d1)"
    unfolding d1_def by (rule same_queue_trans [OF close_gates_same_queue record_output_session_same_queue])
  show thesis
    by (rule that [OF Some p sq refl]) (use assms Some p in \<open>auto simp: finish_run_def Let_def d1_def split: if_splits\<close>)
qed (use assms in \<open>simp add: finish_run_def\<close>)

lemma finished_row_status:
  "task_status (finished_row san now r timed_out c t) = (if timed_out then FAILED else task_status t)"
  by (simp add: finished_row_def)

lemma cancelled_row_status [simp]: "task_status (cancelled_row now t) = CANCELLED"
  by (simp add: cancelled_row_def)

lemma drop_container_frame [simp]:
  "task_status (drop_container g t) = task_status t" "task_completed_at (drop_container g t) = task_completed_at t"
  by (simp_all add: drop_container_def)

lemma store_outcome_frame [simp]:
  "task_status (store_outcome r t) = task_status r" "task_completed_at (store_outcome r t) = task_completed_at r"
  by (simp_all add: store_outcome_def)

lemma finish_run_ok_step:
  assumes "wf_db d" "finish_run rp san now br r timed_out logs_finalized removed k d = Inr (ok, n, d')"
  shows "ok_step d d'"
  using assms(2)
proof (cases rule: finish_runE)
  case (1 t p d2 f)
  have trm: "task_status (ro_task p) \<in> {COMPLETED, FAILED, CANCELLED}" by (rule parsed_row(3) [OF 1(2)])
  have one: "ok_step d (put_task k (store_outcome (ro_task p)) d)"
    by (rule ok_step_fail [OF assms(1)]) (use trm in \<open>auto simp: is_active_iff\<close>)
  have two: "ok_step d d2" by (rule ok_step_trans [OF one same_queue_ok_step [OF 1(3) ok_step_wf [OF one]]])
  have "ok_step d2 d'"
    unfolding 1(4,5) by (rule ok_step_fail [OF ok_step_wf [OF two]])
      (use trm in \<open>auto simp: is_active_iff finished_row_status\<close>)
  with two show ?thesis by (rule ok_step_trans)
qed

text \<open>
  C9. The end of a monitored run leaves a terminal row, decided in this order: a timeout is a
  failure; otherwise a completed run stays completed even when its cancellation had been requested;
  otherwise a cancelled or cancel-requested run is cancelled; every other run failed. The caller and
  the notifications agree with the row, whose container reference is dropped exactly when the raw
  logs are safe and the container was removed. A log stream that timed out reports the exit code -1.
\<close>

theorem finished_run_outcome:
  assumes "wf_db d" and "timed_out \<Longrightarrow> rr_exit_code r = -1"
    and "finish_run rp san now br r timed_out logs_finalized removed k d = Inr (ok, n, d')"
  shows "\<exists>t p t'. get_task d k = Some t \<and> get_task d' k = Some t'
    \<and> parse_task_result rp san now (Option.bind br id) (latest_attempt_id d k) r t = Inr p
    \<and> task_status t' = (if timed_out then FAILED
         else if task_status (ro_task p) = COMPLETED then COMPLETED
         else if task_status (ro_task p) = CANCELLED \<or> task_cancel_requested_at t \<noteq> None then CANCELLED
         else FAILED)
    \<and> task_completed_at t' = Some now
    \<and> (ok \<longleftrightarrow> task_status t' = COMPLETED) \<and> (n = SuccessNotice \<longleftrightarrow> ok)
    \<and> (n = CancelledNotice \<longleftrightarrow> task_status t' = CANCELLED)
    \<and> task_container_id t' = (if (logs_finalized \<or> task_raw_logs_finalized_at t \<noteq> None) \<and> removed
         then None else task_container_id t)"
  using assms(3)
proof (cases rule: finish_runE)
  case (1 t p d2 f)
  define g where "g = drop_container ((logs_finalized \<or> task_raw_logs_finalized_at t \<noteq> None) \<and> removed)"
  note row = parsed_row [OF 1(2)]
  have exit: "task_status (ro_task p) = COMPLETED \<Longrightarrow> rr_exit_code r = 0"
    using completed_run_exit [OF 1(2)] .
  have k: "task_id t = k" using 1(1) get_task_iff [OF assms(1)] by simp
  have "get_task d2 k = Some (store_outcome (ro_task p) t)"
    using 1(1,3) k get_task_put_task [of "store_outcome (ro_task p)" k d k] by (auto simp: same_queue_def get_task_def)
  then have t': "get_task d' k = Some ((g \<circ> f) (store_outcome (ro_task p) t))"
    using k unfolding 1(4,5) g_def
    by (subst get_task_put_task) (auto simp: store_outcome_def)
  have container: "task_container_id ((g \<circ> f) (store_outcome (ro_task p) t))
      = (if (logs_finalized \<or> task_raw_logs_finalized_at t \<noteq> None) \<and> removed then None else task_container_id t)"
    by (simp add: g_def 1(4) drop_container_def cancelled_row_def store_outcome_def)
  have stamp: "task_completed_at ((g \<circ> f) (store_outcome (ro_task p) t)) = Some now"
    using row(2) by (simp add: g_def 1(4) cancelled_row_def finished_row_def or_now_def)
  have status: "task_status ((g \<circ> f) (store_outcome (ro_task p) t)) = (if timed_out then FAILED
         else if task_status (ro_task p) = COMPLETED then COMPLETED
         else if task_status (ro_task p) = CANCELLED \<or> task_cancel_requested_at t \<noteq> None then CANCELLED
         else FAILED)"
    using row(3) by (auto simp: g_def 1(4) wins_cancelled_def finished_row_status)
  have "ok \<longleftrightarrow> task_status ((g \<circ> f) (store_outcome (ro_task p) t)) = COMPLETED"
    unfolding status 1(6) by (auto simp: wins_cancelled_def finished_row_status)
  moreover have "n = SuccessNotice \<longleftrightarrow> ok"
    using assms(2) exit unfolding 1(6,7) by (auto simp: wins_cancelled_def finished_row_status)
  moreover have "n = CancelledNotice \<longleftrightarrow> task_status ((g \<circ> f) (store_outcome (ro_task p) t)) = CANCELLED"
    unfolding status 1(7) by (auto simp: wins_cancelled_def)
  ultimately show ?thesis
    using 1(1,2) t' status stamp container by blast
qed


section \<open>A concrete run\<close>

definition finishing_task :: task where
  "finishing_task = (sample_task 7 7 RUNNING (Some 1))\<lparr>task_container_id := Some ''c7'', task_cancel_requested_at := Some 90\<rparr>"

definition completed_report :: run_report where
  "completed_report = \<lparr>rr_run_result = [(''type'', PStr ''run.completed'')],
     rr_harness_result = [(''session_id'', PStr ''s-1'')],
     rr_finalization = [(''git_delivery'', PDict pushed_delivery), (''exit_code'', PInt 0)],
     rr_v2_error = [], rr_archived_detail = None, rr_logs = ''ok'', rr_exit_code = 0\<rparr>"

definition finishing_db :: database where
  "finishing_db = (sample_db [finishing_task] [sample_lock 7 7])\<lparr>attempts :=
     [pi_attempt\<lparr>attempt_id := ''task-7-attempt-1-0123456789ab'', attempt_task_id := 7\<rparr>]\<rparr>"

lemma finishing_parse:
  "\<exists>p. parse_task_result (\<lambda>_. []) id 100 (Some ''issue-3'') (Some ''task-7-attempt-1-0123456789ab'') completed_report finishing_task = Inr p
     \<and> task_status (ro_task p) = COMPLETED \<and> task_commit_sha (ro_task p) = Some head_a \<and> ro_delivery p = Some pushed_delivery"
proof -
  have "case parse_task_result (\<lambda>_. []) id 100 (Some ''issue-3'') (Some ''task-7-attempt-1-0123456789ab'') completed_report finishing_task of
      Inl _ \<Rightarrow> False | Inr p \<Rightarrow> task_status (ro_task p) = COMPLETED \<and> task_commit_sha (ro_task p) = Some head_a
        \<and> ro_delivery p = Some pushed_delivery"
    by code_simp
  then show ?thesis by (auto split: sum.splits)
qed

lemma completed_run_is_delivered_witness:
  "\<exists>p. parse_task_result (\<lambda>_. []) id 100 (Some ''issue-3'') (Some ''task-7-attempt-1-0123456789ab'') completed_report finishing_task = Inr p
     \<and> delivered_by (Some ''issue-3'') (Some ''task-7-attempt-1-0123456789ab'') pushed_delivery
     \<and> is_confirmed pushed_delivery"
proof -
  obtain p where p: "parse_task_result (\<lambda>_. []) id 100 (Some ''issue-3'') (Some ''task-7-attempt-1-0123456789ab'') completed_report finishing_task = Inr p"
    "task_status (ro_task p) = COMPLETED" "ro_delivery p = Some pushed_delivery"
    using finishing_parse by blast
  have "has_content pushed_delivery" by code_simp
  then show ?thesis using completed_run_is_delivered [OF p(1,2)] p(1,3) by simp
qed

lemma commit_comes_from_a_confirmed_delivery_witness:
  "\<exists>p. parse_task_result (\<lambda>_. []) id 100 (Some ''issue-3'') (Some ''task-7-attempt-1-0123456789ab'') completed_report finishing_task = Inr p
     \<and> (\<exists>g. ro_delivery p = Some g \<and> is_confirmed g \<and> has_content g)"
proof -
  obtain p where p: "parse_task_result (\<lambda>_. []) id 100 (Some ''issue-3'') (Some ''task-7-attempt-1-0123456789ab'') completed_report finishing_task = Inr p"
    "task_commit_sha (ro_task p) = Some head_a"
    using finishing_parse by blast
  have "task_commit_sha finishing_task = None" by code_simp
  then show ?thesis using commit_comes_from_a_confirmed_delivery [OF p(1)] p by auto
qed

lemma finishing_db_wf: "wf_db finishing_db"
  by (simp add: finishing_db_def finishing_task_def wf_db_def unique_sequences_def sample_defs)

lemma finished_run_outcome_witness:
  "\<exists>ok n d' t'. finish_run (\<lambda>_. []) id 100 (Some (Some ''issue-3'')) completed_report False True True 7 finishing_db = Inr (ok, n, d')
     \<and> get_task d' 7 = Some t' \<and> task_status t' = COMPLETED \<and> task_container_id t' = None \<and> ok"
proof -
  have "\<not> isl (finish_run (\<lambda>_. []) id 100 (Some (Some ''issue-3'')) completed_report False True True 7 finishing_db)"
    by code_simp
  then obtain ok n d' where
    run: "finish_run (\<lambda>_. []) id 100 (Some (Some ''issue-3'')) completed_report False True True 7 finishing_db = Inr (ok, n, d')"
    by (metis isl_def sum.exhaust prod.exhaust)
  have t: "get_task finishing_db 7 = Some finishing_task" "latest_attempt_id finishing_db 7 = Some ''task-7-attempt-1-0123456789ab''"
    by code_simp+
  obtain p t' where "get_task d' 7 = Some t'" "task_status t' = COMPLETED" "task_container_id t' = None" "ok"
    using finished_run_outcome [OF finishing_db_wf _ run] finishing_parse t by force
  then show ?thesis using run by blast
qed

end
