(* ===== verification/Scheduler_Machine.thy ===== *)
theory Scheduler_Machine
  imports Task_Retry Worker_Outcome
begin

text \<open>
  The scheduler, its workers and the task actions of the API as one transition system over the
  scheduler's memory and the database. Every handler is one step; the cancellation route, whose two
  transactions other sessions may come between, is two steps, and what other sessions commit while the
  scheduler awaits a readiness probe is the field \<open>pe_others\<close> of the environment. What a step reads
  outside the database (clocks, Docker, the report of a worker) is chosen freely by the rule, and so is
  the row that a route loaded before it took the issue lock. The one restriction on such a row is the
  premise \<open>still_open\<close> of a reschedule: a reschedule that read the row as queued is not a step when the
  task has ended since, because it would bring the task back.

  The flag \<open>settles\<close> says that an executor call that returns has left its task in a state other than
  running. The block that ends a worker does not test this, so the flag is an assumption about the
  worker, and it matters for the lock only.

  \<open>invariant_system\<close> is the interface of an inductive invariant, and is interpreted on this system
  twice, with and without the flag.
\<close>

section \<open>Inductive invariants\<close>

locale invariant_system =
  fixes step :: "'s \<Rightarrow> 's \<Rightarrow> bool" and inv_of :: "'s \<Rightarrow> bool"
  assumes step_keeps: "inv_of s \<Longrightarrow> step s s' \<Longrightarrow> inv_of s'"
begin

lemma reachable_keeps:
  assumes "step\<^sup>*\<^sup>* s s'" "inv_of s"
  shows "inv_of s'"
  using assms by (induction rule: rtranclp_induct) (auto intro: step_keeps)

lemma always:
  assumes "\<And>s. inv_of s \<Longrightarrow> Q s" "step\<^sup>*\<^sup>* s s'" "inv_of s"
  shows "Q s'"
  using assms reachable_keeps by blast

end


section \<open>The steps\<close>

inductive sched_step ::
  "(string \<Rightarrow> string) \<Rightarrow> settings \<Rightarrow> slot_settings \<Rightarrow> (database \<Rightarrow> row_id \<Rightarrow> bool) \<Rightarrow> probe_env \<Rightarrow> bool
     \<Rightarrow> scheduler \<times> database \<Rightarrow> scheduler \<times> database \<Rightarrow> bool"
  for sha256 cfg slots over_limit env settles where
  Cycle: "sched_step sha256 cfg slots over_limit env settles (s, d) (run_cycle sha256 cfg over_limit env now clock (s, d))"
| RunFinished: "finish_run rp san now br r timed_out logs_finalized removed k d = Inr (ok, n, d')
    \<Longrightarrow> sched_step sha256 cfg slots over_limit env settles (s, d) (s, d')"
| PreContainerCancel: "sched_step sha256 cfg slots over_limit env settles (s, d) (s, snd (finalize_pre_container_cancellation now k d))"
| BackgroundEnded: "(\<And>t. settles \<Longrightarrow> outcome = ExecutorReturned \<Longrightarrow> get_task d k = Some t \<Longrightarrow> task_status t \<noteq> RUNNING)
    \<Longrightarrow> sched_step sha256 cfg slots over_limit env settles (s, d) (run_task_background now k outcome (s, d))"
| ReapRetained: "sched_step sha256 cfg slots over_limit env settles (s, d) (cleanup_retained_container_batch updated_at view now (s, d))"
| CancelRequest: "cancel_phase_a cfg now t d = Inr (u, d')
    \<Longrightarrow> sched_step sha256 cfg slots over_limit env settles (s, d) (s, d')"
| CancelSettle: "sched_step sha256 cfg slots over_limit env settles (s, d) (s, cancel_phase_b now gone log_read issue k d)"
| Override: "override_task_status cfg requested t d = Inr d'
    \<Longrightarrow> sched_step sha256 cfg slots over_limit env settles (s, d) (s, d')"
| ExecuteNow: "execute_task_now cfg t d = Inr d'
    \<Longrightarrow> sched_step sha256 cfg slots over_limit env settles (s, d) (s, d')"
| Reschedule: "still_open d t \<Longrightarrow> reschedule_task sha256 cfg slots now scheduled t d = Inr d'
    \<Longrightarrow> sched_step sha256 cfg slots over_limit env settles (s, d) (s, d')"
| Retry: "retry_locked sha256 slots now new_id req user scheduled t d = Inr (r, d')
    \<Longrightarrow> new_id \<notin> task_id ` set (tasks d) \<Longrightarrow> new_id \<notin> snap_task_id ` set (snapshots d)
    \<Longrightarrow> list_all (\<lambda>u. (task_created_at u, task_id u) < (now, new_id)) (issue_tasks d (task_issue_id t))
    \<Longrightarrow> sched_step sha256 cfg slots over_limit env settles (s, d) (s, d')"

definition queue_safe :: "scheduler \<times> database \<Rightarrow> bool" where
  "queue_safe st \<longleftrightarrow> turn_invariant (snd st) \<and> running_locked (snd st)"

lemma queue_safe_ok_step: "queue_safe (s, d) \<Longrightarrow> ok_step d d' \<Longrightarrow> queue_safe (s', d')"
  by (auto simp: queue_safe_def intro: ok_step_invariant ok_step_running_locked)

lemma queue_safe_wf: "queue_safe (s, d) \<Longrightarrow> wf_db d"
  by (simp add: queue_safe_def turn_invariant_def)

lemma pre_container_ok_step:
  assumes "wf_db d"
  shows "ok_step d (snd (finalize_pre_container_cancellation now k d))"
  using assms by (auto simp: finalize_pre_container_cancellation_def keeps_turn_def is_active_iff
      intro!: ok_step_fail split: option.split)

lemma bootstrap_failed_stops:
  assumes "wf_db d" "mark_worker_bootstrap_failed now k policy (s, d) = (s', d')" "t \<in> set (tasks d')" "task_id t = k"
  shows "task_status t \<noteq> RUNNING"
proof (cases "\<exists>u. get_task d k = Some u \<and> task_status u = RUNNING")
  case True
  then obtain u where u: "get_task d k = Some u" "task_status u = RUNNING" by blast
  have rel: "tasks (snd (release_issue_lock i k x)) = tasks (snd x)" for i x
    by (cases x) (simp add: release_issue_lock_def release_issue_execution_lock_def Let_def)
  define c m where "c = (task_cancel_requested_at u \<noteq> None)"
    and "m = (if c then ''cancelled_before_worker_startup''
              else case policy of Some code \<Rightarrow> code | None \<Rightarrow> ''worker_failed_to_start'')"
  have "tasks d' = update_where (\<lambda>v. task_id v = k) (bootstrap_failed now c m) (tasks d)"
  proof -
    obtain bl s1 where bl: "block_issue_for_retained_container u s = (bl, s1)" by fastforce
    let ?e = "put_task k (bootstrap_failed now c m) d"
    have "d' = close_task_control_gates now k (if bl then ?e else snd (release_issue_lock (task_issue_id u) k (s1, ?e)))"
      using assms(2) u bl by (cases bl)
        (simp_all add: mark_worker_bootstrap_failed_def Let_def split_def c_def m_def)
    then have "tasks d' = tasks (if bl then ?e else snd (release_issue_lock (task_issue_id u) k (s1, ?e)))"
      using close_gates_same_queue by (metis same_queue_def)
    then show ?thesis by (simp add: rel put_task_def split: if_splits)
  qed
  then obtain v where "t = (if task_id v = k then bootstrap_failed now c m v else v)"
    using assms(3) by (auto elim: in_update_whereE)
  then show ?thesis using assms(4) by (simp add: bootstrap_failed_def split: if_splits)
next
  case False
  then have "d' = d" using assms(2) by (auto simp: mark_worker_bootstrap_failed_def split: option.splits)
  then show ?thesis using False assms(3,4) get_task_iff [OF assms(1)] by auto
qed

text \<open>The cycle up to its claim keeps order and locks; the claim is the one of \<open>execute_task\<close>.\<close>

lemma run_cycle_parts:
  assumes wf: "wf_db d"
  obtains s4 d4 where "ok_step d d4"
    "run_cycle sha256 cfg over_limit env now clock (s, d) = (s4, d4)
     \<or> (\<exists>t. t \<in> set (tasks d4) \<and> run_cycle sha256 cfg over_limit env now clock (s, d) = execute_task sha256 cfg over_limit env now t s4 d4)"
proof -
  obtain s1 d1 where one: "(if is_v2_only (cfg_harness_execution_mode cfg) then snd (remediate_legacy_contracts now s d) else (s, d)) = (s1, d1)"
    by fastforce
  have ok1: "ok_step d d1"
    using one remediate_ok_step [OF wf, of now s] wf by (auto split: if_splits)
  obtain s2 d2 where two: "maybe_cleanup_issue_locks now (s1, d1) = (s2, d2)" by fastforce
  have ok2: "ok_step d d2"
    using ok_step_trans [OF ok1 cleanup_locks_ok_step [OF ok_step_wf [OF ok1], of now s1]] two by simp
  obtain s4 d4 where four: "mark_eligible_as_queued sha256 cfg now (reconcile_running_state clock s2 d2) d2 = (s4, d4)" by fastforce
  have ok4: "ok_step d d4" by (rule ok_step_trans [OF ok2 mark_eligible_ok_step [OF ok_step_wf [OF ok2] four]])
  have "t \<in> set (tasks d4)" if "get_next_task cfg s4 d4 = Some t" for t
    using first_byD(1) [OF that [unfolded get_next_task_def]] by simp
  moreover have "run_cycle sha256 cfg over_limit env now clock (s, d) = (s4, d4)
      \<or> (\<exists>t. get_next_task cfg s4 d4 = Some t \<and> run_cycle sha256 cfg over_limit env now clock (s, d) = execute_task sha256 cfg over_limit env now t s4 d4)"
    by (simp add: run_cycle_def one two four Let_def split: option.split)
  ultimately show thesis by (intro that [OF ok4]) blast
qed

lemma run_cycle_safe:
  assumes "calm_env env"
  shows "turn_invariant d \<Longrightarrow> turn_invariant (snd (run_cycle sha256 cfg over_limit env now clock (s, d)))"
    and "queue_safe (s, d) \<Longrightarrow> queue_safe (run_cycle sha256 cfg over_limit env now clock (s, d))"
proof -
  have env: "\<forall>d. wf_db d \<longrightarrow> calm d (pe_others env d)" using assms by (simp add: calm_env_def)
  let ?run = "run_cycle sha256 cfg over_limit env now clock (s, d)"
  have both: "turn_invariant (snd ?run) \<and> (running_locked d \<longrightarrow> running_locked (snd ?run))" if inv: "turn_invariant d"
  proof -
    have wf: "wf_db d" using inv by (simp add: turn_invariant_def)
    obtain s4 d4 where ok: "ok_step d d4" and run: "?run = (s4, d4)
        \<or> (\<exists>t. t \<in> set (tasks d4) \<and> ?run = execute_task sha256 cfg over_limit env now t s4 d4)"
      by (rule run_cycle_parts [OF wf])
    note keep = ok_step_invariant [OF inv ok] ok_step_running_locked [OF _ ok]
    from run show ?thesis
    proof (elim disjE exE conjE)
      fix t assume t: "t \<in> set (tasks d4)" and claim: "?run = execute_task sha256 cfg over_limit env now t s4 d4"
      obtain s5 d5 where five: "execute_task sha256 cfg over_limit env now t s4 d4 = (s5, d5)" by fastforce
      show ?thesis
        using calm.execute_task_invariant [OF env keep(1) t five] calm.execute_task_running_locked [OF env ok_step_wf [OF ok] _ t five] keep(2)
        by (simp add: claim five)
    qed (use keep in simp)
  qed
  then show "turn_invariant d \<Longrightarrow> turn_invariant (snd ?run)" by blast
  from both show "queue_safe (s, d) \<Longrightarrow> queue_safe ?run" by (simp add: queue_safe_def)
qed

lemma worker_raised_ok_step:
  assumes "wf_db d"
  shows "ok_step d (snd (finish_task_background k (mark_worker_bootstrap_failed now k policy (s, d))))"
proof -
  obtain s1 d1 where one: "mark_worker_bootstrap_failed now k policy (s, d) = (s1, d1)" by fastforce
  have ok: "ok_step d d1" using bootstrap_failed_ok_step [OF assms, of now k policy s] one by simp
  show ?thesis
    unfolding one
    by (rule ok_step_trans [OF ok finish_background_ok_step [OF ok_step_wf [OF ok]]])
       (use bootstrap_failed_stops [OF assms one] in blast)
qed

lemma run_task_background_step:
  assumes "wf_db d"
  shows "outcome \<noteq> ExecutorReturned \<Longrightarrow> ok_step d (snd (run_task_background now k outcome (s, d)))"
    and "(\<And>t. get_task d k = Some t \<Longrightarrow> task_status t \<noteq> RUNNING) \<Longrightarrow> ok_step d (snd (run_task_background now k outcome (s, d)))"
proof -
  show other: "outcome \<noteq> ExecutorReturned \<Longrightarrow> ok_step d (snd (run_task_background now k outcome (s, d)))"
    using assms worker_raised_ok_step [OF assms]
    by (cases outcome) (simp_all add: run_task_background_def defer_task_recovery_def)
  show "ok_step d (snd (run_task_background now k outcome (s, d)))"
    if "\<And>t. get_task d k = Some t \<Longrightarrow> task_status t \<noteq> RUNNING"
    using other finish_background_ok_step [OF assms, of k s] get_task_iff [OF assms] that
    by (cases outcome) (auto simp: run_task_background_def)
qed

text \<open>
  Every step but the scheduler cycle and the return of a worker keeps the order and the locks without
  starting anything; the return of a worker does so when workers settle, and touches no task otherwise.
\<close>

lemma sched_step_cases:
  assumes "wf_db (snd st)" "sched_step sha256 cfg slots over_limit env settles st st'"
  shows "(\<exists>now clock. st' = run_cycle sha256 cfg over_limit env now clock st) \<or> ok_step (snd st) (snd st')
    \<or> \<not> settles \<and> (\<exists>k. st' = finish_task_background k st)"
  using assms(2,1)
proof (cases rule: sched_step.cases)
  case (BackgroundEnded outcome d k s now)
  then show ?thesis
    using run_task_background_step [where d = d and outcome = outcome and now = now and k = k and s = s] assms(1)
    by (cases "outcome = ExecutorReturned"; cases settles) (auto simp: run_task_background_def)
qed (auto intro: finish_run_ok_step pre_container_ok_step retained_batch_ok_step
    cancel_phase_a_ok_step(1) cancel_phase_b_ok_step override_ok_step execute_now_ok_step reschedule_ok_step retry_appends(3))

lemma turn_invariant_tasks: "turn_invariant d \<Longrightarrow> tasks d' = tasks d \<Longrightarrow> wf_db d' \<Longrightarrow> turn_invariant d'"
  by (simp add: turn_invariant_def positive_sequences_def turns_before_done_def)

lemma sched_step_in_turn:
  assumes "calm_env env" "turn_invariant (snd st)" "sched_step sha256 cfg slots over_limit env settles st st'"
  shows "turn_invariant (snd st')"
proof -
  obtain s d where st: "st = (s, d)" by fastforce
  have wf: "wf_db d" using assms(2) st by (simp add: turn_invariant_def)
  from sched_step_cases [OF _ assms(3)] wf
  consider now clock where "st' = run_cycle sha256 cfg over_limit env now clock st" | "ok_step d (snd st')"
    | k where "st' = finish_task_background k st"
    unfolding st by auto
  then show ?thesis
    using run_cycle_safe(1) [OF assms(1)] ok_step_invariant [of d] turn_invariant_tasks [OF _ finish_background_frames [OF wf]] assms(2)
    unfolding st by cases auto
qed

lemma sched_step_safe:
  assumes "calm_env env" "queue_safe st" "sched_step sha256 cfg slots over_limit env True st st'"
  shows "queue_safe st'"
proof -
  obtain s d s' d' where st: "st = (s, d)" "st' = (s', d')" by (metis surj_pair)
  from sched_step_cases [OF _ assms(3)] queue_safe_wf assms(2)
  consider now clock where "st' = run_cycle sha256 cfg over_limit env now clock st" | "ok_step d d'"
    unfolding st by auto
  then show ?thesis
    using run_cycle_safe(2) [OF assms(1)] queue_safe_ok_step assms(2) unfolding st by cases auto
qed

text \<open>The steps under an environment whose other sessions keep order and locks during a probe.\<close>

definition calm_sched_step ::
  "(string \<Rightarrow> string) \<Rightarrow> settings \<Rightarrow> slot_settings \<Rightarrow> (database \<Rightarrow> row_id \<Rightarrow> bool) \<Rightarrow> probe_env \<Rightarrow> bool
     \<Rightarrow> scheduler \<times> database \<Rightarrow> scheduler \<times> database \<Rightarrow> bool" where
  "calm_sched_step sha256 cfg slots over_limit env settles st st' \<longleftrightarrow> calm_env env \<and> sched_step sha256 cfg slots over_limit env settles st st'"

interpretation turn: invariant_system "calm_sched_step sha256 cfg slots over_limit env settles" "\<lambda>st. turn_invariant (snd st)"
  for sha256 cfg slots over_limit env settles
  by unfold_locales (auto simp: calm_sched_step_def intro: sched_step_in_turn)

interpretation sm: invariant_system "calm_sched_step sha256 cfg slots over_limit env True" queue_safe
  for sha256 cfg slots over_limit env
  by unfold_locales (auto simp: calm_sched_step_def intro: sched_step_safe)

text \<open>
  C1. Turn order of the task table over every sequence of steps of the transition system, from a state
  that has it: a task whose row says running has every earlier turn of its issue behind it and no other
  running row beside it. If moreover workers settle their task before they return, and running tasks
  hold their lock in the first state, a running task always holds the execution lock of its issue.
  Each handler is one step (a cancellation two) on whatever row its route loaded before, except that a
  reschedule that read a queued row is no step once that task has ended; while a readiness probe is
  awaited, other sessions keep order and locks and end no queued task.
\<close>

theorem reachable_states_run_in_turn:
  assumes "calm_env env" and "turn_invariant d"
    and "(sched_step sha256 cfg slots over_limit env settles)\<^sup>*\<^sup>* (s, d) (s', d')"
    and "t \<in> set (tasks d')" "task_status t = RUNNING"
  shows "(\<forall>u\<in>set (tasks d'). task_issue_id u = task_issue_id t \<and> task_status u = RUNNING \<longrightarrow> u = t)
    \<and> (\<forall>u\<in>set (tasks d'). task_issue_id u = task_issue_id t \<and> task_issue_sequence u \<noteq> None
         \<and> the (task_issue_sequence u) < the (task_issue_sequence t) \<longrightarrow> \<not> is_active u)
    \<and> (settles \<and> running_locked d \<longrightarrow> lock_owner d' (task_issue_id t) = Some (task_id t))"
proof -
  have "calm_sched_step sha256 cfg slots over_limit env settles = sched_step sha256 cfg slots over_limit env settles"
    using assms(1) by (simp add: fun_eq_iff calm_sched_step_def)
  with assms(3) have steps: "(calm_sched_step sha256 cfg slots over_limit env settles)\<^sup>*\<^sup>* (s, d) (s', d')" by simp
  then have inv: "turn_invariant d'" using turn.reachable_keeps [OF steps] assms(2) by simp
  have owned: "running_locked d'" if "settles" "running_locked d"
    using sm.reachable_keeps [of sha256 cfg slots over_limit env "(s, d)" "(s', d')"] steps that assms(2) by (simp add: queue_safe_def)
  obtain q where q: "task_issue_sequence t = Some q"
    using inv assms(4,5) by (auto simp: turn_invariant_def)
  have "settles \<and> running_locked d \<longrightarrow> lock_owner d' (task_issue_id t) = Some (task_id t)"
    using owned assms(4,5) by (simp add: running_locked_def list_all_iff)
  moreover have "u = t" if "u \<in> set (tasks d')" "task_issue_id u = task_issue_id t" "task_status u = RUNNING" for u
    using running_alone [OF inv assms(4,5) that(1,3,2)] by simp
  moreover have "\<not> is_active u" if "u \<in> set (tasks d')" "task_issue_id u = task_issue_id t" "task_issue_sequence u \<noteq> None"
    "the (task_issue_sequence u) < the (task_issue_sequence t)" for u
    using running_turn_order [OF inv assms(4,5) q that(1,2)] that(3,4) q by auto
  ultimately show ?thesis by blast
qed


section \<open>A concrete path\<close>

definition running_db :: database where
  "running_db = sample_db [sample_task 1 7 COMPLETED (Some 1), sample_task 2 7 RUNNING (Some 2), sample_task 3 7 PENDING (Some 3)]
     [sample_lock 7 2]"

lemma running_db_safe: "turn_invariant running_db" "running_locked running_db"
proof -
  have "wf_db running_db" by (simp add: running_db_def wf_db_def unique_sequences_def sample_defs)
  moreover have "turns_before_done running_db 7 2"
    unfolding turns_before_done_def
  proof (intro allI impI)
    fix p :: int assume "1 \<le> p \<and> p < 2"
    then have "p = 1" by simp
    then show "\<exists>v\<in>set (tasks running_db). task_issue_id v = 7 \<and> task_issue_sequence v = Some p \<and> \<not> is_active v"
      by (simp add: running_db_def sample_defs is_active_iff)
  qed
  ultimately show "turn_invariant running_db"
    by (simp add: turn_invariant_def positive_sequences_def running_db_def sample_defs)
  show "running_locked running_db"
    by (simp add: running_locked_def running_db_def sample_defs lock_owner_def get_lock_def)
qed

text \<open>Cancelling the running task is one step; it keeps running, in its turn and with its lock.\<close>

lemma reachable_states_run_in_turn_witness:
  "\<exists>d' t. (sched_step (\<lambda>s. s) sample_settings no_slots (\<lambda>_ _. False) quiet_probe True)\<^sup>*\<^sup>* (idle_scheduler, running_db) (idle_scheduler, d')
     \<and> t \<in> set (tasks d') \<and> task_status t = RUNNING \<and> task_cancel_requested_at t = Some 90 \<and> lock_owner d' 7 = Some 2"
proof -
  let ?a = "cancel_phase_a sample_settings 90 (sample_task 2 7 RUNNING (Some 2)) running_db"
  have "case ?a of Inl _ \<Rightarrow> False | Inr (u, d') \<Rightarrow> list_ex (\<lambda>t. task_status t = RUNNING \<and> task_id t = 2 \<and> task_issue_id t = 7
      \<and> task_cancel_requested_at t = Some 90) (tasks d')" by code_simp
  then obtain u d' t where run: "?a = Inr (u, d')" and t: "t \<in> set (tasks d')" "task_status t = RUNNING" "task_id t = 2"
    "task_issue_id t = 7" "task_cancel_requested_at t = Some 90"
    by (auto simp: list_ex_iff split: sum.splits)
  have reach: "(sched_step (\<lambda>s. s) sample_settings no_slots (\<lambda>_ _. False) quiet_probe True)\<^sup>*\<^sup>* (idle_scheduler, running_db) (idle_scheduler, d')"
    by (rule r_into_rtranclp) (rule sched_step.CancelRequest [OF run])
  have "calm_env quiet_probe" by (rule quiet_env_calm) (simp add: quiet_env_def quiet_probe_def same_queue_def)
  from reachable_states_run_in_turn [OF this running_db_safe(1) reach t(1,2)] running_db_safe(2)
  have "lock_owner d' 7 = Some 2" by (simp only: t(3,4) simp_thms)
  with reach t(1,2,5) show ?thesis by blast
qed

end
