(* ===== verification/Command_Pump.thy ===== *)
theory Command_Pump
  imports Command_Gate
begin

text \<open>
  The command pump, \<^verbatim>\<open>core/worker_command_pump.py\<close>: the dispatch lease of an attempt, the queue front,
  the dispatch of one command across the commit before the send, and one cycle. The control client
  in the container is the parameter \<open>transport\<close>: given the committed database and a frame it
  answers with an outcome, or raises (\<open>None\<close>), and with the database that other sessions have
  committed meanwhile. The ORM object of the attempt is carried along as \<open>a\<close>, since the code reads
  it after the row may have changed.
\<close>

record transport_outcome =
  out_status :: string
  out_rejection_code :: "string option"
  out_native_sent :: bool
  out_native_id :: "string option"

datatype control_frame =
    CommandFrame harness_command control_state string
  | CloseFrame row_id string
  | ProbeFrame row_id string control_state

type_synonym control_transport = "database \<Rightarrow> control_frame \<Rightarrow> transport_outcome option \<times> database"

definition DISPATCH_ACK :: string where "DISPATCH_ACK = ''ack''"
definition DISPATCH_REJECT :: string where "DISPATCH_REJECT = ''reject''"


section \<open>The lease\<close>

definition lease_free :: "timestamp \<Rightarrow> string \<Rightarrow> harness_attempt \<Rightarrow> bool" where
  "lease_free now owner a \<longleftrightarrow> (case attempt_dispatch_expires_at a of None \<Rightarrow> True | Some e \<Rightarrow> e < now)
     \<or> attempt_dispatch_owner a = Some owner"

definition has_open_command :: "database \<Rightarrow> row_id \<Rightarrow> string \<Rightarrow> bool" where
  "has_open_command d t a \<longleftrightarrow>
     list_ex (\<lambda>c. cmd_attempt_id c = a \<and> cmd_task_id c = t \<and> \<not> is_terminal_command c) (commands d)"

definition needs_pump :: "database \<Rightarrow> row_id \<Rightarrow> harness_attempt \<Rightarrow> bool" where
  "needs_pump d t a \<longleftrightarrow> task_running d t \<and> attempt_task_id a = t
     \<and> (attempt_control_state a = Accepting \<or> attempt_control_state a = Closing)
     \<and> (has_open_command d t (attempt_id a)
        \<or> attempt_control_state a = Closing \<and> \<not> attempt_awaiting_follow_up_turn a)"

definition leased :: "string \<Rightarrow> timestamp \<Rightarrow> harness_attempt \<Rightarrow> harness_attempt" where
  "leased owner expires a = a\<lparr>attempt_dispatch_owner := Some owner, attempt_dispatch_expires_at := Some expires\<rparr>"

definition first_attempt :: "(harness_attempt \<Rightarrow> bool) \<Rightarrow> database \<Rightarrow> harness_attempt option" where
  "first_attempt p d = first_by attempt_id (filter p (attempts d))"

definition take_lease ::
  "(harness_attempt \<Rightarrow> bool) \<Rightarrow> string \<Rightarrow> timestamp \<Rightarrow> database \<Rightarrow> harness_attempt option \<times> database" where
  "take_lease p owner expires d = (case first_attempt p d of
     None \<Rightarrow> (None, d)
   | Some a \<Rightarrow> (Some (leased owner expires a), put_attempt (attempt_id a) (leased owner expires) d))"

definition claim_next_attempt ::
  "timestamp \<Rightarrow> row_id \<Rightarrow> string \<Rightarrow> timestamp \<Rightarrow> database \<Rightarrow> harness_attempt option \<times> database" where
  "claim_next_attempt now t owner lease_ttl d =
     take_lease (\<lambda>a. needs_pump d t a \<and> lease_free now owner a) owner (now + lease_ttl) d"

text \<open>A transport that raises is an unknown outcome for the probe.\<close>

definition promote_starting_attempt ::
  "control_transport \<Rightarrow> timestamp \<Rightarrow> row_id \<Rightarrow> string \<Rightarrow> timestamp \<Rightarrow> database \<Rightarrow> harness_attempt option \<times> database" where
  "promote_starting_attempt transport now t owner lease_ttl d =
     (case take_lease (\<lambda>a. task_running d t \<and> attempt_task_id a = t \<and> attempt_control_state a = Starting
              \<and> lease_free now owner a) owner (now + lease_ttl) d of
        (None, d1) \<Rightarrow> (None, d1)
      | (Some a, d1) \<Rightarrow>
          (case transport d1 (ProbeFrame t (attempt_id a) (attempt_control_state a)) of
             (Some r, d2) \<Rightarrow>
               if out_status r = DISPATCH_ACK
               then (Some (a\<lparr>attempt_control_state := Accepting\<rparr>),
                     put_attempt (attempt_id a) (\<lambda>r. r\<lparr>attempt_control_state := Accepting\<rparr>) d2)
               else (Some a, d2)
           | (None, d2) \<Rightarrow> (Some a, d2)))"

definition release_lease :: "row_id \<Rightarrow> string \<Rightarrow> string \<Rightarrow> database \<Rightarrow> database" where
  "release_lease t a owner d = d\<lparr>attempts := update_where
     (\<lambda>r. attempt_id r = a \<and> attempt_task_id r = t \<and> attempt_dispatch_owner r = Some owner)
     (\<lambda>r. r\<lparr>attempt_dispatch_owner := None, attempt_dispatch_expires_at := None\<rparr>) (attempts d)\<rparr>"


section \<open>The queue front\<close>

definition load_head_command :: "database \<Rightarrow> row_id \<Rightarrow> string \<Rightarrow> harness_command option" where
  "load_head_command d t a =
     (if \<not> list_ex (\<lambda>r. attempt_id r = a \<and> attempt_task_id r = t) (attempts d) then None
      else first_by cmd_sequence_no (filter (\<lambda>c. cmd_task_id c = t \<and> cmd_attempt_id c = a
             \<and> \<not> is_terminal_command c) (commands d)))"

definition record_unknown_outcome :: "harness_command \<Rightarrow> database \<Rightarrow> database" where
  "record_unknown_outcome = log_control ''control.command.outcome_unknown'' (Some ''delivery_outcome_unknown'')"

definition record_local_rejection :: "string \<Rightarrow> harness_command \<Rightarrow> database \<Rightarrow> database" where
  "record_local_rejection code = log_control ''control.command.rejected'' (public_rejection (Some code))"

definition recover_dispatching_head :: "timestamp \<Rightarrow> harness_command \<Rightarrow> database \<Rightarrow> database" where
  "recover_dispatching_head now c d =
     (if cmd_status c \<noteq> Dispatching then d else snd (write_command_outcome_unknown (cmd_id c) now d))"

definition cleared_follow_up :: "harness_attempt \<Rightarrow> harness_attempt" where
  "cleared_follow_up r = r\<lparr>attempt_awaiting_follow_up_turn := False, attempt_pending_follow_up_command_id := None,
     attempt_pending_follow_up_native_id := None\<rparr>"

definition clear_pending_follow_up :: "harness_attempt \<Rightarrow> string \<Rightarrow> database \<Rightarrow> harness_attempt \<times> database" where
  "clear_pending_follow_up a k d =
     (cleared_follow_up a,
      d\<lparr>attempts := update_where (\<lambda>r. attempt_id r = attempt_id a \<and> attempt_pending_follow_up_command_id r = Some k)
          cleared_follow_up (attempts d)\<rparr>)"

definition fail_pending_follow_up :: "timestamp \<Rightarrow> harness_attempt \<Rightarrow> string \<Rightarrow> database \<Rightarrow> harness_attempt \<times> database" where
  "fail_pending_follow_up now a k d =
     (let (done, d1) = request_force_close_after_unknown_follow_up now (attempt_id a) k
            (attempt_pending_follow_up_native_id a) d
      in (if done then (cleared_follow_up a)\<lparr>attempt_force_close_requested := True\<rparr> else a, d1))"


section \<open>One command\<close>

definition status_text :: "command_status \<Rightarrow> string" where
  "status_text st = (case st of Queued \<Rightarrow> ''queued'' | Dispatching \<Rightarrow> ''dispatching'' | Delivered \<Rightarrow> ''delivered''
     | Rejected \<Rightarrow> ''rejected'' | OutcomeUnknown \<Rightarrow> ''outcome_unknown'')"

text \<open>Arming the follow-up handshake; \<open>None\<close> when another session got there first.\<close>

definition arm_follow_up :: "harness_command \<Rightarrow> string \<Rightarrow> harness_attempt \<Rightarrow> database \<Rightarrow> (harness_attempt \<times> database) option" where
  "arm_follow_up c native a d =
     (let hit = (\<lambda>r. attempt_id r = attempt_id a \<and> attempt_control_state r = Closing
            \<and> \<not> attempt_awaiting_follow_up_turn r \<and> task_running d (attempt_task_id r));
          arm = (\<lambda>r. r\<lparr>attempt_awaiting_follow_up_turn := True, attempt_pending_follow_up_command_id := Some (cmd_id c),
                  attempt_pending_follow_up_native_id := Some native\<rparr>)
      in if cmd_type c = ''follow_up'' \<and> attempt_control_state a = Closing
         then (if list_ex hit (attempts d) then Some (arm a, d\<lparr>attempts := update_where hit arm (attempts d)\<rparr>) else None)
         else Some (a, d))"

text \<open>
  What the outcome of the transport does to the command and the attempt. An outcome that is not
  recognised is stamped with the start of the dispatch, a lost transport with the time it was lost.
\<close>

definition settle_unknown :: "timestamp \<Rightarrow> timestamp \<Rightarrow> harness_command \<Rightarrow> harness_attempt \<Rightarrow> database \<Rightarrow> string \<times> harness_attempt \<times> database" where
  "settle_unknown occurred now c a d =
     (let d1 = record_unknown_outcome c (snd (write_command_outcome_unknown (cmd_id c) occurred d))
      in (''outcome_unknown'', if cmd_type c = ''follow_up'' then fail_pending_follow_up now a (cmd_id c) d1 else (a, d1)))"

definition settle_without_turn :: "string \<Rightarrow> harness_command \<Rightarrow> harness_attempt \<Rightarrow> database \<Rightarrow> string \<times> harness_attempt \<times> database" where
  "settle_without_turn status c a d =
     (status, if cmd_type c = ''follow_up'' then clear_pending_follow_up a (cmd_id c) d else (a, d))"

definition settle_rejected ::
  "timestamp \<Rightarrow> string option \<Rightarrow> harness_command \<Rightarrow> harness_attempt \<Rightarrow> database \<Rightarrow> string \<times> harness_attempt \<times> database" where
  "settle_rejected now rejection_code c a d =
     (let code = (case rejection_code of None \<Rightarrow> ''delivery_outcome_unknown''
            | Some s \<Rightarrow> if s = [] then ''delivery_outcome_unknown'' else s);
          (rejected, d1) = write_command_rejection (cmd_id c) code now d;
          sent_at = (case get_command d1 (cmd_id c) of None \<Rightarrow> None | Some e \<Rightarrow> cmd_native_sent_at e)
      in settle_without_turn ''rejected'' c a
           (if rejected \<and> sent_at = None then record_local_rejection code c d1 else d1))"

definition settle_command ::
  "timestamp \<Rightarrow> timestamp \<Rightarrow> harness_command \<Rightarrow> harness_attempt \<Rightarrow> transport_outcome option \<Rightarrow> database
     \<Rightarrow> string \<times> harness_attempt \<times> database" where
  "settle_command started now c a res d = (case res of
     None \<Rightarrow> settle_unknown now now c a d
   | Some r \<Rightarrow>
       let (sent, d1) = (if out_native_sent r then mark_command_native_sent (cmd_id c) (out_native_id r) now d else (True, d))
       in if \<not> sent then (''terminalized'', a, d1)
          else if out_status r = DISPATCH_ACK
          then (let (delivered, d2) = write_command_delivery (cmd_id c) now d1
                in (if delivered then ''delivered'' else ''terminalized'', a, d2))
          else if out_status r = DISPATCH_REJECT then settle_rejected now (out_rejection_code r) c a d1
          else if out_status r = ''retry''
          then settle_without_turn ''queued'' c a (snd (requeue_pre_send_failure (cmd_id c) d1))
          else settle_unknown started now c a d1)"

definition dispatch_one_command ::
  "control_transport \<Rightarrow> timestamp \<Rightarrow> timestamp \<Rightarrow> row_id \<Rightarrow> string \<Rightarrow> harness_command \<Rightarrow> harness_attempt \<Rightarrow> database
     \<Rightarrow> (string, string \<times> harness_attempt \<times> database) result" where
  "dispatch_one_command transport now later t owner c a d =
     (if cmd_task_id c \<noteq> t \<or> attempt_task_id a \<noteq> t \<or> cmd_attempt_id c \<noteq> attempt_id a then Inl ''ValueError''
      else let native = int_repr (1000000 + cmd_sequence_no c) in
        case arm_follow_up c native a d of
          None \<Rightarrow> Inr (''terminalized'', a, d)
        | Some (a1, d1) \<Rightarrow>
            (case begin_command_dispatch (cmd_id c) now d1 of
               (False, d2) \<Rightarrow> Inr (status_text (cmd_status c), a1, d2)
             | (True, d2) \<Rightarrow>
                 let (res, d3) = transport d2 (CommandFrame c (attempt_control_state a1) native)
                 in Inr (settle_command now later c a1 res d3)))"


section \<open>A cycle\<close>

fun pump_loop ::
  "nat \<Rightarrow> control_transport \<Rightarrow> timestamp \<Rightarrow> timestamp \<Rightarrow> row_id \<Rightarrow> string \<Rightarrow> harness_attempt \<Rightarrow> nat \<Rightarrow> nat \<Rightarrow> database
     \<Rightarrow> (string, harness_attempt \<times> nat \<times> nat \<times> database) result" where
  "pump_loop 0 transport now later t owner a processed updated d = Inr (a, processed, updated, d)"
| "pump_loop (Suc n) transport now later t owner a processed updated d =
     (case load_head_command d t (attempt_id a) of
        None \<Rightarrow> Inr (a, processed, updated, d)
      | Some c \<Rightarrow>
          if cmd_status c = Dispatching
          then (let d1 = record_unknown_outcome c (recover_dispatching_head now c d);
                    (a1, d2) = (if cmd_type c = ''follow_up'' then fail_pending_follow_up now a (cmd_id c) d1 else (a, d1))
                in Inr (a1, processed + 1, updated + 1, d2))
          else bind_result (dispatch_one_command transport now later t owner c a d) (\<lambda>(status, a1, d1).
                 let updated' = (if status = ''delivered'' \<or> status = ''queued'' then updated else updated + 1)
                 in if status = ''queued'' then Inr (a1, processed + 1, updated', d1)
                    else pump_loop n transport now later t owner a1 (processed + 1) updated' d1))"

definition close_drained_attempt ::
  "control_transport \<Rightarrow> row_id \<Rightarrow> harness_attempt \<Rightarrow> database \<Rightarrow> database" where
  "close_drained_attempt transport t a d =
     (if attempt_task_id a \<noteq> t then d
      else case transport d (CloseFrame t (attempt_id a)) of
        (Some r, d1) \<Rightarrow>
          if out_status r = DISPATCH_ACK
          then put_attempt (attempt_id a) (\<lambda>r. r\<lparr>attempt_control_state := Closed, attempt_force_close_requested := False\<rparr>) d1
          else d1
      | (None, d1) \<Rightarrow> d1)"

definition run_pump_cycle ::
  "control_transport \<Rightarrow> timestamp \<Rightarrow> timestamp \<Rightarrow> row_id \<Rightarrow> string \<Rightarrow> timestamp \<Rightarrow> nat \<Rightarrow> database
     \<Rightarrow> (string, (nat \<times> nat \<times> nat) \<times> database) result" where
  "run_pump_cycle transport now later t owner lease_ttl max_commands d =
     (case (case claim_next_attempt now t owner lease_ttl d of
              (Some a, d1) \<Rightarrow> (Some a, d1)
            | (None, d1) \<Rightarrow> promote_starting_attempt transport now t owner lease_ttl d1) of
        (None, d1) \<Rightarrow> Inr ((0, 0, 0), d1)
      | (Some a, d1) \<Rightarrow>
          bind_result (pump_loop max_commands transport now later t owner a 0 0 d1) (\<lambda>(a2, processed, updated, d2).
          Inr ((1, processed, updated),
               if attempt_control_state a2 = Closing \<and> load_head_command d2 t (attempt_id a2) = None
                  \<and> \<not> attempt_awaiting_follow_up_turn a2
               then close_drained_attempt transport t a2 d2 else d2)))"


section \<open>Order and lease\<close>

text \<open>
  Commands leave the queue in order: the front of an attempt's queue is an open command, every
  command of the attempt with a smaller sequence number is settled, and there is no front only when
  every command of an existing attempt is settled.
\<close>

theorem pump_head_is_fifo:
  shows "(load_head_command d t a = Some c \<longrightarrow> c \<in> set (commands d) \<and> cmd_task_id c = t \<and> cmd_attempt_id c = a
            \<and> \<not> is_terminal_command c
            \<and> (\<forall>e\<in>set (commands d). cmd_task_id e = t \<and> cmd_attempt_id e = a \<and> cmd_sequence_no e < cmd_sequence_no c
                 \<longrightarrow> is_terminal_command e))
    \<and> (load_head_command d t a = None \<and> (\<exists>r\<in>set (attempts d). attempt_id r = a \<and> attempt_task_id r = t)
         \<longrightarrow> \<not> has_open_command d t a)"
proof -
  let ?open = "filter (\<lambda>c. cmd_task_id c = t \<and> cmd_attempt_id c = a \<and> \<not> is_terminal_command c) (commands d)"
  have "c \<in> set ?open" "x \<in> set ?open \<Longrightarrow> cmd_sequence_no c \<le> cmd_sequence_no x" if "load_head_command d t a = Some c" for x
    using that first_byD [of cmd_sequence_no ?open c] by (auto simp: load_head_command_def split: if_splits)
  then have "load_head_command d t a = Some c \<Longrightarrow> c \<in> set (commands d) \<and> cmd_task_id c = t \<and> cmd_attempt_id c = a
            \<and> \<not> is_terminal_command c
            \<and> (\<forall>e\<in>set (commands d). cmd_task_id e = t \<and> cmd_attempt_id e = a \<and> cmd_sequence_no e < cmd_sequence_no c
                 \<longrightarrow> is_terminal_command e)" by (auto simp: not_less [symmetric])
  moreover have "\<not> has_open_command d t a"
    if "load_head_command d t a = None" "\<exists>r\<in>set (attempts d). attempt_id r = a \<and> attempt_task_id r = t"
    using that by (auto simp: load_head_command_def has_open_command_def list_ex_iff filter_empty_conv split: if_splits)
  ultimately show ?thesis by blast
qed

lemma first_attemptD:
  assumes "first_attempt p d = Some a"
  shows "a \<in> set (attempts d)" "p a"
  using first_byD(1) [OF assms [unfolded first_attempt_def]] by auto

lemma take_leaseE:
  assumes "take_lease p owner e d = (Some a, d')"
  obtains a0 where "a0 \<in> set (attempts d)" "p a0" "a = leased owner e a0" "d' = put_attempt (attempt_id a0) (leased owner e) d"
  using assms first_attemptD [of p d] by (auto simp: take_lease_def split: option.splits)


text \<open>
  C29. A lease excludes the other dispatchers: until it has expired nobody but its owner claims the
  attempt again, and a release in another owner's name does not touch it.
\<close>

theorem dispatch_lease_is_exclusive:
  assumes keys: "distinct (map attempt_id (attempts d))" and claim: "claim_next_attempt now t owner lease_ttl d = (Some a, d1)"
    and other: "owner' \<noteq> owner" and alive: "later \<le> now + lease_ttl"
  shows "get_attempt d1 (attempt_id a) = Some a
    \<and> get_attempt (release_lease t' k owner' d1) (attempt_id a) = Some a
    \<and> (\<forall>b d2. claim_next_attempt later t' owner' lease_ttl' d1 = (Some b, d2) \<longrightarrow> attempt_id b \<noteq> attempt_id a)"
proof -
  obtain a0 where a0: "a0 \<in> set (attempts d)" "a = leased owner (now + lease_ttl) a0"
      "d1 = put_attempt (attempt_id a0) (leased owner (now + lease_ttl)) d"
    using claim by (auto simp: claim_next_attempt_def elim: take_leaseE)
  have ids: "map attempt_id (attempts d1) = map attempt_id (attempts d)"
    by (simp add: a0(3) put_attempt_def map_key_update_where leased_def)
  have in1: "a \<in> set (attempts d1)" using a0 by (auto simp: put_attempt_def set_update_where)
  then have got: "get_attempt d1 (attempt_id a) = Some a" using keys ids by (simp add: get_attempt_def row_by_iff)
  moreover have "get_attempt (release_lease t' k owner' d1) (attempt_id a) = Some a"
    using got other a0(2) by (auto simp: get_attempt_def release_lease_def row_by_update_where leased_def)
  moreover have "attempt_id b \<noteq> attempt_id a" if again: "claim_next_attempt later t' owner' lease_ttl' d1 = (Some b, d2)" for b d2
  proof
    assume same: "attempt_id b = attempt_id a"
    obtain b0 where b0: "b0 \<in> set (attempts d1)" "lease_free later owner' b0" "attempt_id b0 = attempt_id b"
      by (rule take_leaseE [OF again [unfolded claim_next_attempt_def]]) (auto simp: leased_def)
    then have "b0 = a" using in1 keys ids same distinct_keyD [of attempt_id "attempts d1" b0 a] by simp
    then show False using b0(2) alive other a0(2) by (simp add: lease_free_def leased_def)
  qed
  ultimately show ?thesis by blast
qed

section \<open>Steps of a cycle\<close>

text \<open>A step that, from a consistent table, only moves commands forward or adds some.\<close>

definition safe_step :: "database \<Rightarrow> database \<Rightarrow> bool" where
  "safe_step d d' \<longleftrightarrow> (wf_commands d \<longrightarrow> wf_commands d' \<and> extends d d')"

lemma safe_refl [simp]: "safe_step d d"
  by (simp add: safe_step_def)

lemma safe_trans: "safe_step d e \<Longrightarrow> safe_step e f \<Longrightarrow> safe_step d f"
  by (auto simp: safe_step_def intro: extends_trans)

lemma quiet_safe: "(wf_commands d \<Longrightarrow> quiet d d') \<Longrightarrow> safe_step d d'"
  by (auto simp: safe_step_def intro: quiet_wf quiet_extends)

definition safe_transport :: "control_transport \<Rightarrow> bool" where
  "safe_transport transport \<longleftrightarrow> (\<forall>d f. safe_step d (snd (transport d f)))"

lemma safe_attempts:
  assumes "\<And>r. attempt_id (f r) = attempt_id r \<and> attempt_next_command_sequence (f r) = attempt_next_command_sequence r"
  shows "safe_step d (d\<lparr>attempts := update_where p f (attempts d)\<rparr>)" "safe_step d (put_attempt k f d)"
  using put_attempt_quiet [OF assms] by (auto simp: put_attempt_def intro: quiet_safe)

lemma safe_cas:
  "safe_step d (snd (write_command_delivery k stamp d))" "safe_step d (snd (write_command_rejection k code stamp d))"
  "safe_step d (snd (begin_command_dispatch k stamp d))" "safe_step d (snd (mark_command_native_sent k native stamp d))"
  "safe_step d (snd (requeue_pre_send_failure k d))" "safe_step d (snd (write_command_outcome_unknown k stamp d))"
  "safe_step d (snd (request_force_close_after_unknown_follow_up now a k native' d))"
  by (auto intro: quiet_safe cas_ops_quiet gate_ops_quiet)

lemma safe_log [simp]:
  "safe_step d (record_unknown_outcome c d)" "safe_step d (record_local_rejection code c d)"
  by (auto simp: record_unknown_outcome_def record_local_rejection_def intro: quiet_safe)

lemma safe_take_lease: "safe_step d (snd (take_lease p owner e d))"
  by (auto simp: take_lease_def leased_def intro: safe_attempts split: option.split)

lemma safe_follow_up:
  "safe_step d (snd (clear_pending_follow_up a k d))" "safe_step d (snd (fail_pending_follow_up now a k d))"
  using safe_cas(7) [of d now "attempt_id a" k "attempt_pending_follow_up_native_id a"]
  by (auto simp: clear_pending_follow_up_def fail_pending_follow_up_def cleared_follow_up_def Let_def split_def
      intro: safe_attempts)

lemma safe_settle_parts:
  "safe_step d (snd (snd (settle_unknown occurred now c a d)))" "safe_step d (snd (snd (settle_without_turn status c a d)))"
  "safe_step d (snd (snd (settle_rejected now code c a d)))"
proof -
  have unknown: "safe_step d (record_unknown_outcome c (snd (write_command_outcome_unknown (cmd_id c) occurred d)))"
    by (rule safe_trans [OF safe_cas(6) safe_log(1)])
  then show "safe_step d (snd (snd (settle_unknown occurred now c a d)))"
    using safe_trans [OF unknown safe_follow_up(2)] by (simp add: settle_unknown_def Let_def)
  show clear: "safe_step d (snd (snd (settle_without_turn status c a d)))" for d status
    using safe_follow_up(1) by (simp add: settle_without_turn_def)
  show "safe_step d (snd (snd (settle_rejected now code c a d)))"
    unfolding settle_rejected_def Let_def split_def
    by (rule safe_trans [OF _ clear]) (auto intro: safe_trans [OF safe_cas(2) safe_log(2)] safe_cas)
qed

lemma safe_settle: "safe_step d (snd (snd (settle_command started now c a res d)))"
proof (cases res)
  case None
  then show ?thesis by (simp add: settle_command_def safe_settle_parts)
next
  case (Some r)
  define m where "m = (if out_native_sent r then mark_command_native_sent (cmd_id c) (out_native_id r) now d else (True, d))"
  have sent: "safe_step d (snd m)" using safe_cas(4) by (simp add: m_def)
  have "safe_step (snd m) (snd (snd (settle_command started now c a res d)))"
    unfolding settle_command_def Some option.case m_def [symmetric]
    by (auto simp: Let_def split_def intro: safe_settle_parts safe_cas safe_trans [OF safe_cas(5)])
  then show ?thesis by (rule safe_trans [OF sent])
qed

lemma settle_same_attempt:
  "attempt_id (fst (snd (settle_command started now c a res d))) = attempt_id a
   \<and> attempt_task_id (fst (snd (settle_command started now c a res d))) = attempt_task_id a"
  by (auto simp: settle_command_def settle_unknown_def settle_without_turn_def settle_rejected_def Let_def split_def
      fail_pending_follow_up_def clear_pending_follow_up_def cleared_follow_up_def split: option.splits)

lemma arm_follow_upD:
  assumes "arm_follow_up c native a d = Some (a1, d1)"
  shows "safe_step d d1" "attempt_id a1 = attempt_id a" "attempt_task_id a1 = attempt_task_id a"
  using assms by (auto simp: arm_follow_up_def Let_def split: if_splits intro: safe_attempts)

lemma dispatch_one_safe:
  assumes tr: "safe_transport transport" and same: "cmd_task_id c = t" "attempt_task_id a = t" "cmd_attempt_id c = attempt_id a"
  obtains status a1 d1 where "dispatch_one_command transport now later t owner c a d = Inr (status, a1, d1)"
    "safe_step d d1" "attempt_id a1 = attempt_id a" "attempt_task_id a1 = t"
proof (cases "arm_follow_up c (int_repr (1000000 + cmd_sequence_no c)) a d")
  case None
  then show thesis using same by (intro that) (auto simp: dispatch_one_command_def)
next
  case (Some p)
  obtain a1 d1 where p: "p = (a1, d1)" by fastforce
  note arm = arm_follow_upD [OF Some [unfolded p]]
  obtain ok d2 where beg: "begin_command_dispatch (cmd_id c) now d1 = (ok, d2)" by fastforce
  have s2: "safe_step d d2" using safe_trans [OF arm(1) safe_cas(3) [of d1 "cmd_id c" now]] beg by simp
  obtain res d3 where send: "transport d2 (CommandFrame c (attempt_control_state a1) (int_repr (1000000 + cmd_sequence_no c))) = (res, d3)"
    by fastforce
  have "safe_step d2 d3" using tr send unfolding safe_transport_def by (metis snd_conv)
  then have s3: "safe_step d (snd (snd (settle_command now later c a1 res d3)))"
    using safe_trans [OF safe_trans [OF s2] safe_settle] by blast
  obtain status b e where out: "settle_command now later c a1 res d3 = (status, b, e)" by (metis prod_cases3)
  show thesis
  proof (cases ok)
    case True
    show thesis
      by (rule that [of status b e])
         (use same Some p beg send out s3 True settle_same_attempt [of now later c a1 res d3] arm in \<open>simp_all add: dispatch_one_command_def Let_def\<close>)
  next
    case False
    show thesis
      by (rule that [of "status_text (cmd_status c)" a1 d2])
         (use same Some p beg s2 False arm in \<open>simp_all add: dispatch_one_command_def Let_def\<close>)
  qed
qed

lemma head_of_attempt:
  assumes "load_head_command d t a = Some c"
  shows "cmd_task_id c = t" "cmd_attempt_id c = a"
  using assms first_byD(1) by (fastforce simp: load_head_command_def split: if_splits)+

lemma pump_loop_safe:
  assumes tr: "safe_transport transport" and "attempt_task_id a = t"
  shows "\<exists>a' m u d'. pump_loop n transport now later t owner a processed updated d = Inr (a', m, u, d') \<and> safe_step d d'"
  using assms(2)
proof (induction n arbitrary: a processed updated d)
  case (Suc n)
  show ?case
  proof (cases "load_head_command d t (attempt_id a)")
    case (Some c)
    note c = head_of_attempt [OF Some]
    have recover: "safe_step d (record_unknown_outcome c (recover_dispatching_head now c d))"
      by (rule safe_trans [OF _ safe_log(1)]) (simp add: recover_dispatching_head_def safe_cas)
    obtain status a1 d1 where run: "dispatch_one_command transport now later t owner c a d = Inr (status, a1, d1)"
        "safe_step d d1" "attempt_task_id a1 = t"
      using dispatch_one_safe [OF tr c(1) Suc.prems c(2)] by metis
    show ?thesis
    proof (cases "cmd_status c = Dispatching")
      case True
      then show ?thesis
        using Some recover safe_trans [OF recover safe_follow_up(2)] by (simp add: Let_def split_def)
    next
      case False
      obtain a' m u d' where "pump_loop n transport now later t owner a1 (processed + 1)
          (if status = ''delivered'' then updated else updated + 1) d1 = Inr (a', m, u, d')" "safe_step d1 d'"
        using Suc.IH [OF run(3)] by blast
      then show ?thesis using Some False run safe_trans by (auto simp: Let_def)
    qed
  qed simp
qed simp

lemma claim_or_promote_safe:
  assumes tr: "safe_transport transport" and claim: "(case claim_next_attempt now t owner lease_ttl d of
              (Some a, d1) \<Rightarrow> (Some a, d1)
            | (None, d1) \<Rightarrow> promote_starting_attempt transport now t owner lease_ttl d1) = (p, d1)"
  shows "safe_step d d1 \<and> (case p of None \<Rightarrow> True | Some a \<Rightarrow> attempt_task_id a = t)"
proof -
  have probe: "safe_step e (snd (transport e f))" for e f using tr by (simp add: safe_transport_def)
  have lease: "safe_step e e' \<and> (case q of None \<Rightarrow> True | Some a \<Rightarrow> attempt_task_id a = t)"
    if "take_lease p owner x e = (q, e')" "\<And>a. p a \<Longrightarrow> attempt_task_id a = t" for p x e q e'
    using that safe_take_lease [of e p owner x] first_attemptD(2) [of p e]
    by (auto simp: take_lease_def leased_def split: option.splits)
  have promote: "safe_step e e' \<and> (case q of None \<Rightarrow> True | Some a \<Rightarrow> attempt_task_id a = t)"
    if run: "promote_starting_attempt transport now t owner lease_ttl e = (q, e')" for e q e'
  proof -
    obtain r e1 where take: "take_lease (\<lambda>a. task_running e t \<and> attempt_task_id a = t \<and> attempt_control_state a = Starting
              \<and> lease_free now owner a) owner (now + lease_ttl) e = (r, e1)" by fastforce
    note l = lease [OF take]
    show ?thesis
    proof (cases r)
      case None
      then show ?thesis using run l by (simp add: promote_starting_attempt_def take)
    next
      case (Some a)
      obtain o' e2 where send: "transport e1 (ProbeFrame t (attempt_id a) (attempt_control_state a)) = (o', e2)" by fastforce
      have "safe_step e e2" using safe_trans [OF _ probe] l send Some by (metis snd_conv)
      moreover have "safe_step e2 (put_attempt (attempt_id a) (\<lambda>r. r\<lparr>attempt_control_state := Accepting\<rparr>) e2)" by (intro safe_attempts) simp
      ultimately show ?thesis
        using run l Some send
        by (auto simp: promote_starting_attempt_def take split: option.splits if_splits intro: safe_trans)
    qed
  qed
  obtain q e where first: "claim_next_attempt now t owner lease_ttl d = (q, e)" by fastforce
  have l: "safe_step d e \<and> (case q of None \<Rightarrow> True | Some a \<Rightarrow> attempt_task_id a = t)"
    by (rule lease [OF first [unfolded claim_next_attempt_def]]) (simp add: needs_pump_def)
  show ?thesis
  proof (cases q)
    case None
    then show ?thesis using claim first l promote [of e p d1] safe_trans by (auto simp: None)
  next
    case (Some a)
    then show ?thesis using claim first l by simp
  qed
qed

lemma safe_close_drained:
  assumes "safe_transport transport"
  shows "safe_step d (close_drained_attempt transport t a d)"
proof -
  have "safe_step d (snd (transport d f))" for f using assms by (simp add: safe_transport_def)
  then have "safe_step d e" if "transport d (CloseFrame t (attempt_id a)) = (r, e)" for r e using that by (metis snd_conv)
  then show ?thesis
    by (auto simp: close_drained_attempt_def split: prod.split option.split intro: safe_trans [OF _ safe_attempts(2)])
qed

text \<open>
  C27. A cycle of the pump always returns, and it only moves commands forward: whatever the
  transport answers, and whatever other sessions do to the table through its own operations while a
  frame is out, every command keeps its identity, a settled one stays as it is, a sent one is not
  queued again, and the constraints hold at the end.
\<close>

theorem pump_cycle_only_moves_commands_forward:
  assumes tr: "safe_transport transport" and wf: "wf_commands d"
  shows "\<exists>counts d'. run_pump_cycle transport now later t owner lease_ttl max_commands d = Inr (counts, d') \<and> wf_commands d'
    \<and> (\<forall>k c. get_command d k = Some c \<longrightarrow> (\<exists>c'. get_command d' k = Some c' \<and> progress c c'))"
proof -
  have finish: "\<exists>counts d'. X = Inr (counts, d') \<and> safe_step d d' \<Longrightarrow> \<exists>counts d'. X = Inr (counts, d') \<and> wf_commands d'
      \<and> (\<forall>k c. get_command d k = Some c \<longrightarrow> (\<exists>c'. get_command d' k = Some c' \<and> progress c c'))" for X :: "(string, (nat \<times> nat \<times> nat) \<times> database) result"
    using wf extends_get by (fastforce simp: safe_step_def)
  obtain p d1 where claim: "(case claim_next_attempt now t owner lease_ttl d of
              (Some a, d1) \<Rightarrow> (Some a, d1)
            | (None, d1) \<Rightarrow> promote_starting_attempt transport now t owner lease_ttl d1) = (p, d1)" by fastforce
  have claimed: "safe_step d d1 \<and> (case p of None \<Rightarrow> True | Some a \<Rightarrow> attempt_task_id a = t)"
    by (rule claim_or_promote_safe [OF tr claim])
  show ?thesis
  proof (rule finish, cases p)
    case None
    then show "\<exists>counts d'. run_pump_cycle transport now later t owner lease_ttl max_commands d = Inr (counts, d') \<and> safe_step d d'"
      using claimed by (simp add: run_pump_cycle_def claim)
  next
    case (Some a)
    then obtain a2 m u d2 where loop: "pump_loop max_commands transport now later t owner a 0 0 d1 = Inr (a2, m, u, d2)" "safe_step d1 d2"
      using claimed pump_loop_safe [OF tr] by fastforce
    then have "safe_step d d2" "safe_step d (close_drained_attempt transport t a2 d2)"
      using claimed safe_trans safe_close_drained [OF tr] by blast+
    then show "\<exists>counts d'. run_pump_cycle transport now later t owner lease_ttl max_commands d = Inr (counts, d') \<and> safe_step d d'"
      using loop Some by (simp add: run_pump_cycle_def claim)
  qed
qed

text \<open>
  C28. The row is marked before the frame leaves: the transport is only ever asked to send a command
  whose committed row says \<open>Dispatching\<close>, so two transports that agree on such databases give the same
  result; a command that is not queued is not sent at all.
\<close>

theorem dispatch_is_marked_before_the_send:
  assumes wf: "wf_commands d" and c: "normalize_command_id (PStr (cmd_id c)) = Some (cmd_id c)"
    and agree: "\<forall>d' e st native. get_command d' (cmd_id c) = Some e \<and> cmd_status e = Dispatching \<and> wf_commands d'
      \<longrightarrow> tr d' (CommandFrame c st native) = tr' d' (CommandFrame c st native)"
  shows "dispatch_one_command tr now later t owner c a d = dispatch_one_command tr' now later t owner c a d"
proof -
  have "tr d2 (CommandFrame c st native) = tr' d2 (CommandFrame c st native)"
    if arm: "arm_follow_up c n a d = Some (a1, d1)" and run: "begin_command_dispatch (cmd_id c) now d1 = (True, d2)" for n a1 d1 d2 st native
  proof -
    have wf1: "wf_commands d1" using arm_follow_upD(1) [OF arm] wf by (simp add: safe_step_def)
    have "wf_commands d2" using quiet_wf [OF wf1 cas_ops_quiet(3) [OF wf1, of "cmd_id c" now]] run by simp
    moreover have "\<exists>e. get_command d2 (cmd_id c) = Some e \<and> cmd_status e = Dispatching"
      using run c by (auto simp: begin_command_dispatch_def cas_command_def put_command_def get_command_def row_by_update_where
          split: option.splits if_splits dest: row_by_SomeD)
    ultimately show ?thesis using agree by blast
  qed
  then show ?thesis
    by (auto simp: dispatch_one_command_def Let_def split: option.split prod.split bool.split)
qed

section \<open>A concrete cycle\<close>

text \<open>One queued command, and a transport that acknowledges every frame.\<close>

definition one_queued :: database where
  "one_queued = run_ops control_db [CreateCommand 10 2 ulid_a ''steer'' hello ''u'']"

definition ack_transport :: control_transport where
  "ack_transport d f = (Some \<lparr>out_status = DISPATCH_ACK, out_rejection_code = None, out_native_sent = True, out_native_id = None\<rparr>, d)"

lemma one_queued_wf: "wf_commands one_queued"
  unfolding one_queued_def using ops_extends [OF control_db_wf] by blast

lemma ack_transport_safe: "safe_transport ack_transport"
  by (simp add: safe_transport_def ack_transport_def)

lemma one_queued_head:
  "(case load_head_command one_queued 2 ''a2'' of None \<Rightarrow> False | Some c \<Rightarrow> cmd_status c = Queued \<and> cmd_id c = ulid_a)"
  by code_simp

lemma one_queued_claim:
  "(case claim_next_attempt 20 2 ''p'' 30 one_queued of (Some a, _) \<Rightarrow> attempt_id a = ''a2'' | _ \<Rightarrow> False)"
  by code_simp

lemma one_queued_delivers:
  "(case run_pump_cycle ack_transport 20 21 2 ''p'' 30 20 one_queued of Inl _ \<Rightarrow> False
    | Inr (n, d) \<Rightarrow> n = (1, 1, 0) \<and> map cmd_status (commands d) = [Delivered])"
  by code_simp

theorem pump_head_is_fifo_witness:
  "\<exists>c. load_head_command one_queued 2 ''a2'' = Some c \<and> c \<in> set (commands one_queued) \<and> \<not> is_terminal_command c"
proof -
  obtain c where "load_head_command one_queued 2 ''a2'' = Some c" using one_queued_head by (auto split: option.splits)
  then show ?thesis using pump_head_is_fifo [of one_queued 2 "''a2''" c] by blast
qed

theorem dispatch_lease_is_exclusive_witness:
  "\<exists>a d1. claim_next_attempt 20 2 ''p'' 30 one_queued = (Some a, d1)
     \<and> (\<forall>b d2. claim_next_attempt 50 2 ''q'' 30 d1 = (Some b, d2) \<longrightarrow> attempt_id b \<noteq> ''a2'')"
proof -
  obtain a d1 where claim: "claim_next_attempt 20 2 ''p'' 30 one_queued = (Some a, d1)" "attempt_id a = ''a2''"
    using one_queued_claim by (auto split: prod.splits option.splits)
  have "distinct (map attempt_id (attempts one_queued))" using one_queued_wf by (simp add: wf_commands_def)
  from dispatch_lease_is_exclusive [OF this claim(1), of "''q''" 50 2 _ 30] claim show ?thesis by auto
qed

theorem pump_cycle_only_moves_commands_forward_witness:
  "\<exists>counts d'. run_pump_cycle ack_transport 20 21 2 ''p'' 30 20 one_queued = Inr (counts, d') \<and> wf_commands d'
     \<and> map cmd_status (commands d') = [Delivered]"
  using pump_cycle_only_moves_commands_forward [OF ack_transport_safe one_queued_wf, of 20 21 2 "''p''" 30 20] one_queued_delivers
  by auto

theorem dispatch_is_marked_before_the_send_witness:
  "\<exists>c. load_head_command one_queued 2 ''a2'' = Some c \<and>
     dispatch_one_command ack_transport 20 21 2 ''p'' c pi_attempt one_queued
     = dispatch_one_command (\<lambda>d f. case f of
          CommandFrame e _ _ \<Rightarrow> if map_option cmd_status (get_command d (cmd_id e)) = Some Dispatching then ack_transport d f else (None, d)
        | _ \<Rightarrow> (None, d)) 20 21 2 ''p'' c pi_attempt one_queued"
proof -
  obtain c where c: "load_head_command one_queued 2 ''a2'' = Some c" "cmd_id c = ulid_a" using one_queued_head by (auto split: option.splits)
  have "normalize_command_id (PStr ulid_a) = Some ulid_a" by code_simp
  with c(2) have "normalize_command_id (PStr (cmd_id c)) = Some (cmd_id c)" by simp
  note marked = dispatch_is_marked_before_the_send [OF one_queued_wf this]
  show ?thesis by (intro exI conjI, rule c(1), rule marked) simp
qed

end
