(* ===== verification/Event_Protocol.thy ===== *)
theory Event_Protocol
  imports Harness_Commands
begin

text \<open>
  The canonical event envelope of \<^verbatim>\<open>core/harness_protocol.py\<close>: validation and normalization of one event
  of a harness attempt, in the versions 1 and 2 of the schema.

  \<open>parse_time\<close> is \<^verbatim>\<open>datetime.fromisoformat\<close> of a text with \<^verbatim>\<open>Z\<close> read as \<^verbatim>\<open>+00:00\<close>: the instant, or None when the
  text is refused or has no offset; \<open>rp\<close> is Python's text of a float or a container. A protocol error is \<open>Inl\<close> of its code; \<^verbatim>\<open>TypeError\<close> and
  \<^verbatim>\<open>AttributeError\<close> are exceptions of a set test on a container and of \<^verbatim>\<open>.get\<close> on a value without it.
\<close>

section \<open>Vocabulary\<close>

definition KNOWN_EVENT_TYPES :: "string list" where
  "KNOWN_EVENT_TYPES = [''run.started'', ''model.resolved'', ''message.delta'', ''message.completed'',
     ''reasoning_summary.delta'', ''reasoning_summary.completed'', ''reasoning_summary.interrupted'',
     ''reasoning_summary.started'', ''tool.started'', ''tool.completed'', ''context.compacted'',
     ''provider.retry'', ''usage.updated'', ''usage.final'', ''harness.completed'', ''harness.failed'',
     ''delivery.started'', ''delivery.completed'', ''delivery.failed'', ''worker.finalization'',
     ''run.completed'', ''run.failed'', ''diagnostic'']"

definition TASK_TERMINAL_TYPES :: "string list" where "TASK_TERMINAL_TYPES = [''run.completed'', ''run.failed'']"

definition HARNESS_TERMINAL_TYPES :: "string list" where
  "HARNESS_TERMINAL_TYPES = [''harness.completed'', ''harness.failed'']"

definition CONTROL_EVENT_TYPES :: "string list" where
  "CONTROL_EVENT_TYPES = [''control.command.delivered'', ''control.command.rejected'', ''control.queue.updated'']"

definition V2_AUDIT_EVENT_TYPES :: "string list" where "V2_AUDIT_EVENT_TYPES = CONTROL_EVENT_TYPES @ [''agent_settled'']"

definition REJECTION_CODES :: "string list" where
  "REJECTION_CODES = [''task_not_running'', ''attempt_mismatch'', ''unsupported_harness'', ''control_gate_closed'',
     ''not_authorized'', ''payload_too_large'', ''invalid_command_type'', ''delivery_outcome_unknown'']"

definition FailureKinds :: "string list" where
  "FailureKinds = [''configuration_error'', ''authentication_error'', ''rate_limited'', ''sandbox_error'',
     ''protocol_error'', ''timeout'', ''cancelled'', ''engine_error'', ''crash'', ''settled_race'']"

definition HIDDEN_REASONING_KEYS :: "string list" where
  "HIDDEN_REASONING_KEYS = [''thinking'', ''chain_of_thought'', ''hidden_reasoning'', ''encrypted_content'']"

definition AGENT_ATTRIBUTED_EVENT_TYPES :: "string list" where
  "AGENT_ATTRIBUTED_EVENT_TYPES = [''message.delta'', ''message.completed'', ''reasoning_summary.started'',
     ''reasoning_summary.delta'', ''reasoning_summary.completed'', ''reasoning_summary.interrupted'',
     ''tool.started'', ''tool.completed'', ''context.compacted'', ''diagnostic'']"

definition DELEGATION_EVENT_TYPES :: "string list" where "DELEGATION_EVENT_TYPES = [''tool.started'', ''tool.completed'']"

definition AGENT_REF_KEYS :: "string list" where "AGENT_REF_KEYS = [''id'', ''parent_id'', ''role'']"

definition SUBAGENT_REF_KEYS :: "string list" where
  "SUBAGENT_REF_KEYS = [''id'', ''parent_id'', ''role'', ''status'', ''usage'']"

definition SUBAGENT_STATUSES :: "string list" where "SUBAGENT_STATUSES = [''completed'', ''failed'', ''cancelled'']"

definition SUBAGENT_USAGE_KEYS :: "string list" where
  "SUBAGENT_USAGE_KEYS = [''input_tokens'', ''cached_input_tokens'', ''output_tokens'', ''reasoning_tokens'', ''cost'', ''currency'']"

definition TOKEN_KEYS :: "string list" where
  "TOKEN_KEYS = [''input_tokens'', ''cached_input_tokens'', ''output_tokens'', ''reasoning_tokens'']"

abbreviation protocol_error :: string where "protocol_error \<equiv> ''protocol_error''"


section \<open>Parts of the envelope\<close>

definition identity_text :: "pyval \<Rightarrow> bool" where
  "identity_text v = (case v of PStr s \<Rightarrow> non_blank s | _ \<Rightarrow> False)"

definition token_count :: "pyval \<Rightarrow> bool" where
  "token_count v = (case v of PNone \<Rightarrow> True | PInt i \<Rightarrow> 0 \<le> i | _ \<Rightarrow> False)"

definition cost_value :: "pyval \<Rightarrow> bool" where
  "cost_value v = (case v of PNone \<Rightarrow> True | PInt i \<Rightarrow> 0 \<le> i | PFloat r \<Rightarrow> 0 \<le> r | _ \<Rightarrow> False)"

definition null_or_str :: "pyval \<Rightarrow> bool" where
  "null_or_str v = (case v of PNone \<Rightarrow> True | PStr _ \<Rightarrow> True | _ \<Rightarrow> False)"

definition at_least_one :: "pyval \<Rightarrow> bool" where
  "at_least_one v = (case v of PInt i \<Rightarrow> 1 \<le> i | _ \<Rightarrow> False)"

definition keys_within :: "pydict \<Rightarrow> string list \<Rightarrow> bool" where
  "keys_within d ks \<longleftrightarrow> list_all (\<lambda>(k, v). k \<in> set ks) d"

definition validate_agent_ref :: "pyval \<Rightarrow> (string, unit) result" where
  "validate_agent_ref v = (case v of
     PDict d \<Rightarrow>
       bind_result (require (keys_within d AGENT_REF_KEYS) protocol_error) (\<lambda>_.
       bind_result (require (list_all (has_key d) AGENT_REF_KEYS) protocol_error) (\<lambda>_.
       bind_result (require (list_all (\<lambda>k. identity_text (dict_get d k)) AGENT_REF_KEYS) protocol_error) (\<lambda>_.
       require (dict_get d ''id'' \<noteq> PStr ''root'') protocol_error)))
   | _ \<Rightarrow> Inl protocol_error)"

definition validate_subagent_usage :: "pyval \<Rightarrow> (string, unit) result" where
  "validate_subagent_usage v = (case v of
     PDict d \<Rightarrow>
       bind_result (require (keys_within d SUBAGENT_USAGE_KEYS) protocol_error) (\<lambda>_.
       bind_result (require (list_all (\<lambda>k. token_count (dict_get d k)) TOKEN_KEYS) protocol_error) (\<lambda>_.
       bind_result (require (cost_value (dict_get d ''cost'')) protocol_error) (\<lambda>_.
       require (null_or_str (dict_get d ''currency'')) protocol_error)))
   | _ \<Rightarrow> Inl protocol_error)"

definition validate_delegation_subagent :: "pyval \<Rightarrow> (string, unit) result" where
  "validate_delegation_subagent v = (case v of
     PDict d \<Rightarrow>
       bind_result (require (keys_within d SUBAGENT_REF_KEYS) protocol_error) (\<lambda>_.
       bind_result (require (list_all (\<lambda>k. identity_text (dict_get d k)) AGENT_REF_KEYS) protocol_error) (\<lambda>_.
       bind_result (if dict_get d ''status'' = PNone then Inr ()
                    else require_in_strs (dict_get d ''status'') SUBAGENT_STATUSES protocol_error) (\<lambda>_.
       if dict_get d ''usage'' = PNone then Inr () else validate_subagent_usage (dict_get d ''usage''))))
   | _ \<Rightarrow> Inl protocol_error)"

definition validate_agent_attribution :: "string \<Rightarrow> pydict \<Rightarrow> (string, unit) result" where
  "validate_agent_attribution ty p =
     bind_result (if dict_get p ''agent'' = PNone then Inr ()
                  else bind_result (require (ty \<in> set AGENT_ATTRIBUTED_EVENT_TYPES) protocol_error) (\<lambda>_.
                       validate_agent_ref (dict_get p ''agent''))) (\<lambda>_.
     if dict_get p ''subagent'' = PNone then Inr ()
     else bind_result (require (ty \<in> set DELEGATION_EVENT_TYPES) protocol_error) (\<lambda>_.
          validate_delegation_subagent (dict_get p ''subagent'')))"

definition validate_raw_ref :: "pyval \<Rightarrow> (string, unit) result" where
  "validate_raw_ref v = (case v of
     PNone \<Rightarrow> Inr ()
   | PDict d \<Rightarrow>
       bind_result (require (case dict_get d ''stream'' of PStr s \<Rightarrow> startswith s ''harness-events/'' | _ \<Rightarrow> False) protocol_error) (\<lambda>_.
       require (at_least_one (dict_get d ''line'')) protocol_error)
   | _ \<Rightarrow> Inl protocol_error)"

primrec contains_hidden_reasoning :: "pyval \<Rightarrow> bool" where
  "contains_hidden_reasoning PNone = False"
| "contains_hidden_reasoning (PBool b) = False"
| "contains_hidden_reasoning (PInt i) = False"
| "contains_hidden_reasoning (PFloat r) = False"
| "contains_hidden_reasoning (PStr s) = False"
| "contains_hidden_reasoning (PList xs) = list_ex id (map contains_hidden_reasoning xs)"
| "contains_hidden_reasoning (PDict d) =
     list_ex (\<lambda>(k, h). map to_lower k \<in> set HIDDEN_REASONING_KEYS \<or> h) (map (map_prod id contains_hidden_reasoning) d)"

definition normalize_usage :: "pyval \<Rightarrow> (string, pyval) result" where
  "normalize_usage v =
     bind_result (if \<not> py_truthy v then Inr [] else case v of PDict d \<Rightarrow> Inr d | _ \<Rightarrow> Inl ''AttributeError'') (\<lambda>d.
     let engine = (if py_truthy (dict_get d ''engine_fields'') then dict_get d ''engine_fields'' else PDict []);
         n = map (\<lambda>k. (k, dict_get d k)) (TOKEN_KEYS @ [''cost'', ''currency'']) @ [(''engine_fields'', engine)]
     in bind_result (require (list_all (\<lambda>k. token_count (dict_get d k)) TOKEN_KEYS) protocol_error) (\<lambda>_.
        bind_result (require (cost_value (dict_get d ''cost'')) protocol_error) (\<lambda>_.
        bind_result (require (null_or_str (dict_get d ''currency'')) protocol_error) (\<lambda>_.
        bind_result (require (as_dict engine \<noteq> None) protocol_error) (\<lambda>_. Inr (PDict n))))))"

definition normalize_event_type :: "string list \<Rightarrow> string \<Rightarrow> pydict \<Rightarrow> pyval \<Rightarrow> (string, string \<times> pydict) result" where
  "normalize_event_type extra ty p raw_ref =
     (if ty \<in> set KNOWN_EVENT_TYPES \<or> ty \<in> set extra then Inr (ty, p)
      else if startswith ty ''run.'' then Inl ''unknown_terminal''
      else Inr (''diagnostic'', [(''code'', PStr ''unknown_event_type''), (''original_type'', PStr ty),
             (''raw_ref'', if py_truthy raw_ref then raw_ref else PNone)]))"

definition validate_failure :: "pydict \<Rightarrow> (string, unit) result" where
  "validate_failure p = (case dict_get p ''failure'' of
     PDict f \<Rightarrow> require_in_strs (dict_get f ''kind'') FailureKinds protocol_error
   | _ \<Rightarrow> Inl protocol_error)"

definition validate_event_payload :: "string \<Rightarrow> pydict \<Rightarrow> (string, unit) result" where
  "validate_event_payload ty p =
     (if ty = ''run.completed'' then
        require (dict_get p ''status'' = PStr ''completed'' \<and> dict_get p ''success'' = PBool True) protocol_error
      else if ty = ''reasoning_summary.started'' then require (identity_text (dict_get p ''reasoning_id'')) protocol_error
      else if ty = ''reasoning_summary.interrupted'' then
        bind_result (require (identity_text (dict_get p ''reasoning_id'')) protocol_error) (\<lambda>_.
        require (case dict_get p ''reason'' of PNone \<Rightarrow> True | PStr s \<Rightarrow> non_blank s \<and> int (length s) \<le> 200 | _ \<Rightarrow> False) protocol_error)
      else if ty = ''run.failed'' then
        bind_result (require_in_strs (dict_get p ''status'') [''failed'', ''cancelled'', ''protocol_error''] protocol_error) (\<lambda>_.
        bind_result (require (dict_get p ''success'' = PBool False) protocol_error) (\<lambda>_. validate_failure p))
      else if ty = ''harness.failed'' then validate_failure p
      else Inr ())"

definition validate_v2_harness :: "pydict \<Rightarrow> (string, unit) result" where
  "validate_v2_harness h = (case dict_get h ''control_transport'' of
     PDict t \<Rightarrow>
       bind_result (require (identity_text (dict_get t ''kind'')) protocol_error) (\<lambda>_.
       bind_result (require (dict_get t ''protocol'' = PNone \<or> identity_text (dict_get t ''protocol'')) protocol_error) (\<lambda>_.
       require (case dict_get h ''model_protocols'' of
           PList ms \<Rightarrow> ms \<noteq> [] \<and> list_all (\<lambda>m. in_strs m MODEL_PROTOCOLS) ms
         | _ \<Rightarrow> False) protocol_error))
   | _ \<Rightarrow> Inl protocol_error)"

definition validate_control_event :: "string \<Rightarrow> pydict \<Rightarrow> (string, unit) result" where
  "validate_control_event ty p =
     (if ty = ''control.command.delivered'' then
        require (list_all (\<lambda>k. dict_get p k \<noteq> PNone) [''command_id'', ''payload_digest'', ''sequence_no'', ''delivered_at'']) protocol_error
      else if ty = ''control.command.rejected'' then
        bind_result (require (list_all (\<lambda>k. dict_get p k \<noteq> PNone)
          [''command_id'', ''payload_digest'', ''sequence_no'', ''rejection_code'']) protocol_error) (\<lambda>_.
        bind_result (require (as_str (dict_get p ''rejection_message'') \<noteq> None) protocol_error) (\<lambda>_.
        require_in_strs (dict_get p ''rejection_code'') REJECTION_CODES protocol_error))
      else if ty = ''control.queue.updated'' then require (as_list (dict_get p ''queue'') \<noteq> None) protocol_error
      else Inr ())"


section \<open>One event\<close>

definition required_fields :: "string list" where
  "required_fields = [''schema'', ''event_id'', ''attempt_id'', ''seq'', ''occurred_at'', ''type'', ''task_id'', ''harness'', ''payload'']"

definition valid_occurred_at :: "(string \<Rightarrow> timestamp option) \<Rightarrow> pyval \<Rightarrow> bool" where
  "valid_occurred_at parse_time v = (case v of PStr s \<Rightarrow> non_blank s \<and> parse_time s \<noteq> None | _ \<Rightarrow> False)"

definition validate_harness_object :: "bool \<Rightarrow> pyval \<Rightarrow> (string, unit) result" where
  "validate_harness_object v2 v = (case v of
     PDict h \<Rightarrow>
       bind_result (require (list_all (\<lambda>k. identity_text (dict_get h k)) [''key'', ''adapter_version'', ''cli_version'']) protocol_error) (\<lambda>_.
       if v2 then validate_v2_harness h else Inr ())
   | _ \<Rightarrow> Inl protocol_error)"

definition validate_payload :: "bool \<Rightarrow> string \<Rightarrow> pydict \<Rightarrow> pyval \<Rightarrow> (string, string \<times> pydict) result" where
  "validate_payload v2 ty p raw_ref =
     bind_result (normalize_event_type (if v2 then V2_AUDIT_EVENT_TYPES else []) ty p raw_ref) (\<lambda>(ty1, p1).
     bind_result (if ty1 = ''usage.updated'' \<or> ty1 = ''usage.final''
                  then bind_result (normalize_usage (dict_get p1 ''usage'')) (\<lambda>u. Inr (dict_set p1 ''usage'' u))
                  else Inr p1) (\<lambda>p2.
     bind_result (if v2 \<and> ty1 \<in> set CONTROL_EVENT_TYPES then validate_control_event ty1 p2 else Inr ()) (\<lambda>_.
     bind_result (validate_agent_attribution ty1 p2) (\<lambda>_.
     bind_result (validate_event_payload ty1 p2) (\<lambda>_. Inr (ty1, p2))))))"

definition validate_event_core ::
  "(string \<Rightarrow> timestamp option) \<Rightarrow> (pyval \<Rightarrow> string) \<Rightarrow> string \<Rightarrow> bool \<Rightarrow> pydict \<Rightarrow> (string, pydict) result" where
  "validate_event_core parse_time rp schema v2 e =
     bind_result (require (list_all (has_key e) required_fields) protocol_error) (\<lambda>_.
     bind_result (require (dict_get e ''schema'' = PStr schema) protocol_error) (\<lambda>_.
     bind_result (require (identity_text (dict_get e ''event_id'')) protocol_error) (\<lambda>_.
     bind_result (require (identity_text (dict_get e ''attempt_id'')) protocol_error) (\<lambda>_.
     bind_result (require (at_least_one (dict_get e ''seq'')) protocol_error) (\<lambda>_.
     bind_result (require (valid_occurred_at parse_time (dict_get e ''occurred_at'')) protocol_error) (\<lambda>_.
     bind_result (require (at_least_one (dict_get e ''task_id'')) protocol_error) (\<lambda>_.
     bind_result (validate_harness_object v2 (dict_get e ''harness'')) (\<lambda>_.
     case dict_get e ''payload'' of
       PDict p \<Rightarrow>
         bind_result (require (\<not> contains_hidden_reasoning (PDict p)) protocol_error) (\<lambda>_.
         bind_result (validate_raw_ref (dict_get e ''raw_ref'')) (\<lambda>_.
         bind_result (validate_payload v2 (str_or_empty rp (dict_get e ''type'')) p (dict_get e ''raw_ref'')) (\<lambda>(ty, p').
         Inr (dict_set (dict_set e ''type'' (PStr ty)) ''payload'' (PDict p')))))
     | _ \<Rightarrow> Inl protocol_error))))))))"

definition validate_event :: "(string \<Rightarrow> timestamp option) \<Rightarrow> (pyval \<Rightarrow> string) \<Rightarrow> pydict \<Rightarrow> (string, pydict) result" where
  "validate_event parse_time rp e = validate_event_core parse_time rp CANONICAL_EVENT_SCHEMA False e"

definition validate_event_v2 :: "(string \<Rightarrow> timestamp option) \<Rightarrow> (pyval \<Rightarrow> string) \<Rightarrow> pydict \<Rightarrow> (string, pydict) result" where
  "validate_event_v2 parse_time rp e = validate_event_core parse_time rp CANONICAL_EVENT_SCHEMA_V2 True e"

definition validate_event_by_schema :: "(string \<Rightarrow> timestamp option) \<Rightarrow> (pyval \<Rightarrow> string) \<Rightarrow> pydict \<Rightarrow> (string, pydict) result" where
  "validate_event_by_schema parse_time rp e =
     (if dict_get e ''schema'' = PStr CANONICAL_EVENT_SCHEMA then validate_event parse_time rp e
      else if dict_get e ''schema'' = PStr CANONICAL_EVENT_SCHEMA_V2 then validate_event_v2 parse_time rp e
      else Inl protocol_error)"


section \<open>Results\<close>

definition CANONICAL_RESULT_SCHEMA :: string where "CANONICAL_RESULT_SCHEMA = ''codify.worker.result/v1''"

definition result_statuses :: "string list" where
  "result_statuses = [''completed'', ''failed'', ''cancelled'', ''protocol_error'']"

definition result_fields :: "string list \<Rightarrow> string list" where
  "result_fields identity = [''schema'', ''status'', ''success'', ''result''] @ identity @
     [''session_id'', ''model'', ''usage'', ''failure'', ''capability_warnings'']"

definition validate_result_head :: "string list \<Rightarrow> string \<Rightarrow> pydict \<Rightarrow> (string, unit) result" where
  "validate_result_head required schema d =
     bind_result (require (list_all (has_key d) required) protocol_error) (\<lambda>_.
     bind_result (require (dict_get d ''schema'' = PStr schema) protocol_error) (\<lambda>_.
     bind_result (require_in_strs (dict_get d ''status'') result_statuses protocol_error) (\<lambda>_.
     bind_result (require (case dict_get d ''success'' of PBool _ \<Rightarrow> True | _ \<Rightarrow> False) protocol_error) (\<lambda>_.
     require (dict_get d ''success'' = PBool (dict_get d ''status'' = PStr ''completed'')) protocol_error))))"

definition validate_result_tail :: "pydict \<Rightarrow> (string, pydict) result" where
  "validate_result_tail d =
     bind_result (require (dict_get d ''success'' = PBool True \<longrightarrow> dict_get d ''failure'' = PNone) protocol_error) (\<lambda>_.
     bind_result (if dict_get d ''success'' = PBool True then Inr () else validate_failure d) (\<lambda>_.
     bind_result (normalize_usage (dict_get d ''usage'')) (\<lambda>u.
     bind_result (require (case dict_get d ''capability_warnings'' of
                     PList ws \<Rightarrow> list_all (\<lambda>w. as_str w \<noteq> None) ws | _ \<Rightarrow> False) protocol_error) (\<lambda>_.
     Inr (dict_set d ''usage'' u)))))"

definition validate_result :: "pydict \<Rightarrow> (string, pydict) result" where
  "validate_result d =
     bind_result (validate_result_head (result_fields [''harness_key'', ''adapter_version'', ''cli_version''])
       CANONICAL_RESULT_SCHEMA d) (\<lambda>_. validate_result_tail d)"

definition validate_result_v2 :: "pydict \<Rightarrow> (string, pydict) result" where
  "validate_result_v2 d =
     bind_result (validate_result_head (result_fields [''harness'']) CANONICAL_RESULT_SCHEMA_V2 d) (\<lambda>_.
     bind_result (validate_harness_object True (dict_get d ''harness'')) (\<lambda>_. validate_result_tail d))"


section \<open>What validation accepts\<close>

lemma normalize_usage_fixed:
  assumes "normalize_usage v = Inr u"
  shows "normalize_usage u = Inr u" "\<exists>d. u = PDict d"
proof -
  let ?e = "\<lambda>d. if py_truthy (dict_get d ''engine_fields'') then dict_get d ''engine_fields'' else PDict []"
  obtain d where
    ok: "list_all (\<lambda>k. token_count (dict_get d k)) TOKEN_KEYS" "cost_value (dict_get d ''cost'')"
      "null_or_str (dict_get d ''currency'')" "as_dict (?e d) \<noteq> None"
    and u: "u = PDict (map (\<lambda>k. (k, dict_get d k)) (TOKEN_KEYS @ [''cost'', ''currency'']) @ [(''engine_fields'', ?e d)])"
    using assms unfolding normalize_usage_def Let_def bind_result_eq_Inr require_eq_Inr by blast
  obtain f where f: "(if py_truthy (dict_get d ''engine_fields'') then dict_get d ''engine_fields'' else PDict []) = PDict f"
    using as_dict_not_None [OF ok (4)] by blast
  show "\<exists>d. u = PDict d" using u by blast
  show "normalize_usage u = Inr u"
    unfolding u f using ok (1,2,3) by (simp add: normalize_usage_def TOKEN_KEYS_def py_truthy_def)
qed

lemma validate_payload_okD:
  assumes "validate_payload v2 ty p raw_ref = Inr (ty', p')"
  shows "ty' \<in> set KNOWN_EVENT_TYPES \<or> (v2 \<and> ty' \<in> set V2_AUDIT_EVENT_TYPES)"
    "validate_payload v2 ty' p' raw_ref' = Inr (ty', p')"
proof -
  let ?ex = "if v2 then V2_AUDIT_EVENT_TYPES else []"
  obtain p1 where n: "normalize_event_type ?ex ty p raw_ref = Inr (ty', p1)"
    and u: "(if ty' = ''usage.updated'' \<or> ty' = ''usage.final''
             then bind_result (normalize_usage (dict_get p1 ''usage'')) (\<lambda>u. Inr (dict_set p1 ''usage'' u))
             else Inr p1) = Inr p'"
    and c: "(if v2 \<and> ty' \<in> set CONTROL_EVENT_TYPES then validate_control_event ty' p' else Inr ()) = Inr ()"
    and a: "validate_agent_attribution ty' p' = Inr ()" and e: "validate_event_payload ty' p' = Inr ()"
    using assms by (auto simp: validate_payload_def bind_result_eq_Inr)
  have known: "ty' \<in> set KNOWN_EVENT_TYPES \<or> ty' \<in> set ?ex"
    using n by (auto simp: normalize_event_type_def KNOWN_EVENT_TYPES_def split: if_splits)
  then show "ty' \<in> set KNOWN_EVENT_TYPES \<or> (v2 \<and> ty' \<in> set V2_AUDIT_EVENT_TYPES)" by (auto split: if_splits)
  have n': "normalize_event_type ?ex ty' p' raw_ref' = Inr (ty', p')"
    using known unfolding normalize_event_type_def by presburger
  have u': "(if ty' = ''usage.updated'' \<or> ty' = ''usage.final''
             then bind_result (normalize_usage (dict_get p' ''usage'')) (\<lambda>u. Inr (dict_set p' ''usage'' u))
             else Inr p') = Inr p'"
  proof (cases "ty' = ''usage.updated'' \<or> ty' = ''usage.final''")
    case True
    then obtain w where w: "normalize_usage (dict_get p1 ''usage'') = Inr w" and p': "p' = dict_set p1 ''usage'' w"
      using u by (auto simp: bind_result_eq_Inr)
    show ?thesis unfolding if_P [OF True] p' using normalize_usage_fixed (1) [OF w] by simp
  next
    case False
    show ?thesis unfolding if_not_P [OF False] ..
  qed
  show "validate_payload v2 ty' p' raw_ref' = Inr (ty', p')"
    unfolding validate_payload_def n' bind_result_simps case_prod_conv u' c a e ..
qed

text \<open>The fields of an accepted event, and the event it is normalized to.\<close>

lemma validate_event_coreD:
  assumes "validate_event_core parse_time rp schema v2 e = Inr n"
  obtains ident attempt seq task h ty p p0 where
    "dict_get n ''schema'' = PStr schema"
    "dict_get n ''event_id'' = PStr ident" "dict_get n ''attempt_id'' = PStr attempt"
    "dict_get n ''seq'' = PInt seq" "1 \<le> seq" "dict_get n ''task_id'' = PInt task"
    "dict_get n ''harness'' = PDict h" "\<exists>s. dict_get h ''key'' = PStr s"
    "\<exists>s. dict_get h ''adapter_version'' = PStr s" "\<exists>s. dict_get h ''cli_version'' = PStr s"
    "dict_get n ''type'' = PStr ty" "dict_get n ''payload'' = PDict p"
    "ty \<in> set KNOWN_EVENT_TYPES \<or> (v2 \<and> ty \<in> set V2_AUDIT_EVENT_TYPES)"
    "validate_payload v2 (str_or_empty rp (dict_get e ''type'')) p0 (dict_get e ''raw_ref'') = Inr (ty, p)"
    "n = dict_set (dict_set e ''type'' (PStr ty)) ''payload'' (PDict p)"
proof -
  obtain p0 ty p where parts:
    "dict_get e ''schema'' = PStr schema" "identity_text (dict_get e ''event_id'')"
    "identity_text (dict_get e ''attempt_id'')" "at_least_one (dict_get e ''seq'')" "at_least_one (dict_get e ''task_id'')"
    "validate_harness_object v2 (dict_get e ''harness'') = Inr ()"
    and v: "validate_payload v2 (str_or_empty rp (dict_get e ''type'')) p0 (dict_get e ''raw_ref'') = Inr (ty, p)"
    and n: "n = dict_set (dict_set e ''type'' (PStr ty)) ''payload'' (PDict p)"
    using assms by (auto simp: validate_event_core_def bind_result_eq_Inr split: pyval.splits)
  from parts obtain ident attempt seq task h where
    "dict_get e ''event_id'' = PStr ident" "dict_get e ''attempt_id'' = PStr attempt"
    "dict_get e ''seq'' = PInt seq" "1 \<le> seq" "dict_get e ''task_id'' = PInt task"
    "dict_get e ''harness'' = PDict h" "\<exists>s. dict_get h ''key'' = PStr s"
    "\<exists>s. dict_get h ''adapter_version'' = PStr s" "\<exists>s. dict_get h ''cli_version'' = PStr s"
    by (auto simp: identity_text_def at_least_one_def validate_harness_object_def bind_result_eq_Inr split: pyval.splits)
  then show ?thesis
    using that [of ident attempt seq task h ty p p0] parts (1) v n validate_payload_okD (1) [OF v] by simp
qed

lemma validate_event_core_again:
  assumes "validate_event_core parse_time rp schema v2 e = Inr n"
  shows "validate_event_core parse_time rp schema v2 n =
    (if contains_hidden_reasoning (dict_get n ''payload'') then Inl protocol_error else Inr n)"
proof -
  obtain p0 ty p where k: "list_all (has_key e) required_fields"
    and parts:
    "dict_get e ''schema'' = PStr schema" "identity_text (dict_get e ''event_id'')"
    "identity_text (dict_get e ''attempt_id'')" "at_least_one (dict_get e ''seq'')"
    "valid_occurred_at parse_time (dict_get e ''occurred_at'')" "at_least_one (dict_get e ''task_id'')"
    "validate_harness_object v2 (dict_get e ''harness'') = Inr ()" "validate_raw_ref (dict_get e ''raw_ref'') = Inr ()"
    and v: "validate_payload v2 (str_or_empty rp (dict_get e ''type'')) p0 (dict_get e ''raw_ref'') = Inr (ty, p)"
    and n: "n = dict_set (dict_set e ''type'' (PStr ty)) ''payload'' (PDict p)"
    using assms by (auto simp: validate_event_core_def bind_result_eq_Inr split: pyval.splits)
  have "ty \<noteq> []" using validate_payload_okD (1) [OF v]
    by (auto simp: KNOWN_EVENT_TYPES_def V2_AUDIT_EVENT_TYPES_def CONTROL_EVENT_TYPES_def)
  then have ty: "str_or_empty rp (PStr ty) = ty" by (simp add: str_or_empty_def py_str_def py_truthy_def)
  have k': "list_all (has_key n) required_fields" using k by (auto simp: n list_all_iff)
  have same: "dict_set (dict_set n ''type'' (PStr ty)) ''payload'' (PDict p) = n"
    using k unfolding n by (simp add: dict_set_swap [of "''payload''" "''type''"] required_fields_def dict_set_same)
  have v': "validate_payload v2 ty p raw = Inr (ty, p)" for raw by (rule validate_payload_okD (2) [OF v])
  show ?thesis
    unfolding validate_event_core_def using k' parts
    by (simp add: n ty v') (simp add: same [unfolded n])
qed

lemma by_schema_cases:
  assumes "validate_event_by_schema parse_time rp e = Inr n"
  obtains schema v2 where "validate_event_core parse_time rp schema v2 e = Inr n"
    "validate_event_core parse_time rp schema v2 n = validate_event_by_schema parse_time rp n"
    "(schema, v2) \<in> {(CANONICAL_EVENT_SCHEMA, False), (CANONICAL_EVENT_SCHEMA_V2, True)}"
proof (cases "dict_get e ''schema'' = PStr CANONICAL_EVENT_SCHEMA")
  case True
  then have c: "validate_event_core parse_time rp CANONICAL_EVENT_SCHEMA False e = Inr n"
    using assms by (simp add: validate_event_by_schema_def validate_event_def)
  then have "dict_get n ''schema'' = PStr CANONICAL_EVENT_SCHEMA" by (rule validate_event_coreD)
  then show ?thesis using that [OF c] by (simp add: validate_event_by_schema_def validate_event_def)
next
  case False
  then have c: "validate_event_core parse_time rp CANONICAL_EVENT_SCHEMA_V2 True e = Inr n"
    using assms by (simp add: validate_event_by_schema_def validate_event_v2_def split: if_splits)
  then have "dict_get n ''schema'' = PStr CANONICAL_EVENT_SCHEMA_V2" by (rule validate_event_coreD)
  moreover have "CANONICAL_EVENT_SCHEMA_V2 \<noteq> CANONICAL_EVENT_SCHEMA"
    by (simp add: CANONICAL_EVENT_SCHEMA_V2_def CANONICAL_EVENT_SCHEMA_def)
  ultimately show ?thesis using that [OF c] by (simp add: validate_event_by_schema_def validate_event_v2_def)
qed

lemma validated_again:
  assumes "validate_event_by_schema parse_time rp e = Inr n"
  shows "validate_event_by_schema parse_time rp n =
    (if contains_hidden_reasoning (dict_get n ''payload'') then Inl protocol_error else Inr n)"
  using assms by (rule by_schema_cases) (metis validate_event_core_again)


section \<open>Property\<close>

text \<open>
  C16. Validating a normalized event again returns it unchanged, except when the diagnostic that replaced an unknown
  event type copied a hidden-reasoning key from \<^verbatim>\<open>raw_ref\<close> into the payload: that event was accepted and its
  normal form is refused.
\<close>

theorem normalized_event_is_a_fixed_point:
  assumes "validate_event_by_schema parse_time rp e = Inr n"
  shows "validate_event_by_schema parse_time rp n =
    (if contains_hidden_reasoning (dict_get n ''payload'') then Inl protocol_error else Inr n)"
  by (rule validated_again [OF assms])

definition sample_usage_event :: pydict where
  "sample_usage_event = [(''schema'', PStr CANONICAL_EVENT_SCHEMA), (''event_id'', PStr ''e1''), (''attempt_id'', PStr ''a1''),
     (''seq'', PInt 2), (''occurred_at'', PStr ''2026-01-01T00:00:00Z''), (''type'', PStr ''usage.final''), (''task_id'', PInt 7),
     (''harness'', PDict [(''key'', PStr ''pi''), (''adapter_version'', PStr ''1''), (''cli_version'', PStr ''2'')]),
     (''payload'', PDict [(''usage'', PDict [(''output_tokens'', PInt 5)])])]"

definition sample_unknown_event :: pydict where
  "sample_unknown_event = dict_set (dict_set sample_usage_event ''type'' (PStr ''engine.note'')) ''raw_ref''
     (PDict [(''stream'', PStr ''harness-events/pi''), (''line'', PInt 1), (''Thinking'', PStr ''x'')])"

theorem normalized_event_is_a_fixed_point_witness:
  "(\<exists>n. validate_event_by_schema (\<lambda>_. Some 0) (\<lambda>_. []) sample_usage_event = Inr n \<and> n \<noteq> sample_usage_event
      \<and> validate_event_by_schema (\<lambda>_. Some 0) (\<lambda>_. []) n = Inr n)
   \<and> (\<exists>n. validate_event_by_schema (\<lambda>_. Some 0) (\<lambda>_. []) sample_unknown_event = Inr n
      \<and> validate_event_by_schema (\<lambda>_. Some 0) (\<lambda>_. []) n = Inl protocol_error)"
proof -
  let ?v = "validate_event_by_schema (\<lambda>_. Some 0) (\<lambda>_. [])"
  have "case ?v sample_usage_event of Inl _ \<Rightarrow> False
      | Inr n \<Rightarrow> n \<noteq> sample_usage_event \<and> \<not> contains_hidden_reasoning (dict_get n ''payload'')" by code_simp
  then obtain n where "?v sample_usage_event = Inr n" "n \<noteq> sample_usage_event" "\<not> contains_hidden_reasoning (dict_get n ''payload'')"
    by (auto split: sum.splits)
  moreover have "case ?v sample_unknown_event of Inl _ \<Rightarrow> False | Inr n \<Rightarrow> contains_hidden_reasoning (dict_get n ''payload'')" by code_simp
  then obtain m where "?v sample_unknown_event = Inr m" "contains_hidden_reasoning (dict_get m ''payload'')"
    by (auto split: sum.splits)
  ultimately show ?thesis using normalized_event_is_a_fixed_point by auto
qed


lemma result_tailD:
  assumes "validate_result_tail d = Inr n" "dict_get d ''success'' = PBool b"
  shows "dict_get d ''failure'' = PNone \<longleftrightarrow> b" "\<exists>u. n = dict_set d ''usage'' u \<and> normalize_usage u = Inr u"
    "\<not> b \<Longrightarrow> \<exists>f k. dict_get d ''failure'' = PDict f \<and> dict_get f ''kind'' = PStr k \<and> k \<in> set FailureKinds"
  using assms normalize_usage_fixed
  by (auto simp: validate_result_tail_def bind_result_eq_Inr validate_failure_def split: pyval.splits if_splits)

lemma result_headD:
  assumes "validate_result_head required schema d = Inr ()"
  shows "\<exists>st. dict_get d ''status'' = PStr st \<and> st \<in> set result_statuses
    \<and> dict_get d ''success'' = PBool (st = ''completed'')"
  using assms by (auto simp: validate_result_head_def bind_result_eq_Inr)

text \<open>
  A canonical result of either version that validation accepts is coherent: success is a boolean that is true
  exactly for the status completed and exactly without a failure, a failure has a known kind, and the usage is in
  its normal form.
\<close>

theorem accepted_result_is_coherent:
  assumes "validate_result d = Inr n \<or> validate_result_v2 d = Inr n"
  shows "\<exists>st u. dict_get n ''status'' = PStr st \<and> st \<in> set result_statuses
    \<and> dict_get n ''success'' = PBool (st = ''completed'')
    \<and> (dict_get n ''failure'' = PNone \<longleftrightarrow> st = ''completed'')
    \<and> (st \<noteq> ''completed'' \<longrightarrow> (\<exists>f k. dict_get n ''failure'' = PDict f \<and> dict_get f ''kind'' = PStr k \<and> k \<in> set FailureKinds))
    \<and> dict_get n ''usage'' = u \<and> normalize_usage u = Inr u"
proof -
  obtain required schema where h: "validate_result_head required schema d = Inr ()" and t: "validate_result_tail d = Inr n"
    using assms by (auto simp: validate_result_def validate_result_v2_def bind_result_eq_Inr)
  obtain st where st: "dict_get d ''status'' = PStr st" "st \<in> set result_statuses" "dict_get d ''success'' = PBool (st = ''completed'')"
    using result_headD [OF h] by blast
  note tail = result_tailD [OF t st(3)]
  obtain u where n: "n = dict_set d ''usage'' u" and u: "normalize_usage u = Inr u" using tail(2) by blast
  show ?thesis
    unfolding n using st tail(1,3) u by auto
qed

definition sample_result :: pydict where
  "sample_result = [(''schema'', PStr CANONICAL_RESULT_SCHEMA), (''status'', PStr ''failed''), (''success'', PBool False),
     (''result'', PNone), (''harness_key'', PStr ''pi''), (''adapter_version'', PStr ''1''), (''cli_version'', PStr ''2''),
     (''session_id'', PNone), (''model'', PNone), (''usage'', PNone), (''failure'', PDict [(''kind'', PStr ''timeout'')]),
     (''capability_warnings'', PList [])]"

theorem accepted_result_is_coherent_witness:
  "\<exists>n st. validate_result sample_result = Inr n \<and> dict_get n ''success'' = PBool (st = ''completed'') \<and> dict_get n ''status'' = PStr st"
proof -
  have "case validate_result sample_result of Inl _ \<Rightarrow> False | Inr n \<Rightarrow> True" by code_simp
  then obtain n where "validate_result sample_result = Inr n" by (auto split: sum.splits)
  then show ?thesis using accepted_result_is_coherent [of sample_result n] by blast
qed

end
