(* ===== verification/Event_Replay.thy ===== *)
theory Event_Replay
  imports Event_Protocol Command_Gate
begin

text \<open>
  The order of the events of one harness attempt: the replay of a complete attempt of
  \<^verbatim>\<open>core/harness_protocol.py\<close> (\<^verbatim>\<open>CanonicalEventReplay\<close>) and the incremental ingest of
  \<^verbatim>\<open>core/harness_attempts.py\<close>, which keeps a receipt of every accepted event and tests the order against the
  attempt row and a few indexed queries.

  The receipts are a table beside the database. \<open>attempt_cache\<close> holds the three attributes that the ingest sets
  on the loaded attempt object; they outlive a raised error, so they are returned beside the result. A stored
  event is the object that was written (the JSON column is read back unchanged).
\<close>

section \<open>Fields of an accepted event\<close>

text \<open>Subscripts of a validated event; validation fixes the type of each field, so the defaults are never used.\<close>

definition ev_str :: "pydict \<Rightarrow> string \<Rightarrow> string" where
  "ev_str e k = (case dict_get e k of PStr s \<Rightarrow> s | _ \<Rightarrow> [])"

definition ev_int :: "pydict \<Rightarrow> string \<Rightarrow> int" where
  "ev_int e k = (case dict_get e k of PInt i \<Rightarrow> i | _ \<Rightarrow> 0)"

definition ev_dict :: "pydict \<Rightarrow> string \<Rightarrow> pydict" where
  "ev_dict e k = (case dict_get e k of PDict d \<Rightarrow> d | _ \<Rightarrow> [])"

abbreviation ev_id :: "pydict \<Rightarrow> string" where "ev_id e \<equiv> ev_str e ''event_id''"
abbreviation ev_attempt :: "pydict \<Rightarrow> string" where "ev_attempt e \<equiv> ev_str e ''attempt_id''"
abbreviation ev_type :: "pydict \<Rightarrow> string" where "ev_type e \<equiv> ev_str e ''type''"
abbreviation ev_seq :: "pydict \<Rightarrow> int" where "ev_seq e \<equiv> ev_int e ''seq''"
abbreviation ev_task :: "pydict \<Rightarrow> int" where "ev_task e \<equiv> ev_int e ''task_id''"
abbreviation ev_harness :: "pydict \<Rightarrow> pydict" where "ev_harness e \<equiv> ev_dict e ''harness''"

definition FIRST_SEQUENCE :: int where "FIRST_SEQUENCE = 1"


section \<open>Replay of an attempt\<close>

record replay =
  replay_attempt_id :: "string option"
  replay_task_id :: int
  replay_harness_key :: string
  replay_adapter_version :: string
  replay_cli_version :: string
  replay_control_transport :: pyval
  replay_model_protocols :: pyval
  replay_last_seq :: int
  replay_seen_event_ids :: "string list"
  replay_started :: bool
  replay_harness_ended :: bool
  replay_finalization_seen :: bool
  replay_terminal_type :: "string option"

definition new_replay :: replay where
  "new_replay = \<lparr>replay_attempt_id = None, replay_task_id = 0, replay_harness_key = [], replay_adapter_version = [],
     replay_cli_version = [], replay_control_transport = PNone, replay_model_protocols = PNone, replay_last_seq = 0,
     replay_seen_event_ids = [], replay_started = False, replay_harness_ended = False,
     replay_finalization_seen = False, replay_terminal_type = None\<rparr>"

text \<open>The identity of an attempt is taken from its first event and then compared.\<close>

definition replay_identity :: "replay \<Rightarrow> pydict \<Rightarrow> (string, replay) result" where
  "replay_identity r n = (let h = ev_harness n in
     case replay_attempt_id r of
       None \<Rightarrow> Inr (r\<lparr>replay_attempt_id := Some (ev_attempt n), replay_task_id := ev_task n,
                replay_harness_key := ev_str h ''key'', replay_adapter_version := ev_str h ''adapter_version'',
                replay_cli_version := ev_str h ''cli_version'', replay_control_transport := dict_get h ''control_transport'',
                replay_model_protocols := dict_get h ''model_protocols''\<rparr>)
     | Some a \<Rightarrow>
         bind_result (require (ev_attempt n = a \<and> ev_task n = replay_task_id r
           \<and> ev_str h ''key'' = replay_harness_key r \<and> ev_str h ''adapter_version'' = replay_adapter_version r
           \<and> ev_str h ''cli_version'' = replay_cli_version r
           \<and> py_eq (dict_get h ''control_transport'') (replay_control_transport r)
           \<and> py_eq (dict_get h ''model_protocols'') (replay_model_protocols r)) protocol_error) (\<lambda>_. Inr r))"

definition replay_start :: "replay \<Rightarrow> pydict \<Rightarrow> (string, replay) result" where
  "replay_start r n =
     (if ev_type n = ''run.started'' then
        if replay_started r then Inl protocol_error
        else if ev_seq n \<noteq> FIRST_SEQUENCE then Inl protocol_error
        else Inr (r\<lparr>replay_started := True\<rparr>)
      else if \<not> replay_started r then Inl ''missing_init'' else Inr r)"

definition replay_harness_end :: "replay \<Rightarrow> pydict \<Rightarrow> (string, replay) result" where
  "replay_harness_end r n =
     (if ev_type n \<in> set HARNESS_TERMINAL_TYPES then
        if replay_harness_ended r then Inl protocol_error else Inr (r\<lparr>replay_harness_ended := True\<rparr>)
      else Inr r)"

definition replay_finalization :: "replay \<Rightarrow> pydict \<Rightarrow> (string, replay) result" where
  "replay_finalization r n =
     (if ev_type n = ''worker.finalization'' then
        if \<not> replay_harness_ended r then Inl protocol_error
        else if replay_finalization_seen r then Inl protocol_error
        else Inr (r\<lparr>replay_finalization_seen := True\<rparr>)
      else Inr r)"

definition replay_terminal :: "replay \<Rightarrow> pydict \<Rightarrow> (string, replay) result" where
  "replay_terminal r n =
     (if ev_type n \<in> set TASK_TERMINAL_TYPES then
        if \<not> replay_harness_ended r then Inl protocol_error
        else if \<not> replay_finalization_seen r then Inl protocol_error
        else Inr (r\<lparr>replay_terminal_type := Some (ev_type n)\<rparr>)
      else Inr r)"

text \<open>The part of \<^verbatim>\<open>ingest\<close> after the validation of the event. A replay whose ingest raised is not used again.\<close>

definition replay_step :: "replay \<Rightarrow> pydict \<Rightarrow> (string, replay) result" where
  "replay_step r n =
     bind_result (require (ev_id n \<notin> set (replay_seen_event_ids r)) ''duplicate_event'') (\<lambda>_.
     bind_result (require (replay_terminal_type r = None) ''after_terminal'') (\<lambda>_.
     bind_result (replay_identity r n) (\<lambda>r1.
     bind_result (require (ev_seq n = replay_last_seq r1 + 1) ''sequence_gap'') (\<lambda>_.
     bind_result (require (\<not> (replay_finalization_seen r1 \<and> ev_type n \<notin> set TASK_TERMINAL_TYPES)) ''after_finalization'') (\<lambda>_.
     bind_result (replay_start r1 n) (\<lambda>r2.
     bind_result (replay_harness_end r2 n) (\<lambda>r3.
     bind_result (require (\<not> (startswith (ev_type n) ''delivery.'' \<and> \<not> replay_harness_ended r3)) protocol_error) (\<lambda>_.
     bind_result (replay_finalization r3 n) (\<lambda>r4.
     bind_result (replay_terminal r4 n) (\<lambda>r5.
     Inr (r5\<lparr>replay_last_seq := ev_seq n, replay_seen_event_ids := ev_id n # replay_seen_event_ids r5\<rparr>)))))))))))"

definition replay_ingest ::
  "(string \<Rightarrow> timestamp option) \<Rightarrow> (pyval \<Rightarrow> string) \<Rightarrow> replay \<Rightarrow> pydict \<Rightarrow> (string, pydict \<times> replay) result" where
  "replay_ingest parse_time rp r e =
     bind_result (validate_event_by_schema parse_time rp e) (\<lambda>n.
     bind_result (replay_step r n) (\<lambda>r'. Inr (n, r')))"

definition replay_finish :: "replay \<Rightarrow> (string, string) result" where
  "replay_finish r =
     bind_result (require (replay_started r) ''missing_init'') (\<lambda>_.
     bind_result (require (replay_harness_ended r) ''missing_harness_terminal'') (\<lambda>_.
     case replay_terminal_type r of None \<Rightarrow> Inl ''missing_task_terminal'' | Some ty \<Rightarrow> Inr ty))"

fun replay_all ::
  "(string \<Rightarrow> timestamp option) \<Rightarrow> (pyval \<Rightarrow> string) \<Rightarrow> replay \<Rightarrow> pydict list \<Rightarrow> (string, replay) result" where
  "replay_all parse_time rp r [] = Inr r"
| "replay_all parse_time rp r (e # es) =
     bind_result (replay_ingest parse_time rp r e) (\<lambda>(n, r'). replay_all parse_time rp r' es)"

definition replay_events :: "(string \<Rightarrow> timestamp option) \<Rightarrow> (pyval \<Rightarrow> string) \<Rightarrow> pydict list \<Rightarrow> (string, replay) result" where
  "replay_events parse_time rp es =
     bind_result (replay_all parse_time rp new_replay es) (\<lambda>r. bind_result (replay_finish r) (\<lambda>_. Inr r))"


section \<open>Receipts and attempts\<close>

record event_receipt =
  receipt_attempt_id :: string
  receipt_seq :: int
  receipt_event_id :: string
  receipt_event_type :: string
  receipt_event_digest :: string
  receipt_event :: pydict

definition create_task_attempt ::
  "row_id \<Rightarrow> string \<Rightarrow> string \<Rightarrow> string option \<Rightarrow> string \<Rightarrow> string \<Rightarrow> control_state \<Rightarrow> bool \<Rightarrow> database
   \<Rightarrow> (string, harness_attempt \<times> database) result" where
  "create_task_attempt t harness_key adapter_version cli_version new_attempt_id event_schema control_state control_supported d =
     (case load_current_attempt d t of
        Some a \<Rightarrow> if attempt_harness_key a \<noteq> harness_key \<or> attempt_adapter_version a \<noteq> adapter_version
                  then Inl protocol_error else Inr (a, d)
      | None \<Rightarrow>
          let a = \<lparr>attempt_id = new_attempt_id, attempt_task_id = t, attempt_no = 1, attempt_event_schema = event_schema,
                attempt_harness_key = harness_key, attempt_adapter_version = adapter_version,
                attempt_cli_version = cli_version,
                attempt_control_state = (if control_supported then control_state else Disabled),
                attempt_awaiting_follow_up_turn = False, attempt_pending_follow_up_command_id = None,
                attempt_pending_follow_up_native_id = None, attempt_force_close_requested = False,
                attempt_next_command_sequence = 1, attempt_dispatch_owner = None, attempt_dispatch_expires_at = None,
                attempt_last_seq = 0, attempt_terminal_event_id = None, attempt_terminal_event_type = None,
                attempt_terminal_at = None\<rparr>
          in bind_result (require (get_attempt d new_attempt_id = None) ''IntegrityError'') (\<lambda>_.
             Inr (a, d\<lparr>attempts := attempts d @ [a]\<rparr>)))"

definition attempt_receipts :: "event_receipt list \<Rightarrow> string \<Rightarrow> event_receipt list" where
  "attempt_receipts rs a = filter (\<lambda>r. receipt_attempt_id r = a) rs"

definition get_receipt :: "event_receipt list \<Rightarrow> string \<Rightarrow> int \<Rightarrow> event_receipt option" where
  "get_receipt rs a k = row_by (\<lambda>r. (receipt_attempt_id r, receipt_seq r)) (a, k) rs"

definition load_replay ::
  "(string \<Rightarrow> timestamp option) \<Rightarrow> (pyval \<Rightarrow> string) \<Rightarrow> event_receipt list \<Rightarrow> string \<Rightarrow> (string, replay) result" where
  "load_replay parse_time rp rs a =
     replay_all parse_time rp new_replay (map receipt_event (sort_key receipt_seq (attempt_receipts rs a)))"

definition existing_event_types :: "event_receipt list \<Rightarrow> string \<Rightarrow> string list \<Rightarrow> string list" where
  "existing_event_types rs a types = filter (\<lambda>ty. ty \<in> set types) (map receipt_event_type (attempt_receipts rs a))"

definition first_event_harness_metadata :: "event_receipt list \<Rightarrow> string \<Rightarrow> (pyval \<times> pyval) option" where
  "first_event_harness_metadata rs a = (case get_receipt rs a 1 of
     None \<Rightarrow> None
   | Some r \<Rightarrow> (case dict_get (receipt_event r) ''harness'' of
       PDict h \<Rightarrow> Some (dict_get h ''control_transport'', dict_get h ''model_protocols'')
     | _ \<Rightarrow> None))"

definition event_ids_for_attempt :: "event_receipt list \<Rightarrow> string \<Rightarrow> string list" where
  "event_ids_for_attempt rs a = map receipt_event_id (attempt_receipts rs a)"

definition last_event_type :: "event_receipt list \<Rightarrow> harness_attempt \<Rightarrow> string option" where
  "last_event_type rs a =
     (if attempt_last_seq a \<le> 0 then None
      else map_option receipt_event_type (get_receipt rs (attempt_id a) (attempt_last_seq a)))"


section \<open>Incremental ingest\<close>

record attempt_cache =
  cache_event_ids :: "string list option"
  cache_finalization_seen :: "bool option"
  cache_harness_metadata :: "(pyval \<times> pyval) option"

definition empty_cache :: attempt_cache where
  "empty_cache = \<lparr>cache_event_ids = None, cache_finalization_seen = None, cache_harness_metadata = None\<rparr>"

text \<open>The tests on the first event and at the lifecycle boundaries.\<close>

definition lifecycle_order :: "event_receipt list \<Rightarrow> harness_attempt \<Rightarrow> string \<Rightarrow> (string, unit) result" where
  "lifecycle_order rs a ty =
     bind_result (if attempt_last_seq a = 0 then require (ty = ''run.started'') ''missing_init''
                  else require (ty \<noteq> ''run.started'') protocol_error) (\<lambda>_.
     let ended = existing_event_types rs (attempt_id a) HARNESS_TERMINAL_TYPES;
         boundary = existing_event_types rs (attempt_id a) (HARNESS_TERMINAL_TYPES @ [''worker.finalization'']);
         ended_boundary = filter (\<lambda>x. x \<in> set HARNESS_TERMINAL_TYPES) boundary
     in if ty \<in> set HARNESS_TERMINAL_TYPES then require (ended = []) protocol_error
        else if startswith ty ''delivery.'' then require (ended \<noteq> []) protocol_error
        else if ty = ''worker.finalization'' then
          bind_result (require (ended_boundary \<noteq> []) protocol_error) (\<lambda>_.
          require (''worker.finalization'' \<notin> set boundary) protocol_error)
        else if ty \<in> set TASK_TERMINAL_TYPES then
          bind_result (require (ended_boundary \<noteq> []) protocol_error) (\<lambda>_.
          require (''worker.finalization'' \<in> set boundary) protocol_error)
        else Inr ())"

definition validate_incremental_event_order ::
  "attempt_cache \<Rightarrow> event_receipt list \<Rightarrow> harness_attempt \<Rightarrow> pydict \<Rightarrow> (string, unit) result \<times> attempt_cache" where
  "validate_incremental_event_order c rs a n =
     (if attempt_terminal_event_type a \<noteq> None then (Inl ''after_terminal'', c)
      else if ev_seq n \<noteq> attempt_last_seq a + 1 then (Inl ''sequence_gap'', c)
      else
        let fin = (case cache_finalization_seen c of
                     Some b \<Rightarrow> b
                   | None \<Rightarrow> last_event_type rs a = Some ''worker.finalization'');
            c1 = c\<lparr>cache_finalization_seen := Some fin\<rparr>
        in if fin \<and> ev_type n \<notin> set TASK_TERMINAL_TYPES then (Inl ''after_finalization'', c1)
           else if ev_seq n > 1 then
             let m = (case cache_harness_metadata c1 of
                        Some m \<Rightarrow> Some m
                      | None \<Rightarrow> first_event_harness_metadata rs (attempt_id a));
                 c2 = c1\<lparr>cache_harness_metadata := m\<rparr>
             in (case m of
                   None \<Rightarrow> (Inl ''missing_init'', c2)
                 | Some (control_transport, model_protocols) \<Rightarrow>
                     if \<not> py_eq (dict_get (ev_harness n) ''control_transport'') control_transport then (Inl protocol_error, c2)
                     else if \<not> py_eq (dict_get (ev_harness n) ''model_protocols'') model_protocols then (Inl protocol_error, c2)
                     else (lifecycle_order rs a (ev_type n), c2))
           else (lifecycle_order rs a (ev_type n), c1))"

text \<open>The frozen identity of the attempt; an attempt without a CLI version takes that of the event.\<close>

definition match_frozen_attempt :: "harness_attempt \<Rightarrow> pydict \<Rightarrow> (string, harness_attempt) result" where
  "match_frozen_attempt a n = (let h = ev_harness n in
     bind_result (require (attempt_task_id a = ev_task n) protocol_error) (\<lambda>_.
     bind_result (require (attempt_harness_key a = ev_str h ''key'') protocol_error) (\<lambda>_.
     bind_result (require (attempt_adapter_version a = ev_str h ''adapter_version'') protocol_error) (\<lambda>_.
     bind_result (case attempt_cli_version a of
                    None \<Rightarrow> Inr (a\<lparr>attempt_cli_version := Some (ev_str h ''cli_version'')\<rparr>)
                  | Some v \<Rightarrow> bind_result (require (v = ev_str h ''cli_version'') protocol_error) (\<lambda>_. Inr a)) (\<lambda>a1.
     bind_result (require (attempt_event_schema a = ev_str n ''schema'') protocol_error) (\<lambda>_. Inr a1))))))"

definition new_receipt :: "string \<Rightarrow> pydict \<Rightarrow> event_receipt" where
  "new_receipt digest n = \<lparr>receipt_attempt_id = ev_attempt n, receipt_seq = ev_seq n, receipt_event_id = ev_id n,
     receipt_event_type = ev_type n, receipt_event_digest = digest, receipt_event = n\<rparr>"

text \<open>The row after an accepted event, with the flush of the receipt, whose event id is unique in the table.\<close>

definition record_event ::
  "timestamp \<Rightarrow> string \<Rightarrow> harness_attempt \<Rightarrow> pydict \<Rightarrow> event_receipt list
   \<Rightarrow> (string, harness_attempt \<times> event_receipt list) result" where
  "record_event now digest a n rs =
     bind_result (if ev_type n \<in> set TASK_TERMINAL_TYPES then
                    bind_result (require (attempt_terminal_event_id a = None) protocol_error) (\<lambda>_.
                    Inr (a\<lparr>attempt_last_seq := ev_seq n, attempt_terminal_event_id := Some (ev_id n),
                           attempt_terminal_event_type := Some (ev_type n), attempt_terminal_at := Some now\<rparr>))
                  else Inr (a\<lparr>attempt_last_seq := ev_seq n\<rparr>)) (\<lambda>a'.
     bind_result (require (ev_id n \<notin> set (map receipt_event_id rs)) ''IntegrityError'') (\<lambda>_.
     Inr (a', rs @ [new_receipt digest n])))"

record ingest_result =
  ingest_event :: pydict
  ingest_attempt :: harness_attempt
  ingest_duplicate :: bool

definition ingest_normalized ::
  "(pyval \<Rightarrow> string) \<Rightarrow> timestamp \<Rightarrow> attempt_cache \<Rightarrow> database \<Rightarrow> event_receipt list \<Rightarrow> pydict
   \<Rightarrow> (string, ingest_result \<times> database \<times> event_receipt list) result \<times> attempt_cache" where
  "ingest_normalized digest_of now c d rs n =
     (case get_attempt d (ev_attempt n) of
        None \<Rightarrow> (Inl protocol_error, c)
      | Some a0 \<Rightarrow> (case match_frozen_attempt a0 n of
          Inl e \<Rightarrow> (Inl e, c)
        | Inr a \<Rightarrow>
            let digest = digest_of (PDict n); put = (\<lambda>row. put_attempt (attempt_id a) (\<lambda>_. row) d)
            in (case get_receipt rs (attempt_id a) (ev_seq n) of
                  Some r \<Rightarrow>
                    if receipt_event_id r \<noteq> ev_id n \<or> receipt_event_digest r \<noteq> digest then (Inl ''duplicate_conflict'', c)
                    else (Inr (\<lparr>ingest_event = n, ingest_attempt = a, ingest_duplicate = True\<rparr>, put a, rs), c)
                | None \<Rightarrow>
                    let ids = (case cache_event_ids c of Some xs \<Rightarrow> xs | None \<Rightarrow> event_ids_for_attempt rs (attempt_id a));
                        c1 = c\<lparr>cache_event_ids := Some ids\<rparr>
                    in if ev_id n \<in> set ids then (Inl ''duplicate_event'', c1)
                       else (case validate_incremental_event_order c1 rs a n of
                           (Inl e, c2) \<Rightarrow> (Inl e, c2)
                         | (Inr _, c2) \<Rightarrow> (case record_event now digest a n rs of
                             Inl e \<Rightarrow> (Inl e, c2)
                           | Inr (a', rs') \<Rightarrow>
                               (Inr (\<lparr>ingest_event = n, ingest_attempt = a', ingest_duplicate = False\<rparr>, put a', rs'),
                                c2\<lparr>cache_event_ids := Some (ev_id n # ids),
                                   cache_finalization_seen := (if ev_type n = ''worker.finalization'' then Some True
                                                               else cache_finalization_seen c2)\<rparr>))))))"

definition ingest_canonical_event ::
  "(string \<Rightarrow> timestamp option) \<Rightarrow> (pyval \<Rightarrow> string) \<Rightarrow> (string \<Rightarrow> string) \<Rightarrow> (rat \<Rightarrow> string) \<Rightarrow> timestamp \<Rightarrow> attempt_cache
   \<Rightarrow> database \<Rightarrow> event_receipt list \<Rightarrow> pydict
   \<Rightarrow> (string, ingest_result \<times> database \<times> event_receipt list) result \<times> attempt_cache" where
  "ingest_canonical_event parse_time rp sha256 fr now c d rs e =
     (case validate_event_by_schema parse_time rp e of
        Inl err \<Rightarrow> (Inl err, c)
      | Inr n \<Rightarrow> ingest_normalized (content_digest sha256 fr) now c d rs n)"

definition assert_attempt_complete ::
  "(string \<Rightarrow> timestamp option) \<Rightarrow> (pyval \<Rightarrow> string) \<Rightarrow> database \<Rightarrow> event_receipt list \<Rightarrow> string
   \<Rightarrow> (string, harness_attempt) result" where
  "assert_attempt_complete parse_time rp d rs k =
     (case get_attempt d k of
        None \<Rightarrow> Inl protocol_error
      | Some a \<Rightarrow>
          bind_result (load_replay parse_time rp rs k) (\<lambda>r.
          bind_result (replay_finish r) (\<lambda>terminal.
          bind_result (require (attempt_terminal_event_type a = Some terminal) protocol_error) (\<lambda>_. Inr a))))"


section \<open>One step of the replay\<close>

text \<open>The tests of a replay step on the type of the event, and the state it leaves.\<close>

definition step_allowed :: "replay \<Rightarrow> pydict \<Rightarrow> bool" where
  "step_allowed r n \<longleftrightarrow>
     ev_id n \<notin> set (replay_seen_event_ids r) \<and> replay_terminal_type r = None
     \<and> (\<exists>r1. replay_identity r n = Inr r1) \<and> ev_seq n = replay_last_seq r + 1
     \<and> (replay_finalization_seen r \<longrightarrow> ev_type n \<in> set TASK_TERMINAL_TYPES)
     \<and> (ev_type n = ''run.started'' \<longrightarrow> \<not> replay_started r \<and> ev_seq n = FIRST_SEQUENCE)
     \<and> (ev_type n \<noteq> ''run.started'' \<longrightarrow> replay_started r)
     \<and> (ev_type n \<in> set HARNESS_TERMINAL_TYPES \<longrightarrow> \<not> replay_harness_ended r)
     \<and> (startswith (ev_type n) ''delivery.'' \<longrightarrow> replay_harness_ended r)
     \<and> (ev_type n = ''worker.finalization'' \<longrightarrow> replay_harness_ended r \<and> \<not> replay_finalization_seen r)
     \<and> (ev_type n \<in> set TASK_TERMINAL_TYPES \<longrightarrow> replay_harness_ended r \<and> replay_finalization_seen r)"

definition step_result :: "replay \<Rightarrow> pydict \<Rightarrow> replay" where
  "step_result r n = (case replay_attempt_id r of
       None \<Rightarrow> r\<lparr>replay_attempt_id := Some (ev_attempt n), replay_task_id := ev_task n,
          replay_harness_key := ev_str (ev_harness n) ''key'', replay_adapter_version := ev_str (ev_harness n) ''adapter_version'',
          replay_cli_version := ev_str (ev_harness n) ''cli_version'',
          replay_control_transport := dict_get (ev_harness n) ''control_transport'',
          replay_model_protocols := dict_get (ev_harness n) ''model_protocols''\<rparr>
     | Some _ \<Rightarrow> r)
     \<lparr>replay_started := replay_started r \<or> ev_type n = ''run.started'',
      replay_harness_ended := replay_harness_ended r \<or> ev_type n \<in> set HARNESS_TERMINAL_TYPES,
      replay_finalization_seen := replay_finalization_seen r \<or> ev_type n = ''worker.finalization'',
      replay_terminal_type := (if ev_type n \<in> set TASK_TERMINAL_TYPES then Some (ev_type n) else replay_terminal_type r),
      replay_last_seq := ev_seq n, replay_seen_event_ids := ev_id n # replay_seen_event_ids r\<rparr>"

lemma lifecycle_types_disjoint:
  "ty \<in> set HARNESS_TERMINAL_TYPES \<Longrightarrow> \<not> startswith ty ''delivery.''"
  "ty \<in> set HARNESS_TERMINAL_TYPES \<Longrightarrow> ty \<noteq> ''worker.finalization''"
  "ty \<in> set HARNESS_TERMINAL_TYPES \<Longrightarrow> ty \<notin> set TASK_TERMINAL_TYPES"
  "ty \<in> set HARNESS_TERMINAL_TYPES \<Longrightarrow> ty \<noteq> ''run.started''"
  "ty \<in> set TASK_TERMINAL_TYPES \<Longrightarrow> \<not> startswith ty ''delivery.''"
  "ty \<in> set TASK_TERMINAL_TYPES \<Longrightarrow> ty \<noteq> ''worker.finalization''"
  "ty \<in> set TASK_TERMINAL_TYPES \<Longrightarrow> ty \<noteq> ''run.started''"
  "\<not> startswith ''worker.finalization'' ''delivery.''" "\<not> startswith ''run.started'' ''delivery.''"
  "''worker.finalization'' \<noteq> ''run.started''"
  by (auto simp: HARNESS_TERMINAL_TYPES_def TASK_TERMINAL_TYPES_def startswith_def)

lemma replay_identity_result:
  assumes "replay_identity r n = Inr r1"
  shows "r1 = (case replay_attempt_id r of
       None \<Rightarrow> r\<lparr>replay_attempt_id := Some (ev_attempt n), replay_task_id := ev_task n,
          replay_harness_key := ev_str (ev_harness n) ''key'', replay_adapter_version := ev_str (ev_harness n) ''adapter_version'',
          replay_cli_version := ev_str (ev_harness n) ''cli_version'',
          replay_control_transport := dict_get (ev_harness n) ''control_transport'',
          replay_model_protocols := dict_get (ev_harness n) ''model_protocols''\<rparr>
     | Some _ \<Rightarrow> r)"
  using assms by (auto simp: replay_identity_def Let_def bind_result_eq_Inr split: option.splits)

lemma replay_identity_keeps:
  assumes "replay_identity r n = Inr r1"
  shows "replay_last_seq r1 = replay_last_seq r" "replay_seen_event_ids r1 = replay_seen_event_ids r"
    "replay_started r1 = replay_started r" "replay_harness_ended r1 = replay_harness_ended r"
    "replay_finalization_seen r1 = replay_finalization_seen r" "replay_terminal_type r1 = replay_terminal_type r"
  using replay_identity_result [OF assms] by (auto split: option.splits)

lemma replay_step_iff: "replay_step r n = Inr r' \<longleftrightarrow> step_allowed r n \<and> r' = step_result r n"
proof (cases "replay_identity r n")
  case (Inl e)
  then show ?thesis by (simp add: replay_step_def step_allowed_def bind_result_eq_Inr)
next
  case (Inr r1)
  note keeps = replay_identity_keeps [OF Inr]
  have start: "replay_start r1 n = Inr r2 \<longleftrightarrow>
      (ev_type n = ''run.started'' \<longrightarrow> \<not> replay_started r1 \<and> ev_seq n = FIRST_SEQUENCE)
      \<and> (ev_type n \<noteq> ''run.started'' \<longrightarrow> replay_started r1)
      \<and> r2 = r1\<lparr>replay_started := replay_started r1 \<or> ev_type n = ''run.started''\<rparr>" for r1 r2
    unfolding replay_start_def by (cases r1) auto
  have ended: "replay_harness_end r2 n = Inr r3 \<longleftrightarrow>
      (ev_type n \<in> set HARNESS_TERMINAL_TYPES \<longrightarrow> \<not> replay_harness_ended r2)
      \<and> r3 = r2\<lparr>replay_harness_ended := replay_harness_ended r2 \<or> ev_type n \<in> set HARNESS_TERMINAL_TYPES\<rparr>" for r2 r3
    unfolding replay_harness_end_def by (cases r2) auto
  have fin: "replay_finalization r3 n = Inr r4 \<longleftrightarrow>
      (ev_type n = ''worker.finalization'' \<longrightarrow> replay_harness_ended r3 \<and> \<not> replay_finalization_seen r3)
      \<and> r4 = r3\<lparr>replay_finalization_seen := replay_finalization_seen r3 \<or> ev_type n = ''worker.finalization''\<rparr>" for r3 r4
    unfolding replay_finalization_def by (cases r3) auto
  have term_: "replay_terminal r4 n = Inr r5 \<longleftrightarrow>
      (ev_type n \<in> set TASK_TERMINAL_TYPES \<longrightarrow> replay_harness_ended r4 \<and> replay_finalization_seen r4)
      \<and> r5 = r4\<lparr>replay_terminal_type := if ev_type n \<in> set TASK_TERMINAL_TYPES then Some (ev_type n) else replay_terminal_type r4\<rparr>" for r4 r5
    unfolding replay_terminal_def by (cases r4) auto
  have one: "replay_step r n = Inr r' \<longleftrightarrow> ev_id n \<notin> set (replay_seen_event_ids r) \<and> replay_terminal_type r = None
      \<and> ev_seq n = replay_last_seq r1 + 1
      \<and> \<not> (replay_finalization_seen r1 \<and> ev_type n \<notin> set TASK_TERMINAL_TYPES)
      \<and> (\<exists>r2 r3 r4 r5. replay_start r1 n = Inr r2 \<and> replay_harness_end r2 n = Inr r3
           \<and> \<not> (startswith (ev_type n) ''delivery.'' \<and> \<not> replay_harness_ended r3)
           \<and> replay_finalization r3 n = Inr r4 \<and> replay_terminal r4 n = Inr r5
           \<and> r' = r5\<lparr>replay_last_seq := ev_seq n, replay_seen_event_ids := ev_id n # replay_seen_event_ids r5\<rparr>)"
    unfolding replay_step_def bind_result_eq_Inr require_eq_Inr Inr by (simp add: eq_commute)
  have res: "step_result r n = r1\<lparr>replay_started := replay_started r \<or> ev_type n = ''run.started'',
      replay_harness_ended := replay_harness_ended r \<or> ev_type n \<in> set HARNESS_TERMINAL_TYPES,
      replay_finalization_seen := replay_finalization_seen r \<or> ev_type n = ''worker.finalization'',
      replay_terminal_type := (if ev_type n \<in> set TASK_TERMINAL_TYPES then Some (ev_type n) else replay_terminal_type r),
      replay_last_seq := ev_seq n, replay_seen_event_ids := ev_id n # replay_seen_event_ids r\<rparr>"
    unfolding step_result_def replay_identity_result [OF Inr] ..
  have two: "step_allowed r n \<longleftrightarrow> ev_id n \<notin> set (replay_seen_event_ids r) \<and> replay_terminal_type r = None
     \<and> ev_seq n = replay_last_seq r + 1
     \<and> (replay_finalization_seen r \<longrightarrow> ev_type n \<in> set TASK_TERMINAL_TYPES)
     \<and> (ev_type n = ''run.started'' \<longrightarrow> \<not> replay_started r \<and> ev_seq n = FIRST_SEQUENCE)
     \<and> (ev_type n \<noteq> ''run.started'' \<longrightarrow> replay_started r)
     \<and> (ev_type n \<in> set HARNESS_TERMINAL_TYPES \<longrightarrow> \<not> replay_harness_ended r)
     \<and> (startswith (ev_type n) ''delivery.'' \<longrightarrow> replay_harness_ended r)
     \<and> (ev_type n = ''worker.finalization'' \<longrightarrow> replay_harness_ended r \<and> \<not> replay_finalization_seen r)
     \<and> (ev_type n \<in> set TASK_TERMINAL_TYPES \<longrightarrow> replay_harness_ended r \<and> replay_finalization_seen r)"
    unfolding step_allowed_def Inr by blast
  define ht tt fi st de where b: "ht = (ev_type n \<in> set HARNESS_TERMINAL_TYPES)" "tt = (ev_type n \<in> set TASK_TERMINAL_TYPES)"
    "fi = (ev_type n = ''worker.finalization'')" "st = (ev_type n = ''run.started'')" "de = startswith (ev_type n) ''delivery.''"
  have dis: "ht \<Longrightarrow> \<not> de \<and> \<not> fi \<and> \<not> tt \<and> \<not> st" "tt \<Longrightarrow> \<not> de \<and> \<not> fi \<and> \<not> st" "fi \<Longrightarrow> \<not> de \<and> \<not> st" "st \<Longrightarrow> \<not> de"
    unfolding b using lifecycle_types_disjoint by metis+
  show ?thesis
    unfolding one two res start ended fin term_ b [symmetric]
    using dis by (auto simp: keeps)
qed


section \<open>What a replayed sequence of events is\<close>

fun replay_steps :: "replay \<Rightarrow> pydict list \<Rightarrow> (string, replay) result" where
  "replay_steps r [] = Inr r"
| "replay_steps r (n # ns) = bind_result (replay_step r n) (\<lambda>r'. replay_steps r' ns)"

lemma replay_steps_snoc:
  "replay_steps r (ns @ [n]) = bind_result (replay_steps r ns) (\<lambda>r'. replay_step r' n)"
  by (induction ns arbitrary: r) (auto simp: bind_result_def split: sum.splits)

lemma replay_all_validated:
  assumes "list_all (\<lambda>n. validate_event_by_schema parse_time rp n = Inr n) ns"
  shows "replay_all parse_time rp r ns = replay_steps r ns"
  using assms by (induction ns arbitrary: r) (auto simp: replay_ingest_def bind_result_def split: sum.splits)

definition replay_facts :: "pydict list \<Rightarrow> replay \<Rightarrow> bool" where
  "replay_facts ns r \<longleftrightarrow>
     replay_last_seq r = int (length ns) \<and> set (replay_seen_event_ids r) = ev_id ` set ns
     \<and> (replay_started r \<longleftrightarrow> ns \<noteq> [])
     \<and> (replay_harness_ended r \<longleftrightarrow> (\<exists>n\<in>set ns. ev_type n \<in> set HARNESS_TERMINAL_TYPES))
     \<and> (replay_finalization_seen r \<longleftrightarrow> (\<exists>n\<in>set ns. ev_type n = ''worker.finalization''))
     \<and> (replay_finalization_seen r \<longrightarrow> replay_terminal_type r = None \<longrightarrow> ns \<noteq> [] \<and> ev_type (last ns) = ''worker.finalization'')
     \<and> (replay_terminal_type r \<noteq> None \<longrightarrow> replay_harness_ended r \<and> replay_finalization_seen r)
     \<and> (ns = [] \<longrightarrow> replay_attempt_id r = None)
     \<and> (ns \<noteq> [] \<longrightarrow> replay_attempt_id r = Some (ev_attempt (hd ns)) \<and> replay_task_id r = ev_task (hd ns)
          \<and> replay_harness_key r = ev_str (ev_harness (hd ns)) ''key''
          \<and> replay_adapter_version r = ev_str (ev_harness (hd ns)) ''adapter_version''
          \<and> replay_cli_version r = ev_str (ev_harness (hd ns)) ''cli_version''
          \<and> replay_control_transport r = dict_get (ev_harness (hd ns)) ''control_transport''
          \<and> replay_model_protocols r = dict_get (ev_harness (hd ns)) ''model_protocols'')
     \<and> (\<forall>i<length ns. ev_seq (ns ! i) = int i + 1)"

lemma replay_facts_new: "replay_facts [] new_replay"
  by (simp add: replay_facts_def new_replay_def)

lemma replay_facts_step:
  assumes f: "replay_facts ns r" and s: "step_allowed r n"
  shows "replay_facts (ns @ [n]) (step_result r n)"
proof -
  have id_none: "replay_attempt_id r = None \<longleftrightarrow> ns = []"
    using f by (auto simp: replay_facts_def)
  have seq: "ev_seq n = int (length ns) + 1" and st: "ns = [] \<longleftrightarrow> ev_type n = ''run.started''"
    and tt: "ev_type n \<in> set TASK_TERMINAL_TYPES \<longrightarrow> replay_harness_ended r \<and> replay_finalization_seen r"
    and fin: "replay_finalization_seen r \<longrightarrow> ev_type n \<in> set TASK_TERMINAL_TYPES"
    and t0: "replay_terminal_type r = None"
    using f s by (auto simp: replay_facts_def step_allowed_def FIRST_SEQUENCE_def)
  have parts: "replay_started (step_result r n) \<longleftrightarrow> replay_started r \<or> ev_type n = ''run.started''"
    "replay_harness_ended (step_result r n) \<longleftrightarrow> replay_harness_ended r \<or> ev_type n \<in> set HARNESS_TERMINAL_TYPES"
    "replay_finalization_seen (step_result r n) \<longleftrightarrow> replay_finalization_seen r \<or> ev_type n = ''worker.finalization''"
    "replay_terminal_type (step_result r n) = (if ev_type n \<in> set TASK_TERMINAL_TYPES then Some (ev_type n) else None)"
    "replay_last_seq (step_result r n) = ev_seq n"
    "replay_seen_event_ids (step_result r n) = ev_id n # replay_seen_event_ids r"
    using t0 by (auto simp: step_result_def split: option.splits)
  have idn: "replay_attempt_id (step_result r n) = Some (ev_attempt (hd (ns @ [n])))
      \<and> replay_task_id (step_result r n) = ev_task (hd (ns @ [n]))
      \<and> replay_harness_key (step_result r n) = ev_str (ev_harness (hd (ns @ [n]))) ''key''
      \<and> replay_adapter_version (step_result r n) = ev_str (ev_harness (hd (ns @ [n]))) ''adapter_version''
      \<and> replay_cli_version (step_result r n) = ev_str (ev_harness (hd (ns @ [n]))) ''cli_version''
      \<and> replay_control_transport (step_result r n) = dict_get (ev_harness (hd (ns @ [n]))) ''control_transport''
      \<and> replay_model_protocols (step_result r n) = dict_get (ev_harness (hd (ns @ [n]))) ''model_protocols''"
    using f id_none by (cases ns) (auto simp: step_result_def replay_facts_def)
  have nth: "\<forall>i<length (ns @ [n]). ev_seq ((ns @ [n]) ! i) = int i + 1"
    using f seq by (auto simp: replay_facts_def nth_append less_Suc_eq)
  show ?thesis
    using f tt fin idn nth seq st lifecycle_types_disjoint(6) unfolding replay_facts_def parts by auto
qed

lemma replay_steps_facts:
  "replay_steps new_replay ns = Inr r \<Longrightarrow> replay_facts ns r"
proof (induction ns arbitrary: r rule: rev_induct)
  case (snoc n ns)
  then obtain r0 where "replay_steps new_replay ns = Inr r0" "replay_step r0 n = Inr r"
    by (auto simp: replay_steps_snoc bind_result_eq_Inr)
  with snoc.IH replay_facts_step show ?case by (metis replay_step_iff)
qed (simp add: replay_facts_new)

lemma replay_factsD:
  assumes "replay_facts ns r"
  shows "replay_last_seq r = int (length ns)" "set (replay_seen_event_ids r) = ev_id ` set ns"
    "replay_started r \<longleftrightarrow> ns \<noteq> []"
    "replay_finalization_seen r \<longleftrightarrow> (\<exists>n\<in>set ns. ev_type n = ''worker.finalization'')"
  using assms unfolding replay_facts_def by blast+

end
