(* ===== verification/Event_Ledger.thy ===== *)
theory Event_Ledger
  imports Event_Replay
begin

text \<open>
  The receipts that the incremental ingest keeps are a ledger: a sequence of events that the full replay accepts and
  whose summary the attempt row holds. From this invariant follow the equivalence of the ingest with the replay and
  that an event is ingested once.
\<close>

section \<open>The receipts of an attempt\<close>

definition wf_receipt :: "(pyval \<Rightarrow> string) \<Rightarrow> event_receipt \<Rightarrow> bool" where
  "wf_receipt digest_of r \<longleftrightarrow> r = new_receipt (digest_of (PDict (receipt_event r))) (receipt_event r)"

text \<open>
  The receipts of an attempt are a replayable sequence of events that match the frozen attempt, and the summary
  columns of the attempt are those of the replay.
\<close>

definition attempt_ledger ::
  "(string \<Rightarrow> timestamp option) \<Rightarrow> (pyval \<Rightarrow> string) \<Rightarrow> (pyval \<Rightarrow> string) \<Rightarrow> event_receipt list \<Rightarrow> harness_attempt \<Rightarrow> bool" where
  "attempt_ledger parse_time rp digest_of rs a \<longleftrightarrow>
     (let R = attempt_receipts rs (attempt_id a); ns = map receipt_event R in
      list_all (wf_receipt digest_of) R
      \<and> list_all (\<lambda>n. validate_event_by_schema parse_time rp n = Inr n) ns
      \<and> list_all (\<lambda>n. match_frozen_attempt a n = Inr a) ns
      \<and> (attempt_terminal_event_id a = None \<longleftrightarrow> attempt_terminal_event_type a = None)
      \<and> (case replay_steps new_replay ns of
           Inl _ \<Rightarrow> False
         | Inr r \<Rightarrow> attempt_last_seq a = replay_last_seq r \<and> attempt_terminal_event_type a = replay_terminal_type r))"

lemma attempt_ledgerE:
  assumes "attempt_ledger parse_time rp digest_of rs a"
  obtains ns r where "map receipt_event (attempt_receipts rs (attempt_id a)) = ns"
    "list_all (wf_receipt digest_of) (attempt_receipts rs (attempt_id a))"
    "list_all (\<lambda>n. validate_event_by_schema parse_time rp n = Inr n) ns"
    "list_all (\<lambda>n. match_frozen_attempt a n = Inr a) ns"
    "attempt_terminal_event_id a = None \<longleftrightarrow> attempt_terminal_event_type a = None"
    "replay_steps new_replay ns = Inr r" "replay_facts ns r"
    "attempt_last_seq a = replay_last_seq r" "attempt_terminal_event_type a = replay_terminal_type r"
  using assms replay_steps_facts unfolding attempt_ledger_def Let_def by (auto split: sum.splits)

lemma wf_receipt_columns:
  assumes "wf_receipt digest_of r"
  shows "receipt_attempt_id r = ev_attempt (receipt_event r)" "receipt_seq r = ev_seq (receipt_event r)"
    "receipt_event_id r = ev_id (receipt_event r)" "receipt_event_type r = ev_type (receipt_event r)"
    "receipt_event_digest r = digest_of (PDict (receipt_event r))"
  using assms unfolding wf_receipt_def by (metis new_receipt_def event_receipt.select_convs)+

lemma get_receipt_row: "get_receipt rs a k = row_by receipt_seq k (attempt_receipts rs a)"
  unfolding get_receipt_def attempt_receipts_def by (induction rs) auto

lemma row_by_consecutive:
  assumes "\<forall>i<length R. receipt_seq (R ! i) = int i + 1 + s"
  shows "row_by receipt_seq k R = (if s < k \<and> k \<le> s + int (length R) then Some (R ! nat (k - s - 1)) else None)"
  using assms
proof (induction R arbitrary: s)
  case (Cons x R)
  have x: "receipt_seq x = 1 + s" using Cons.prems by force
  have "\<forall>i<length R. receipt_seq (R ! i) = int i + 1 + (s + 1)" using Cons.prems by force
  from Cons.IH [OF this] x show ?case by (auto simp: nth_Cons' nat_diff_distrib' numeral_2_eq_2)
qed simp


lemma match_frozenD:
  assumes "match_frozen_attempt a0 n = Inr a"
  shows "a = a0\<lparr>attempt_cli_version := Some (ev_str (ev_harness n) ''cli_version'')\<rparr>"
    "attempt_task_id a0 = ev_task n" "attempt_harness_key a0 = ev_str (ev_harness n) ''key''"
    "attempt_adapter_version a0 = ev_str (ev_harness n) ''adapter_version''" "attempt_event_schema a0 = ev_str n ''schema''"
    "attempt_cli_version a0 \<noteq> None \<Longrightarrow> attempt_cli_version a0 = Some (ev_str (ev_harness n) ''cli_version'')"
    "match_frozen_attempt a n = Inr a"
  using assms by (cases a0, auto simp: match_frozen_attempt_def Let_def bind_result_eq_Inr split: option.splits)+

lemma match_frozen_same_identity:
  assumes "match_frozen_attempt a m = Inr a" "match_frozen_attempt a n = Inr a'"
  shows "a' = a" "ev_task m = ev_task n" "ev_str (ev_harness m) ''key'' = ev_str (ev_harness n) ''key''"
    "ev_str (ev_harness m) ''adapter_version'' = ev_str (ev_harness n) ''adapter_version''"
    "ev_str (ev_harness m) ''cli_version'' = ev_str (ev_harness n) ''cli_version''"
proof -
  note m = match_frozenD [OF assms(1)] and n = match_frozenD [OF assms(2)]
  have c: "attempt_cli_version a = Some (ev_str (ev_harness m) ''cli_version'')"
    using arg_cong [OF m(1), of attempt_cli_version] by simp
  then have c': "ev_str (ev_harness m) ''cli_version'' = ev_str (ev_harness n) ''cli_version''" using n(6) by simp
  then show "ev_str (ev_harness m) ''cli_version'' = ev_str (ev_harness n) ''cli_version''" .
  show "a' = a" by (simp only: n(1) c' [symmetric] m(1) [symmetric])
qed (simp_all flip: match_frozenD(2-4) [OF assms(1)] match_frozenD(2-4) [OF assms(2)])

text \<open>The cached attributes agree with the receipts.\<close>

definition cache_ok :: "attempt_cache \<Rightarrow> event_receipt list \<Rightarrow> string \<Rightarrow> bool" where
  "cache_ok c rs a \<longleftrightarrow>
     (case cache_event_ids c of None \<Rightarrow> True | Some ids \<Rightarrow> set ids = set (event_ids_for_attempt rs a))
     \<and> (case cache_finalization_seen c of None \<Rightarrow> True
        | Some b \<Rightarrow> b \<longleftrightarrow> ''worker.finalization'' \<in> set (map receipt_event_type (attempt_receipts rs a)))
     \<and> (case cache_harness_metadata c of None \<Rightarrow> True | Some m \<Rightarrow> first_event_harness_metadata rs a = Some m)"

lemma cache_ok_empty [simp]: "cache_ok empty_cache rs a"
  by (simp add: cache_ok_def empty_cache_def)

lemma receipts_seq:
  assumes "list_all (wf_receipt digest_of) R" "replay_facts (map receipt_event R) r"
  shows "\<forall>i<length R. receipt_seq (R ! i) = int i + 1 + 0"
  using assms by (auto simp: replay_facts_def list_all_length wf_receipt_columns(2))

lemma receipt_types:
  assumes "list_all (wf_receipt digest_of) R"
  shows "map receipt_event_type R = map ev_type (map receipt_event R)" "map receipt_event_id R = map ev_id (map receipt_event R)"
  using assms by (auto simp: list_all_iff dest: wf_receipt_columns)

lemma set_existing_event_types:
  assumes "list_all (wf_receipt digest_of) (attempt_receipts rs a)" "map receipt_event (attempt_receipts rs a) = ns"
  shows "set (existing_event_types rs a T) = ev_type ` set ns \<inter> set T"
  using receipt_types(1) [OF assms(1)] assms(2) by (auto simp: existing_event_types_def)

lemma lifecycle_order_iff:
  assumes wf: "list_all (wf_receipt digest_of) (attempt_receipts rs (attempt_id a))"
    and ns: "map receipt_event (attempt_receipts rs (attempt_id a)) = ns" and f: "replay_facts ns r"
    and last: "attempt_last_seq a = replay_last_seq r" and fin: "replay_finalization_seen r \<longrightarrow> ty \<in> set TASK_TERMINAL_TYPES"
  shows "lifecycle_order rs a ty = Inr () \<longleftrightarrow>
     (ty = ''run.started'' \<longleftrightarrow> \<not> replay_started r)
     \<and> (ty \<in> set HARNESS_TERMINAL_TYPES \<longrightarrow> \<not> replay_harness_ended r)
     \<and> (startswith ty ''delivery.'' \<longrightarrow> replay_harness_ended r)
     \<and> (ty = ''worker.finalization'' \<longrightarrow> replay_harness_ended r \<and> \<not> replay_finalization_seen r)
     \<and> (ty \<in> set TASK_TERMINAL_TYPES \<longrightarrow> replay_harness_ended r \<and> replay_finalization_seen r)"
proof -
  let ?E = "existing_event_types rs (attempt_id a) HARNESS_TERMINAL_TYPES"
  let ?B = "existing_event_types rs (attempt_id a) (HARNESS_TERMINAL_TYPES @ [''worker.finalization''])"
  note set_ex = set_existing_event_types [OF wf ns]
  have he: "replay_harness_ended r \<longleftrightarrow> (\<exists>n\<in>set ns. ev_type n \<in> set HARNESS_TERMINAL_TYPES)"
    and fs: "replay_finalization_seen r \<longleftrightarrow> (\<exists>n\<in>set ns. ev_type n = ''worker.finalization'')"
    using f unfolding replay_facts_def by blast+
  have e: "?E = [] \<longleftrightarrow> \<not> replay_harness_ended r"
    unfolding he set_empty [symmetric, of ?E] set_ex by blast
  have eb: "filter (\<lambda>x. x \<in> set HARNESS_TERMINAL_TYPES) ?B = [] \<longleftrightarrow> \<not> replay_harness_ended r"
    unfolding he filter_empty_conv set_ex by auto
  have fb: "''worker.finalization'' \<in> set ?B \<longleftrightarrow> replay_finalization_seen r"
    unfolding fs set_ex by (auto intro: rev_image_eqI)
  have s: "attempt_last_seq a = 0 \<longleftrightarrow> \<not> replay_started r" using f last by (auto simp: replay_facts_def)
  define ht tt fi st de where b: "ht = (ty \<in> set HARNESS_TERMINAL_TYPES)" "tt = (ty \<in> set TASK_TERMINAL_TYPES)"
    "fi = (ty = ''worker.finalization'')" "st = (ty = ''run.started'')" "de = startswith ty ''delivery.''"
  have dis: "ht \<Longrightarrow> \<not> de \<and> \<not> fi \<and> \<not> tt \<and> \<not> st" "tt \<Longrightarrow> \<not> de \<and> \<not> fi \<and> \<not> st" "fi \<Longrightarrow> \<not> de \<and> \<not> st" "st \<Longrightarrow> \<not> de"
    unfolding b using lifecycle_types_disjoint by metis+
  show ?thesis
    unfolding lifecycle_order_def Let_def s e eb fb b [symmetric] using dis by (auto simp: bind_result_eq_Inr)
qed


lemma validated_harness_is_dict:
  assumes "validate_event_by_schema parse_time rp e = Inr n"
  shows "dict_get n ''harness'' = PDict (ev_harness n)"
  using assms
proof (rule by_schema_cases)
  fix schema v2
  assume "validate_event_core parse_time rp schema v2 e = Inr n"
  then show ?thesis by (rule validate_event_coreD) (simp add: ev_dict_def)
qed

lemma first_metadata:
  assumes wf: "list_all (wf_receipt digest_of) (attempt_receipts rs a)"
    and ns: "map receipt_event (attempt_receipts rs a) = ns" and f: "replay_facts ns r"
    and v: "list_all (\<lambda>n. validate_event_by_schema parse_time rp n = Inr n) ns"
  shows "first_event_harness_metadata rs a =
    (if ns = [] then None else Some (replay_control_transport r, replay_model_protocols r))"
proof (cases "attempt_receipts rs a")
  case (Cons x R)
  have "row_by receipt_seq 1 (attempt_receipts rs a) = Some x"
    using row_by_consecutive [OF receipts_seq [OF wf], of r 1] f ns Cons by simp
  moreover have "dict_get (receipt_event x) ''harness'' = PDict (ev_harness (hd ns))"
    using v ns Cons validated_harness_is_dict by fastforce
  moreover have "ns \<noteq> []" using ns Cons by auto
  moreover have "replay_control_transport r = dict_get (ev_harness (hd ns)) ''control_transport''"
    "replay_model_protocols r = dict_get (ev_harness (hd ns)) ''model_protocols''"
    using f \<open>ns \<noteq> []\<close> unfolding replay_facts_def by blast+
  ultimately show ?thesis by (simp add: first_event_harness_metadata_def get_receipt_row)
next
  case Nil
  then show ?thesis using ns by (simp add: first_event_harness_metadata_def get_receipt_row)
qed

lemma last_event_type_finalization:
  assumes wf: "list_all (wf_receipt digest_of) (attempt_receipts rs (attempt_id a))"
    and ns: "map receipt_event (attempt_receipts rs (attempt_id a)) = ns" and f: "replay_facts ns r"
    and last: "attempt_last_seq a = replay_last_seq r" and "replay_terminal_type r = None"
  shows "last_event_type rs a = Some ''worker.finalization'' \<longleftrightarrow> replay_finalization_seen r"
proof (cases "attempt_receipts rs (attempt_id a)" rule: rev_cases)
  case Nil
  then show ?thesis using f last ns by (simp add: last_event_type_def replay_facts_def)
next
  case (snoc R x)
  have len: "replay_last_seq r = int (length R) + 1" using f ns snoc by (auto simp: replay_facts_def)
  have "row_by receipt_seq (int (length R) + 1) (attempt_receipts rs (attempt_id a)) = Some x"
    using row_by_consecutive [OF receipts_seq [OF wf], of r "int (length R) + 1"] f ns snoc by simp
  then have lt: "last_event_type rs a = Some (receipt_event_type x)"
    using len last by (simp add: last_event_type_def get_receipt_row)
  have ty: "receipt_event_type x = ev_type (List.last ns)"
    using wf snoc ns by (auto simp: wf_receipt_columns(4))
  have "ns \<noteq> []" using ns snoc by auto
  then show ?thesis
    using f assms(5) unfolding lt ty replay_facts_def by (auto simp: Bex_def intro: last_in_set)
qed

lemma cached_finalization:
  assumes wf: "list_all (wf_receipt digest_of) (attempt_receipts rs (attempt_id a))"
    and ns: "map receipt_event (attempt_receipts rs (attempt_id a)) = ns" and f: "replay_facts ns r"
    and last: "attempt_last_seq a = replay_last_seq r" and t: "replay_terminal_type r = None"
    and c: "cache_ok c rs (attempt_id a)"
  shows "(case cache_finalization_seen c of Some b \<Rightarrow> b | None \<Rightarrow> last_event_type rs a = Some ''worker.finalization'')
    \<longleftrightarrow> replay_finalization_seen r"
proof (cases "cache_finalization_seen c")
  case None
  show ?thesis unfolding None using last_event_type_finalization [OF wf ns f last t] by simp
next
  case (Some b)
  have "b \<longleftrightarrow> ''worker.finalization'' \<in> ev_type ` set ns"
    using c unfolding cache_ok_def Some option.case receipt_types(1) [OF wf] ns set_map by satx
  then have "b \<longleftrightarrow> (\<exists>e\<in>set ns. ev_type e = ''worker.finalization'')" by (simp only: in_image_iff)
  then show ?thesis unfolding replay_factsD(4) [OF f] using Some by simp
qed

lemma replay_identity_iff:
  assumes fr: "list_all (\<lambda>m. match_frozen_attempt a m = Inr a) ns" and n: "match_frozen_attempt a n = Inr a'"
    and at: "\<forall>m\<in>set ns. ev_attempt m = ev_attempt n" and f: "replay_facts ns r"
  shows "(\<exists>r1. replay_identity r n = Inr r1) \<longleftrightarrow> ns = []
    \<or> (py_eq (dict_get (ev_harness n) ''control_transport'') (replay_control_transport r)
       \<and> py_eq (dict_get (ev_harness n) ''model_protocols'') (replay_model_protocols r))"
proof (cases "ns = []")
  case True
  then have "replay_attempt_id r = None" using f by (simp add: replay_facts_def)
  then show ?thesis using True by (simp add: replay_identity_def Let_def)
next
  case False
  then have h: "hd ns \<in> set ns" "match_frozen_attempt a (hd ns) = Inr a" using fr by (auto simp: list_all_iff)
  note same = match_frozen_same_identity [OF h(2) n]
  have "replay_attempt_id r = Some (ev_attempt n)" "replay_task_id r = ev_task n"
    "replay_harness_key r = ev_str (ev_harness n) ''key''"
    "replay_adapter_version r = ev_str (ev_harness n) ''adapter_version''"
    "replay_cli_version r = ev_str (ev_harness n) ''cli_version''"
    using f False at h(1) same unfolding replay_facts_def by auto
  then show ?thesis using False by (simp add: replay_identity_def Let_def bind_result_eq_Inr)
qed

text \<open>The order test of the ingest accepts exactly what the replay of the receipts accepts.\<close>

lemma incremental_order_iff:
  assumes L: "attempt_ledger parse_time rp digest_of rs a0" and m: "match_frozen_attempt a0 n = Inr a"
    and at: "ev_attempt n = attempt_id a0" and c: "cache_ok c rs (attempt_id a0)"
    and new: "ev_id n \<notin> set (event_ids_for_attempt rs (attempt_id a0))"
    and r: "replay_steps new_replay (map receipt_event (attempt_receipts rs (attempt_id a0))) = Inr r"
  shows "fst (validate_incremental_event_order c rs a n) = Inr () \<longleftrightarrow> step_allowed r n"
proof -
  let ?ns = "map receipt_event (attempt_receipts rs (attempt_id a0))"
  from L obtain wf: "list_all (wf_receipt digest_of) (attempt_receipts rs (attempt_id a0))"
    and v: "list_all (\<lambda>n. validate_event_by_schema parse_time rp n = Inr n) ?ns"
    and fr: "list_all (\<lambda>n. match_frozen_attempt a0 n = Inr a0) ?ns" and f: "replay_facts ?ns r"
    and ls: "attempt_last_seq a0 = replay_last_seq r" and te: "attempt_terminal_event_type a0 = replay_terminal_type r"
    by (rule attempt_ledgerE) (use r in auto)
  note a = match_frozenD(1) [OF m]
  have a_cols: "attempt_id a = attempt_id a0" "attempt_last_seq a = replay_last_seq r"
    "attempt_terminal_event_type a = replay_terminal_type r" unfolding a using ls te by simp_all
  have at': "\<forall>e\<in>set ?ns. ev_attempt e = ev_attempt n"
    using wf at by (auto simp: list_all_iff attempt_receipts_def dest!: bspec wf_receipt_columns(1))
  have seen: "ev_id n \<notin> set (replay_seen_event_ids r)"
    using new unfolding event_ids_for_attempt_def receipt_types(2) [OF wf] replay_factsD(2) [OF f] by (simp add: image_image)
  note idn = replay_identity_iff [OF fr m at' f]
  note meta = first_metadata [OF wf refl f v]
  have len: "replay_last_seq r = int (length ?ns)" and st: "replay_started r \<longleftrightarrow> ?ns \<noteq> []"
    by (rule replay_factsD [OF f])+
  show ?thesis
  proof (cases "replay_terminal_type r = None \<and> ev_seq n = replay_last_seq r + 1")
    case False
    then show ?thesis using a_cols by (auto simp: validate_incremental_event_order_def step_allowed_def)
  next
    case True
    then have t: "replay_terminal_type r = None" and s: "ev_seq n = replay_last_seq r + 1" by auto
    have fin: "(case cache_finalization_seen c of Some b \<Rightarrow> b | None \<Rightarrow> last_event_type rs a = Some ''worker.finalization'')
        \<longleftrightarrow> replay_finalization_seen r"
      using cached_finalization [of digest_of rs a _ r c] wf f t a_cols c by simp
    have md: "(case cache_harness_metadata c of Some m \<Rightarrow> Some m | None \<Rightarrow> first_event_harness_metadata rs (attempt_id a))
        = (if ?ns = [] then None else Some (replay_control_transport r, replay_model_protocols r))"
      using c meta a_cols(1) by (auto simp: cache_ok_def split: option.splits)
    have lo: "replay_finalization_seen r \<longrightarrow> ev_type n \<in> set TASK_TERMINAL_TYPES \<Longrightarrow>
      lifecycle_order rs a (ev_type n) = Inr () \<longleftrightarrow>
     (ev_type n = ''run.started'' \<longleftrightarrow> \<not> replay_started r)
     \<and> (ev_type n \<in> set HARNESS_TERMINAL_TYPES \<longrightarrow> \<not> replay_harness_ended r)
     \<and> (startswith (ev_type n) ''delivery.'' \<longrightarrow> replay_harness_ended r)
     \<and> (ev_type n = ''worker.finalization'' \<longrightarrow> replay_harness_ended r \<and> \<not> replay_finalization_seen r)
     \<and> (ev_type n \<in> set TASK_TERMINAL_TYPES \<longrightarrow> replay_harness_ended r \<and> replay_finalization_seen r)"
      using lifecycle_order_iff [of digest_of rs a ?ns r "ev_type n"] wf f a_cols by simp
    show ?thesis
    proof (cases "?ns = []")
      case True
      then have "ev_seq n = FIRST_SEQUENCE" using s len by (simp add: FIRST_SEQUENCE_def)
      then show ?thesis
        unfolding validate_incremental_event_order_def step_allowed_def idn using seen t s lo st True a_cols len
        by (auto simp: Let_def fin FIRST_SEQUENCE_def)
    next
      case False
      then have "ev_seq n \<noteq> FIRST_SEQUENCE" "1 < ev_seq n" using s len by (auto simp: FIRST_SEQUENCE_def)
      then show ?thesis
        unfolding validate_incremental_event_order_def step_allowed_def idn using seen t s lo st False a_cols len
        by (auto simp: Let_def fin md FIRST_SEQUENCE_def)
    qed
  qed
qed


section \<open>The ingest keeps a replayable ledger\<close>

definition ledger_ok ::
  "(string \<Rightarrow> timestamp option) \<Rightarrow> (pyval \<Rightarrow> string) \<Rightarrow> (pyval \<Rightarrow> string) \<Rightarrow> database \<Rightarrow> event_receipt list \<Rightarrow> bool" where
  "ledger_ok parse_time rp digest_of d rs \<longleftrightarrow>
     distinct (map attempt_id (attempts d)) \<and> list_all (attempt_ledger parse_time rp digest_of rs) (attempts d)"

lemma ledger_okD:
  assumes "ledger_ok parse_time rp digest_of d rs" "get_attempt d k = Some a"
  shows "attempt_ledger parse_time rp digest_of rs a" "attempt_id a = k"
  using assms by (auto simp: ledger_ok_def get_attempt_def list_all_iff dest!: row_by_SomeD)

lemma attempt_receipts_snoc:
  "attempt_receipts (rs @ [new_receipt dg n]) k =
     attempt_receipts rs k @ (if ev_attempt n = k then [new_receipt dg n] else [])"
  by (simp add: attempt_receipts_def new_receipt_def)

lemma ledger_no_receipt:
  assumes L: "attempt_ledger parse_time rp digest_of rs a"
    and r: "replay_steps new_replay (map receipt_event (attempt_receipts rs (attempt_id a))) = Inr r"
    and s: "ev_seq n = replay_last_seq r + 1"
  shows "get_receipt rs (attempt_id a) (ev_seq n) = None"
  using L
proof (rule attempt_ledgerE)
  fix ns q
  assume ns: "map receipt_event (attempt_receipts rs (attempt_id a)) = ns"
    and wf: "list_all (wf_receipt digest_of) (attempt_receipts rs (attempt_id a))"
    and "replay_steps new_replay ns = Inr q" and f: "replay_facts ns q"
  then have "q = r" using r by simp
  then have "ev_seq n = int (length (attempt_receipts rs (attempt_id a))) + 1"
    using s replay_factsD(1) [OF f] ns by auto
  then show ?thesis
    unfolding get_receipt_row using row_by_consecutive [OF receipts_seq [OF wf], of q "ev_seq n"] f ns by simp
qed

lemma record_event_ok:
  assumes "attempt_terminal_event_id a = None"
  shows "record_event now dg a n rs = (if ev_id n \<in> receipt_event_id ` set rs then Inl ''IntegrityError''
    else Inr ((if ev_type n \<in> set TASK_TERMINAL_TYPES
               then a\<lparr>attempt_last_seq := ev_seq n, attempt_terminal_event_id := Some (ev_id n),
                      attempt_terminal_event_type := Some (ev_type n), attempt_terminal_at := Some now\<rparr>
               else a\<lparr>attempt_last_seq := ev_seq n\<rparr>), rs @ [new_receipt dg n]))"
  using assms by (simp add: record_event_def)

lemma match_frozen_cong:
  "attempt_task_id b = attempt_task_id a \<Longrightarrow> attempt_harness_key b = attempt_harness_key a \<Longrightarrow>
   attempt_adapter_version b = attempt_adapter_version a \<Longrightarrow> attempt_cli_version b = attempt_cli_version a \<Longrightarrow>
   attempt_event_schema b = attempt_event_schema a \<Longrightarrow> match_frozen_attempt a n = Inr a \<Longrightarrow> match_frozen_attempt b n = Inr b"
  by (cases a; cases b) (auto simp: match_frozen_attempt_def Let_def bind_result_eq_Inr split: option.splits)

text \<open>The row and the receipts after an accepted event are again a ledger, with the next state of the replay.\<close>

lemma attempt_ledger_extend:
  assumes L: "attempt_ledger parse_time rp digest_of rs a0" and m: "match_frozen_attempt a0 n = Inr a"
    and at: "ev_attempt n = attempt_id a0" and v: "validate_event_by_schema parse_time rp n = Inr n"
    and r: "replay_steps new_replay (map receipt_event (attempt_receipts rs (attempt_id a0))) = Inr r"
    and s: "step_allowed r n"
    and rec: "record_event now (digest_of (PDict n)) a n rs = Inr (a', rs')"
  shows "attempt_ledger parse_time rp digest_of rs' a'" "attempt_id a' = attempt_id a0"
    "replay_steps new_replay (map receipt_event (attempt_receipts rs' (attempt_id a'))) = Inr (step_result r n)"
    "rs' = rs @ [new_receipt (digest_of (PDict n)) n]"
proof -
  let ?ns = "map receipt_event (attempt_receipts rs (attempt_id a0))"
  from L obtain wf: "list_all (wf_receipt digest_of) (attempt_receipts rs (attempt_id a0))"
    and vs: "list_all (\<lambda>n. validate_event_by_schema parse_time rp n = Inr n) ?ns"
    and fr: "list_all (\<lambda>n. match_frozen_attempt a0 n = Inr a0) ?ns"
    and te: "attempt_terminal_event_id a0 = None \<longleftrightarrow> attempt_terminal_event_type a0 = None"
      "attempt_terminal_event_type a0 = replay_terminal_type r"
    by (rule attempt_ledgerE) (use r in auto)
  have t: "replay_terminal_type r = None" using s by (simp add: step_allowed_def)
  note a = match_frozenD(1) [OF m]
  have t0: "attempt_terminal_event_id a = None" "attempt_terminal_event_type a = None" unfolding a using te t by simp_all
  note rec' = rec [unfolded record_event_ok [OF t0(1)]]
  show rs': "rs' = rs @ [new_receipt (digest_of (PDict n)) n]" using rec' by (simp split: if_splits)
  have a': "attempt_id a' = attempt_id a0" "attempt_task_id a' = attempt_task_id a" "attempt_harness_key a' = attempt_harness_key a"
    "attempt_adapter_version a' = attempt_adapter_version a" "attempt_cli_version a' = attempt_cli_version a"
    "attempt_event_schema a' = attempt_event_schema a" "attempt_last_seq a' = ev_seq n"
    "attempt_terminal_event_type a' = (if ev_type n \<in> set TASK_TERMINAL_TYPES then Some (ev_type n) else None)"
    "attempt_terminal_event_id a' = None \<longleftrightarrow> attempt_terminal_event_type a' = None"
    using rec' t0 a by (auto split: if_splits)
  have frn: "match_frozen_attempt a' n = Inr a'" by (rule match_frozen_cong [OF a'(2-6) match_frozenD(7) [OF m]])
  have frs: "list_all (\<lambda>n. match_frozen_attempt a' n = Inr a') ?ns"
    unfolding list_all_iff
  proof
    fix e assume "e \<in> set ?ns"
    then have e: "match_frozen_attempt a0 e = Inr a0" using fr by (auto simp: list_all_iff)
    have "a = a0" by (rule match_frozen_same_identity(1) [OF e m])
    with e show "match_frozen_attempt a' e = Inr a'" using match_frozen_cong [OF a'(2-6), of e] by simp
  qed
  have R': "attempt_receipts rs' (attempt_id a') = attempt_receipts rs (attempt_id a0) @ [new_receipt (digest_of (PDict n)) n]"
    unfolding rs' a'(1) attempt_receipts_snoc using at by simp
  have step: "replay_step r n = Inr (step_result r n)" using s by (simp add: replay_step_iff)
  show steps: "replay_steps new_replay (map receipt_event (attempt_receipts rs' (attempt_id a'))) = Inr (step_result r n)"
    unfolding R' using r step by (simp add: replay_steps_snoc new_receipt_def)
  have wfn: "wf_receipt digest_of (new_receipt (digest_of (PDict n)) n)" by (simp add: wf_receipt_def new_receipt_def)
  have res: "replay_last_seq (step_result r n) = ev_seq n"
    "replay_terminal_type (step_result r n) = (if ev_type n \<in> set TASK_TERMINAL_TYPES then Some (ev_type n) else None)"
    using t by (auto simp: step_result_def split: option.splits)
  have ev: "receipt_event (new_receipt (digest_of (PDict n)) n) = n" by (simp add: new_receipt_def)
  show "attempt_ledger parse_time rp digest_of rs' a'"
    unfolding attempt_ledger_def Let_def steps unfolding R'
    using wf wfn vs v frs frn a'(7-9) res by (simp add: ev)
  show "attempt_id a' = attempt_id a0" by (rule a'(1))
qed


lemma order_keeps_cache:
  assumes L: "attempt_ledger parse_time rp digest_of rs a0" and m: "match_frozen_attempt a0 n = Inr a"
    and c: "cache_ok c rs (attempt_id a0)"
  shows "cache_ok (snd (validate_incremental_event_order c rs a n)) rs (attempt_id a0)"
    "cache_event_ids (snd (validate_incremental_event_order c rs a n)) = cache_event_ids c"
proof -
  let ?R = "attempt_receipts rs (attempt_id a0)"
  obtain r where wf: "list_all (wf_receipt digest_of) ?R" and f: "replay_facts (map receipt_event ?R) r"
    and ls: "attempt_last_seq a0 = replay_last_seq r" and te: "attempt_terminal_event_type a0 = replay_terminal_type r"
    using L by (rule attempt_ledgerE) auto
  have a: "attempt_id a = attempt_id a0" "attempt_last_seq a = replay_last_seq r"
    "attempt_terminal_event_type a = replay_terminal_type r" unfolding match_frozenD(1) [OF m] using ls te by simp_all
  have types: "''worker.finalization'' \<in> set (map receipt_event_type ?R) \<longleftrightarrow> replay_finalization_seen r"
    unfolding receipt_types(1) [OF wf] set_map replay_factsD(4) [OF f] by (simp only: in_image_iff bex_simps image_image set_map)
  have fin: "replay_terminal_type r = None \<Longrightarrow>
      (case cache_finalization_seen c of Some b \<Rightarrow> b | None \<Rightarrow> last_event_type rs a = Some ''worker.finalization'')
        \<longleftrightarrow> replay_finalization_seen r"
    using cached_finalization [of digest_of rs a _ r c] wf f a c by simp
  show "cache_event_ids (snd (validate_incremental_event_order c rs a n)) = cache_event_ids c"
    by (auto simp: validate_incremental_event_order_def Let_def split: option.split prod.split)
  show "cache_ok (snd (validate_incremental_event_order c rs a n)) rs (attempt_id a0)"
  proof (cases "attempt_terminal_event_type a = None")
    case True
    then have t: "replay_terminal_type r = None" using a by simp
    show ?thesis
      using c unfolding validate_incremental_event_order_def Let_def fin [OF t] cache_ok_def types
      by (auto simp: a(1) split: option.splits prod.splits)
  qed (use c in \<open>simp add: validate_incremental_event_order_def\<close>)
qed

lemma cache_extend:
  assumes c: "cache_ok c rs (ev_attempt n)" and "cache_event_ids c = Some ids"
  shows "cache_ok (c\<lparr>cache_event_ids := Some (ev_id n # ids),
      cache_finalization_seen := (if ev_type n = ''worker.finalization'' then Some True else cache_finalization_seen c)\<rparr>)
    (rs @ [new_receipt dg n]) (ev_attempt n)"
proof -
  have R: "attempt_receipts (rs @ [new_receipt dg n]) (ev_attempt n) = attempt_receipts rs (ev_attempt n) @ [new_receipt dg n]"
    by (simp add: attempt_receipts_snoc)
  have types: "set (map receipt_event_type (attempt_receipts (rs @ [new_receipt dg n]) (ev_attempt n)))
      = insert (ev_type n) (set (map receipt_event_type (attempt_receipts rs (ev_attempt n))))"
    unfolding R by (simp add: new_receipt_def)
  have ids': "set (event_ids_for_attempt (rs @ [new_receipt dg n]) (ev_attempt n))
      = insert (ev_id n) (set (event_ids_for_attempt rs (ev_attempt n)))"
    unfolding event_ids_for_attempt_def R by (simp add: new_receipt_def)
  have meta: "first_event_harness_metadata (rs @ [new_receipt dg n]) (ev_attempt n) = Some m"
    if "first_event_harness_metadata rs (ev_attempt n) = Some m" for m
    using that unfolding first_event_harness_metadata_def get_receipt_row R row_by_append
    by (auto split: option.splits)
  show ?thesis
    unfolding cache_ok_def types ids' using c assms(2) meta
    by (auto simp: cache_ok_def split: option.splits)
qed

lemma put_same_attempt:
  assumes "distinct (map attempt_id (attempts d))" "get_attempt d k = Some a"
  shows "put_attempt k (\<lambda>_. a) d = d"
proof -
  have "update_where (\<lambda>r. attempt_id r = k) (\<lambda>_. a) (attempts d) = attempts d"
    unfolding update_where_def
    using assms by (intro map_idI) (auto simp: get_attempt_def row_by_iff dest: distinct_keyD)
  then show ?thesis by (simp add: put_attempt_def)
qed

text \<open>The two ways in which the ingest of a validated event succeeds.\<close>

lemma ingest_cases:
  assumes L: "ledger_ok parse_time rp digest_of d rs" and c: "cache_ok c rs (ev_attempt n)"
    and v: "validate_event_by_schema parse_time rp n = Inr n"
    and ok: "ingest_normalized digest_of now c d rs n = (Inr (res, d', rs'), c')"
  obtains (duplicate) x where "d' = d" "rs' = rs" "c' = c" "ingest_duplicate res"
      "get_receipt rs (ev_attempt n) (ev_seq n) = Some x" "receipt_event_id x = ev_id n"
      "receipt_event_digest x = digest_of (PDict n)" "get_attempt d (ev_attempt n) = Some (ingest_attempt res)"
      "match_frozen_attempt (ingest_attempt res) n = Inr (ingest_attempt res)"
  | (accepted) a0 r a' where "get_attempt d (ev_attempt n) = Some a0" "\<not> ingest_duplicate res" "ingest_attempt res = a'"
      "replay_steps new_replay (map receipt_event (attempt_receipts rs (ev_attempt n))) = Inr r" "step_allowed r n"
      "attempt_id a' = ev_attempt n" "attempt_ledger parse_time rp digest_of rs' a'"
      "replay_steps new_replay (map receipt_event (attempt_receipts rs' (ev_attempt n))) = Inr (step_result r n)"
      "d' = put_attempt (ev_attempt n) (\<lambda>_. a') d" "rs' = rs @ [new_receipt (digest_of (PDict n)) n]"
      "cache_ok c' rs' (ev_attempt n)" "ev_id n \<notin> receipt_event_id ` set rs"
proof -
  obtain a0 a where a0: "get_attempt d (ev_attempt n) = Some a0" and m: "match_frozen_attempt a0 n = Inr a"
    using ok by (auto simp: ingest_normalized_def split: option.splits sum.splits)
  note La = ledger_okD [OF L a0]
  have ida: "attempt_id a = ev_attempt n" unfolding match_frozenD(1) [OF m] using La(2) by simp
  obtain ns r where ns: "map receipt_event (attempt_receipts rs (attempt_id a0)) = ns"
    and wf: "list_all (wf_receipt digest_of) (attempt_receipts rs (attempt_id a0))"
    and fr: "list_all (\<lambda>n. match_frozen_attempt a0 n = Inr a0) ns" and r: "replay_steps new_replay ns = Inr r"
    using La(1) by (rule attempt_ledgerE)
  have r': "replay_steps new_replay (map receipt_event (attempt_receipts rs (ev_attempt n))) = Inr r"
    using r ns La(2) by simp
  note body = ok [unfolded ingest_normalized_def a0 option.case m sum.case Let_def ida]
  show ?thesis
  proof (cases "get_receipt rs (ev_attempt n) (ev_seq n)")
    case (Some x)
    have x: "x \<in> set (attempt_receipts rs (attempt_id a0))" "receipt_seq x = ev_seq n"
      using row_by_SomeD [OF Some [unfolded get_receipt_row]] La(2) by auto
    then have "match_frozen_attempt a0 (receipt_event x) = Inr a0" using fr ns by (auto simp: list_all_iff)
    then have eq: "a = a0" by (rule match_frozen_same_identity(1) [OF _ m])
    have "put_attempt (ev_attempt n) (\<lambda>_. a0) d = d"
      using put_same_attempt [OF _ a0] L by (simp add: ledger_ok_def)
    with eq have "d' = d" "rs' = rs" "c' = c" "ingest_duplicate res" "receipt_event_id x = ev_id n"
      "receipt_event_digest x = digest_of (PDict n)" "ingest_attempt res = a0"
      using body Some by (auto split: if_splits)
    then show ?thesis using duplicate Some a0 m eq by simp
  next
    case None
    let ?ids = "case cache_event_ids c of Some xs \<Rightarrow> xs | None \<Rightarrow> event_ids_for_attempt rs (ev_attempt n)"
    let ?c1 = "c\<lparr>cache_event_ids := Some ?ids\<rparr>"
    have ids: "set ?ids = set (event_ids_for_attempt rs (ev_attempt n))" using c by (auto simp: cache_ok_def split: option.splits)
    have c1: "cache_ok ?c1 rs (ev_attempt n)" using c ids by (auto simp: cache_ok_def split: option.splits)
    have c1': "cache_ok ?c1 rs (attempt_id a0)" unfolding La(2) by (rule c1)
    obtain c2 where new: "ev_id n \<notin> set ?ids" and ord: "validate_incremental_event_order ?c1 rs a n = (Inr (), c2)"
      and rec: "record_event now (digest_of (PDict n)) a n rs = Inr (ingest_attempt res, rs')"
      and d': "d' = put_attempt (ev_attempt n) (\<lambda>_. ingest_attempt res) d" and nd: "\<not> ingest_duplicate res"
      and c': "c' = c2\<lparr>cache_event_ids := Some (ev_id n # ?ids),
        cache_finalization_seen := (if ev_type n = ''worker.finalization'' then Some True else cache_finalization_seen c2)\<rparr>"
      using body unfolding None option.case by (auto split: if_split_asm sum.split_asm prod.split_asm)
    have s: "step_allowed r n"
      using incremental_order_iff [OF La(1) m La(2) [symmetric] c1', of r] new ids r ns ord La(2) by simp
    note ext = attempt_ledger_extend [OF La(1) m La(2) [symmetric] v _ s rec, unfolded ns, OF r]
    have c2: "cache_ok c2 rs (ev_attempt n)" "cache_event_ids c2 = Some ?ids"
      using order_keeps_cache [OF La(1) m c1'] ord La(2) by auto
    have fresh: "ev_id n \<notin> receipt_event_id ` set rs"
      using rec by (auto simp: record_event_def bind_result_eq_Inr)
    have idr: "attempt_id (ingest_attempt res) = ev_attempt n" using ext(2) La(2) by simp
    show ?thesis
      using accepted [OF a0 nd refl r' s idr ext(1) _ d' ext(4) _ fresh] ext(3,4) idr cache_extend [OF c2] c' by simp
  qed
qed


lemma ingest_error_cache:
  assumes L: "ledger_ok parse_time rp digest_of d rs" and c: "cache_ok c rs (ev_attempt n)"
    and err: "ingest_normalized digest_of now c d rs n = (Inl e, c')"
  shows "cache_ok c' rs (ev_attempt n)"
proof (cases "get_attempt d (ev_attempt n)")
  case (Some a0)
  note La = ledger_okD [OF L Some]
  show ?thesis
  proof (cases "match_frozen_attempt a0 n")
    case (Inr a)
    have ida: "attempt_id a = ev_attempt n" unfolding match_frozenD(1) [OF Inr] using La(2) by simp
    let ?ids = "case cache_event_ids c of Some xs \<Rightarrow> xs | None \<Rightarrow> event_ids_for_attempt rs (ev_attempt n)"
    let ?c1 = "c\<lparr>cache_event_ids := Some ?ids\<rparr>"
    have c1: "cache_ok ?c1 rs (ev_attempt n)" using c by (auto simp: cache_ok_def split: option.splits)
    have "cache_ok ?c1 rs (attempt_id a0)" unfolding La(2) by (rule c1)
    from order_keeps_cache(1) [OF La(1) Inr this]
    have "cache_ok (snd (validate_incremental_event_order ?c1 rs a n)) rs (ev_attempt n)" unfolding La(2) .
    with err c c1 show ?thesis
      unfolding ingest_normalized_def Some option.case Inr sum.case Let_def ida
      by (auto split: option.split_asm if_split_asm sum.split_asm prod.split_asm)
  qed (use err c Some in \<open>simp add: ingest_normalized_def\<close>)
qed (use err c in \<open>simp add: ingest_normalized_def\<close>)

lemma attempt_ledger_other:
  assumes "attempt_id a \<noteq> ev_attempt n"
  shows "attempt_ledger parse_time rp digest_of (rs @ [new_receipt dg n]) a = attempt_ledger parse_time rp digest_of rs a"
  using assms by (simp add: attempt_ledger_def attempt_receipts_snoc)

lemma cache_ok_other:
  assumes "k \<noteq> ev_attempt n"
  shows "cache_ok c (rs @ [new_receipt dg n]) k = cache_ok c rs k"
proof -
  have "attempt_receipts (rs @ [new_receipt dg n]) k = attempt_receipts rs k"
    using assms by (simp add: attempt_receipts_snoc)
  then show ?thesis
    unfolding cache_ok_def event_ids_for_attempt_def first_event_harness_metadata_def get_receipt_row by (simp only:)
qed

lemma ingest_keeps_ledger:
  assumes L: "ledger_ok parse_time rp digest_of d rs" and c: "cache_ok c rs (ev_attempt n)"
    and v: "validate_event_by_schema parse_time rp n = Inr n"
    and ok: "ingest_normalized digest_of now c d rs n = (Inr (res, d', rs'), c')"
  shows "ledger_ok parse_time rp digest_of d' rs'" "cache_ok c' rs' (ev_attempt n)"
    "k \<noteq> ev_attempt n \<Longrightarrow> cache_ok c0 rs' k = cache_ok c0 rs k"
proof -
  have "ledger_ok parse_time rp digest_of d' rs' \<and> cache_ok c' rs' (ev_attempt n)
    \<and> (k \<noteq> ev_attempt n \<longrightarrow> cache_ok c0 rs' k = cache_ok c0 rs k)"
    using L c v ok
  proof (cases rule: ingest_cases)
    case (accepted a0 r a')
    have ids: "map attempt_id (attempts d') = map attempt_id (attempts d)"
      unfolding accepted(9) put_attempt_def using accepted(6) by (auto simp: update_where_def)
    have "attempt_ledger parse_time rp digest_of rs' b" if b: "b \<in> set (attempts d')" for b
    proof -
      obtain b0 where b0: "b0 \<in> set (attempts d)" "b = (if attempt_id b0 = ev_attempt n then a' else b0)"
        using b unfolding accepted(9) put_attempt_def by (auto elim: in_update_whereE)
      show ?thesis
      proof (cases "attempt_id b0 = ev_attempt n")
        case True
        then show ?thesis using b0 accepted(7) by simp
      next
        case False
        then show ?thesis using b0 L unfolding accepted(10)
          by (simp add: attempt_ledger_other ledger_ok_def list_all_iff)
      qed
    qed
    then show ?thesis
      using L ids accepted(11) cache_ok_other [of k n] unfolding accepted(10) by (simp add: ledger_ok_def list_all_iff)
  qed (use L c in simp)
  then show "ledger_ok parse_time rp digest_of d' rs'" "cache_ok c' rs' (ev_attempt n)"
    "k \<noteq> ev_attempt n \<Longrightarrow> cache_ok c0 rs' k = cache_ok c0 rs k" by blast+
qed

text \<open>The replay of a ledger.\<close>

lemma ledger_load_replay:
  assumes L: "attempt_ledger parse_time rp digest_of rs a"
  shows "load_replay parse_time rp rs (attempt_id a) =
    replay_steps new_replay (map receipt_event (attempt_receipts rs (attempt_id a)))"
  using L
proof (rule attempt_ledgerE)
  fix ns r
  assume ns: "map receipt_event (attempt_receipts rs (attempt_id a)) = ns"
    and wf: "list_all (wf_receipt digest_of) (attempt_receipts rs (attempt_id a))"
    and v: "list_all (\<lambda>n. validate_event_by_schema parse_time rp n = Inr n) ns" and f: "replay_facts ns r"
  let ?R = "attempt_receipts rs (attempt_id a)"
  have "sorted (map receipt_seq ?R)"
    using receipts_seq [OF wf] f ns by (auto simp: sorted_iff_nth_mono)
  then have "sort_key receipt_seq ?R = ?R" by (rule sort_key_id_if_sorted)
  then show ?thesis unfolding load_replay_def using replay_all_validated [OF v] ns by simp
qed

lemma ledger_complete_iff:
  assumes L: "ledger_ok parse_time rp digest_of d rs" and a: "get_attempt d k = Some a"
  shows "(\<exists>b. assert_attempt_complete parse_time rp d rs k = Inr b) \<longleftrightarrow> attempt_terminal_event_type a \<noteq> None"
proof -
  note La = ledger_okD [OF L a]
  obtain r where r: "load_replay parse_time rp rs k = Inr r" and t: "attempt_terminal_event_type a = replay_terminal_type r"
    and f: "replay_facts (map receipt_event (attempt_receipts rs (attempt_id a))) r"
    using attempt_ledgerE [OF La(1)] ledger_load_replay [OF La(1)] La(2) by metis
  have "replay_terminal_type r \<noteq> None \<longrightarrow> replay_harness_ended r \<and> replay_finalization_seen r"
    and "replay_harness_ended r \<longrightarrow> replay_started r"
    using f unfolding replay_facts_def by (blast, force)
  then show ?thesis
    unfolding assert_attempt_complete_def a option.case r bind_result_simps replay_finish_def t
    by (cases "replay_terminal_type r") (auto simp: bind_result_eq_Inr)
qed

lemma ingest_new_iff:
  assumes L: "ledger_ok parse_time rp digest_of d rs" and c: "cache_ok c rs (ev_attempt n)"
    and a0: "get_attempt d (ev_attempt n) = Some a0" and m: "match_frozen_attempt a0 n = Inr a"
    and none: "get_receipt rs (ev_attempt n) (ev_seq n) = None"
    and other: "\<forall>x\<in>set rs. receipt_event_id x = ev_id n \<longrightarrow> receipt_attempt_id x = ev_attempt n"
    and r: "load_replay parse_time rp rs (ev_attempt n) = Inr r"
  shows "(\<exists>x. fst (ingest_normalized digest_of now c d rs n) = Inr x) \<longleftrightarrow> step_allowed r n"
proof -
  note La = ledger_okD [OF L a0]
  have ida: "attempt_id a = ev_attempt n" unfolding match_frozenD(1) [OF m] using La(2) by simp
  have steps: "replay_steps new_replay (map receipt_event (attempt_receipts rs (attempt_id a0))) = Inr r"
    using r ledger_load_replay [OF La(1)] La(2) by simp
  obtain ns q where wf: "list_all (wf_receipt digest_of) (attempt_receipts rs (attempt_id a0))"
    and te: "attempt_terminal_event_id a0 = None \<longleftrightarrow> attempt_terminal_event_type a0 = None"
      "attempt_terminal_event_type a0 = replay_terminal_type r" and f: "replay_facts (map receipt_event (attempt_receipts rs (attempt_id a0))) r"
    by (rule attempt_ledgerE [OF La(1)]) (use steps in auto)
  let ?ids = "case cache_event_ids c of Some xs \<Rightarrow> xs | None \<Rightarrow> event_ids_for_attempt rs (ev_attempt n)"
  let ?c1 = "c\<lparr>cache_event_ids := Some ?ids\<rparr>"
  have ids: "set ?ids = set (event_ids_for_attempt rs (ev_attempt n))" using c by (auto simp: cache_ok_def split: option.splits)
  have c1: "cache_ok ?c1 rs (attempt_id a0)" unfolding La(2) using c ids by (auto simp: cache_ok_def split: option.splits)
  have seen: "set (event_ids_for_attempt rs (ev_attempt n)) = set (replay_seen_event_ids r)"
    unfolding event_ids_for_attempt_def La(2) [symmetric] receipt_types(2) [OF wf] replay_factsD(2) [OF f] by (simp add: image_image)
  have global: "ev_id n \<in> receipt_event_id ` set rs \<longleftrightarrow> ev_id n \<in> set (event_ids_for_attempt rs (ev_attempt n))"
    using other by (auto simp: event_ids_for_attempt_def attempt_receipts_def)
  have fst_eq: "(\<exists>x. fst (ingest_normalized digest_of now c d rs n) = Inr x) \<longleftrightarrow>
      ev_id n \<notin> set ?ids \<and> fst (validate_incremental_event_order ?c1 rs a n) = Inr ()
      \<and> (\<exists>y. record_event now (digest_of (PDict n)) a n rs = Inr y)"
    unfolding ingest_normalized_def a0 option.case m sum.case Let_def ida none
    by (auto split: sum.split prod.split)
  show ?thesis
  proof (cases "ev_id n \<in> set ?ids")
    case True
    then show ?thesis using fst_eq ids seen by (simp add: step_allowed_def)
  next
    case False
    then have new: "ev_id n \<notin> set (event_ids_for_attempt rs (attempt_id a0))" using ids La(2) by simp
    note order = incremental_order_iff [OF La(1) m La(2) [symmetric] c1 new steps]
    have "\<exists>y. record_event now (digest_of (PDict n)) a n rs = Inr y" if "step_allowed r n"
    proof -
      have "attempt_terminal_event_id a = None"
        unfolding match_frozenD(1) [OF m] using te that by (simp add: step_allowed_def)
      from record_event_ok [OF this] show ?thesis using global new La(2) by auto
    qed
    then show ?thesis using fst_eq False order by blast
  qed
qed


section \<open>Histories of one event stream\<close>

text \<open>
  One record of an event stream, as the projector feeds it: the record is validated, and the validated event is
  ingested. A new session forgets the cached attributes; a refused event leaves the tables as they were.
\<close>

type_synonym ingest_state = "database \<times> event_receipt list \<times> (string \<Rightarrow> attempt_cache)"

definition ingest_one ::
  "(string \<Rightarrow> timestamp option) \<Rightarrow> (pyval \<Rightarrow> string) \<Rightarrow> (string \<Rightarrow> string) \<Rightarrow> (rat \<Rightarrow> string) \<Rightarrow> timestamp \<Rightarrow> ingest_state
   \<Rightarrow> bool \<times> pydict \<Rightarrow> ingest_state" where
  "ingest_one parse_time rp sha256 fr now s x = (case s of (d, rs, cs0) \<Rightarrow> (case x of (new_session, e) \<Rightarrow>
     let cs = (if new_session then \<lambda>_. empty_cache else cs0) in
     (case validate_event_by_schema parse_time rp e of
        Inl _ \<Rightarrow> (d, rs, cs)
      | Inr n \<Rightarrow> (case ingest_canonical_event parse_time rp sha256 fr now (cs (ev_attempt n)) d rs n of
          (Inl _, c) \<Rightarrow> (d, rs, cs(ev_attempt n := c))
        | (Inr (_, d', rs'), c) \<Rightarrow> (d', rs', cs(ev_attempt n := c))))))"

definition fresh_attempt :: "harness_attempt \<Rightarrow> bool" where
  "fresh_attempt a \<longleftrightarrow> attempt_last_seq a = 0 \<and> attempt_terminal_event_id a = None \<and> attempt_terminal_event_type a = None"

lemma fresh_ledger:
  assumes "distinct (map attempt_id (attempts d))" "list_all fresh_attempt (attempts d)"
  shows "ledger_ok parse_time rp digest_of d []"
  using assms
  by (auto simp: ledger_ok_def list_all_iff fresh_attempt_def attempt_ledger_def attempt_receipts_def new_replay_def)

lemma ingest_one_keeps:
  assumes L: "ledger_ok parse_time rp (content_digest sha256 fr) d rs" and c: "\<forall>k. cache_ok (cs k) rs k"
    and s: "ingest_one parse_time rp sha256 fr now (d, rs, cs) x = (d', rs', cs')"
  shows "ledger_ok parse_time rp (content_digest sha256 fr) d' rs' \<and> (\<forall>k. cache_ok (cs' k) rs' k)"
proof -
  obtain new_session e where x: "x = (new_session, e)" by fastforce
  let ?cs = "if new_session then \<lambda>_. empty_cache else cs"
  have c1: "cache_ok (?cs k) rs k" for k using c by simp
  show ?thesis
  proof (cases "validate_event_by_schema parse_time rp e")
    case (Inl err)
    then show ?thesis using s L c1 unfolding ingest_one_def x Let_def by auto
  next
    case (Inr n)
    show ?thesis
    proof (cases "validate_event_by_schema parse_time rp n")
      case (Inl err)
      then have "d' = d \<and> rs' = rs \<and> cs' = ?cs(ev_attempt n := ?cs (ev_attempt n))"
        using s unfolding ingest_one_def x Let_def ingest_canonical_event_def by (simp add: Inr)
      then show ?thesis using L c1 by auto
    next
      case (Inr n')
      with validated_again [OF \<open>validate_event_by_schema parse_time rp e = Inr n\<close>]
      have v: "validate_event_by_schema parse_time rp n = Inr n" by (simp split: if_splits)
      obtain out c' where out: "ingest_normalized (content_digest sha256 fr) now (?cs (ev_attempt n)) d rs n = (out, c')"
        by fastforce
      show ?thesis
      proof (cases out)
        case (Inl err)
        then have "d' = d \<and> rs' = rs \<and> cs' = ?cs(ev_attempt n := c')"
          using s out unfolding ingest_one_def x Let_def ingest_canonical_event_def
          by (simp add: \<open>validate_event_by_schema parse_time rp e = Inr n\<close> v)
        then show ?thesis using L c1 ingest_error_cache [OF L c1 out [unfolded Inl]] by auto
      next
        case (Inr y)
        obtain res d1 rs1 where y: "y = (res, d1, rs1)" using prod_cases3 by blast
        have eq: "d' = d1 \<and> rs' = rs1 \<and> cs' = ?cs(ev_attempt n := c')"
          using s out unfolding ingest_one_def x Let_def ingest_canonical_event_def Inr y
          by (simp add: \<open>validate_event_by_schema parse_time rp e = Inr n\<close> v)
        note keeps = ingest_keeps_ledger [OF L c1 v out [unfolded Inr y]]
        show ?thesis using eq keeps c1 by auto
      qed
    qed
  qed
qed

lemma ingest_history_keeps:
  assumes "ledger_ok parse_time rp (content_digest sha256 fr) d rs" "\<forall>k. cache_ok (cs k) rs k"
    and "foldl (ingest_one parse_time rp sha256 fr now) (d, rs, cs) es = (d', rs', cs')"
  shows "ledger_ok parse_time rp (content_digest sha256 fr) d' rs'"
  using assms
proof (induction es arbitrary: d rs cs)
  case (Cons x es)
  obtain d1 rs1 cs1 where one: "ingest_one parse_time rp sha256 fr now (d, rs, cs) x = (d1, rs1, cs1)"
    using prod_cases3 by blast
  from ingest_one_keeps [OF Cons.prems(1,2) one] Cons.IH [of d1 rs1 cs1] Cons.prems(3) one show ?case by simp
qed simp


section \<open>Properties\<close>

text \<open>
  C6. The incremental ingest accepts exactly what the full replay accepts. For a ledger of receipts, coherent cached
  attributes and a validated event that matches the frozen attempt and is neither at a received sequence number nor
  reuses the event id of another attempt: the receipts replay, the ingest accepts the event exactly when the replay
  accepts it as its next event, and the receipts it then keeps replay to the state the replay reached.
\<close>

theorem incremental_ingest_is_the_replay:
  assumes "ledger_ok parse_time rp (content_digest sha256 fr) d rs" "cache_ok c rs (ev_attempt n)"
    and "validate_event_by_schema parse_time rp n = Inr n"
    and "get_attempt d (ev_attempt n) = Some a0" "match_frozen_attempt a0 n = Inr a"
    and "get_receipt rs (ev_attempt n) (ev_seq n) = None"
    and "\<forall>x\<in>set rs. receipt_event_id x = ev_id n \<longrightarrow> receipt_attempt_id x = ev_attempt n"
  shows "\<exists>r. load_replay parse_time rp rs (ev_attempt n) = Inr r
    \<and> ((\<exists>x. fst (ingest_canonical_event parse_time rp sha256 fr now c d rs n) = Inr x)
         \<longleftrightarrow> (\<exists>y. replay_ingest parse_time rp r n = Inr y))
    \<and> (\<forall>res d' rs'. fst (ingest_canonical_event parse_time rp sha256 fr now c d rs n) = Inr (res, d', rs') \<longrightarrow>
         replay_ingest parse_time rp r n = map_sum id (Pair n) (load_replay parse_time rp rs' (ev_attempt n)))"
proof -
  note La = ledger_okD [OF assms(1,4)]
  note load = ledger_load_replay [OF La(1), unfolded La(2)]
  obtain r where r: "replay_steps new_replay (map receipt_event (attempt_receipts rs (ev_attempt n))) = Inr r"
    using La(2) by (metis attempt_ledgerE [OF La(1)])
  have l: "load_replay parse_time rp rs (ev_attempt n) = Inr r" using load r by simp
  have ing: "ingest_canonical_event parse_time rp sha256 fr now c d rs n = ingest_normalized (content_digest sha256 fr) now c d rs n"
    by (simp add: ingest_canonical_event_def assms(3))
  have rep: "replay_ingest parse_time rp r n = map_sum id (Pair n) (replay_step r n)"
    by (cases "replay_step r n") (simp_all add: replay_ingest_def assms(3))
  have "(\<exists>x. fst (ingest_normalized (content_digest sha256 fr) now c d rs n) = Inr x) \<longleftrightarrow> (\<exists>y. replay_ingest parse_time rp r n = Inr y)"
    unfolding ingest_new_iff [OF assms(1,2,4,5,6,7) l] rep
    using replay_step_iff [of r n] by (cases "replay_step r n") auto
  moreover have "replay_ingest parse_time rp r n = map_sum id (Pair n) (load_replay parse_time rp rs' (ev_attempt n))"
    if "ingest_normalized (content_digest sha256 fr) now c d rs n = (Inr (res, d', rs'), c')" for res d' rs' c'
    using assms(1,2,3) that
  proof (cases rule: ingest_cases)
    case duplicate
    have False using that assms(6) duplicate(4) unfolding ingest_normalized_def assms(4) option.case assms(5) sum.case Let_def
      by (auto simp: match_frozenD(1) [OF assms(5)] La(2) split: if_split_asm sum.split_asm prod.split_asm)
    then show ?thesis ..
  next
    case (accepted b q a')
    have "q = r" using accepted(4) r by simp
    then show ?thesis
      unfolding rep using accepted(5,8) ledger_load_replay [OF accepted(7)] accepted(6)
      by (simp add: replay_step_iff [THEN iffD2])
  qed
  ultimately show ?thesis unfolding ing using l by (metis prod.collapse)
qed

text \<open>
  C12. Every history of an event stream leaves a replayable ledger. From attempts without events, after any sequence of
  records (valid or not, in any order, with repetitions and new sessions), the receipts of every attempt replay
  without an error, the attempt row agrees with the replay, and the complete-attempt check succeeds exactly for the
  attempts with a terminal event.
\<close>

theorem every_history_is_replayable:
  assumes "distinct (map attempt_id (attempts d))" "list_all fresh_attempt (attempts d)"
    and "foldl (ingest_one parse_time rp sha256 fr now) (d, [], \<lambda>_. empty_cache) es = (d', rs, cs)"
    and "get_attempt d' k = Some a"
  shows "\<exists>r. load_replay parse_time rp rs k = Inr r \<and> attempt_last_seq a = replay_last_seq r
      \<and> attempt_terminal_event_type a = replay_terminal_type r
      \<and> ((\<exists>b. assert_attempt_complete parse_time rp d' rs k = Inr b) \<longleftrightarrow> replay_terminal_type r \<noteq> None)"
proof -
  have L: "ledger_ok parse_time rp (content_digest sha256 fr) d' rs"
    by (rule ingest_history_keeps [OF fresh_ledger [OF assms(1,2)] _ assms(3)]) simp
  note La = ledger_okD [OF L assms(4)]
  obtain r where "replay_steps new_replay (map receipt_event (attempt_receipts rs (attempt_id a))) = Inr r"
    "attempt_last_seq a = replay_last_seq r" "attempt_terminal_event_type a = replay_terminal_type r"
    using La(1) by (rule attempt_ledgerE) auto
  then show ?thesis
    using ledger_load_replay [OF La(1)] La(2) ledger_complete_iff [OF L assms(4)] by auto
qed

lemma get_put_attempt:
  assumes "get_attempt d k = Some a0" "attempt_id a = k"
  shows "get_attempt (put_attempt k (\<lambda>_. a) d) k = Some a"
proof -
  have "row_by attempt_id k (update_where (\<lambda>r. attempt_id r = k) (\<lambda>_. a) rows) = Some a"
    if "row_by attempt_id k rows = Some a0" for rows
    using that assms(2) by (induction rows) (auto split: if_splits)
  then show ?thesis using assms(1) by (simp add: get_attempt_def put_attempt_def)
qed

lemma accepted_receipt:
  assumes L: "ledger_ok parse_time rp digest_of d rs" and c: "cache_ok c rs (ev_attempt n)"
    and v: "validate_event_by_schema parse_time rp n = Inr n"
    and ok: "ingest_normalized digest_of now c d rs n = (Inr (res, d', rs'), c')"
  obtains x where "get_receipt rs' (ev_attempt n) (ev_seq n) = Some x" "receipt_event_id x = ev_id n"
    "receipt_event_digest x = digest_of (PDict n)" "get_attempt d' (ev_attempt n) = Some (ingest_attempt res)"
    "match_frozen_attempt (ingest_attempt res) n = Inr (ingest_attempt res)"
  using L c v ok
proof (cases rule: ingest_cases)
  case (duplicate x)
  then show ?thesis using that by simp
next
  case (accepted a0 r a')
  note La = ledger_okD [OF L accepted(1)]
  have s: "ev_seq n = replay_last_seq r + 1" using accepted(5) by (simp add: step_allowed_def)
  have "get_receipt rs (ev_attempt n) (ev_seq n) = None"
    using ledger_no_receipt [OF La(1) _ s] accepted(4) La(2) by simp
  then have g: "get_receipt rs' (ev_attempt n) (ev_seq n) = Some (new_receipt (digest_of (PDict n)) n)"
    unfolding accepted(10) get_receipt_def row_by_append by (simp add: new_receipt_def)
  have "new_receipt (digest_of (PDict n)) n \<in> set (attempt_receipts rs' (attempt_id a'))"
    unfolding accepted(6,10) attempt_receipts_snoc by simp
  then have m: "match_frozen_attempt a' n = Inr a'"
    using accepted(7) unfolding attempt_ledger_def Let_def by (auto simp: list_all_iff new_receipt_def)
  have "get_attempt d' (ev_attempt n) = Some a'"
    unfolding accepted(9) using accepted(1,6) get_put_attempt by fastforce
  then show ?thesis using that [OF g] m accepted(3) by (simp add: new_receipt_def)
qed

text \<open>
  C14. An accepted event is ingested exactly once: ingesting it again, in the same or a new session, reports a duplicate
  and changes neither the database nor the receipts, and an event with another id at its sequence number is refused
  as a conflict.
\<close>

theorem accepted_event_is_ingested_once:
  assumes "ledger_ok parse_time rp (content_digest sha256 fr) d rs" "cache_ok c rs (ev_attempt n)"
    and "validate_event_by_schema parse_time rp n = Inr n"
    and "ingest_canonical_event parse_time rp sha256 fr now c d rs n = (Inr (res, d', rs'), c')"
  shows "fst (ingest_canonical_event parse_time rp sha256 fr now2 c2 d' rs' n) =
      Inr (\<lparr>ingest_event = n, ingest_attempt = ingest_attempt res, ingest_duplicate = True\<rparr>, d', rs')
    \<and> (\<forall>m. validate_event_by_schema parse_time rp m = Inr m \<longrightarrow> ev_attempt m = ev_attempt n \<longrightarrow> ev_seq m = ev_seq n \<longrightarrow>
          match_frozen_attempt (ingest_attempt res) m = Inr (ingest_attempt res) \<longrightarrow> ev_id m \<noteq> ev_id n \<longrightarrow>
          fst (ingest_canonical_event parse_time rp sha256 fr now2 c2 d' rs' m) = Inl ''duplicate_conflict'')"
proof -
  have ing: "ingest_normalized (content_digest sha256 fr) now c d rs n = (Inr (res, d', rs'), c')"
    using assms(3,4) by (simp add: ingest_canonical_event_def)
  have "distinct (map attempt_id (attempts d'))"
    using ingest_keeps_ledger(1) [OF assms(1-3) ing] by (simp add: ledger_ok_def)
  note put = put_same_attempt [OF this]
  obtain x where x: "get_receipt rs' (ev_attempt n) (ev_seq n) = Some x" "receipt_event_id x = ev_id n"
    "receipt_event_digest x = content_digest sha256 fr (PDict n)"
    and a: "get_attempt d' (ev_attempt n) = Some (ingest_attempt res)"
    and m: "match_frozen_attempt (ingest_attempt res) n = Inr (ingest_attempt res)"
    using assms(1-3) ing by (rule accepted_receipt)
  have ida: "attempt_id (ingest_attempt res) = ev_attempt n"
    using a unfolding get_attempt_def by (auto dest: row_by_SomeD)
  show ?thesis
    using x by (simp add: ingest_canonical_event_def assms(3) ingest_normalized_def a m ida put [OF a])
qed


section \<open>Witnesses\<close>

definition sample_event :: "int \<Rightarrow> string \<Rightarrow> string \<Rightarrow> pydict \<Rightarrow> pydict" where
  "sample_event k ident ty p = [(''schema'', PStr CANONICAL_EVENT_SCHEMA), (''event_id'', PStr ident), (''attempt_id'', PStr ''a1''),
     (''seq'', PInt k), (''occurred_at'', PStr ''2026-01-01T00:00:00Z''), (''type'', PStr ty), (''task_id'', PInt 7),
     (''harness'', PDict [(''key'', PStr ''pi''), (''adapter_version'', PStr ''1''), (''cli_version'', PStr ''2'')]), (''payload'', PDict p)]"

definition sample_attempt :: harness_attempt where
  "sample_attempt = \<lparr>attempt_id = ''a1'', attempt_task_id = 7, attempt_no = 1, attempt_event_schema = CANONICAL_EVENT_SCHEMA,
     attempt_harness_key = ''pi'', attempt_adapter_version = ''1'', attempt_cli_version = None,
     attempt_control_state = Disabled, attempt_awaiting_follow_up_turn = False, attempt_pending_follow_up_command_id = None,
     attempt_pending_follow_up_native_id = None, attempt_force_close_requested = False, attempt_next_command_sequence = 1,
     attempt_dispatch_owner = None, attempt_dispatch_expires_at = None, attempt_last_seq = 0,
     attempt_terminal_event_id = None, attempt_terminal_event_type = None, attempt_terminal_at = None\<rparr>"

definition sample_attempt_db :: database where "sample_attempt_db = (sample_db [] [])\<lparr>attempts := [sample_attempt]\<rparr>"

abbreviation sample_time :: "string \<Rightarrow> timestamp option" where "sample_time \<equiv> (\<lambda>_. Some 0)"
abbreviation sample_repr :: "pyval \<Rightarrow> string" where "sample_repr \<equiv> (\<lambda>_. [])"
abbreviation sample_float :: "rat \<Rightarrow> string" where "sample_float \<equiv> (\<lambda>_. [])"

lemma sample_ledger: "ledger_ok parse_time rp digest_of sample_attempt_db []"
  by (rule fresh_ledger) (simp_all add: sample_attempt_db_def sample_attempt_def fresh_attempt_def)

lemma sample_start_valid:
  "validate_event_by_schema sample_time sample_repr (sample_event 1 ''e1'' ''run.started'' []) = Inr (sample_event 1 ''e1'' ''run.started'' [])"
  by code_simp

theorem incremental_ingest_is_the_replay_witness:
  "\<exists>r. load_replay sample_time sample_repr [] ''a1'' = Inr r \<and> (\<exists>y. replay_ingest sample_time sample_repr r (sample_event 1 ''e1'' ''run.started'' []) = Inr y)"
proof -
  let ?n = "sample_event 1 ''e1'' ''run.started'' []"
  have "ev_attempt ?n = ''a1''" "get_attempt sample_attempt_db ''a1'' = Some sample_attempt"
    "get_receipt [] ''a1'' (ev_seq ?n) = None" by code_simp+
  moreover have "match_frozen_attempt sample_attempt ?n = Inr (sample_attempt\<lparr>attempt_cli_version := Some ''2''\<rparr>)" by code_simp
  moreover have "\<exists>x. fst (ingest_canonical_event sample_time sample_repr (\<lambda>s. s) sample_float 5 empty_cache sample_attempt_db [] ?n) = Inr x"
    by (rule exI, code_simp)
  ultimately show ?thesis
    using incremental_ingest_is_the_replay [OF sample_ledger cache_ok_empty sample_start_valid,
        of sample_attempt "sample_attempt\<lparr>attempt_cli_version := Some ''2''\<rparr>" "\<lambda>s. s" sample_float 5] by auto
qed

theorem every_history_is_replayable_witness:
  "\<exists>d rs cs a r. foldl (ingest_one sample_time sample_repr (\<lambda>s. s) sample_float 5) (sample_attempt_db, [], \<lambda>_. empty_cache)
       [(True, sample_event 1 ''e1'' ''run.started'' []), (False, sample_event 3 ''e3'' ''message.delta'' []),
        (True, sample_event 1 ''e1'' ''run.started'' []), (False, sample_event 2 ''e2'' ''harness.completed'' []),
        (False, sample_event 3 ''e3'' ''worker.finalization'' []), (False, sample_event 4 ''e4'' ''message.delta'' []),
        (True, sample_event 4 ''e4'' ''run.completed'' [(''status'', PStr ''completed''), (''success'', PBool True)])] = (d, rs, cs)
     \<and> length rs = 4 \<and> get_attempt d ''a1'' = Some a \<and> load_replay sample_time sample_repr rs ''a1'' = Inr r
     \<and> replay_terminal_type r = Some ''run.completed'' \<and> (\<exists>b. assert_attempt_complete sample_time sample_repr d rs ''a1'' = Inr b)"
proof -
  let ?es = "[(True, sample_event 1 ''e1'' ''run.started'' []), (False, sample_event 3 ''e3'' ''message.delta'' []),
        (True, sample_event 1 ''e1'' ''run.started'' []), (False, sample_event 2 ''e2'' ''harness.completed'' []),
        (False, sample_event 3 ''e3'' ''worker.finalization'' []), (False, sample_event 4 ''e4'' ''message.delta'' []),
        (True, sample_event 4 ''e4'' ''run.completed'' [(''status'', PStr ''completed''), (''success'', PBool True)])]"
  obtain d rs cs where run: "foldl (ingest_one sample_time sample_repr (\<lambda>s. s) sample_float 5)
      (sample_attempt_db, [], \<lambda>_. empty_cache) ?es = (d, rs, cs)" using prod_cases3 by blast
  have "(case foldl (ingest_one sample_time sample_repr (\<lambda>s. s) sample_float 5) (sample_attempt_db, [], \<lambda>_. empty_cache) ?es of
      (d, rs, cs) \<Rightarrow> map_option attempt_terminal_event_type (get_attempt d ''a1'') = Some (Some ''run.completed'') \<and> length rs = 4)"
    by code_simp
  then have out: "map_option attempt_terminal_event_type (get_attempt d ''a1'') = Some (Some ''run.completed'')"
    "length rs = 4" unfolding run by simp_all
  then obtain a where a: "get_attempt d ''a1'' = Some a" "attempt_terminal_event_type a = Some ''run.completed''"
    by auto
  have fresh: "distinct (map attempt_id (attempts sample_attempt_db))" "list_all fresh_attempt (attempts sample_attempt_db)" by code_simp+
  show ?thesis
    using every_history_is_replayable [OF fresh run a(1)] run out(2) a by auto
qed

theorem accepted_event_is_ingested_once_witness:
  "\<exists>res d rs. fst (ingest_canonical_event sample_time sample_repr (\<lambda>s. s) sample_float 5 empty_cache sample_attempt_db []
        (sample_event 1 ''e1'' ''run.started'' [])) = Inr (res, d, rs)
     \<and> fst (ingest_canonical_event sample_time sample_repr (\<lambda>s. s) sample_float 6 empty_cache d rs (sample_event 1 ''e1'' ''run.started'' []))
       = Inr (\<lparr>ingest_event = sample_event 1 ''e1'' ''run.started'' [], ingest_attempt = ingest_attempt res, ingest_duplicate = True\<rparr>, d, rs)"
proof -
  let ?n = "sample_event 1 ''e1'' ''run.started'' []"
  have "\<exists>x. fst (ingest_canonical_event sample_time sample_repr (\<lambda>s. s) sample_float 5 empty_cache sample_attempt_db [] ?n) = Inr x"
    by (rule exI, code_simp)
  then obtain res d rs where "fst (ingest_canonical_event sample_time sample_repr (\<lambda>s. s) sample_float 5 empty_cache sample_attempt_db [] ?n)
      = Inr (res, d, rs)" by auto
  then obtain c where "ingest_canonical_event sample_time sample_repr (\<lambda>s. s) sample_float 5 empty_cache sample_attempt_db [] ?n
      = (Inr (res, d, rs), c)" by (metis prod.collapse)
  from accepted_event_is_ingested_once [OF sample_ledger cache_ok_empty sample_start_valid this, of 6 empty_cache] this
  show ?thesis by fastforce
qed

end
