(* ===== verification/Event_Projector.thy ===== *)
theory Event_Projector
  imports Event_Ledger "HOL-Library.AList"
begin

text \<open>
  The projection of canonical events into the task log, \<^verbatim>\<open>core/worker_event_projector.py\<close>: the live rows of messages,
  reasoning blocks and tools, the control gate at the end of an attempt, and the audit rows.

  \<open>projection\<close> is the database with the tables the projector writes; the metadata of a log row is the parsed JSON
  column (None when the text does not parse, the empty object for an empty column). \<open>projector\<close> is the memory of
  the projector object. A handler returns its result and the memory: the database changes of a raised error are
  rolled back with the savepoint, the memory is not. \<open>pr_caches\<close> are the attributes kept on the loaded attempts of
  the session. The record \<open>projector_env\<close> holds what the projector is given:
  the sanitizer (\<open>sanitize_sensitive_data\<close> of \<open>Sensitive_Text\<close> in the program), the readers and writers of times, floats
  and digests, the clock, and the float conversion of microseconds to whole milliseconds. A string inside an event
  has one element per character, so the counts and the limit of a preview are counts of characters.
\<close>

section \<open>State\<close>

record task_log =
  tlog_id :: int
  tlog_task_id :: row_id
  tlog_level :: string
  tlog_message :: string
  tlog_type :: string
  tlog_metadata :: "pyval option"

record task_payload =
  payload_id :: int
  payload_task_id :: row_id
  payload_kind :: string
  payload_text :: string

record projection =
  pr_db :: database
  pr_receipts :: "event_receipt list"
  pr_caches :: "string \<Rightarrow> attempt_cache"
  pr_logs :: "task_log list"
  pr_payloads :: "task_payload list"

type_synonym tool_key = "string \<times> string \<times> string"

record projector =
  pj_message_parts :: "(string \<times> string list) list"
  pj_message_log_by_agent :: "(string \<times> int) list"
  pj_reasoning_parts :: "(string \<times> string list) list"
  pj_pending_tool_log_by_id :: "(tool_key \<times> int) list"

record projector_env =
  pe_parse_time :: "string \<Rightarrow> timestamp option"
  pe_repr :: "pyval \<Rightarrow> string"
  pe_sha256 :: "string \<Rightarrow> string"
  pe_float :: "rat \<Rightarrow> string"
  pe_millis :: "int \<Rightarrow> int"
  pe_sanitize :: "string \<Rightarrow> string"
  pe_now :: timestamp

definition reset_projector :: projector where
  "reset_projector = \<lparr>pj_message_parts = [], pj_message_log_by_agent = [], pj_reasoning_parts = [], pj_pending_tool_log_by_id = []\<rparr>"


section \<open>Text\<close>

text \<open>\<^verbatim>\<open>json.dumps(value, ensure_ascii=False)\<close> as a text of characters.\<close>

definition text_quote :: "string \<Rightarrow> string" where
  "text_quote s = [CHR 0x22] @ concat (map (\<lambda>c. if of_char c < (128 :: int) then json_char c else [c]) s) @ [CHR 0x22]"

definition join_with :: "string \<Rightarrow> string list \<Rightarrow> string" where
  "join_with sep xs = (case xs of [] \<Rightarrow> [] | y # ys \<Rightarrow> y @ concat (map (\<lambda>z. sep @ z) ys))"

primrec json_dumps :: "(rat \<Rightarrow> string) \<Rightarrow> pyval \<Rightarrow> string" where
  "json_dumps fr PNone = ''null''"
| "json_dumps fr (PBool b) = (if b then ''true'' else ''false'')"
| "json_dumps fr (PInt i) = int_repr i"
| "json_dumps fr (PFloat r) = fr r"
| "json_dumps fr (PStr s) = text_quote s"
| "json_dumps fr (PList xs) = ''['' @ join_with '', '' (map (json_dumps fr) xs) @ '']''"
| "json_dumps fr (PDict d) =
     ''{'' @ join_with '', '' (map (\<lambda>(k, v). text_quote k @ '': '' @ v) (map (map_prod id (json_dumps fr)) d)) @ ''}''"

text \<open>\<^verbatim>\<open>text.split()\<close>\<close>

function py_words :: "string \<Rightarrow> string list" where
  "py_words s = (let t = dropWhile is_space s in
     if t = [] then [] else takeWhile (\<lambda>c. \<not> is_space c) t # py_words (dropWhile (\<lambda>c. \<not> is_space c) t))"
  by pat_completeness auto
termination
proof (relation "measure length", goal_cases)
  case (2 s t)
  then have "t \<noteq> []" and "\<not> is_space (hd t)" using hd_dropWhile [of is_space s] by auto
  then have "length (dropWhile (\<lambda>c. \<not> is_space c) t) < length t"
    by (cases t) (auto simp: le_imp_less_Suc length_dropWhile_le)
  also have "\<dots> \<le> length s" unfolding 2 by (rule length_dropWhile_le)
  finally show ?case by simp
qed simp

declare py_words.simps [simp del]

definition PREVIEW_LIMIT :: int where "PREVIEW_LIMIT = 120"

definition preview :: "string \<Rightarrow> string \<times> bool" where
  "preview txt = (let n = join_with '' '' (py_words txt) in (clip PREVIEW_LIMIT n, int (length n) > PREVIEW_LIMIT))"

definition text_of :: "(rat \<Rightarrow> string) \<Rightarrow> pyval \<Rightarrow> string" where
  "text_of fr v = (case v of PStr s \<Rightarrow> s | PNone \<Rightarrow> [] | _ \<Rightarrow> json_dumps fr v)"

text \<open>\<^verbatim>\<open>a or b\<close>, and \<^verbatim>\<open>d.update(items)\<close>.\<close>

definition or_value :: "pyval \<Rightarrow> pyval \<Rightarrow> pyval" where
  "or_value a b = (if py_truthy a then a else b)"

definition dict_update :: "pydict \<Rightarrow> pydict \<Rightarrow> pydict" where
  "dict_update d items = foldl (\<lambda>d (k, v). dict_set d k v) d items"

definition payload_timestamp :: "(string \<Rightarrow> timestamp option) \<Rightarrow> pydict \<Rightarrow> string \<Rightarrow> string option" where
  "payload_timestamp parse_time p k = (case dict_get p k of
     PStr s \<Rightarrow> if non_blank s \<and> parse_time (py_strip s) \<noteq> None then Some (py_strip s) else None
   | _ \<Rightarrow> None)"

definition duration_ms :: "projector_env \<Rightarrow> pyval \<Rightarrow> string \<Rightarrow> int option" where
  "duration_ms pe started_at ended_at = (case started_at of
     PStr s \<Rightarrow> (case (pe_parse_time pe s, pe_parse_time pe ended_at) of
        (Some a, Some b) \<Rightarrow> if b < a then None else Some (pe_millis pe (b - a))
      | _ \<Rightarrow> None)
   | _ \<Rightarrow> None)"

definition opt_int :: "int option \<Rightarrow> pyval" where
  "opt_int v = (case v of None \<Rightarrow> PNone | Some i \<Rightarrow> PInt i)"


section \<open>Attribution\<close>

definition ROOT_AGENT_ID :: string where "ROOT_AGENT_ID = ''root''"

text \<open>\<^verbatim>\<open>_agent_key\<close> of a payload and \<^verbatim>\<open>_row_agent_id\<close> of the metadata of a row.\<close>

definition agent_key :: "pydict \<Rightarrow> string" where
  "agent_key d = (case dict_get d ''agent'' of
     PDict a \<Rightarrow> (case dict_get a ''id'' of PStr s \<Rightarrow> if non_blank s then s else ROOT_AGENT_ID | _ \<Rightarrow> ROOT_AGENT_ID)
   | _ \<Rightarrow> ROOT_AGENT_ID)"

abbreviation row_agent_id :: "pydict \<Rightarrow> string" where "row_agent_id \<equiv> agent_key"

definition with_agent :: "pydict \<Rightarrow> pydict \<Rightarrow> pydict" where
  "with_agent p meta = (case dict_get p ''agent'' of PDict a \<Rightarrow> dict_set meta ''agent'' (PDict a) | _ \<Rightarrow> meta)"

definition with_subagent :: "pydict \<Rightarrow> pydict \<Rightarrow> pydict" where
  "with_subagent p meta = (case dict_get p ''subagent'' of PDict a \<Rightarrow> dict_set meta ''subagent'' (PDict a) | _ \<Rightarrow> meta)"

definition subagent_key :: "pydict \<Rightarrow> string" where
  "subagent_key p = (case dict_get p ''subagent'' of
     PDict a \<Rightarrow> (case dict_get a ''id'' of PStr s \<Rightarrow> s | _ \<Rightarrow> [])
   | _ \<Rightarrow> [])"

definition tool_row_key :: "pydict \<Rightarrow> string \<Rightarrow> tool_key" where
  "tool_row_key p tool = (agent_key p, tool, subagent_key p)"


section \<open>Rows\<close>

definition next_key :: "int list \<Rightarrow> int" where "next_key ids = max_default 0 ids + 1"

definition add_log :: "row_id \<Rightarrow> string \<Rightarrow> string \<Rightarrow> string \<Rightarrow> pydict \<Rightarrow> projection \<Rightarrow> projection" where
  "add_log t level message ty meta s = s\<lparr>pr_logs := pr_logs s @
     [\<lparr>tlog_id = next_key (map tlog_id (pr_logs s)), tlog_task_id = t, tlog_level = level, tlog_message = message,
       tlog_type = ty, tlog_metadata = Some (PDict meta)\<rparr>]\<rparr>"

definition create_payload :: "row_id \<Rightarrow> string \<Rightarrow> string \<Rightarrow> projection \<Rightarrow> int \<times> projection" where
  "create_payload t kind txt s = (let k = next_key (map payload_id (pr_payloads s)) in
     (k, s\<lparr>pr_payloads := pr_payloads s @ [\<lparr>payload_id = k, payload_task_id = t, payload_kind = kind, payload_text = txt\<rparr>]\<rparr>))"

definition set_metadata :: "int \<Rightarrow> pydict \<Rightarrow> projection \<Rightarrow> projection" where
  "set_metadata k meta s = s\<lparr>pr_logs := update_where (\<lambda>r. tlog_id r = k) (\<lambda>r. r\<lparr>tlog_metadata := Some (PDict meta)\<rparr>) (pr_logs s)\<rparr>"

text \<open>\<^verbatim>\<open>_message_metadata\<close> and \<^verbatim>\<open>_thinking_metadata\<close>\<close>

definition log_metadata :: "task_log \<Rightarrow> pydict" where
  "log_metadata r = (case tlog_metadata r of Some (PDict d) \<Rightarrow> d | _ \<Rightarrow> [])"

definition task_rows :: "row_id \<Rightarrow> string \<Rightarrow> projection \<Rightarrow> task_log list" where
  "task_rows t ty s = sort_key tlog_id (filter (\<lambda>r. tlog_task_id r = t \<and> tlog_type r = ty) (pr_logs s))"

definition preview_fields :: "string \<Rightarrow> pydict" where
  "preview_fields txt = [(''char_count'', PInt (int (length txt))), (''preview'', PStr (fst (preview txt))), (''truncated'', PBool (snd (preview txt)))]"

definition payload_log ::
  "projector_env \<Rightarrow> row_id \<Rightarrow> string \<Rightarrow> string \<Rightarrow> string \<Rightarrow> pydict \<Rightarrow> projection \<Rightarrow> projection" where
  "payload_log pe t kind ty txt p s = (let clean = pe_sanitize pe txt in
     if clean = [] then s
     else let (k, s1) = create_payload t kind clean s
          in add_log t ''INFO'' [] ty (with_agent p ((''payload_id'', PInt k) # preview_fields clean)) s1)"


section \<open>Live messages\<close>

definition streaming_row :: "string \<Rightarrow> string \<Rightarrow> pydict \<Rightarrow> bool" where
  "streaming_row attempt agent meta \<longleftrightarrow> dict_get meta ''attempt_id'' = PStr attempt
     \<and> dict_get meta ''streaming'' = PBool True \<and> row_agent_id meta = agent"

definition find_streaming_message_log ::
  "row_id \<Rightarrow> string \<Rightarrow> string \<Rightarrow> projection \<Rightarrow> projector \<Rightarrow> task_log option \<times> projector" where
  "find_streaming_message_log t attempt agent s m =
     (let known = (case map_of (pj_message_log_by_agent m) agent of
            None \<Rightarrow> None
          | Some k \<Rightarrow> (case row_by tlog_id k (pr_logs s) of
              None \<Rightarrow> None
            | Some r \<Rightarrow> if tlog_task_id r = t \<and> tlog_type r = ''assistant_text'' \<and> streaming_row attempt agent (log_metadata r)
                         then Some r else None))
      in case known of
           Some r \<Rightarrow> (Some r, m)
         | None \<Rightarrow>
             let m1 = m\<lparr>pj_message_log_by_agent := AList.delete agent (pj_message_log_by_agent m)\<rparr>
             in (case find (\<lambda>r. streaming_row attempt agent (log_metadata r)) (rev (task_rows t ''assistant_text'' s)) of
                   None \<Rightarrow> (None, m1)
                 | Some r \<Rightarrow> (Some r, m1\<lparr>pj_message_log_by_agent := AList.update agent (tlog_id r) (pj_message_log_by_agent m1)\<rparr>)))"

definition project_message_delta ::
  "projector_env \<Rightarrow> row_id \<Rightarrow> string \<Rightarrow> pydict \<Rightarrow> string \<Rightarrow> projection \<Rightarrow> projector \<Rightarrow> projection \<times> projector" where
  "project_message_delta pe t attempt p occurred_at s m =
     (let agent = agent_key p; delta = or_value (dict_get p ''text'') (dict_get p ''content'');
          parts = (case map_of (pj_message_parts m) agent of None \<Rightarrow> [] | Some xs \<Rightarrow> xs) @ [text_of (pe_float pe) delta];
          m1 = m\<lparr>pj_message_parts := AList.update agent parts (pj_message_parts m)\<rparr>;
          txt = pe_sanitize pe (concat parts)
      in if txt = [] then (s, m1)
         else (case find_streaming_message_log t attempt agent s m1 of
             (None, m2) \<Rightarrow>
               let meta = with_agent p ([(''attempt_id'', PStr attempt), (''streaming'', PBool True), (''started_at'', PStr occurred_at)]
                            @ preview_fields txt);
                   k = next_key (map tlog_id (pr_logs s))
               in (add_log t ''INFO'' [] ''assistant_text'' meta s,
                   m2\<lparr>pj_message_log_by_agent := AList.update agent k (pj_message_log_by_agent m2)\<rparr>)
           | (Some r, m2) \<Rightarrow>
               (set_metadata (tlog_id r) (dict_update (log_metadata r) ((''streaming'', PBool True) # preview_fields txt)) s, m2)))"

definition dict_pop :: "pydict \<Rightarrow> string \<Rightarrow> pydict" where
  "dict_pop d k = filter (\<lambda>(k', v). k' \<noteq> k) d"

text \<open>The payload of a finished text and the metadata fields that refer to it.\<close>

definition body_fields :: "projector_env \<Rightarrow> row_id \<Rightarrow> string \<Rightarrow> string \<Rightarrow> projection \<Rightarrow> pydict \<times> projection" where
  "body_fields pe t kind txt s = (let clean = pe_sanitize pe txt in
     if clean \<noteq> [] then let (k, s1) = create_payload t kind clean s in ((''payload_id'', PInt k) # preview_fields clean, s1)
     else ([(''payload_id'', PNone), (''char_count'', PInt 0), (''preview'', PStr []), (''truncated'', PBool False)], s))"

definition finalize_message_log ::
  "projector_env \<Rightarrow> row_id \<Rightarrow> task_log \<Rightarrow> string \<Rightarrow> pydict \<Rightarrow> projection \<Rightarrow> projection" where
  "finalize_message_log pe t r txt p s = (let (fields, s1) = body_fields pe t ''assistant_text'' txt s in
     set_metadata (tlog_id r) (with_agent p (dict_pop (dict_update (log_metadata r) fields) ''streaming'')) s1)"

definition project_message_completed ::
  "projector_env \<Rightarrow> row_id \<Rightarrow> string \<Rightarrow> pydict \<Rightarrow> projection \<Rightarrow> projector \<Rightarrow> projection \<times> projector" where
  "project_message_completed pe t attempt p s m =
     (let agent = agent_key p; buffered = (case map_of (pj_message_parts m) agent of None \<Rightarrow> [] | Some xs \<Rightarrow> xs);
          m1 = m\<lparr>pj_message_parts := AList.delete agent (pj_message_parts m)\<rparr>;
          own = text_of (pe_float pe) (dict_get p ''text''); txt = (if own \<noteq> [] then own else concat buffered)
      in case find_streaming_message_log t attempt agent s m1 of
           (Some r, m2) \<Rightarrow> (finalize_message_log pe t r txt p s,
                            m2\<lparr>pj_message_log_by_agent := AList.delete agent (pj_message_log_by_agent m2)\<rparr>)
         | (None, m2) \<Rightarrow> (payload_log pe t ''assistant_text'' ''assistant_text'' txt p s, m2))"

text \<open>The loop of \<^verbatim>\<open>_interrupt_streaming_messages\<close> over the rows read before it.\<close>

definition interrupt_message :: "string \<Rightarrow> projection \<times> projector \<Rightarrow> task_log \<Rightarrow> projection \<times> projector" where
  "interrupt_message attempt sm r = (case sm of (s, m) \<Rightarrow>
     (let meta = log_metadata r in
      if dict_get meta ''attempt_id'' \<noteq> PStr attempt \<or> dict_get meta ''streaming'' \<noteq> PBool True then (s, m)
      else let meta' = dict_update meta [(''streaming'', PBool False), (''interrupted'', PBool True)]
           in (set_metadata (tlog_id r) meta' s,
               if map_of (pj_message_log_by_agent m) (row_agent_id meta') = Some (tlog_id r)
               then m\<lparr>pj_message_log_by_agent := AList.delete (row_agent_id meta') (pj_message_log_by_agent m)\<rparr> else m)))"

definition interrupt_streaming_messages ::
  "row_id \<Rightarrow> string \<Rightarrow> projection \<Rightarrow> projector \<Rightarrow> projection \<times> projector" where
  "interrupt_streaming_messages t attempt s m = foldl (interrupt_message attempt) (s, m) (task_rows t ''assistant_text'' s)"


section \<open>Reasoning blocks\<close>

definition find_thinking_row :: "row_id \<Rightarrow> string \<Rightarrow> pyval \<Rightarrow> string \<Rightarrow> projection \<Rightarrow> task_log option" where
  "find_thinking_row t attempt reasoning agent s =
     find (\<lambda>r. let meta = log_metadata r in dict_get meta ''attempt_id'' = PStr attempt
             \<and> dict_get meta ''reasoning_id'' = reasoning \<and> row_agent_id meta = agent) (task_rows t ''thinking'' s)"

definition interrupt_fields :: "string \<Rightarrow> pydict" where
  "interrupt_fields observed_at = [(''status'', PStr ''interrupted''), (''ended_at'', PStr observed_at), (''duration_ms'', PNone)]"

definition interrupt_thinking_rows :: "row_id \<Rightarrow> string \<Rightarrow> string \<Rightarrow> projection \<Rightarrow> projection" where
  "interrupt_thinking_rows t attempt observed_at s =
     s\<lparr>pr_logs := update_where
        (\<lambda>r. tlog_task_id r = t \<and> tlog_type r = ''thinking'' \<and> dict_get (log_metadata r) ''attempt_id'' = PStr attempt
             \<and> dict_get (log_metadata r) ''status'' = PStr ''in_progress'')
        (\<lambda>r. r\<lparr>tlog_metadata := Some (PDict (dict_update (log_metadata r) (interrupt_fields observed_at)))\<rparr>) (pr_logs s)\<rparr>"

definition finalize_thinking_row ::
  "projector_env \<Rightarrow> row_id \<Rightarrow> task_log \<Rightarrow> string \<Rightarrow> string \<Rightarrow> projection \<Rightarrow> projection" where
  "finalize_thinking_row pe t r txt occurred_at s =
     (let (fields, s1) = body_fields pe t ''thinking'' txt s;
          meta = dict_update (dict_update (log_metadata r) fields)
            [(''status'', PStr ''completed''), (''ended_at'', PStr occurred_at),
             (''duration_ms'', opt_int (duration_ms pe (dict_get (log_metadata r) ''started_at'') occurred_at))]
      in set_metadata (tlog_id r) meta s1)"

definition project_reasoning_started ::
  "projector_env \<Rightarrow> row_id \<Rightarrow> string \<Rightarrow> pydict \<Rightarrow> string \<Rightarrow> projection \<Rightarrow> projection" where
  "project_reasoning_started pe t attempt p occurred_at s =
     (let reasoning = str_or_empty (pe_repr pe) (dict_get p ''reasoning_id'') in
      if find_thinking_row t attempt (PStr reasoning) (agent_key p) s \<noteq> None then s
      else add_log t ''INFO'' [] ''thinking'' (with_agent p
        [(''attempt_id'', PStr attempt), (''reasoning_id'', PStr reasoning), (''status'', PStr ''in_progress''),
         (''started_at'', PStr occurred_at), (''ended_at'', PNone), (''duration_ms'', PNone), (''payload_id'', PNone),
         (''preview'', PStr []), (''char_count'', PInt 0), (''truncated'', PBool False)]) s)"

definition project_reasoning_completed ::
  "projector_env \<Rightarrow> row_id \<Rightarrow> string \<Rightarrow> pydict \<Rightarrow> string \<Rightarrow> projection \<Rightarrow> projector \<Rightarrow> projection \<times> projector" where
  "project_reasoning_completed pe t attempt p occurred_at s m =
     (let reasoning = dict_get p ''reasoning_id''; agent = agent_key p; own = text_of (pe_float pe) (dict_get p ''text'')
      in case (if identity_text reasoning then find_thinking_row t attempt reasoning agent s else None) of
           Some r \<Rightarrow> (if dict_get (log_metadata r) ''status'' \<noteq> PStr ''completed''
                      then finalize_thinking_row pe t r own occurred_at s else s, m)
         | None \<Rightarrow>
             let buffered = (if own \<noteq> [] then [] else case map_of (pj_reasoning_parts m) agent of None \<Rightarrow> [] | Some xs \<Rightarrow> xs);
                 m1 = (if own \<noteq> [] then m else m\<lparr>pj_reasoning_parts := AList.delete agent (pj_reasoning_parts m)\<rparr>);
                 txt = (if own \<noteq> [] then own else concat buffered)
             in (if txt = [] then add_log t ''WARNING'' ''Canonical reasoning completion has no matching start'' ''diagnostic''
                   (with_agent p [(''code'', PStr ''reasoning_start_missing''),
                      (''reasoning_id'', case reasoning of PStr _ \<Rightarrow> reasoning | _ \<Rightarrow> PNone)]) s
                 else payload_log pe t ''thinking'' ''thinking'' txt p s, m1))"

definition project_reasoning_interrupted :: "row_id \<Rightarrow> string \<Rightarrow> pydict \<Rightarrow> string \<Rightarrow> projection \<Rightarrow> projection" where
  "project_reasoning_interrupted t attempt p occurred_at s =
     (let reasoning = dict_get p ''reasoning_id'' in
      if \<not> identity_text reasoning then s
      else (case find_thinking_row t attempt reasoning (agent_key p) s of
          None \<Rightarrow> s
        | Some r \<Rightarrow> if dict_get (log_metadata r) ''status'' = PStr ''in_progress''
            then set_metadata (tlog_id r) (dict_update (log_metadata r) (interrupt_fields occurred_at)) s else s))"


section \<open>Tools\<close>

definition project_tool_started ::
  "projector_env \<Rightarrow> row_id \<Rightarrow> pydict \<Rightarrow> string \<Rightarrow> projection \<Rightarrow> projector \<Rightarrow> projection \<times> projector" where
  "project_tool_started pe t p occurred_at s m =
     (let tool = str_or_empty (pe_repr pe) (dict_get p ''tool_id''); name = str_or_empty (pe_repr pe) (dict_get p ''name'');
          inp = or_value (dict_get p ''input'') (PDict []); txt = pe_sanitize pe (text_of (pe_float pe) inp);
          (body, s1) = create_payload t ''tool_input'' txt s; native = payload_timestamp (pe_parse_time pe) p ''started_at'';
          meta = with_subagent p (with_agent p
            [(''tool_use_id'', PStr tool), (''name'', PStr name),
             (''started_at'', PStr (case native of None \<Rightarrow> occurred_at | Some v \<Rightarrow> v)),
             (''duration_source'', PStr (if native \<noteq> None then ''native'' else ''observed'')), (''input'', inp),
             (''input_payload_id'', PInt body), (''input_preview'', PStr (fst (preview txt))), (''input_truncated'', PBool (snd (preview txt)))]);
          k = next_key (map tlog_id (pr_logs s1))
      in (add_log t ''INFO'' (''Tool call: '' @ name) ''tool_call'' meta s1,
          if tool \<noteq> [] then m\<lparr>pj_pending_tool_log_by_id := AList.update (tool_row_key p tool) k (pj_pending_tool_log_by_id m)\<rparr> else m))"

text \<open>The metadata of a tool row; a row whose text does not parse is skipped, one that is not an object raises.\<close>

fun settle_rows :: "task_log list \<Rightarrow> projection \<Rightarrow> (string, projection) result" where
  "settle_rows [] s = Inr s"
| "settle_rows (r # rs) s = (case tlog_metadata r of
     None \<Rightarrow> settle_rows rs s
   | Some (PDict meta) \<Rightarrow> (case dict_get meta ''subagent'' of
       PDict sub \<Rightarrow> if py_truthy (dict_get sub ''status'') then settle_rows rs s
         else settle_rows rs (set_metadata (tlog_id r) (dict_set meta ''subagent'' (PDict (dict_set sub ''status'' (PStr ''cancelled'')))) s)
     | _ \<Rightarrow> settle_rows rs s)
   | Some _ \<Rightarrow> Inl ''AttributeError'')"

definition settle_open_delegations :: "row_id \<Rightarrow> projection \<Rightarrow> (string, projection) result" where
  "settle_open_delegations t s = settle_rows (task_rows t ''tool_call'' s) s"

definition same_tool :: "string \<Rightarrow> string \<Rightarrow> pydict \<Rightarrow> bool" where
  "same_tool tool agent meta \<longleftrightarrow> dict_get meta ''tool_use_id'' = PStr tool \<and> row_agent_id meta = agent"

definition stored_subagent_is :: "string \<Rightarrow> pydict \<Rightarrow> bool" where
  "stored_subagent_is sub meta =
     (let v = (case dict_get meta ''subagent'' of PDict d \<Rightarrow> dict_get d ''id'' | _ \<Rightarrow> PStr [])
      in or_value v (PStr []) = PStr sub)"

fun match_tool_rows :: "string \<Rightarrow> string \<Rightarrow> string \<Rightarrow> task_log list \<Rightarrow> task_log list \<Rightarrow> (string, task_log option) result" where
  "match_tool_rows tool agent sub [] found = Inr (case found of [r] \<Rightarrow> Some r | _ \<Rightarrow> None)"
| "match_tool_rows tool agent sub (r # rs) found = (case tlog_metadata r of
     None \<Rightarrow> match_tool_rows tool agent sub rs found
   | Some (PDict meta) \<Rightarrow>
       if \<not> same_tool tool agent meta then match_tool_rows tool agent sub rs found
       else if stored_subagent_is sub meta then Inr (Some r)
       else match_tool_rows tool agent sub rs (found @ [r])
   | Some _ \<Rightarrow> Inl ''AttributeError'')"

definition find_tool_log ::
  "row_id \<Rightarrow> string \<Rightarrow> string \<Rightarrow> string \<Rightarrow> projection \<Rightarrow> projector \<Rightarrow> (string, task_log option) result \<times> projector" where
  "find_tool_log t tool agent sub s m =
     (let pend = pj_pending_tool_log_by_id m;
          hit = (if map_of pend (agent, tool, sub) \<noteq> None then Some (agent, tool, sub)
                 else (case filter (\<lambda>(a, u, b). a = agent \<and> u = tool) (map fst pend) of [k] \<Rightarrow> Some k | _ \<Rightarrow> None))
      in case hit of
           Some k \<Rightarrow> (Inr (case map_of pend k of None \<Rightarrow> None | Some i \<Rightarrow> row_by tlog_id i (pr_logs s)),
                      m\<lparr>pj_pending_tool_log_by_id := AList.delete k pend\<rparr>)
         | None \<Rightarrow> (match_tool_rows tool agent sub (take 100 (rev (task_rows t ''tool_call'' s))) [], m))"

definition with_duration :: "int option \<Rightarrow> pydict \<Rightarrow> pydict" where
  "with_duration v meta = (case v of None \<Rightarrow> meta | Some ms \<Rightarrow> dict_set meta ''duration_ms'' (PInt ms))"

definition tool_completed_metadata ::
  "projector_env \<Rightarrow> row_id \<Rightarrow> pydict \<Rightarrow> string \<Rightarrow> pydict \<Rightarrow> projection \<Rightarrow> pydict \<times> projection" where
  "tool_completed_metadata pe t p occurred_at meta0 s =
     (let raw = dict_get p ''output'';
          meta1 = dict_set meta0 ''error'' (PBool (py_truthy (if has_key p ''error'' then dict_get p ''error'' else PBool False)));
          (meta2, s1) = (case raw of
             PStr o_text \<Rightarrow> if o_text \<noteq> [] then
                 let clean = pe_sanitize pe o_text; (k, s1) = create_payload t ''tool_output'' clean s
                 in (dict_update meta1 [(''output_payload_id'', PInt k), (''output_truncated'', PBool (int (length clean) > 500)),
                       (''output_char_count'', PInt (int (length clean)))], s1)
               else (meta1, s)
           | _ \<Rightarrow> (meta1, s));
          meta3 = with_subagent p meta2; native = payload_timestamp (pe_parse_time pe) p ''ended_at'';
          ended = (case native of None \<Rightarrow> occurred_at | Some v \<Rightarrow> v);
          meta4 = dict_set meta3 ''ended_at'' (PStr ended);
          meta5 = dict_set meta4 ''duration_source'' (PStr (if dict_get meta4 ''duration_source'' = PStr ''native'' \<and> native \<noteq> None
                     then ''native'' else ''observed''));
          meta6 = with_duration (duration_ms pe (dict_get meta5 ''started_at'') ended) meta5;
          meta7 = (if dict_get p ''exit_code'' \<noteq> PNone then dict_set meta6 ''exit_code'' (dict_get p ''exit_code'') else meta6);
          meta8 = (if py_truthy (dict_get p ''error_message'')
                   then dict_set meta7 ''error_message'' (PStr (pe_sanitize pe (py_str (pe_repr pe) (dict_get p ''error_message'')))) else meta7)
      in (meta8, s1))"

definition project_tool_completed ::
  "projector_env \<Rightarrow> row_id \<Rightarrow> pydict \<Rightarrow> string \<Rightarrow> projection \<Rightarrow> projector \<Rightarrow> (string, projection) result \<times> projector" where
  "project_tool_completed pe t p occurred_at s m =
     (let tool = str_or_empty (pe_repr pe) (dict_get p ''tool_id'') in
      case find_tool_log t tool (agent_key p) (subagent_key p) s m of
        (Inl e, m1) \<Rightarrow> (Inl e, m1)
      | (Inr None, m1) \<Rightarrow>
          (Inr (add_log t ''WARNING'' ''Canonical tool completion has no matching start'' ''diagnostic''
             (with_agent p [(''code'', PStr ''tool_start_missing''), (''tool_id'', PStr tool)]) s), m1)
      | (Inr (Some r), m1) \<Rightarrow> (case tlog_metadata r of
          Some (PDict meta) \<Rightarrow>
            let (meta', s1) = tool_completed_metadata pe t p occurred_at meta s in (Inr (set_metadata (tlog_id r) meta' s1), m1)
        | None \<Rightarrow> (Inl ''JSONDecodeError'', m1)
        | Some _ \<Rightarrow> (Inl ''TypeError'', m1)))"


section \<open>Control and warnings\<close>

definition command_display_fields :: "projector_env \<Rightarrow> row_id \<Rightarrow> string \<Rightarrow> pydict \<Rightarrow> database \<Rightarrow> pydict" where
  "command_display_fields pe t attempt p d = (case (dict_get p ''sequence_no'', dict_get p ''payload_digest'') of
     (PInt k, PStr digest) \<Rightarrow>
       (case filter (\<lambda>c. cmd_task_id c = t \<and> cmd_attempt_id c = attempt \<and> cmd_sequence_no c = k) (commands d) of
          [] \<Rightarrow> []
        | c # _ \<Rightarrow> if cmd_payload_digest c \<noteq> digest then []
            else [(''command_type'', PStr (cmd_type c))] @
                 (case dict_get (cmd_payload c) ''text'' of PStr x \<Rightarrow> [(''text'', PStr (pe_sanitize pe x))] | _ \<Rightarrow> []))
   | _ \<Rightarrow> [])"

definition sanitize_queue_item :: "projector_env \<Rightarrow> pyval \<Rightarrow> pyval" where
  "sanitize_queue_item pe v = (let entry = (case v of PDict d \<Rightarrow> d | _ \<Rightarrow> [(''text'', v)]) in
     PDict (case dict_get entry ''text'' of PStr x \<Rightarrow> dict_set entry ''text'' (PStr (pe_sanitize pe x)) | _ \<Rightarrow> entry))"

definition control_metadata :: "projector_env \<Rightarrow> row_id \<Rightarrow> string \<Rightarrow> string \<Rightarrow> pydict \<Rightarrow> database \<Rightarrow> pydict" where
  "control_metadata pe t attempt ty p d =
     (let p1 = (case dict_get p ''queue'' of
            PList xs \<Rightarrow> if ty = ''control.queue.updated'' then dict_set p ''queue'' (PList (map (sanitize_queue_item pe) xs)) else p
          | _ \<Rightarrow> p);
          p2 = (if ty = ''control.command.delivered'' \<or> ty = ''control.command.rejected''
                then dict_update p1 (command_display_fields pe t attempt p d) else p1)
      in dict_update [(''type'', PStr ty)] p2)"

text \<open>\<^verbatim>\<open>tuple(value or ())\<close>\<close>

definition tuple_of :: "pyval \<Rightarrow> (string, pyval) result" where
  "tuple_of v = (if \<not> py_truthy v then Inr (PList []) else case v of
     PList xs \<Rightarrow> Inr (PList xs) | PStr x \<Rightarrow> Inr (PList (map (\<lambda>c. PStr [c]) x)) | PDict d \<Rightarrow> Inr (PList (map (PStr \<circ> fst) d))
   | _ \<Rightarrow> Inl ''TypeError'')"

definition drift_fields :: "(rat \<Rightarrow> string) \<Rightarrow> pydict \<Rightarrow> (string, pyval list) result" where
  "drift_fields fr d = bind_result (tuple_of (dict_get d ''reason_codes'')) (\<lambda>reasons.
     Inr [reasons, PStr (json_dumps fr (or_value (dict_get d ''baseline'') (PDict []))),
          PStr (json_dumps fr (or_value (dict_get d ''actual'') (PDict [])))])"

definition runtime_warning_key :: "(rat \<Rightarrow> string) \<Rightarrow> pyval \<Rightarrow> (string, pyval option) result" where
  "runtime_warning_key fr v = (case v of
     PDict d \<Rightarrow>
       let code = dict_get d ''code'' in
       if code = PStr ''worker_kit_runtime_drift_warning'' then
         bind_result (drift_fields fr d) (\<lambda>fs. Inr (Some (PList (code # fs))))
       else if code = PStr ''optional_harness_unavailable'' then
         Inr (Some (PList [code, dict_get d ''harness_key'', dict_get d ''reason_code'']))
       else if code = PStr ''optional_runtime_tool_missing'' then Inr (Some (PList [code, dict_get d ''tool'']))
       else if code = PStr ''worker_adapter_runtime_drift_warning'' then
         bind_result (drift_fields fr d) (\<lambda>fs. Inr (Some (PList (code # dict_get d ''harness_key'' # fs))))
       else Inr None
   | _ \<Rightarrow> Inr None)"

fun warning_exists :: "(rat \<Rightarrow> string) \<Rightarrow> pyval \<Rightarrow> task_log list \<Rightarrow> (string, bool) result" where
  "warning_exists fr key [] = Inr False"
| "warning_exists fr key (r # rs) = (case tlog_metadata r of
     None \<Rightarrow> Inl ''JSONDecodeError''
   | Some v \<Rightarrow> bind_result (runtime_warning_key fr v) (\<lambda>k.
       if (case k of None \<Rightarrow> False | Some k' \<Rightarrow> py_eq k' key) then Inr True else warning_exists fr key rs))"

definition project_diagnostic :: "projector_env \<Rightarrow> row_id \<Rightarrow> string \<Rightarrow> pydict \<Rightarrow> projection \<Rightarrow> (string, projection) result" where
  "project_diagnostic pe t attempt p s =
     bind_result (if dict_get p ''code'' = PStr ''pi_follow_up_turn_started'' then
          (let opt = (\<lambda>v. case v of PNone \<Rightarrow> Inr None | PStr x \<Rightarrow> Inr (Some x) | _ \<Rightarrow> Inl ''DataError'') in
           bind_result (opt (dict_get p ''command_id'')) (\<lambda>c. bind_result (opt (dict_get p ''native_id'')) (\<lambda>n.
           Inr (s\<lparr>pr_db := snd (reopen_control_after_native_turn_start attempt c n (pr_db s))\<rparr>))))
        else Inr s) (\<lambda>s1.
     bind_result (runtime_warning_key (pe_float pe) (PDict p)) (\<lambda>key. (case key of
        None \<Rightarrow> Inr (add_log t ''WARNING'' (py_str (pe_repr pe) (or_value (dict_get p ''message'')
                 (or_value (dict_get p ''code'') (PStr ''diagnostic'')))) ''diagnostic'' p s1)
      | Some k \<Rightarrow>
          bind_result (warning_exists (pe_float pe) k (filter (\<lambda>r. tlog_task_id r = t \<and> tlog_type r = ''runtime_warning'') (pr_logs s1))) (\<lambda>b.
          Inr (if b then s1 else add_log t ''WARNING'' (py_str (pe_repr pe) (or_value (dict_get p ''message'')
                 (or_value (dict_get p ''code'') (PStr ''Runtime warning'')))) ''runtime_warning'' p s1)))))"


section \<open>One event record\<close>

definition compact_keys :: "string list" where
  "compact_keys = [''session_id'', ''reason'', ''aborted'', ''will_retry'', ''tokens_before'', ''estimated_tokens_after'',
     ''auto'', ''overflow'', ''tail_start_id'', ''summary'']"

text \<open>The control gate and the rows left open, at the settled signal and at the end of an attempt.\<close>

definition project_gate ::
  "projector_env \<Rightarrow> row_id \<Rightarrow> string \<Rightarrow> string \<Rightarrow> projection \<Rightarrow> projector \<Rightarrow> (string, projection) result \<times> projector" where
  "project_gate pe t attempt ty s m =
     (if ty = ''agent_settled'' then (Inr (s\<lparr>pr_db := snd (begin_control_drain attempt (pr_db s))\<rparr>), m)
      else if ty = ''run.completed'' \<or> ty = ''run.failed'' then
        let s1 = s\<lparr>pr_db := close_control_gate (pe_now pe) attempt (pr_db s)\<rparr>
        in if ty = ''run.failed'' then (case settle_open_delegations t s1 of
               Inl e \<Rightarrow> (Inl e, m)
             | Inr s2 \<Rightarrow> (case interrupt_streaming_messages t attempt s2 m of (s3, m1) \<Rightarrow> (Inr s3, m1)))
           else (Inr s1, m)
      else (Inr s, m))"

definition project_event ::
  "projector_env \<Rightarrow> row_id \<Rightarrow> string \<Rightarrow> string \<Rightarrow> pydict \<Rightarrow> string \<Rightarrow> projection \<Rightarrow> projector
   \<Rightarrow> (string, projection) result \<times> projector" where
  "project_event pe t attempt ty p occurred_at s m =
     (if ty = ''model.resolved'' then
        (Inr (add_log t ''INFO'' [] ''system_init'' [(''model'', dict_get p ''model''), (''session_id'', dict_get p ''session_id'')] s), m)
      else if ty = ''message.delta'' then map_prod Inr id (project_message_delta pe t attempt p occurred_at s m)
      else if ty = ''message.completed'' then map_prod Inr id (project_message_completed pe t attempt p s m)
      else if ty = ''reasoning_summary.delta'' then
        (Inr s, m\<lparr>pj_reasoning_parts := AList.update (agent_key p)
           ((case map_of (pj_reasoning_parts m) (agent_key p) of None \<Rightarrow> [] | Some xs \<Rightarrow> xs) @ [text_of (pe_float pe) (dict_get p ''text'')])
           (pj_reasoning_parts m)\<rparr>)
      else if ty = ''reasoning_summary.started'' then (Inr (project_reasoning_started pe t attempt p occurred_at s), m)
      else if ty = ''reasoning_summary.completed'' then map_prod Inr id (project_reasoning_completed pe t attempt p occurred_at s m)
      else if ty = ''reasoning_summary.interrupted'' then (Inr (project_reasoning_interrupted t attempt p occurred_at s), m)
      else if ty = ''tool.started'' then map_prod Inr id (project_tool_started pe t p occurred_at s m)
      else if ty = ''tool.completed'' then project_tool_completed pe t p occurred_at s m
      else if ty = ''context.compacted'' then
        (Inr (add_log t ''INFO'' [] ''context_compact'' (with_agent p
           (map (\<lambda>k. (k, dict_get p k)) (filter (\<lambda>k. dict_get p k \<noteq> PNone) compact_keys))) s), m)
      else if ty = ''harness.completed'' \<or> ty = ''harness.failed'' then
        (case interrupt_streaming_messages t attempt (interrupt_thinking_rows t attempt occurred_at s) m of (s1, m1) \<Rightarrow>
           (Inr (add_log t (if ty = ''harness.completed'' then ''INFO'' else ''ERROR'') [] ''harness_result''
              (dict_update [(''type'', PStr ty)] p) s1), m1))
      else if ty = ''usage.final'' then (Inr (add_log t ''INFO'' [] ''usage_final'' p s), m)
      else if ty = ''worker.finalization'' then (Inr (add_log t ''INFO'' [] ''worker_finalization'' p s), m)
      else if ty = ''run.completed'' \<or> ty = ''run.failed'' then
        (Inr (add_log t (if ty = ''run.completed'' then ''INFO'' else ''ERROR'') [] ''run_result''
           (dict_update [(''type'', PStr ty)] p) s), m)
      else if ty \<in> set CONTROL_EVENT_TYPES then
        (Inr (add_log t ''INFO'' [] ''control_event'' (control_metadata pe t attempt ty p (pr_db s)) s), m)
      else if ty = ''agent_settled'' then
        (Inr (add_log t ''INFO'' [] ''control_event'' (dict_update [(''type'', PStr ty)] p) s), m)
      else if ty = ''diagnostic'' then (project_diagnostic pe t attempt p s, m)
      else (Inr s, m))"

definition ingest_event_record ::
  "projector_env \<Rightarrow> row_id \<Rightarrow> pydict \<Rightarrow> projection \<Rightarrow> projector \<Rightarrow> (string, bool \<times> projection) result \<times> projector" where
  "ingest_event_record pe t e s m =
     (case validate_event_by_schema (pe_parse_time pe) (pe_repr pe) e of
        Inl err \<Rightarrow> (Inl err, m)
      | Inr n \<Rightarrow>
          if ev_task n \<noteq> t then (Inl protocol_error, m)
          else (case ingest_canonical_event (pe_parse_time pe) (pe_repr pe) (pe_sha256 pe) (pe_float pe) (pe_now pe)
                      (pr_caches s (ev_attempt n)) (pr_db s) (pr_receipts s) n of
              (Inl err, c) \<Rightarrow> (Inl err, m)
            | (Inr (res, d, rs), c) \<Rightarrow>
                let s1 = s\<lparr>pr_db := d, pr_receipts := rs, pr_caches := (pr_caches s)(ev_attempt n := c)\<rparr>
                in if ingest_duplicate res then (Inr (False, s1), m)
                   else (case project_gate pe t (ev_attempt n) (ev_type n) s1 m of
                       (Inl err, m1) \<Rightarrow> (Inl err, m1)
                     | (Inr s2, m1) \<Rightarrow>
                         (case project_event pe t (ev_attempt n) (ev_type n) (ev_dict n ''payload'') (ev_str n ''occurred_at'') s2 m1 of
                            (Inl err, m2) \<Rightarrow> (Inl err, m2)
                          | (Inr s3, m2) \<Rightarrow> (Inr (True, s3), m2)))))"


section \<open>The control gate keeps the ledger\<close>

definition ledger_columns where
  "ledger_columns a = (attempt_id a, attempt_task_id a, attempt_event_schema a, attempt_harness_key a, attempt_adapter_version a,
     attempt_cli_version a, attempt_last_seq a, attempt_terminal_event_id a, attempt_terminal_event_type a)"

lemma attempt_ledger_cong:
  assumes "ledger_columns b = ledger_columns a"
  shows "attempt_ledger parse_time rp digest_of rs b \<longleftrightarrow> attempt_ledger parse_time rp digest_of rs a"
proof -
  have m: "match_frozen_attempt b n = Inr b \<longleftrightarrow> match_frozen_attempt a n = Inr a" for n
    using assms match_frozen_cong [of a b n] match_frozen_cong [of b a n] by (auto simp: ledger_columns_def)
  have ids: "attempt_id b = attempt_id a" "attempt_terminal_event_id b = attempt_terminal_event_id a"
    "attempt_terminal_event_type b = attempt_terminal_event_type a" "attempt_last_seq b = attempt_last_seq a"
    using assms by (simp_all add: ledger_columns_def)
  show ?thesis unfolding attempt_ledger_def m ids ..
qed

lemma ledger_ok_cong:
  assumes "map ledger_columns (attempts d') = map ledger_columns (attempts d)"
  shows "ledger_ok parse_time rp digest_of d' rs \<longleftrightarrow> ledger_ok parse_time rp digest_of d rs"
proof -
  have len: "length (attempts d') = length (attempts d)" by (metis assms length_map)
  have nth: "ledger_columns (attempts d' ! i) = ledger_columns (attempts d ! i)" if "i < length (attempts d)" for i
    using assms that len by (metis nth_map)
  have "map attempt_id (attempts d') = map attempt_id (attempts d)"
    using len nth by (auto simp: list_eq_iff_nth_eq ledger_columns_def)
  moreover have "list_all (attempt_ledger parse_time rp digest_of rs) (attempts d')
      \<longleftrightarrow> list_all (attempt_ledger parse_time rp digest_of rs) (attempts d)"
    unfolding list_all_length len using attempt_ledger_cong [OF nth] by blast
  ultimately show ?thesis by (simp only: ledger_ok_def)
qed

lemma cas_keeps_attempts [simp]: "attempts (snd (cas_command test write_row k d)) = attempts d"
  by (simp add: cas_command_def put_command_def split: option.split)

lemma gate_logs_keep_attempts [simp]:
  "attempts (reject_pending now d c) = attempts d" "attempts (forget_dispatching now d c) = attempts d"
  by (simp_all add: reject_pending_def forget_dispatching_def write_command_rejection_def write_command_outcome_unknown_def
      add_rejected_command_log_def log_control_def case_prod_beta Let_def)

lemma foldl_keep_attempts:
  assumes "\<And>d x. attempts (f d x) = attempts d"
  shows "attempts (foldl f d xs) = attempts d"
  using assms by (induction xs arbitrary: d) auto

lemma update_keeps_ledger_columns:
  assumes "\<And>r. ledger_columns (f r) = ledger_columns r"
  shows "map ledger_columns (update_where P f rows) = map ledger_columns rows"
  using assms by (induction rows) auto

lemma gate_keeps_ledger_columns:
  "map ledger_columns (attempts (snd (begin_control_drain k d))) = map ledger_columns (attempts d)"
  "map ledger_columns (attempts (close_control_gate now k d)) = map ledger_columns (attempts d)"
  "map ledger_columns (attempts (snd (reopen_control_after_native_turn_start k c n d))) = map ledger_columns (attempts d)"
  by (auto simp: begin_control_drain_def close_control_gate_def reopen_control_after_native_turn_start_def put_attempt_def Let_def
      foldl_keep_attempts ledger_columns_def intro!: update_keeps_ledger_columns split: option.split)


lemma get_attempt_columns:
  assumes "map ledger_columns (attempts d') = map ledger_columns (attempts d)"
  shows "map_option ledger_columns (get_attempt d' k) = map_option ledger_columns (get_attempt d k)"
proof -
  have "map_option ledger_columns (row_by attempt_id k xs) = map_option ledger_columns (row_by attempt_id k ys)"
    if "map ledger_columns xs = map ledger_columns ys" for xs ys
    using that
  proof (induction xs arbitrary: ys)
    case (Cons x xs)
    then obtain y zs where ys: "ys = y # zs" "ledger_columns x = ledger_columns y" "map ledger_columns xs = map ledger_columns zs"
      by (auto simp: map_eq_Cons_conv Cons_eq_map_conv)
    have "attempt_id x = attempt_id y" using ys(2) by (simp add: ledger_columns_def)
    with Cons.IH [OF ys(3)] ys show ?case by simp
  qed simp
  then show ?thesis using assms by (simp add: get_attempt_def)
qed

text \<open>An event whose receipt is in the table is a duplicate, whatever the gate did since.\<close>

lemma duplicate_ingest:
  assumes "distinct (map attempt_id (attempts d))" "get_attempt d (ev_attempt n) = Some a" "match_frozen_attempt a n = Inr a"
    and "get_receipt rs (ev_attempt n) (ev_seq n) = Some x" "receipt_event_id x = ev_id n" "receipt_event_digest x = digest_of (PDict n)"
  shows "ingest_normalized digest_of now c d rs n = (Inr (\<lparr>ingest_event = n, ingest_attempt = a, ingest_duplicate = True\<rparr>, d, rs), c)"
proof -
  have "attempt_id a = ev_attempt n" using assms(2) by (auto simp: get_attempt_def dest: row_by_SomeD)
  then show ?thesis using put_same_attempt [OF assms(1,2)] assms by (simp add: ingest_normalized_def Let_def)
qed


section \<open>What the handlers leave alone\<close>

lemma row_writes_frame [simp]:
  "pr_db (add_log t level msg ty meta s) = pr_db s" "pr_receipts (add_log t level msg ty meta s) = pr_receipts s"
  "pr_caches (add_log t level msg ty meta s) = pr_caches s"
  "pr_db (set_metadata k meta s) = pr_db s" "pr_receipts (set_metadata k meta s) = pr_receipts s"
  "pr_caches (set_metadata k meta s) = pr_caches s"
  "pr_db (snd (create_payload t kind txt s)) = pr_db s" "pr_receipts (snd (create_payload t kind txt s)) = pr_receipts s"
  "pr_caches (snd (create_payload t kind txt s)) = pr_caches s"
  by (simp_all add: add_log_def set_metadata_def create_payload_def Let_def)

definition same_core :: "projection \<Rightarrow> projection \<Rightarrow> bool" where
  "same_core s s' \<longleftrightarrow> pr_db s' = pr_db s \<and> pr_receipts s' = pr_receipts s \<and> pr_caches s' = pr_caches s"

lemma same_core_refl [simp]: "same_core s s"
  by (simp add: same_core_def)

lemma same_core_trans: "same_core s s' \<Longrightarrow> same_core s' s'' \<Longrightarrow> same_core s s''"
  by (simp add: same_core_def)

lemma same_core_writes [simp]:
  "same_core s (add_log t level msg ty meta s') \<longleftrightarrow> same_core s s'" "same_core s (set_metadata k meta s') \<longleftrightarrow> same_core s s'"
  "same_core s (snd (create_payload t kind txt s')) \<longleftrightarrow> same_core s s'"
  "same_core (set_metadata k meta s) s' \<longleftrightarrow> same_core s s'"
  by (simp_all add: same_core_def)

lemma same_core_messages:
  "same_core s (payload_log pe t kind ty txt p s)" "same_core s (snd (body_fields pe t kind txt s))"
  "same_core s (finalize_message_log pe t r txt p s)" "same_core s (fst (project_message_delta pe t attempt p occurred_at s m))"
  "same_core s (fst (project_message_completed pe t attempt p s m))"
proof -
  show b: "same_core s (snd (body_fields pe t kind w s))" for kind w
    by (simp add: body_fields_def Let_def case_prod_beta)
  show f: "same_core s (finalize_message_log pe t r w p s)" for r w
    using b by (simp add: finalize_message_log_def Let_def case_prod_beta)
  show l: "same_core s (payload_log pe t kind ty w p s)" for kind ty w
    by (simp add: payload_log_def Let_def case_prod_beta)
  show "same_core s (fst (project_message_delta pe t attempt p occurred_at s m))"
    by (simp add: project_message_delta_def Let_def case_prod_beta split: option.split)
  show "same_core s (fst (project_message_completed pe t attempt p s m))"
    using f l by (simp add: project_message_completed_def Let_def case_prod_beta split: option.split)
qed

lemma same_core_interrupt: "same_core s (fst (interrupt_streaming_messages t attempt s m))"
proof -
  have "same_core (fst sm) (fst (foldl (interrupt_message attempt) sm rows))" for sm rows
  proof (induction rows arbitrary: sm)
    case (Cons r rows)
    have "same_core (fst sm) (fst (interrupt_message attempt sm r))"
      by (simp add: interrupt_message_def Let_def case_prod_beta)
    then show ?case using Cons.IH same_core_trans by (metis foldl_Cons)
  qed simp
  from this [of "(s, m)"] show ?thesis by (simp add: interrupt_streaming_messages_def)
qed

lemma same_core_thinking:
  "same_core s (interrupt_thinking_rows t attempt observed_at s)" "same_core s (finalize_thinking_row pe t r txt occurred_at s)"
  "same_core s (project_reasoning_started pe t attempt p occurred_at s)"
  "same_core s (fst (project_reasoning_completed pe t attempt p occurred_at s m))"
  "same_core s (project_reasoning_interrupted t attempt p occurred_at s)"
proof -
  show "same_core s (interrupt_thinking_rows t attempt observed_at s)"
    by (simp add: interrupt_thinking_rows_def same_core_def)
  show f: "same_core s (finalize_thinking_row pe t r w occurred_at s)" for r w
    using same_core_messages(2) by (simp add: finalize_thinking_row_def Let_def case_prod_beta)
  show "same_core s (project_reasoning_started pe t attempt p occurred_at s)"
    by (simp add: project_reasoning_started_def Let_def)
  show "same_core s (fst (project_reasoning_completed pe t attempt p occurred_at s m))"
    using f same_core_messages(1) by (simp add: project_reasoning_completed_def Let_def split: option.split)
  show "same_core s (project_reasoning_interrupted t attempt p occurred_at s)"
    by (simp add: project_reasoning_interrupted_def Let_def split: option.split)
qed

lemma same_core_settle: "settle_rows rows s = Inr s' \<Longrightarrow> same_core s s'"
proof (induction rows arbitrary: s)
  case (Cons r rows)
  from Cons.prems show ?case by (auto split: option.splits pyval.splits if_splits dest!: Cons.IH)
qed simp

lemma same_core_tools:
  "same_core s (fst (project_tool_started pe t p occurred_at s m))"
  "fst (project_tool_completed pe t p occurred_at s m) = Inr s' \<Longrightarrow> same_core s s'"
proof -
  show "same_core s (fst (project_tool_started pe t p occurred_at s m))"
    by (simp add: project_tool_started_def Let_def case_prod_beta)
  have "same_core s (snd (tool_completed_metadata pe t p occurred_at meta s))" for meta
    by (simp add: tool_completed_metadata_def Let_def case_prod_beta split: pyval.split)
  then show "same_core s s'" if "fst (project_tool_completed pe t p occurred_at s m) = Inr s'"
    using that by (auto simp: project_tool_completed_def Let_def case_prod_beta split: prod.splits sum.splits option.splits pyval.splits)
qed


definition same_ledger :: "projection \<Rightarrow> projection \<Rightarrow> bool" where
  "same_ledger s s' \<longleftrightarrow> map ledger_columns (attempts (pr_db s')) = map ledger_columns (attempts (pr_db s))
     \<and> pr_receipts s' = pr_receipts s \<and> pr_caches s' = pr_caches s"

lemma same_core_ledger: "same_core s s' \<Longrightarrow> same_ledger s s'"
  by (simp add: same_core_def same_ledger_def)

lemma same_ledger_trans: "same_ledger s s' \<Longrightarrow> same_ledger s' s'' \<Longrightarrow> same_ledger s s''"
  by (simp add: same_ledger_def)

lemma project_gate_ledger:
  assumes "fst (project_gate pe t attempt ty s m) = Inr s'"
  shows "same_ledger s s'"
proof (cases "ty = ''run.failed''")
  case True
  let ?s1 = "s\<lparr>pr_db := close_control_gate (pe_now pe) attempt (pr_db s)\<rparr>"
  obtain s2 where s2: "settle_open_delegations t ?s1 = Inr s2" and s': "s' = fst (interrupt_streaming_messages t attempt s2 m)"
    using assms True by (auto simp: project_gate_def Let_def split: sum.splits prod.splits)
  have "same_core ?s1 s2" using s2 same_core_settle by (simp add: settle_open_delegations_def)
  moreover have "same_core s2 s'" unfolding s' by (rule same_core_interrupt)
  moreover have "same_ledger s ?s1" by (simp add: same_ledger_def gate_keeps_ledger_columns)
  ultimately show ?thesis using same_core_ledger same_ledger_trans by blast
next
  case False
  then show ?thesis
    using assms by (auto simp: project_gate_def Let_def same_ledger_def gate_keeps_ledger_columns split: if_splits)
qed

lemma project_diagnosticE:
  assumes "project_diagnostic pe t attempt p s = Inr s'"
  obtains s1 where "s1 = s \<or> (\<exists>c n. s1 = s\<lparr>pr_db := snd (reopen_control_after_native_turn_start attempt c n (pr_db s))\<rparr>)"
    "s' = s1 \<or> (\<exists>level msg ty meta. s' = add_log t level msg ty meta s1)"
proof -
  obtain s1 where first: "(if dict_get p ''code'' = PStr ''pi_follow_up_turn_started'' then
          (let opt = (\<lambda>v. case v of PNone \<Rightarrow> Inr None | PStr x \<Rightarrow> Inr (Some x) | _ \<Rightarrow> Inl ''DataError'') in
           bind_result (opt (dict_get p ''command_id'')) (\<lambda>c. bind_result (opt (dict_get p ''native_id'')) (\<lambda>n.
           Inr (s\<lparr>pr_db := snd (reopen_control_after_native_turn_start attempt c n (pr_db s))\<rparr>))))
        else Inr s) = Inr s1"
    and key: "bind_result (runtime_warning_key (pe_float pe) (PDict p)) (\<lambda>key. (case key of
        None \<Rightarrow> Inr (add_log t ''WARNING'' (py_str (pe_repr pe) (or_value (dict_get p ''message'')
                 (or_value (dict_get p ''code'') (PStr ''diagnostic'')))) ''diagnostic'' p s1)
      | Some k \<Rightarrow>
          bind_result (warning_exists (pe_float pe) k (filter (\<lambda>r. tlog_task_id r = t \<and> tlog_type r = ''runtime_warning'') (pr_logs s1))) (\<lambda>b.
          Inr (if b then s1 else add_log t ''WARNING'' (py_str (pe_repr pe) (or_value (dict_get p ''message'')
                 (or_value (dict_get p ''code'') (PStr ''Runtime warning'')))) ''runtime_warning'' p s1)))) = Inr s'"
    using assms unfolding project_diagnostic_def bind_result_eq_Inr [of _ "\<lambda>s1. bind_result (runtime_warning_key _ _) (_ s1)"] by blast
  have s1: "s1 = s \<or> (\<exists>c n. s1 = s\<lparr>pr_db := snd (reopen_control_after_native_turn_start attempt c n (pr_db s))\<rparr>)"
    using first by (simp add: Let_def bind_result_eq_Inr split: if_splits) blast
  define one where "one s2 \<longleftrightarrow> s2 = s1 \<or> (\<exists>level msg ty meta. s2 = add_log t level msg ty meta s1)" for s2
  have "one s1" "\<And>level msg ty meta. one (add_log t level msg ty meta s1)" by (auto simp: one_def)
  then have "one s'" using key by (auto simp: bind_result_eq_Inr split: option.splits if_splits)
  then show ?thesis using that [OF s1] by (simp add: one_def)
qed

lemma project_diagnostic_ledger:
  assumes "project_diagnostic pe t attempt p s = Inr s'"
  shows "same_ledger s s'"
  using assms
proof (rule project_diagnosticE)
  fix s1
  assume s1: "s1 = s \<or> (\<exists>c n. s1 = s\<lparr>pr_db := snd (reopen_control_after_native_turn_start attempt c n (pr_db s))\<rparr>)"
    and s': "s' = s1 \<or> (\<exists>level msg ty meta. s' = add_log t level msg ty meta s1)"
  have "same_ledger s s1" using s1 by (auto simp: same_ledger_def gate_keeps_ledger_columns)
  moreover have "same_core s1 s'" using s' by auto
  ultimately show ?thesis using same_core_ledger same_ledger_trans by blast
qed

lemma project_event_ledger:
  assumes "fst (project_event pe t attempt ty p occurred_at s m) = Inr s'"
  shows "same_ledger s s'"
proof (cases "ty = ''diagnostic''")
  case True
  then have "project_event pe t attempt ty p occurred_at s m = (project_diagnostic pe t attempt p s, m)"
    by (simp add: project_event_def CONTROL_EVENT_TYPES_def)
  then show ?thesis using assms project_diagnostic_ledger by simp
next
  case False
  have h: "same_core s (fst (interrupt_streaming_messages t attempt (interrupt_thinking_rows t attempt occurred_at s) m))"
    by (rule same_core_trans [OF same_core_thinking(1) same_core_interrupt])
  have "same_core s s'"
    using assms False same_core_messages(4,5) same_core_thinking(3,4,5) same_core_tools h
    unfolding project_event_def
    by (auto simp: case_prod_beta split: if_split_asm)
  then show ?thesis by (rule same_core_ledger)
qed

text \<open>The invariant of the tables and of the cached attributes.\<close>

definition projection_ok :: "projector_env \<Rightarrow> projection \<Rightarrow> bool" where
  "projection_ok pe s \<longleftrightarrow>
     ledger_ok (pe_parse_time pe) (pe_repr pe) (content_digest (pe_sha256 pe) (pe_float pe)) (pr_db s) (pr_receipts s)
     \<and> (\<forall>k. cache_ok (pr_caches s k) (pr_receipts s) k)"

lemma projection_ok_cong: "same_ledger s s' \<Longrightarrow> projection_ok pe s \<Longrightarrow> projection_ok pe s'"
  unfolding projection_ok_def same_ledger_def using ledger_ok_cong by metis

lemma ingest_event_recordE:
  assumes ok: "ingest_event_record pe t e s m = (Inr (b, s'), m')" and inv_s: "projection_ok pe s"
  obtains n res d rs c where "validate_event_by_schema (pe_parse_time pe) (pe_repr pe) e = Inr n"
    "validate_event_by_schema (pe_parse_time pe) (pe_repr pe) n = Inr n" "ev_task n = t"
    "ingest_normalized (content_digest (pe_sha256 pe) (pe_float pe)) (pe_now pe) (pr_caches s (ev_attempt n)) (pr_db s) (pr_receipts s) n
       = (Inr (res, d, rs), c)"
    "b \<longleftrightarrow> \<not> ingest_duplicate res"
    "same_ledger (s\<lparr>pr_db := d, pr_receipts := rs, pr_caches := (pr_caches s)(ev_attempt n := c)\<rparr>) s'"
    "\<not> b \<Longrightarrow> s' = s\<lparr>pr_db := d, pr_receipts := rs, pr_caches := (pr_caches s)(ev_attempt n := c)\<rparr> \<and> m' = m"
proof -
  obtain n where n: "validate_event_by_schema (pe_parse_time pe) (pe_repr pe) e = Inr n" and t: "ev_task n = t"
    using ok by (auto simp: ingest_event_record_def split: sum.splits if_splits)
  obtain res d rs c where ing: "ingest_canonical_event (pe_parse_time pe) (pe_repr pe) (pe_sha256 pe) (pe_float pe) (pe_now pe)
      (pr_caches s (ev_attempt n)) (pr_db s) (pr_receipts s) n = (Inr (res, d, rs), c)"
    using ok n t by (auto simp: ingest_event_record_def split: prod.splits sum.splits if_splits)
  have v: "validate_event_by_schema (pe_parse_time pe) (pe_repr pe) n = Inr n"
    using ing validated_again [OF n] by (auto simp: ingest_canonical_event_def split: if_splits)
  then have ing': "ingest_normalized (content_digest (pe_sha256 pe) (pe_float pe)) (pe_now pe) (pr_caches s (ev_attempt n)) (pr_db s)
      (pr_receipts s) n = (Inr (res, d, rs), c)" using ing by (simp add: ingest_canonical_event_def)
  let ?s1 = "s\<lparr>pr_db := d, pr_receipts := rs, pr_caches := (pr_caches s)(ev_attempt n := c)\<rparr>"
  note body = ok [unfolded ingest_event_record_def n sum.case if_not_P [OF iffD2 [OF not_not t]] ing prod.case Let_def]
  have "(b \<longleftrightarrow> \<not> ingest_duplicate res) \<and> same_ledger ?s1 s' \<and> (\<not> b \<longrightarrow> s' = ?s1 \<and> m' = m)"
  proof (cases "ingest_duplicate res")
    case True
    then show ?thesis using body by (auto simp: same_ledger_def)
  next
    case False
    obtain s2 m1 where g: "project_gate pe t (ev_attempt n) (ev_type n) ?s1 m = (Inr s2, m1)"
      using body False by (auto split: prod.splits sum.splits)
    have p: "fst (project_event pe t (ev_attempt n) (ev_type n) (ev_dict n ''payload'') (ev_str n ''occurred_at'') s2 m1) = Inr s'" "b"
      using body False g by (auto split: prod.splits sum.splits)
    have "same_ledger ?s1 s2" using project_gate_ledger [of pe t "ev_attempt n" "ev_type n" ?s1 m s2] g by simp
    then show ?thesis using project_event_ledger [OF p(1)] same_ledger_trans p(2) False by blast
  qed
  then show ?thesis using that [OF n v t ing'] by blast
qed

lemma ingest_event_record_ok:
  assumes ok: "ingest_event_record pe t e s m = (Inr (b, s'), m')" and inv_s: "projection_ok pe s"
  shows "projection_ok pe s'"
  using ok inv_s
proof (rule ingest_event_recordE)
  fix n res d rs c
  assume v: "validate_event_by_schema (pe_parse_time pe) (pe_repr pe) n = Inr n"
    and ing: "ingest_normalized (content_digest (pe_sha256 pe) (pe_float pe)) (pe_now pe) (pr_caches s (ev_attempt n)) (pr_db s)
      (pr_receipts s) n = (Inr (res, d, rs), c)"
    and sl: "same_ledger (s\<lparr>pr_db := d, pr_receipts := rs, pr_caches := (pr_caches s)(ev_attempt n := c)\<rparr>) s'"
  have L: "ledger_ok (pe_parse_time pe) (pe_repr pe) (content_digest (pe_sha256 pe) (pe_float pe)) (pr_db s) (pr_receipts s)"
    and C: "cache_ok (pr_caches s k) (pr_receipts s) k" for k using inv_s by (auto simp: projection_ok_def)
  note keeps = ingest_keeps_ledger [OF L C v ing]
  have "projection_ok pe (s\<lparr>pr_db := d, pr_receipts := rs, pr_caches := (pr_caches s)(ev_attempt n := c)\<rparr>)"
    using keeps C by (auto simp: projection_ok_def)
  then show ?thesis by (rule projection_ok_cong [OF sl])
qed


section \<open>Received records\<close>

text \<open>A record that the tables already hold a receipt for.\<close>

definition received :: "projector_env \<Rightarrow> row_id \<Rightarrow> pydict \<Rightarrow> projection \<Rightarrow> bool" where
  "received pe t e s \<longleftrightarrow> (\<exists>n x a. validate_event_by_schema (pe_parse_time pe) (pe_repr pe) e = Inr n
     \<and> validate_event_by_schema (pe_parse_time pe) (pe_repr pe) n = Inr n \<and> ev_task n = t
     \<and> get_attempt (pr_db s) (ev_attempt n) = Some a \<and> match_frozen_attempt a n = Inr a
     \<and> get_receipt (pr_receipts s) (ev_attempt n) (ev_seq n) = Some x \<and> receipt_event_id x = ev_id n
     \<and> receipt_event_digest x = content_digest (pe_sha256 pe) (pe_float pe) (PDict n))"

lemma received_again:
  assumes "projection_ok pe s" "received pe t e s"
  shows "ingest_event_record pe t e s m = (Inr (False, s), m)"
proof -
  obtain n x a where r: "validate_event_by_schema (pe_parse_time pe) (pe_repr pe) e = Inr n"
    "validate_event_by_schema (pe_parse_time pe) (pe_repr pe) n = Inr n" "ev_task n = t"
    and a: "get_attempt (pr_db s) (ev_attempt n) = Some a" "match_frozen_attempt a n = Inr a"
    "get_receipt (pr_receipts s) (ev_attempt n) (ev_seq n) = Some x" "receipt_event_id x = ev_id n"
    "receipt_event_digest x = content_digest (pe_sha256 pe) (pe_float pe) (PDict n)"
    using assms(2) unfolding received_def by blast
  have "distinct (map attempt_id (attempts (pr_db s)))" using assms(1) by (simp add: projection_ok_def ledger_ok_def)
  note dup = duplicate_ingest [of "pr_db s" n a "pr_receipts s" x "content_digest (pe_sha256 pe) (pe_float pe)", OF this a]
  show ?thesis by (simp add: ingest_event_record_def r ingest_canonical_event_def dup Let_def)
qed

lemma received_cong:
  assumes "same_ledger s s'" "received pe t e s"
  shows "received pe t e s'"
proof -
  obtain n x a where r: "validate_event_by_schema (pe_parse_time pe) (pe_repr pe) e = Inr n"
    "validate_event_by_schema (pe_parse_time pe) (pe_repr pe) n = Inr n" "ev_task n = t"
    and a: "get_attempt (pr_db s) (ev_attempt n) = Some a" "match_frozen_attempt a n = Inr a"
    and x: "get_receipt (pr_receipts s) (ev_attempt n) (ev_seq n) = Some x" "receipt_event_id x = ev_id n"
    "receipt_event_digest x = content_digest (pe_sha256 pe) (pe_float pe) (PDict n)"
    using assms(2) unfolding received_def by blast
  have "map_option ledger_columns (get_attempt (pr_db s') (ev_attempt n)) = Some (ledger_columns a)"
    using get_attempt_columns [of "pr_db s'" "pr_db s" "ev_attempt n"] assms(1) a(1) by (simp add: same_ledger_def)
  then obtain b where b: "get_attempt (pr_db s') (ev_attempt n) = Some b" and "ledger_columns b = ledger_columns a" by auto
  then have "match_frozen_attempt b n = Inr b"
    using match_frozen_cong [of b a n] a(2) by (simp add: ledger_columns_def)
  moreover have "pr_receipts s' = pr_receipts s" using assms(1) by (simp add: same_ledger_def)
  ultimately show ?thesis using r b x unfolding received_def by auto
qed

lemma get_put_other:
  assumes "attempt_id a = k'" "k \<noteq> k'"
  shows "get_attempt (put_attempt k' (\<lambda>_. a) d) k = get_attempt d k"
proof -
  have "row_by attempt_id k (update_where (\<lambda>r. attempt_id r = k') (\<lambda>_. a) rows) = row_by attempt_id k rows" for rows
    using assms by (induction rows) auto
  then show ?thesis by (simp add: get_attempt_def put_attempt_def)
qed

lemma get_receipt_snoc: "get_receipt rs a k = Some x \<Longrightarrow> get_receipt (rs @ ys) a k = Some x"
  unfolding get_receipt_def by (induction rs) (auto split: if_splits)

lemma ingested_received:
  assumes "ingest_event_record pe t e s m = (Inr (b, s'), m')" "projection_ok pe s"
  shows "received pe t e s'"
  using assms
proof (rule ingest_event_recordE)
  fix n res d rs c
  assume n: "validate_event_by_schema (pe_parse_time pe) (pe_repr pe) e = Inr n" "ev_task n = t"
    and v: "validate_event_by_schema (pe_parse_time pe) (pe_repr pe) n = Inr n"
    and ing: "ingest_normalized (content_digest (pe_sha256 pe) (pe_float pe)) (pe_now pe) (pr_caches s (ev_attempt n)) (pr_db s)
      (pr_receipts s) n = (Inr (res, d, rs), c)"
    and sl: "same_ledger (s\<lparr>pr_db := d, pr_receipts := rs, pr_caches := (pr_caches s)(ev_attempt n := c)\<rparr>) s'"
  have L: "ledger_ok (pe_parse_time pe) (pe_repr pe) (content_digest (pe_sha256 pe) (pe_float pe)) (pr_db s) (pr_receipts s)"
    and C: "cache_ok (pr_caches s (ev_attempt n)) (pr_receipts s) (ev_attempt n)"
    using assms(2) by (auto simp: projection_ok_def)
  from L C v ing show ?thesis
  proof (rule accepted_receipt)
    fix x assume "get_receipt rs (ev_attempt n) (ev_seq n) = Some x" "receipt_event_id x = ev_id n"
      "receipt_event_digest x = content_digest (pe_sha256 pe) (pe_float pe) (PDict n)"
      "get_attempt d (ev_attempt n) = Some (ingest_attempt res)"
      "match_frozen_attempt (ingest_attempt res) n = Inr (ingest_attempt res)"
    then show ?thesis using n v by (intro received_cong [OF sl]) (auto simp: received_def)
  qed
qed

text \<open>The ingest of another record keeps what was received.\<close>

lemma frozen_row_kept:
  assumes L: "attempt_ledger parse_time rp digest_of rs a" "attempt_ledger parse_time rp digest_of (rs @ ys) a'"
    and ids: "attempt_id a = k" "attempt_id a' = k" and x: "get_receipt rs k q = Some x"
    and n: "match_frozen_attempt a n = Inr a"
  shows "match_frozen_attempt a' n = Inr a'"
proof -
  have "x \<in> set (attempt_receipts rs k)" using x unfolding get_receipt_row by (auto dest: row_by_SomeD)
  then have "match_frozen_attempt a (receipt_event x) = Inr a" "match_frozen_attempt a' (receipt_event x) = Inr a'"
    using L ids unfolding attempt_ledger_def Let_def by (auto simp: list_all_iff attempt_receipts_def)
  note e = match_frozenD [OF this(1)] match_frozenD [OF this(2)]
  have "attempt_cli_version a' = attempt_cli_version a"
    using arg_cong [OF e(1), of attempt_cli_version] arg_cong [OF e(8), of attempt_cli_version] by simp
  then show ?thesis using match_frozen_cong [of a' a n] n e by simp
qed

lemma received_kept:
  assumes rec: "received pe t e s" and ok: "ingest_event_record pe t e2 s m = (Inr (b, s'), m')" and inv_s: "projection_ok pe s"
  shows "received pe t e s'"
  using ok inv_s
proof (rule ingest_event_recordE)
  fix n res d rs c
  assume v: "validate_event_by_schema (pe_parse_time pe) (pe_repr pe) n = Inr n"
    and ing: "ingest_normalized (content_digest (pe_sha256 pe) (pe_float pe)) (pe_now pe) (pr_caches s (ev_attempt n)) (pr_db s)
      (pr_receipts s) n = (Inr (res, d, rs), c)"
    and sl: "same_ledger (s\<lparr>pr_db := d, pr_receipts := rs, pr_caches := (pr_caches s)(ev_attempt n := c)\<rparr>) s'"
  let ?s1 = "s\<lparr>pr_db := d, pr_receipts := rs, pr_caches := (pr_caches s)(ev_attempt n := c)\<rparr>"
  have L: "ledger_ok (pe_parse_time pe) (pe_repr pe) (content_digest (pe_sha256 pe) (pe_float pe)) (pr_db s) (pr_receipts s)"
    and C: "cache_ok (pr_caches s (ev_attempt n)) (pr_receipts s) (ev_attempt n)"
    using inv_s by (auto simp: projection_ok_def)
  obtain k x a where r: "validate_event_by_schema (pe_parse_time pe) (pe_repr pe) e = Inr k"
    "validate_event_by_schema (pe_parse_time pe) (pe_repr pe) k = Inr k" "ev_task k = t"
    and a: "get_attempt (pr_db s) (ev_attempt k) = Some a" "match_frozen_attempt a k = Inr a"
    and x: "get_receipt (pr_receipts s) (ev_attempt k) (ev_seq k) = Some x" "receipt_event_id x = ev_id k"
    "receipt_event_digest x = content_digest (pe_sha256 pe) (pe_float pe) (PDict k)"
    using rec unfolding received_def by blast
  have "received pe t e ?s1"
    using L C v ing
  proof (cases rule: ingest_cases)
    case (duplicate y)
    then show ?thesis using rec by (simp add: received_def)
  next
    case (accepted a0 r a')
    have x': "get_receipt rs (ev_attempt k) (ev_seq k) = Some x" unfolding accepted(10) by (rule get_receipt_snoc [OF x(1)])
    show ?thesis
    proof (cases "ev_attempt k = ev_attempt n")
      case True
      then have eq: "a0 = a" using a(1) accepted(1) by simp
      note La = ledger_okD [OF L accepted(1)]
      have "match_frozen_attempt a' k = Inr a'"
        using frozen_row_kept [OF La(1) accepted(7) [unfolded accepted(10)] La(2) accepted(6) x(1) [unfolded True]] a(2) eq by simp
      moreover have "get_attempt d (ev_attempt k) = Some a'"
        using get_put_attempt [OF accepted(1)] accepted(6,9) True by simp
      ultimately show ?thesis using r x' x unfolding received_def by auto
    next
      case False
      then have "get_attempt d (ev_attempt k) = Some a" using a(1) accepted(6,9) get_put_other by simp
      then show ?thesis using r x' x a unfolding received_def by auto
    qed
  qed
  then show ?thesis by (rule received_cong [OF sl])
qed

end
