(* ===== verification/Projector_Laws.thy ===== *)
theory Projector_Laws
  imports Event_Projector
begin

text \<open>
  What the projector keeps: the task log only grows and only for the task of the record, and the end of the harness
  leaves no live row of its attempt.
\<close>

section \<open>The task log only grows\<close>

definition row_head :: "task_log \<Rightarrow> int \<times> row_id \<times> string \<times> string \<times> string" where
  "row_head r = (tlog_id r, tlog_task_id r, tlog_level r, tlog_message r, tlog_type r)"

definition rows_ok :: "projection \<Rightarrow> bool" where
  "rows_ok s \<longleftrightarrow> distinct (map tlog_id (pr_logs s))"

text \<open>Rows are only appended, all for the task \<open>t\<close>, and a row that is there changes at most in its metadata.\<close>

definition log_grows :: "row_id \<Rightarrow> projection \<Rightarrow> projection \<Rightarrow> bool" where
  "log_grows t s s' \<longleftrightarrow> (\<exists>new. map row_head (pr_logs s') = map row_head (pr_logs s) @ new
     \<and> (\<forall>h\<in>set new. fst (snd h) = t)) \<and> (rows_ok s \<longrightarrow> rows_ok s')"

lemma rows_ok_heads: "map row_head (pr_logs s') = map row_head (pr_logs s) \<Longrightarrow> rows_ok s' \<longleftrightarrow> rows_ok s"
proof -
  assume "map row_head (pr_logs s') = map row_head (pr_logs s)"
  then have "map fst (map row_head (pr_logs s')) = map fst (map row_head (pr_logs s))" by simp
  then have "map tlog_id (pr_logs s') = map tlog_id (pr_logs s)" by (simp add: row_head_def comp_def)
  then show ?thesis by (simp add: rows_ok_def)
qed

lemma same_heads_grow: "map row_head (pr_logs s') = map row_head (pr_logs s) \<Longrightarrow> log_grows t s s'"
  using rows_ok_heads [of s' s] by (auto simp: log_grows_def)

lemma log_grows_refl [simp]: "log_grows t s s"
  by (simp add: same_heads_grow)

lemma log_grows_trans: "log_grows t s s' \<Longrightarrow> log_grows t s' s'' \<Longrightarrow> log_grows t s s''"
  unfolding log_grows_def by fastforce

lemma next_key_fresh: "next_key ks \<notin> set ks"
proof -
  have "k < next_key ks" if "k \<in> set ks" for k
    using that max_default_Max [of ks 0] by (cases ks) (auto simp: next_key_def zle_add1_eq_le)
  then show ?thesis by blast
qed

lemma add_log_grows: "log_grows t s (add_log t level msg ty meta s)"
  using next_key_fresh [of "map tlog_id (pr_logs s)"]
  by (auto simp: log_grows_def rows_ok_def add_log_def row_head_def)

lemma update_heads:
  assumes "\<And>r. row_head (f r) = row_head r"
  shows "map row_head (update_where P f rows) = map row_head rows"
  using assms by (induction rows) auto

lemma quiet_writes:
  "log_grows t s (set_metadata k meta s)" "log_grows t s (snd (create_payload t' kind txt s))"
  "log_grows t s (s\<lparr>pr_db := d\<rparr>)" "log_grows t s (s\<lparr>pr_db := d, pr_receipts := rs, pr_caches := cs\<rparr>)"
  by (auto intro!: same_heads_grow update_heads simp: set_metadata_def create_payload_def Let_def row_head_def)

lemmas growing = log_grows_refl add_log_grows quiet_writes
  log_grows_trans [OF _ add_log_grows] log_grows_trans [OF _ quiet_writes(1)] log_grows_trans [OF _ quiet_writes(2)]

lemma messages_grow:
  "log_grows t s (payload_log pe t kind ty txt p s)" "log_grows t s (snd (body_fields pe t kind txt s))"
  "log_grows t s (finalize_message_log pe t r txt p s)" "log_grows t s (fst (project_message_delta pe t attempt p occurred_at s m))"
  "log_grows t s (fst (project_message_completed pe t attempt p s m))"
proof -
  show b: "log_grows t s (snd (body_fields pe t kind w s))" for kind w
    by (simp add: body_fields_def Let_def case_prod_beta growing)
  show f: "log_grows t s (finalize_message_log pe t r w p s)" for r w
    using b by (simp add: finalize_message_log_def Let_def case_prod_beta growing)
  show l: "log_grows t s (payload_log pe t kind ty w p s)" for kind ty w
    by (simp add: payload_log_def Let_def case_prod_beta growing)
  show "log_grows t s (fst (project_message_delta pe t attempt p occurred_at s m))"
    by (simp add: project_message_delta_def Let_def case_prod_beta growing split: option.split)
  show "log_grows t s (fst (project_message_completed pe t attempt p s m))"
    using f l by (simp add: project_message_completed_def Let_def case_prod_beta split: option.split)
qed

lemma interrupt_grows: "log_grows t s (fst (interrupt_streaming_messages t' attempt s m))"
proof -
  have "log_grows t (fst sm) (fst (foldl (interrupt_message attempt) sm rows))" for sm rows
  proof (induction rows arbitrary: sm)
    case (Cons r rows)
    have "log_grows t (fst sm) (fst (interrupt_message attempt sm r))"
      by (simp add: interrupt_message_def Let_def case_prod_beta growing)
    then show ?case using Cons.IH log_grows_trans by (metis foldl_Cons)
  qed simp
  from this [of "(s, m)"] show ?thesis by (simp add: interrupt_streaming_messages_def)
qed

lemma thinking_grows:
  "log_grows t s (interrupt_thinking_rows t' attempt observed_at s)" "log_grows t s (finalize_thinking_row pe t r txt occurred_at s)"
  "log_grows t s (project_reasoning_started pe t attempt p occurred_at s)"
  "log_grows t s (fst (project_reasoning_completed pe t attempt p occurred_at s m))"
  "log_grows t s (project_reasoning_interrupted t' attempt p occurred_at s)"
proof -
  show "log_grows t s (interrupt_thinking_rows t' attempt observed_at s)"
    by (auto intro!: same_heads_grow update_heads simp: interrupt_thinking_rows_def row_head_def)
  show f: "log_grows t s (finalize_thinking_row pe t r w occurred_at s)" for r w
    using messages_grow(2) by (simp add: finalize_thinking_row_def Let_def case_prod_beta growing)
  show "log_grows t s (project_reasoning_started pe t attempt p occurred_at s)"
    by (simp add: project_reasoning_started_def Let_def growing)
  show "log_grows t s (fst (project_reasoning_completed pe t attempt p occurred_at s m))"
    using f messages_grow(1) by (simp add: project_reasoning_completed_def Let_def growing split: option.split)
  show "log_grows t s (project_reasoning_interrupted t' attempt p occurred_at s)"
    by (simp add: project_reasoning_interrupted_def Let_def growing split: option.split)
qed

lemma settle_grows: "settle_rows rows s = Inr s' \<Longrightarrow> log_grows t s s'"
proof (induction rows arbitrary: s)
  case (Cons r rows)
  from Cons.prems show ?case
    by (auto split: option.splits pyval.splits if_splits dest!: Cons.IH intro: log_grows_trans [OF quiet_writes(1)])
qed simp

lemma tools_grow:
  "log_grows t s (fst (project_tool_started pe t p occurred_at s m))"
  "fst (project_tool_completed pe t p occurred_at s m) = Inr s' \<Longrightarrow> log_grows t s s'"
proof -
  show "log_grows t s (fst (project_tool_started pe t p occurred_at s m))"
    by (simp add: project_tool_started_def Let_def case_prod_beta growing)
  have "log_grows t s (snd (tool_completed_metadata pe t p occurred_at meta s))" for meta
    by (simp add: tool_completed_metadata_def Let_def case_prod_beta growing split: pyval.split)
  then show "log_grows t s s'" if "fst (project_tool_completed pe t p occurred_at s m) = Inr s'"
    using that by (auto simp: project_tool_completed_def Let_def case_prod_beta growing
        split: prod.splits sum.splits option.splits pyval.splits)
qed

lemma gate_grows:
  assumes "fst (project_gate pe t attempt ty s m) = Inr s'"
  shows "log_grows t s s'"
proof (cases "ty = ''run.failed''")
  case True
  let ?s1 = "s\<lparr>pr_db := close_control_gate (pe_now pe) attempt (pr_db s)\<rparr>"
  obtain s2 where s2: "settle_open_delegations t ?s1 = Inr s2" and s': "s' = fst (interrupt_streaming_messages t attempt s2 m)"
    using assms True by (auto simp: project_gate_def Let_def split: sum.splits prod.splits)
  have "log_grows t ?s1 s2" using s2 settle_grows by (simp add: settle_open_delegations_def)
  moreover have "log_grows t s2 s'" unfolding s' by (rule interrupt_grows)
  moreover have "log_grows t s ?s1" by (rule quiet_writes)
  ultimately show ?thesis using log_grows_trans by blast
next
  case False
  then show ?thesis using assms by (auto simp: project_gate_def Let_def growing split: if_splits)
qed

lemma diagnostic_grows:
  assumes "project_diagnostic pe t attempt p s = Inr s'"
  shows "log_grows t s s'"
proof -
  obtain s1 where s1: "s1 = s \<or> (\<exists>c n. s1 = s\<lparr>pr_db := snd (reopen_control_after_native_turn_start attempt c n (pr_db s))\<rparr>)"
    and s': "s' = s1 \<or> (\<exists>level msg ty meta. s' = add_log t level msg ty meta s1)"
    using assms by (rule project_diagnosticE)
  have "log_grows t s s1" using s1 by (auto simp: growing)
  moreover have "log_grows t s1 s'" using s' by (auto simp: growing)
  ultimately show ?thesis by (rule log_grows_trans)
qed

lemma event_grows:
  assumes "fst (project_event pe t attempt ty p occurred_at s m) = Inr s'"
  shows "log_grows t s s'"
proof (cases "ty = ''diagnostic''")
  case True
  then have "project_event pe t attempt ty p occurred_at s m = (project_diagnostic pe t attempt p s, m)"
    by (simp add: project_event_def CONTROL_EVENT_TYPES_def)
  then show ?thesis using assms diagnostic_grows by simp
next
  case False
  have h: "log_grows t s (fst (interrupt_streaming_messages t attempt (interrupt_thinking_rows t attempt occurred_at s) m))"
    by (rule log_grows_trans [OF thinking_grows(1) interrupt_grows])
  show ?thesis
    using assms False messages_grow(4,5) thinking_grows(3,4,5) tools_grow h add_log_grows log_grows_trans [OF h add_log_grows]
    unfolding project_event_def
    by (auto simp: case_prod_beta split: if_split_asm)
qed

lemma ingest_grows:
  assumes ok: "ingest_event_record pe t e s m = (Inr (b, s'), m')"
  shows "log_grows t s s'"
proof -
  obtain d rs cs m0 s2 where one: "s' = s\<lparr>pr_db := d, pr_receipts := rs, pr_caches := cs\<rparr>
     \<or> (\<exists>attempt ty p at_time m1. fst (project_gate pe t attempt ty (s\<lparr>pr_db := d, pr_receipts := rs, pr_caches := cs\<rparr>) m0) = Inr s2
          \<and> fst (project_event pe t attempt ty p at_time s2 m1) = Inr s')"
    using ok unfolding ingest_event_record_def Let_def
    by (auto split: sum.splits prod.splits if_splits) (metis fst_conv)+
  let ?s1 = "s\<lparr>pr_db := d, pr_receipts := rs, pr_caches := cs\<rparr>"
  have g: "log_grows t s ?s1" by (rule quiet_writes(4))
  from one show ?thesis
  proof
    assume "s' = ?s1"
    then show ?thesis using g by simp
  next
    assume "\<exists>attempt ty p at_time m1. fst (project_gate pe t attempt ty ?s1 m0) = Inr s2
          \<and> fst (project_event pe t attempt ty p at_time s2 m1) = Inr s'"
    then have "log_grows t ?s1 s2" "log_grows t s2 s'" by (auto dest: gate_grows event_grows)
    then show ?thesis using g by (blast intro: log_grows_trans)
  qed
qed


section \<open>The end of the harness closes the live rows\<close>

definition live_message :: "row_id \<Rightarrow> string \<Rightarrow> task_log \<Rightarrow> bool" where
  "live_message t attempt r \<longleftrightarrow> tlog_task_id r = t \<and> tlog_type r = ''assistant_text''
     \<and> dict_get (log_metadata r) ''attempt_id'' = PStr attempt \<and> dict_get (log_metadata r) ''streaming'' = PBool True"

definition live_thinking :: "row_id \<Rightarrow> string \<Rightarrow> task_log \<Rightarrow> bool" where
  "live_thinking t attempt r \<longleftrightarrow> tlog_task_id r = t \<and> tlog_type r = ''thinking''
     \<and> dict_get (log_metadata r) ''attempt_id'' = PStr attempt \<and> dict_get (log_metadata r) ''status'' = PStr ''in_progress''"

lemma log_metadata_set [simp]: "log_metadata (r\<lparr>tlog_metadata := Some (PDict d)\<rparr>) = d"
  by (simp add: log_metadata_def)

text \<open>Interrupting a row leaves the other rows and does not bring a row to life.\<close>

lemma interrupt_message_rows:
  assumes "fst (interrupt_message attempt (s, m) r) = s'" and "q' \<in> set (pr_logs s')" and "live_message t attempt q'"
  shows "q' \<in> set (pr_logs s)" and "\<not> (tlog_id q' = tlog_id r \<and> live_message t attempt r)"
proof -
  have both: "q' \<in> set (pr_logs s) \<and> \<not> (tlog_id q' = tlog_id r \<and> live_message t attempt r)"
  proof (cases "dict_get (log_metadata r) ''attempt_id'' \<noteq> PStr attempt \<or> dict_get (log_metadata r) ''streaming'' \<noteq> PBool True")
    case True
    then show ?thesis using assms by (auto simp: interrupt_message_def Let_def live_message_def)
  next
    case False
    let ?meta = "dict_update (log_metadata r) [(''streaming'', PBool False), (''interrupted'', PBool True)]"
    have s': "s' = set_metadata (tlog_id r) ?meta s" using assms(1) False by (simp add: interrupt_message_def Let_def)
    have dead: "dict_get ?meta ''streaming'' \<noteq> PBool True" by (simp add: dict_update_def dict_get_dict_set)
    obtain q where q: "q \<in> set (pr_logs s)"
      "q' = (if tlog_id q = tlog_id r then q\<lparr>tlog_metadata := Some (PDict ?meta)\<rparr> else q)"
      using assms(2) unfolding s' by (auto simp: set_metadata_def update_where_def)
    then have "tlog_id q \<noteq> tlog_id r" using assms(3) dead by (auto simp: live_message_def split: if_splits)
    then show ?thesis using q by auto
  qed
  then show "q' \<in> set (pr_logs s)" and "\<not> (tlog_id q' = tlog_id r \<and> live_message t attempt r)" by auto
qed

lemma interrupt_rows:
  assumes "q' \<in> set (pr_logs (fst (foldl (interrupt_message attempt) (s, m) rows)))" and "live_message t attempt q'"
  shows "q' \<in> set (pr_logs s) \<and> q' \<notin> set rows"
  using assms(1)
proof (induction rows arbitrary: s m)
  case (Cons r rows)
  obtain s1 m1 where one: "interrupt_message attempt (s, m) r = (s1, m1)" by fastforce
  have "q' \<in> set (pr_logs s1)" "q' \<notin> set rows" using Cons.IH [of s1 m1] Cons.prems one by simp_all
  with interrupt_message_rows [of attempt s m r s1 q' t] one assms(2) show ?case by auto
qed simp

lemma interrupt_leaves_no_live_message:
  assumes "r \<in> set (pr_logs (fst (interrupt_streaming_messages t attempt s m)))"
  shows "\<not> live_message t attempt r"
proof
  assume l: "live_message t attempt r"
  from interrupt_rows [OF assms [unfolded interrupt_streaming_messages_def] l]
  have "r \<in> set (pr_logs s)" "r \<notin> set (task_rows t ''assistant_text'' s)" by auto
  then show False using l by (simp add: task_rows_def live_message_def)
qed

lemma interrupt_leaves_no_live_thinking:
  assumes "r \<in> set (pr_logs (interrupt_thinking_rows t attempt observed_at s))"
  shows "\<not> live_thinking t attempt r"
proof
  assume l: "live_thinking t attempt r"
  let ?new = "\<lambda>q. q\<lparr>tlog_metadata := Some (PDict (dict_update (log_metadata q) (interrupt_fields observed_at)))\<rparr>"
  have rows: "pr_logs (interrupt_thinking_rows t attempt observed_at s) = map (\<lambda>q. if live_thinking t attempt q then ?new q else q) (pr_logs s)"
    by (simp add: interrupt_thinking_rows_def update_where_def live_thinking_def)
  have "r \<in> (\<lambda>q. if live_thinking t attempt q then ?new q else q) ` set (pr_logs s)"
    using assms unfolding rows set_map .
  then obtain q where q: "r = (if live_thinking t attempt q then ?new q else q)"
    by (rule imageE)
  have "dict_get (dict_update (log_metadata q) (interrupt_fields observed_at)) ''status'' \<noteq> PStr ''in_progress''"
    by (simp add: dict_update_def interrupt_fields_def dict_get_dict_set)
  then have "\<not> live_thinking t attempt (?new q)" by (simp add: live_thinking_def)
  then show False using l q by (auto split: if_splits)
qed

lemma set_metadata_row:
  "y \<in> set (pr_logs (set_metadata k meta s)) \<Longrightarrow>
   \<exists>x\<in>set (pr_logs s). tlog_id y = tlog_id x \<and> tlog_type y = tlog_type x \<and> (y = x \<or> tlog_id x = k)"
  by (force simp: set_metadata_def update_where_def)

lemma interrupt_message_form:
  "\<exists>meta. fst (interrupt_message attempt (s, m) r) = s \<or> fst (interrupt_message attempt (s, m) r) = set_metadata (tlog_id r) meta s"
  unfolding interrupt_message_def Let_def prod.case by (simp split: if_split) blast

text \<open>The rows of another type are as they were.\<close>

lemma interrupt_other_rows:
  assumes "r \<in> set (pr_logs (fst (interrupt_streaming_messages t attempt s m)))" "tlog_type r \<noteq> ''assistant_text''" "rows_ok s"
  shows "r \<in> set (pr_logs s)"
proof -
  have keep: "set (filter (\<lambda>x. tlog_type x \<noteq> ''assistant_text'') (pr_logs (fst (foldl (interrupt_message attempt) (s0, m0) rows))))
      \<subseteq> set (pr_logs s0)" (is "?A s0 m0 rows \<subseteq> _")
    if "\<forall>x\<in>set (pr_logs s0). \<forall>y\<in>set rows. tlog_id x = tlog_id y \<longrightarrow> tlog_type x = ''assistant_text''" for s0 m0 rows
    using that
  proof (induction rows arbitrary: s0 m0)
    case (Cons q rows)
    obtain s1 m1 where one: "interrupt_message attempt (s0, m0) q = (s1, m1)" by fastforce
    obtain meta where "s1 = s0 \<or> s1 = set_metadata (tlog_id q) meta s0" using interrupt_message_form [of attempt s0 m0 q] one by auto
    then have rows: "\<exists>x\<in>set (pr_logs s0). tlog_id y = tlog_id x \<and> tlog_type y = tlog_type x \<and> (y = x \<or> tlog_id x = tlog_id q)"
      if "y \<in> set (pr_logs s1)" for y
      using that by (auto dest!: set_metadata_row)
    then have "\<forall>x\<in>set (pr_logs s1). \<forall>y\<in>set rows. tlog_id x = tlog_id y \<longrightarrow> tlog_type x = ''assistant_text''"
      using Cons.prems by fastforce
    note IH = Cons.IH [OF this, of m1]
    show ?case
    proof
      fix y assume y: "y \<in> set (filter (\<lambda>x. tlog_type x \<noteq> ''assistant_text'')
          (pr_logs (fst (foldl (interrupt_message attempt) (s0, m0) (q # rows)))))"
      then have "y \<in> set (pr_logs s1)" using IH by (auto simp: one)
      from rows [OF this] obtain x where x: "x \<in> set (pr_logs s0)" "tlog_type y = tlog_type x" "y = x \<or> tlog_id x = tlog_id q" by blast
      then show "y \<in> set (pr_logs s0)" using Cons.prems y by auto
    qed
  qed simp
  have "\<forall>x\<in>set (pr_logs s). \<forall>y\<in>set (task_rows t ''assistant_text'' s). tlog_id x = tlog_id y \<longrightarrow> tlog_type x = ''assistant_text''"
    using assms(3) by (auto simp: rows_ok_def task_rows_def distinct_map dest: inj_onD)
  from keep [OF this, of m] show ?thesis using assms(1,2) unfolding interrupt_streaming_messages_def by auto
qed


lemma harness_end_closes:
  assumes ty: "ty = ''harness.completed'' \<or> ty = ''harness.failed''" and "rows_ok s"
    and ok: "fst (project_event pe t attempt ty p occurred_at s m) = Inr s'" and r: "r \<in> set (pr_logs s')"
  shows "\<not> live_message t attempt r \<and> \<not> live_thinking t attempt r"
proof -
  let ?s1 = "interrupt_thinking_rows t attempt occurred_at s"
  let ?s2 = "fst (interrupt_streaming_messages t attempt ?s1 m)"
  obtain level meta where s': "s' = add_log t level [] ''harness_result'' meta ?s2"
    using ok ty unfolding project_event_def by (auto simp: case_prod_beta)
  have ok1: "rows_ok ?s1" using thinking_grows(1) assms(2) by (auto simp: log_grows_def)
  show ?thesis
  proof (cases "tlog_type r = ''harness_result''")
    case True
    then show ?thesis by (simp add: live_message_def live_thinking_def)
  next
    case False
    then have r2: "r \<in> set (pr_logs ?s2)" using r unfolding s' by (auto simp: add_log_def)
    have "\<not> live_thinking t attempt r"
    proof (cases "tlog_type r = ''thinking''")
      case True
      then have "tlog_type r \<noteq> ''assistant_text''" by simp
      from interrupt_leaves_no_live_thinking [OF interrupt_other_rows [OF r2 this ok1]] show ?thesis .
    qed (simp add: live_thinking_def)
    then show ?thesis using interrupt_leaves_no_live_message [OF r2] by simp
  qed
qed

end
