(* ===== verification/Event_Writer.thy ===== *)
theory Event_Writer
  imports Event_Replay
begin

text \<open>
  The canonical event writer of a worker container, \<^verbatim>\<open>harness/events.py\<close>: every event is appended to the stream
  file under a lock, with a sequence number and order tests derived from the file itself.

  The file is a byte string. \<open>loads\<close> and \<open>dumps\<close> are the JSON reader of a line and the compact JSON writer,
  \<open>env\<close> is the process environment, \<open>outer_timeout\<close> tells whether the timeout marker of the backend exists, and the
  random id and the time of an event are arguments. An error is \<open>Inl\<close>; what was appended before it stays.
\<close>

section \<open>Reading the stream\<close>

definition newline :: char where "newline = CHR 0x0A"

text \<open>\<^verbatim>\<open>bytes.strip()\<close> is non-empty.\<close>

definition is_byte_space :: "char \<Rightarrow> bool" where
  "is_byte_space c = (let n = of_char c :: int in (9 \<le> n \<and> n \<le> 13) \<or> n = 32)"

definition non_blank_bytes :: "string \<Rightarrow> bool" where
  "non_blank_bytes s \<longleftrightarrow> list_ex (\<lambda>c. \<not> is_byte_space c) s"

text \<open>The lines of a binary file, with their line ends.\<close>

definition file_lines :: "string \<Rightarrow> string list" where
  "file_lines s = (let ps = split_on newline s in
     map (\<lambda>p. p @ [newline]) (butlast ps) @ (if last ps = [] then [] else [last ps]))"

definition parse_event_record :: "(string \<Rightarrow> pyval option) \<Rightarrow> string \<Rightarrow> (string, pydict) result" where
  "parse_event_record loads raw = (case loads raw of
     Some (PDict d) \<Rightarrow> Inr d
   | _ \<Rightarrow> Inl ''RuntimeError'')"

fun read_first_of :: "(string \<Rightarrow> pyval option) \<Rightarrow> string list \<Rightarrow> (string, pydict option) result" where
  "read_first_of loads [] = Inr None"
| "read_first_of loads (l # ls) =
     (if non_blank_bytes l then bind_result (parse_event_record loads l) (\<lambda>e. Inr (Some e)) else read_first_of loads ls)"

definition read_first_event :: "(string \<Rightarrow> pyval option) \<Rightarrow> string \<Rightarrow> (string, pydict option) result" where
  "read_first_event loads content = read_first_of loads (file_lines content)"

definition EVENT_READ_CHUNK_SIZE :: int where "EVENT_READ_CHUNK_SIZE = 8192"

text \<open>\<^verbatim>\<open>chunk.rfind(b"\n")\<close>\<close>

definition rfind_newline :: "string \<Rightarrow> int" where
  "rfind_newline s = (let k = length (takeWhile (\<lambda>c. c \<noteq> newline) (rev s)) in int (length s) - int k - 1)"

lemma rfind_newline_less: "rfind_newline s < int (length s)"
  by (simp add: rfind_newline_def Let_def)

text \<open>
  The backward read of \<^verbatim>\<open>_read_last_event\<close> in blocks, to the last line with content: \<open>remaining\<close> is the number of
  bytes before the part already read, and \<open>suffix_parts\<close> the blocks of the current line, latest last.
\<close>

function read_last_raw :: "string \<Rightarrow> int \<Rightarrow> string list \<Rightarrow> string option" where
  "read_last_raw content remaining suffix_parts =
     (if remaining \<le> 0 then
        (let raw = concat (rev suffix_parts) in if suffix_parts \<noteq> [] \<and> non_blank_bytes raw then Some raw else None)
      else
        let n = min EVENT_READ_CHUNK_SIZE remaining; read_start = remaining - n;
            chunk = take (nat n) (drop (nat read_start) content); nl = rfind_newline chunk
        in if nl \<ge> 0 then
             let raw = drop (nat nl + 1) chunk @ concat (rev suffix_parts)
             in if non_blank_bytes raw then Some raw
                else read_last_raw content (read_start + nl) []
           else read_last_raw content read_start (suffix_parts @ [chunk]))"
  by pat_completeness auto
termination
proof (relation "measure (\<lambda>(content, remaining, parts). nat remaining)", goal_cases)
  case (2 content remaining parts n read_start chunk nl raw)
  have "nl < int (length chunk)" unfolding 2(5) by (rule rfind_newline_less)
  also have "\<dots> \<le> int (nat n)" unfolding 2(4) length_take by linarith
  also have "int (nat n) = n" unfolding 2(2) using 2(1) by (simp add: EVENT_READ_CHUNK_SIZE_def)
  finally show ?case using 2(1,3) by simp
next
  case (3 content remaining parts n read_start chunk nl)
  then show ?case by (simp add: EVENT_READ_CHUNK_SIZE_def)
qed simp

declare read_last_raw.simps [simp del]

definition read_last_event :: "(string \<Rightarrow> pyval option) \<Rightarrow> string \<Rightarrow> (string, pydict option) result" where
  "read_last_event loads content = (case read_last_raw content (int (length content)) [] of
     None \<Rightarrow> Inr None
   | Some raw \<Rightarrow> bind_result (parse_event_record loads raw) (\<lambda>e. Inr (Some e)))"

fun scan_lines ::
  "(string \<Rightarrow> pyval option) \<Rightarrow> string list \<Rightarrow> pydict option \<times> pydict option \<times> bool
   \<Rightarrow> (string, pydict option \<times> pydict option \<times> bool) result" where
  "scan_lines loads [] s = Inr s"
| "scan_lines loads (l # ls) (first_event, last_event, seen) =
     (if \<not> non_blank_bytes l then scan_lines loads ls (first_event, last_event, seen)
      else bind_result (parse_event_record loads l) (\<lambda>e.
           let first' = (case first_event of Some d \<Rightarrow> if d = [] then Some e else Some d | None \<Rightarrow> Some e) in
           bind_result (in_strs_result (dict_get e ''type'') HARNESS_TERMINAL_TYPES) (\<lambda>b.
           scan_lines loads ls (first', Some e, seen \<or> b))))"

definition scan_event_stream :: "(string \<Rightarrow> pyval option) \<Rightarrow> string \<Rightarrow> (string, pydict option \<times> pydict option \<times> bool) result" where
  "scan_event_stream loads content = scan_lines loads (file_lines content) (None, None, False)"

definition event_seq :: "pydict \<Rightarrow> (string, int) result" where
  "event_seq e = (case dict_get e ''seq'' of PInt i \<Rightarrow> if 1 \<le> i then Inr i else Inl ''RuntimeError'' | _ \<Rightarrow> Inl ''RuntimeError'')"


section \<open>The envelope\<close>

type_synonym environment = "string \<Rightarrow> string option"

definition getenv :: "environment \<Rightarrow> string \<Rightarrow> string \<Rightarrow> string" where
  "getenv env k dflt = (case env k of None \<Rightarrow> dflt | Some v \<Rightarrow> v)"

definition required_env :: "environment \<Rightarrow> string \<Rightarrow> (string, string) result" where
  "required_env env k = (let v = py_strip (getenv env k []) in if v = [] then Inl ''RuntimeError'' else Inr v)"

text \<open>\<^verbatim>\<open>int(text)\<close> of a text without surrounding space: a sign and digits, with single underscores between digits.\<close>

definition py_int :: "string \<Rightarrow> int option" where
  "py_int s = (let neg = startswith s ''-''; body = (if neg \<or> startswith s ''+'' then drop 1 s else s);
                 groups = split_on (CHR ''_'') body
     in if list_all (\<lambda>g. g \<noteq> [] \<and> list_all is_digit g) groups
        then Some ((if neg then - 1 else 1) * foldl (\<lambda>n c. 10 * n + (of_char c - 48)) 0 (concat groups))
        else None)"

definition WRITER_KNOWN_TYPES :: "string list" where
  "WRITER_KNOWN_TYPES = [''run.started'', ''model.resolved'', ''message.delta'', ''message.completed'',
     ''reasoning_summary.delta'', ''reasoning_summary.completed'', ''reasoning_summary.interrupted'',
     ''reasoning_summary.started'', ''tool.started'', ''tool.completed'', ''context.compacted'',
     ''provider.retry'', ''usage.updated'', ''usage.final'', ''harness.completed'', ''harness.failed'',
     ''delivery.started'', ''delivery.completed'', ''delivery.failed'', ''worker.finalization'',
     ''run.completed'', ''run.failed'', ''control.command.delivered'', ''control.command.rejected'',
     ''control.queue.updated'', ''agent_settled'', ''diagnostic'']"

definition V2_CONTRACT :: string where "V2_CONTRACT = ''codify.worker.harness/v2''"

definition downgrade_unknown :: "string \<Rightarrow> pydict \<Rightarrow> pydict option \<Rightarrow> (string, string \<times> pydict) result" where
  "downgrade_unknown ty p raw_ref =
     (if ty \<in> set WRITER_KNOWN_TYPES then Inr (ty, p)
      else if startswith ty ''run.'' then Inl ''RuntimeError''
      else Inr (''diagnostic'', [(''code'', PStr ''unknown_event_type''), (''original_type'', PStr ty),
             (''raw_ref'', case raw_ref of None \<Rightarrow> PNone | Some d \<Rightarrow> PDict d)]))"

text \<open>A terminal written after the backend asked for a timeout stop carries the timeout failure.\<close>

definition stamp_timeout :: "bool \<Rightarrow> string \<Rightarrow> pydict \<Rightarrow> pydict" where
  "stamp_timeout outer_timeout ty p =
     (if (ty \<in> set HARNESS_TERMINAL_TYPES \<or> ty \<in> set TASK_TERMINAL_TYPES) \<and> outer_timeout then
        let f0 = (case dict_get p ''failure'' of PDict f \<Rightarrow> f | _ \<Rightarrow> []);
            f = dict_set (dict_set f0 ''kind'' (PStr ''timeout'')) ''message'' (PStr ''Task timed out'');
            p1 = dict_set p ''failure'' (PDict f)
        in if ty = ''run.failed'' then dict_set (dict_set p1 ''status'' (PStr ''failed'')) ''success'' (PBool False) else p1
      else p)"

definition writer_harness :: "environment \<Rightarrow> (string, pydict) result" where
  "writer_harness env =
     bind_result (required_env env ''CODIFY_HARNESS_KEY'') (\<lambda>key.
     bind_result (required_env env ''CODIFY_ADAPTER_VERSION'') (\<lambda>adapter.
     bind_result (required_env env ''CODIFY_CLI_VERSION'') (\<lambda>cli.
     let base = [(''key'', PStr key), (''adapter_version'', PStr adapter), (''cli_version'', PStr cli)];
         protocols = filter non_blank (split_on (CHR '','') (getenv env ''CODIFY_HARNESS_MODEL_PROTOCOLS'' []))
     in Inr (if py_strip (getenv env ''CODIFY_RUNTIME_CONTRACT_VERSION'' []) = V2_CONTRACT then
          base @ [(''control_transport'', PDict [(''kind'', PStr (getenv env ''CODIFY_HARNESS_CONTROL_TRANSPORT_KIND'' ''rpc_stdio'')),
                     (''protocol'', case env ''CODIFY_HARNESS_CONTROL_TRANSPORT_PROTOCOL'' of None \<Rightarrow> PNone | Some v \<Rightarrow> PStr v)]),
                  (''model_protocols'', PList (map PStr (if protocols \<noteq> [] then protocols
                     else [getenv env ''CODIFY_HARNESS_MODEL_PROTOCOL'' ''anthropic_messages''])))]
        else base))))"

definition writer_schema :: "environment \<Rightarrow> string" where
  "writer_schema env =
     (if getenv env ''CODIFY_EVENT_SCHEMA'' [] \<noteq> [] then getenv env ''CODIFY_EVENT_SCHEMA'' []
      else if py_strip (getenv env ''CODIFY_RUNTIME_CONTRACT_VERSION'' []) = V2_CONTRACT then CANONICAL_EVENT_SCHEMA_V2
      else CANONICAL_EVENT_SCHEMA)"

definition writer_payload :: "string \<Rightarrow> pydict \<Rightarrow> (string, pydict) result" where
  "writer_payload ty p =
     (if ty = ''usage.updated'' \<or> ty = ''usage.final'' then
        bind_result (if \<not> py_truthy (dict_get p ''usage'') then Inr []
                     else case dict_get p ''usage'' of PDict d \<Rightarrow> Inr d | _ \<Rightarrow> Inl ''AttributeError'') (\<lambda>d.
        Inr (dict_set p ''usage'' (PDict (map (\<lambda>k. (k, dict_get d k)) (TOKEN_KEYS @ [''cost'', ''currency'']) @
          [(''engine_fields'', if py_truthy (dict_get d ''engine_fields'') then dict_get d ''engine_fields'' else PDict [])]))))
      else Inr p)"


section \<open>Appending an event\<close>

type_synonym stream_state = "pydict option \<times> pydict option \<times> bool"

definition read_stream :: "(string \<Rightarrow> pyval option) \<Rightarrow> string \<Rightarrow> string option \<Rightarrow> (string, stream_state) result" where
  "read_stream loads ty content = (case content of
     None \<Rightarrow> Inr (None, None, False)
   | Some c \<Rightarrow>
       if ty \<in> set HARNESS_TERMINAL_TYPES \<or> ty \<in> set TASK_TERMINAL_TYPES \<or> ty = ''worker.finalization'' \<or> startswith ty ''delivery.''
       then scan_event_stream loads c
       else bind_result (read_first_event loads c) (\<lambda>f. bind_result (read_last_event loads c) (\<lambda>l. Inr (f, l, False))))"

definition check_order :: "string \<Rightarrow> pyval \<Rightarrow> int \<Rightarrow> bool \<Rightarrow> (string, unit) result" where
  "check_order ty last_type last_seq ended =
     bind_result (require (\<not> (last_seq = 0 \<and> ty \<noteq> ''run.started'')) ''RuntimeError'') (\<lambda>_.
     bind_result (require (\<not> (ty = ''run.started'' \<and> last_seq > 0)) ''RuntimeError'') (\<lambda>_.
     bind_result (require (\<not> (ty \<in> set HARNESS_TERMINAL_TYPES \<and> ended)) ''RuntimeError'') (\<lambda>_.
     bind_result (require (\<not> (startswith ty ''delivery.'' \<and> \<not> ended)) ''RuntimeError'') (\<lambda>_.
     bind_result (if ty = ''worker.finalization'' then
                    bind_result (require ended ''RuntimeError'') (\<lambda>_.
                    require (last_type \<noteq> PStr ''worker.finalization'') ''RuntimeError'') else Inr ()) (\<lambda>_.
     bind_result (if ty \<in> set TASK_TERMINAL_TYPES then
                    bind_result (require ended ''RuntimeError'') (\<lambda>_.
                    require (last_type = PStr ''worker.finalization'') ''RuntimeError'') else Inr ()) (\<lambda>_.
     require (\<not> (last_type = PStr ''worker.finalization'' \<and> ty \<notin> set TASK_TERMINAL_TYPES)) ''RuntimeError''))))))"

definition new_event ::
  "environment \<Rightarrow> pydict \<Rightarrow> string \<Rightarrow> int \<Rightarrow> string \<times> string \<Rightarrow> int \<Rightarrow> string \<Rightarrow> pydict \<Rightarrow> pydict option \<Rightarrow> pydict" where
  "new_event env harness attempt task stamp k ty payload raw_ref =
     [(''schema'', PStr (writer_schema env)), (''event_id'', PStr (fst stamp)), (''attempt_id'', PStr attempt),
      (''seq'', PInt k), (''occurred_at'', PStr (snd stamp)), (''type'', PStr ty), (''task_id'', PInt task),
      (''harness'', PDict harness), (''payload'', PDict payload)]
     @ (case raw_ref of None \<Rightarrow> [] | Some d \<Rightarrow> [(''raw_ref'', PDict d)])"

definition append_event ::
  "(string \<Rightarrow> pyval option) \<Rightarrow> (pydict \<Rightarrow> string) \<Rightarrow> environment \<Rightarrow> string \<times> string \<Rightarrow> string \<Rightarrow> pydict \<Rightarrow> pydict option
   \<Rightarrow> string option \<Rightarrow> (string, pydict \<times> string) result" where
  "append_event loads dumps env stamp ty p raw_ref content =
     bind_result (read_stream loads ty content) (\<lambda>(first_event, last_event, ended).
     let last_type = (case last_event of None \<Rightarrow> PNone | Some e \<Rightarrow> dict_get e ''type'') in
     bind_result (case last_event of None \<Rightarrow> Inr 0 | Some e \<Rightarrow> event_seq e) (\<lambda>last_seq.
     bind_result (in_strs_result last_type TASK_TERMINAL_TYPES) (\<lambda>over.
     bind_result (require (\<not> over) ''RuntimeError'') (\<lambda>_.
     bind_result (check_order ty last_type last_seq ended) (\<lambda>_.
     bind_result (writer_harness env) (\<lambda>harness.
     bind_result (require (case first_event of None \<Rightarrow> True | Some e \<Rightarrow> py_eq (dict_get e ''harness'') (PDict harness)) ''RuntimeError'') (\<lambda>_.
     bind_result (required_env env ''CODIFY_ATTEMPT_ID'') (\<lambda>attempt.
     bind_result (bind_result (required_env env ''TASK_ID'') (\<lambda>t. case py_int t of None \<Rightarrow> Inl ''ValueError'' | Some i \<Rightarrow> Inr i)) (\<lambda>task.
     bind_result (writer_payload ty p) (\<lambda>payload.
     let event = new_event env harness attempt task stamp (last_seq + 1) ty payload raw_ref
     in Inr (event, (case content of None \<Rightarrow> [] | Some c \<Rightarrow> c) @ dumps event @ [newline])))))))))))"

text \<open>One event without the warnings of the launcher, and the whole of \<^verbatim>\<open>emit\<close>.\<close>

definition emit_one ::
  "(string \<Rightarrow> pyval option) \<Rightarrow> (pydict \<Rightarrow> string) \<Rightarrow> environment \<Rightarrow> bool \<Rightarrow> string \<times> string \<Rightarrow> string \<Rightarrow> pydict \<Rightarrow> pydict option
   \<Rightarrow> string option \<Rightarrow> (string, pydict \<times> string) result" where
  "emit_one loads dumps env outer_timeout stamp ty p raw_ref content =
     bind_result (downgrade_unknown ty p raw_ref) (\<lambda>(ty1, p1).
     bind_result (required_env env ''CODIFY_RUNTIME_DIR'') (\<lambda>_.
     append_event loads dumps env stamp ty1 (stamp_timeout outer_timeout ty1 p1) raw_ref content))"

definition RUNTIME_WARNING_CODES :: "string list" where
  "RUNTIME_WARNING_CODES = [''worker_kit_runtime_drift_warning'', ''optional_harness_unavailable'', ''optional_runtime_tool_missing'']"

fun flush_runtime_warnings ::
  "(string \<Rightarrow> pyval option) \<Rightarrow> (pydict \<Rightarrow> string) \<Rightarrow> environment \<Rightarrow> (nat \<Rightarrow> string \<times> string) \<Rightarrow> nat \<Rightarrow> string list \<Rightarrow> string option
   \<Rightarrow> (string, unit) result \<times> string option" where
  "flush_runtime_warnings loads dumps env stamps k [] content = (Inr (), content)"
| "flush_runtime_warnings loads dumps env stamps k (l # ls) content = (case loads l of
     Some (PDict p) \<Rightarrow>
       if unhashable (dict_get p ''code'') then (Inl ''TypeError'', content)
       else if in_strs (dict_get p ''code'') RUNTIME_WARNING_CODES then
         (case emit_one loads dumps env False (stamps k) ''diagnostic'' p None content of
            Inl e \<Rightarrow> (Inl e, content)
          | Inr (event, c) \<Rightarrow> flush_runtime_warnings loads dumps env stamps (Suc k) ls (Some c))
       else flush_runtime_warnings loads dumps env stamps k ls content
   | _ \<Rightarrow> flush_runtime_warnings loads dumps env stamps k ls content)"

definition emit ::
  "(string \<Rightarrow> pyval option) \<Rightarrow> (pydict \<Rightarrow> string) \<Rightarrow> environment \<Rightarrow> bool \<Rightarrow> (nat \<Rightarrow> string \<times> string) \<Rightarrow> string list
   \<Rightarrow> string \<Rightarrow> pydict \<Rightarrow> pydict option \<Rightarrow> string option \<Rightarrow> (string, pydict) result \<times> string option" where
  "emit loads dumps env outer_timeout stamps warning_lines ty p raw_ref content =
     (case emit_one loads dumps env outer_timeout (stamps 0) ty p raw_ref content of
        Inl e \<Rightarrow> (Inl e, content)
      | Inr (event, c) \<Rightarrow>
          if ev_type event = ''run.started'' then
            (case flush_runtime_warnings loads dumps env stamps 1 warning_lines (Some c) of
               (Inl e, c') \<Rightarrow> (Inl e, c')
             | (Inr _, c') \<Rightarrow> (Inr event, c'))
          else (Inr event, Some c))"


section \<open>The last line\<close>

text \<open>The reference: the last line of the file that is not blank.\<close>

definition last_line :: "string \<Rightarrow> string option" where
  "last_line s = (case rev (filter non_blank_bytes (split_on newline s)) of [] \<Rightarrow> None | l # _ \<Rightarrow> Some l)"

lemma last_line_append:
  "last_line (a @ newline # b) = (case last_line b of None \<Rightarrow> last_line a | Some l \<Rightarrow> Some l)"
  by (simp add: last_line_def split_on_append split: list.splits)

lemma last_line_single: "newline \<notin> set b \<Longrightarrow> last_line b = (if non_blank_bytes b then Some b else None)"
  by (simp add: last_line_def split_on_single)

lemma rfind_newline_split:
  shows "rfind_newline s < 0 \<Longrightarrow> newline \<notin> set s"
    "0 \<le> rfind_newline s \<Longrightarrow> s = take (nat (rfind_newline s)) s @ newline # drop (nat (rfind_newline s) + 1) s
       \<and> newline \<notin> set (drop (nat (rfind_newline s) + 1) s)"
proof -
  let ?t = "takeWhile (\<lambda>c. c \<noteq> newline) (rev s)" and ?d = "dropWhile (\<lambda>c. c \<noteq> newline) (rev s)"
  have td: "rev s = ?t @ ?d" by simp
  have len: "length s = length ?t + length ?d" by (metis td length_append length_rev)
  show "newline \<notin> set s" if "rfind_newline s < 0"
  proof -
    have "?d = []" using that len by (simp add: rfind_newline_def Let_def)
    then show ?thesis using dropWhile_eq_Nil_conv [of _ "rev s"] by auto
  qed
  show "s = take (nat (rfind_newline s)) s @ newline # drop (nat (rfind_newline s) + 1) s
       \<and> newline \<notin> set (drop (nat (rfind_newline s) + 1) s)" if "0 \<le> rfind_newline s"
  proof -
    have "?d \<noteq> []" using that len by (auto simp: rfind_newline_def Let_def)
    then obtain r where d: "?d = newline # r" by (cases ?d) (use hd_dropWhile [of "\<lambda>c. c \<noteq> newline" "rev s"] in auto)
    have s: "s = rev r @ newline # rev ?t" using arg_cong [OF td, of rev] d by simp
    have k: "rfind_newline s = int (length r)" using len d by (simp add: rfind_newline_def Let_def)
    define t where "t = ?t"
    have t: "newline \<notin> set t" unfolding t_def by (auto dest: set_takeWhileD)
    have "take (length r) s = rev r" "drop (length r + 1) s = rev t"
      unfolding arg_cong [OF s [folded t_def], of "take (length r)"] arg_cong [OF s [folded t_def], of "drop (length r + 1)"]
      by simp_all
    then show ?thesis unfolding k using t s [folded t_def] by simp
  qed
qed

lemma read_last_raw_correct:
  assumes "list_all (\<lambda>p. newline \<notin> set p) parts" "remaining \<le> int (length content)"
  shows "read_last_raw content remaining parts = last_line (take (nat remaining) content @ concat (rev parts))"
  using assms
proof (induction content remaining parts rule: read_last_raw.induct)
  case (1 content remaining parts)
  have clean: "newline \<notin> set (concat (rev parts))" using "1.prems"(1) by (auto simp: list_all_iff)
  show ?case
  proof (cases "remaining \<le> 0")
    case True
    then show ?thesis
      using last_line_single [OF clean] by (subst read_last_raw.simps) (auto simp: Let_def non_blank_bytes_def)
  next
    case False
    define n where "n = min EVENT_READ_CHUNK_SIZE remaining"
    define start where "start = remaining - n"
    define chunk where "chunk = take (nat n) (drop (nat start) content)"
    define nl where "nl = rfind_newline chunk"
    have n: "0 < n" "n \<le> remaining" "0 \<le> start" using False by (auto simp: n_def start_def EVENT_READ_CHUNK_SIZE_def)
    have whole: "take (nat remaining) content = take (nat start) content @ chunk"
      unfolding chunk_def using n by (simp add: start_def flip: take_add nat_add_distrib)
    note IH = "1.IH" [OF False n_def start_def chunk_def nl_def]
    show ?thesis
    proof (cases "0 \<le> nl")
      case True
      note sp = rfind_newline_split(2) [of chunk, folded nl_def, OF True]
      let ?raw = "drop (nat nl + 1) chunk @ concat (rev parts)"
      have nl_lt: "nl < int (length chunk)" unfolding nl_def by (rule rfind_newline_less)
      have pre: "take (nat (start + nl)) content = take (nat start) content @ take (nat nl) chunk"
      proof -
        have "nat nl \<le> nat n" using nl_lt True unfolding chunk_def length_take by linarith
        then show ?thesis unfolding chunk_def using True n by (simp add: nat_add_distrib take_add min_def)
      qed
      have parted: "take (nat remaining) content @ concat (rev parts) = take (nat (start + nl)) content @ newline # ?raw"
        unfolding whole pre using sp by (metis append.assoc append_Cons)
      have raw: "last_line ?raw = (if non_blank_bytes ?raw then Some ?raw else None)"
        using sp clean by (intro last_line_single) auto
      have bound: "start + nl \<le> int (length content)" using nl_lt True n by (simp add: chunk_def start_def) 
      have "read_last_raw content remaining parts =
          (if non_blank_bytes ?raw then Some ?raw else read_last_raw content (start + nl) [])"
        using False True by (subst read_last_raw.simps) (simp add: Let_def n_def start_def chunk_def nl_def)
      then show ?thesis unfolding parted last_line_append raw using IH(1) [OF True refl] bound by simp
    next
      case neg: False
      have "newline \<notin> set chunk" using rfind_newline_split(1) [of chunk] neg by (simp add: nl_def)
      moreover have "read_last_raw content remaining parts = read_last_raw content start (parts @ [chunk])"
        using False neg by (subst read_last_raw.simps) (simp add: Let_def n_def start_def chunk_def nl_def)
      ultimately show ?thesis using IH(2) [OF neg] "1.prems" n whole by (simp add: start_def)
    qed
  qed
qed


section \<open>The stream as a list of events\<close>

text \<open>What the writer relies on of JSON: the text of an event is one non-blank line that reads back as the event.\<close>

definition reads_back :: "(string \<Rightarrow> pyval option) \<Rightarrow> (pydict \<Rightarrow> string) \<Rightarrow> pydict \<Rightarrow> bool" where
  "reads_back loads dumps e \<longleftrightarrow> newline \<notin> set (dumps e) \<and> non_blank_bytes (dumps e)
     \<and> loads (dumps e) = Some (PDict e) \<and> loads (dumps e @ [newline]) = Some (PDict e)"

definition stream_text :: "(pydict \<Rightarrow> string) \<Rightarrow> pydict list \<Rightarrow> string" where
  "stream_text dumps es = concat (map (\<lambda>e. dumps e @ [newline]) es)"

lemma stream_text_snoc: "stream_text dumps (es @ [e]) = stream_text dumps es @ dumps e @ [newline]"
  by (simp add: stream_text_def)

lemma split_stream_text:
  assumes "list_all (reads_back loads dumps) es"
  shows "split_on newline (stream_text dumps es) = map dumps es @ [[]]"
  using assms by (induction es) (auto simp: stream_text_def reads_back_def split_on_append_slash)

lemma file_lines_stream_text:
  assumes "list_all (reads_back loads dumps) es"
  shows "file_lines (stream_text dumps es) = map (\<lambda>e. dumps e @ [newline]) es"
  by (simp add: file_lines_def split_stream_text [OF assms] Let_def)

lemma reads_back_line:
  assumes "reads_back loads dumps e"
  shows "non_blank_bytes (dumps e @ [newline])" "parse_event_record loads (dumps e @ [newline]) = Inr e"
    "non_blank_bytes (dumps e)" "parse_event_record loads (dumps e) = Inr e"
  using assms by (auto simp: reads_back_def non_blank_bytes_def parse_event_record_def)

lemma read_first_stream:
  assumes "list_all (reads_back loads dumps) es"
  shows "read_first_event loads (stream_text dumps es) = Inr (case es of [] \<Rightarrow> None | e # _ \<Rightarrow> Some e)"
  unfolding read_first_event_def file_lines_stream_text [OF assms]
  using assms by (cases es) (auto simp: reads_back_line(2) dest: reads_back_line(1))

lemma read_last_stream:
  assumes "list_all (reads_back loads dumps) es"
  shows "read_last_event loads (stream_text dumps es) = Inr (if es = [] then None else Some (last es))"
proof -
  have nb: "filter non_blank_bytes (map dumps es) = map dumps es"
    using assms by (induction es) (auto simp: reads_back_def)
  have "last_line (stream_text dumps es) = (if es = [] then None else Some (dumps (last es)))"
    unfolding last_line_def split_stream_text [OF assms]
    by (cases es rule: rev_cases) (use nb in \<open>auto simp: non_blank_bytes_def\<close>)
  moreover have "reads_back loads dumps (last es)" if "es \<noteq> []" using assms that by (simp add: list_all_iff)
  ultimately show ?thesis
    using read_last_raw_correct [of "[]" "int (length (stream_text dumps es))" "stream_text dumps es"] reads_back_line(4)
    by (auto simp: read_last_event_def)
qed

lemma scan_stream:
  assumes "list_all (reads_back loads dumps) es" "list_all (\<lambda>e. e \<noteq> [] \<and> dict_get e ''type'' = PStr (ev_type e)) es"
    and "first_event \<noteq> Some []"
  shows "scan_lines loads (map (\<lambda>e. dumps e @ [newline]) es) (first_event, last_event, seen) =
    Inr (case first_event of None \<Rightarrow> (case es of [] \<Rightarrow> None | e # _ \<Rightarrow> Some e) | f \<Rightarrow> f,
         if es = [] then last_event else Some (last es), seen \<or> list_ex (\<lambda>e. ev_type e \<in> set HARNESS_TERMINAL_TYPES) es)"
  using assms
proof (induction es arbitrary: first_event last_event seen)
  case (Cons e es)
  have e: "non_blank_bytes (dumps e @ [newline])" "parse_event_record loads (dumps e @ [newline]) = Inr e"
    using Cons.prems(1) reads_back_line(1,2) by auto
  define first' where "first' = (case first_event of Some d \<Rightarrow> if d = [] then Some e else Some d | None \<Rightarrow> Some e)"
  have f: "first' \<noteq> Some []" "(case first' of None \<Rightarrow> (case es of [] \<Rightarrow> None | e # _ \<Rightarrow> Some e) | f \<Rightarrow> f)
      = (case first_event of None \<Rightarrow> Some e | f \<Rightarrow> f)"
    using Cons.prems(2,3) by (auto simp: first'_def split: option.splits)
  have "scan_lines loads (map (\<lambda>e. dumps e @ [newline]) (e # es)) (first_event, last_event, seen)
      = scan_lines loads (map (\<lambda>e. dumps e @ [newline]) es) (first', Some e, seen \<or> ev_type e \<in> set HARNESS_TERMINAL_TYPES)"
    using Cons.prems(2) by (simp add: e first'_def)
  also have "\<dots> = Inr (case first_event of None \<Rightarrow> Some e | f \<Rightarrow> f, if es = [] then Some e else Some (last es),
      (seen \<or> ev_type e \<in> set HARNESS_TERMINAL_TYPES) \<or> list_ex (\<lambda>e. ev_type e \<in> set HARNESS_TERMINAL_TYPES) es)"
    using Cons.IH [of first'] Cons.prems f by simp
  finally show ?case by (simp add: disj_assoc split: option.split)
qed (auto split: option.splits)

text \<open>The events of one stream, as the writer of one environment leaves them.\<close>

definition writer_identity :: "environment \<Rightarrow> (string, pydict \<times> string \<times> int) result" where
  "writer_identity env =
     bind_result (writer_harness env) (\<lambda>h. bind_result (required_env env ''CODIFY_ATTEMPT_ID'') (\<lambda>a.
     bind_result (bind_result (required_env env ''TASK_ID'') (\<lambda>t. case py_int t of None \<Rightarrow> Inl ''ValueError'' | Some i \<Rightarrow> Inr i)) (\<lambda>t.
     Inr (h, a, t))))"

definition written_event :: "environment \<Rightarrow> pydict \<Rightarrow> bool" where
  "written_event env e \<longleftrightarrow> (\<exists>h a t ty k.
     writer_identity env = Inr (h, a, t) \<and> dict_get e ''harness'' = PDict h \<and> dict_get e ''attempt_id'' = PStr a
     \<and> dict_get e ''task_id'' = PInt t \<and> dict_get e ''type'' = PStr ty \<and> ty \<in> set WRITER_KNOWN_TYPES
     \<and> dict_get e ''seq'' = PInt k \<and> 1 \<le> k)"

definition order_ok :: "pydict list \<Rightarrow> string \<Rightarrow> bool" where
  "order_ok es ty \<longleftrightarrow>
     (let ended = list_ex (\<lambda>e. ev_type e \<in> set HARNESS_TERMINAL_TYPES) es;
          final = es \<noteq> [] \<and> ev_type (last es) = ''worker.finalization'' in
      (es = [] \<longleftrightarrow> ty = ''run.started'') \<and> \<not> (es \<noteq> [] \<and> ev_type (last es) \<in> set TASK_TERMINAL_TYPES)
      \<and> (ty \<in> set HARNESS_TERMINAL_TYPES \<longrightarrow> \<not> ended) \<and> (startswith ty ''delivery.'' \<longrightarrow> ended)
      \<and> (ty = ''worker.finalization'' \<longrightarrow> ended) \<and> (ty \<in> set TASK_TERMINAL_TYPES \<longrightarrow> ended)
      \<and> (final \<longleftrightarrow> ty \<in> set TASK_TERMINAL_TYPES))"

lemma check_order_iff:
  assumes "list_all (written_event env) es" "needs \<longleftrightarrow> ty \<in> set HARNESS_TERMINAL_TYPES \<or> ty \<in> set TASK_TERMINAL_TYPES
      \<or> ty = ''worker.finalization'' \<or> startswith ty ''delivery.''"
    and "k = 0 \<longleftrightarrow> es = []" "0 \<le> k" "es \<noteq> [] \<Longrightarrow> ev_type (last es) \<notin> set TASK_TERMINAL_TYPES"
  shows "check_order ty (if es = [] then PNone else PStr (ev_type (last es))) k
      (needs \<and> list_ex (\<lambda>e. ev_type e \<in> set HARNESS_TERMINAL_TYPES) es) = (if order_ok es ty then Inr () else Inl ''RuntimeError'')"
proof -
  define ht tt fi st de where b: "ht = (ty \<in> set HARNESS_TERMINAL_TYPES)" "tt = (ty \<in> set TASK_TERMINAL_TYPES)"
    "fi = (ty = ''worker.finalization'')" "st = (ty = ''run.started'')" "de = startswith ty ''delivery.''"
  have dis: "ht \<Longrightarrow> \<not> de \<and> \<not> fi \<and> \<not> tt \<and> \<not> st" "tt \<Longrightarrow> \<not> de \<and> \<not> fi \<and> \<not> st" "fi \<Longrightarrow> \<not> de \<and> \<not> st" "st \<Longrightarrow> \<not> de"
    unfolding b using lifecycle_types_disjoint by metis+
  define en where "en = list_ex (\<lambda>e. ev_type e \<in> set HARNESS_TERMINAL_TYPES) es"
  define fl where "fl = (es \<noteq> [] \<and> ev_type (last es) = ''worker.finalization'')"
  have lt: "(if es = [] then PNone else PStr (ev_type (last es))) = PStr ''worker.finalization'' \<longleftrightarrow> fl"
    by (simp add: fl_def)
  have k: "k > 0 \<longleftrightarrow> es \<noteq> []" using assms(3,4) by auto
  show ?thesis
    unfolding check_order_def order_ok_def Let_def lt fl_def [symmetric] en_def [symmetric] assms(2,3) k b [symmetric]
    using dis assms(5) by (cases ht; cases tt; cases fi; cases st; cases de; cases en; cases fl; cases "es = []") (simp_all add: b(2))
qed


lemma writer_harness_wf:
  assumes "writer_harness env = Inr h"
  shows "wf_pyval (PDict h)"
proof -
  let ?protocols = "filter non_blank (split_on (CHR '','') (getenv env ''CODIFY_HARNESS_MODEL_PROTOCOLS'' []))"
  obtain key adapter cli where
    h: "h = (if py_strip (getenv env ''CODIFY_RUNTIME_CONTRACT_VERSION'' []) = V2_CONTRACT then
          [(''key'', PStr key), (''adapter_version'', PStr adapter), (''cli_version'', PStr cli)] @
          [(''control_transport'', PDict [(''kind'', PStr (getenv env ''CODIFY_HARNESS_CONTROL_TRANSPORT_KIND'' ''rpc_stdio'')),
             (''protocol'', case env ''CODIFY_HARNESS_CONTROL_TRANSPORT_PROTOCOL'' of None \<Rightarrow> PNone | Some v \<Rightarrow> PStr v)]),
           (''model_protocols'', PList (map PStr (if ?protocols \<noteq> [] then ?protocols
             else [getenv env ''CODIFY_HARNESS_MODEL_PROTOCOL'' ''anthropic_messages''])))]
        else [(''key'', PStr key), (''adapter_version'', PStr adapter), (''cli_version'', PStr cli)])"
    using assms unfolding writer_harness_def Let_def bind_result_eq_Inr by blast
  show ?thesis unfolding h by (simp add: list_all_iff split: option.split)
qed

lemma new_event_fields [simp]:
  "dict_get (new_event env h a t stamp k ty p raw) ''type'' = PStr ty"
  "dict_get (new_event env h a t stamp k ty p raw) ''seq'' = PInt k"
  "dict_get (new_event env h a t stamp k ty p raw) ''harness'' = PDict h"
  "dict_get (new_event env h a t stamp k ty p raw) ''attempt_id'' = PStr a"
  "dict_get (new_event env h a t stamp k ty p raw) ''task_id'' = PInt t"
  "dict_get (new_event env h a t stamp k ty p raw) ''event_id'' = PStr (fst stamp)"
  by (simp_all add: new_event_def)

definition written_stream :: "environment \<Rightarrow> pydict list \<Rightarrow> bool" where
  "written_stream env es \<longleftrightarrow> list_all (written_event env) es \<and> (\<forall>i<length es. ev_seq (es ! i) = int i + 1)"

lemma written_stream_snoc:
  assumes "written_stream env es" "writer_identity env = Inr (h, a, t)" "ty \<in> set WRITER_KNOWN_TYPES"
  shows "written_stream env (es @ [new_event env h a t stamp (int (length es) + 1) ty p raw])"
proof -
  let ?e = "new_event env h a t stamp (int (length es) + 1) ty p raw"
  have "written_event env ?e" unfolding written_event_def using assms(2,3) by simp
  moreover have "ev_seq ?e = int (length es) + 1" by (simp add: ev_int_def)
  ultimately show ?thesis using assms(1) by (auto simp: written_stream_def nth_append less_Suc_eq)
qed

lemma read_stream_written:
  assumes rb: "list_all (reads_back loads dumps) es" and w: "list_all (written_event env) es"
  shows "read_stream loads ty (Some (stream_text dumps es)) =
    Inr (case es of [] \<Rightarrow> None | e # _ \<Rightarrow> Some e, if es = [] then None else Some (last es),
      (ty \<in> set HARNESS_TERMINAL_TYPES \<or> ty \<in> set TASK_TERMINAL_TYPES \<or> ty = ''worker.finalization'' \<or> startswith ty ''delivery.'')
      \<and> list_ex (\<lambda>e. ev_type e \<in> set HARNESS_TERMINAL_TYPES) es)"
proof -
  have "list_all (\<lambda>e. e \<noteq> [] \<and> dict_get e ''type'' = PStr (ev_type e)) es"
    using w by (auto simp: list_all_iff written_event_def ev_str_def)
  then have "scan_event_stream loads (stream_text dumps es) =
      Inr (case es of [] \<Rightarrow> None | e # _ \<Rightarrow> Some e, if es = [] then None else Some (last es),
        list_ex (\<lambda>e. ev_type e \<in> set HARNESS_TERMINAL_TYPES) es)"
    unfolding scan_event_stream_def file_lines_stream_text [OF rb] by (simp add: scan_stream [OF rb])
  then show ?thesis by (auto simp: read_stream_def read_first_stream [OF rb] read_last_stream [OF rb])
qed

lemma append_event_written:
  assumes rb: "list_all (reads_back loads dumps) es" and w: "written_stream env es"
    and idn: "writer_identity env = Inr (h, a, t)"
  shows "append_event loads dumps env stamp ty p raw (Some (stream_text dumps es)) =
    (if order_ok es ty
     then bind_result (writer_payload ty p) (\<lambda>pl.
            let e = new_event env h a t stamp (int (length es) + 1) ty pl raw in Inr (e, stream_text dumps (es @ [e])))
     else Inl ''RuntimeError'')"
proof -
  have w1: "list_all (written_event env) es" using w by (simp add: written_stream_def)
  have hh: "writer_harness env = Inr h" and aa: "required_env env ''CODIFY_ATTEMPT_ID'' = Inr a"
    and tt: "bind_result (required_env env ''TASK_ID'') (\<lambda>t. case py_int t of None \<Rightarrow> Inl ''ValueError'' | Some i \<Rightarrow> Inr i) = Inr t"
    using idn by (auto simp: writer_identity_def bind_result_eq_Inr)
  have first: "case (case es of [] \<Rightarrow> None | e # _ \<Rightarrow> Some e) of None \<Rightarrow> True | Some e \<Rightarrow> py_eq (dict_get e ''harness'') (PDict h)"
    using w1 idn py_eq_refl [OF writer_harness_wf [OF hh]] by (cases es) (auto simp: written_event_def)
  have lseq: "(case (if es = [] then None else Some (last es)) of None \<Rightarrow> Inr 0 | Some e \<Rightarrow> event_seq e) = (Inr (int (length es)) :: (string, int) result)"
  proof (cases es rule: rev_cases)
    case (snoc fs e)
    have "ev_seq e = int (length es)" using w snoc by (auto simp: written_stream_def nth_append)
    moreover have "\<exists>k. dict_get e ''seq'' = PInt k \<and> 1 \<le> k" using w1 snoc by (auto simp: written_event_def)
    ultimately show ?thesis using snoc by (auto simp: event_seq_def ev_int_def)
  qed simp
  have ltype: "(case (if es = [] then None else Some (last es)) of None \<Rightarrow> PNone | Some e \<Rightarrow> dict_get e ''type'')
      = (if es = [] then PNone else PStr (ev_type (last es)))"
    using w1 by (cases es rule: rev_cases) (auto simp: written_event_def ev_str_def)
  let ?lt = "if es = [] then PNone else PStr (ev_type (last es))"
  have over: "in_strs_result ?lt TASK_TERMINAL_TYPES = Inr (es \<noteq> [] \<and> ev_type (last es) \<in> set TASK_TERMINAL_TYPES)"
    by (simp add: in_strs_result_def unhashable_def in_strs_def)
  show ?thesis
  proof (cases "es \<noteq> [] \<and> ev_type (last es) \<in> set TASK_TERMINAL_TYPES")
    case True
    then show ?thesis
      unfolding append_event_def read_stream_written [OF rb w1] bind_result_simps case_prod_conv Let_def lseq ltype over
      by (simp add: order_ok_def)
  next
    case False
    have ck: "check_order ty ?lt (int (length es)) ((ty \<in> set HARNESS_TERMINAL_TYPES \<or> ty \<in> set TASK_TERMINAL_TYPES
        \<or> ty = ''worker.finalization'' \<or> startswith ty ''delivery.'') \<and> list_ex (\<lambda>e. ev_type e \<in> set HARNESS_TERMINAL_TYPES) es)
      = (if order_ok es ty then Inr () else Inl ''RuntimeError'')"
      by (rule check_order_iff [OF w1 refl]) (use False in auto)
    show ?thesis
      unfolding append_event_def read_stream_written [OF rb w1] bind_result_simps case_prod_conv Let_def lseq ltype over ck hh aa tt
      using False first by (simp add: stream_text_snoc)
  qed
qed

text \<open>The lifecycle of the events the backend keeps is that of the events the writer wrote.\<close>

lemma normalized_writer_event:
  assumes v: "validate_event_by_schema parse_time rp e = Inr n" and w: "written_event env e"
  shows "ev_id n = ev_id e" "ev_seq n = ev_seq e" "ev_attempt n = ev_attempt e" "ev_task n = ev_task e" "ev_harness n = ev_harness e"
    "ev_type n = ev_type e \<or> (ev_type e \<in> set V2_AUDIT_EVENT_TYPES \<and> ev_type n = ''diagnostic'')"
proof -
  obtain schema v2 where c: "validate_event_core parse_time rp schema v2 e = Inr n" using v by (rule by_schema_cases)
  obtain p0 ty p where vp: "validate_payload v2 (str_or_empty rp (dict_get e ''type'')) p0 (dict_get e ''raw_ref'') = Inr (ty, p)"
    and n: "n = dict_set (dict_set e ''type'' (PStr ty)) ''payload'' (PDict p)" using c by (rule validate_event_coreD)
  show "ev_id n = ev_id e" "ev_seq n = ev_seq e" "ev_attempt n = ev_attempt e" "ev_task n = ev_task e" "ev_harness n = ev_harness e"
    unfolding n by (simp_all add: ev_str_def ev_int_def ev_dict_def)
  obtain wty where t: "dict_get e ''type'' = PStr wty" "wty \<in> set WRITER_KNOWN_TYPES" using w by (auto simp: written_event_def)
  have ne: "wty \<noteq> []" using t(2) by (auto simp: WRITER_KNOWN_TYPES_def)
  have "set WRITER_KNOWN_TYPES \<subseteq> set KNOWN_EVENT_TYPES \<union> set V2_AUDIT_EVENT_TYPES"
    by (auto simp: WRITER_KNOWN_TYPES_def KNOWN_EVENT_TYPES_def V2_AUDIT_EVENT_TYPES_def CONTROL_EVENT_TYPES_def)
  then have k: "wty \<in> set KNOWN_EVENT_TYPES \<or> wty \<in> set V2_AUDIT_EVENT_TYPES" using t(2) by blast
  have "str_or_empty rp (dict_get e ''type'') = wty" using ne t by (simp add: str_or_empty_def py_str_def py_truthy_def)
  then have "ty = wty \<or> (wty \<in> set V2_AUDIT_EVENT_TYPES \<and> ty = ''diagnostic'')"
    using vp k by (auto simp: validate_payload_def normalize_event_type_def bind_result_eq_Inr split: if_splits)
  then show "ev_type n = ev_type e \<or> (ev_type e \<in> set V2_AUDIT_EVENT_TYPES \<and> ev_type n = ''diagnostic'')"
    unfolding n using t by (auto simp: ev_str_def)
qed


section \<open>The writer and the replay agree on the order\<close>

lemma replay_all_normalized:
  assumes "list_all2 (\<lambda>e n. validate_event_by_schema parse_time rp e = Inr n) es ns"
  shows "replay_all parse_time rp r es = replay_steps r ns"
  using assms
  by (induction arbitrary: r rule: list_all2_induct) (auto simp: replay_ingest_def bind_result_def split: sum.splits)

lemma replay_terminal_is_last:
  assumes "replay_steps new_replay ns = Inr r"
  shows "replay_terminal_type r \<noteq> None \<longleftrightarrow> ns \<noteq> [] \<and> ev_type (last ns) \<in> set TASK_TERMINAL_TYPES"
proof (cases ns rule: rev_cases)
  case Nil
  then show ?thesis using assms by (auto simp: new_replay_def)
next
  case (snoc ms n)
  then obtain r0 where "replay_step r0 n = Inr r" using assms by (auto simp: replay_steps_snoc bind_result_eq_Inr)
  then have "step_allowed r0 n" "r = step_result r0 n" by (simp_all add: replay_step_iff)
  then show ?thesis using snoc by (auto simp: step_allowed_def step_result_def split: option.splits)
qed

lemma same_lifecycle:
  assumes "validate_event_by_schema parse_time rp e = Inr n" "written_event env e"
  shows "ev_type n = ''run.started'' \<longleftrightarrow> ev_type e = ''run.started''"
    "ev_type n \<in> set HARNESS_TERMINAL_TYPES \<longleftrightarrow> ev_type e \<in> set HARNESS_TERMINAL_TYPES"
    "startswith (ev_type n) ''delivery.'' \<longleftrightarrow> startswith (ev_type e) ''delivery.''"
    "ev_type n = ''worker.finalization'' \<longleftrightarrow> ev_type e = ''worker.finalization''"
    "ev_type n \<in> set TASK_TERMINAL_TYPES \<longleftrightarrow> ev_type e \<in> set TASK_TERMINAL_TYPES"
proof -
  have neutral: "ty \<noteq> ''run.started'' \<and> ty \<notin> set HARNESS_TERMINAL_TYPES \<and> \<not> startswith ty ''delivery.''
      \<and> ty \<noteq> ''worker.finalization'' \<and> ty \<notin> set TASK_TERMINAL_TYPES"
    if "ty = ''diagnostic'' \<or> ty \<in> set V2_AUDIT_EVENT_TYPES" for ty
    using that by (auto simp: V2_AUDIT_EVENT_TYPES_def CONTROL_EVENT_TYPES_def HARNESS_TERMINAL_TYPES_def
        TASK_TERMINAL_TYPES_def startswith_def)
  from normalized_writer_event(6) [OF assms] neutral [of "ev_type n"] neutral [of "ev_type e"]
  show "ev_type n = ''run.started'' \<longleftrightarrow> ev_type e = ''run.started''"
    "ev_type n \<in> set HARNESS_TERMINAL_TYPES \<longleftrightarrow> ev_type e \<in> set HARNESS_TERMINAL_TYPES"
    "startswith (ev_type n) ''delivery.'' \<longleftrightarrow> startswith (ev_type e) ''delivery.''"
    "ev_type n = ''worker.finalization'' \<longleftrightarrow> ev_type e = ''worker.finalization''"
    "ev_type n \<in> set TASK_TERMINAL_TYPES \<longleftrightarrow> ev_type e \<in> set TASK_TERMINAL_TYPES"
    by metis+
qed

lemma list_all2_ex_iff:
  assumes "list_all2 R xs ys" "\<And>x y. x \<in> set xs \<Longrightarrow> R x y \<Longrightarrow> P x \<longleftrightarrow> Q y"
  shows "(\<exists>y\<in>set ys. Q y) \<longleftrightarrow> list_ex P xs"
  using assms by (induction rule: list_all2_induct) auto

lemma written_same_identity:
  assumes "written_event env e" "writer_identity env = Inr (h, a, t)"
  shows "ev_harness e = h" "ev_attempt e = a" "ev_task e = t"
  using assms by (auto simp: written_event_def ev_dict_def ev_str_def ev_int_def)

lemma writer_step_iff:
  assumes w: "written_stream env es" and idn: "writer_identity env = Inr (h, a, t)"
    and ns: "list_all2 (\<lambda>e n. validate_event_by_schema parse_time rp e = Inr n) es ns"
    and steps: "replay_steps new_replay ns = Inr r"
    and e: "e = new_event env h a t stamp (int (length es) + 1) ty p raw" and ty: "ty \<in> set WRITER_KNOWN_TYPES"
    and v: "validate_event_by_schema parse_time rp e = Inr n"
    and fresh: "fst stamp \<notin> ev_id ` set es"
  shows "step_allowed r n \<longleftrightarrow> order_ok es ty"
proof -
  note f = replay_steps_facts [OF steps]
  have we: "written_event env x" if "x \<in> set es" for x using w that by (simp add: written_stream_def list_all_iff)
  have wn: "written_event env e" unfolding e written_event_def using idn ty by simp
  have ety: "ev_type e = ty" "ev_id e = fst stamp" "ev_seq e = int (length es) + 1" unfolding e by (simp_all add: ev_str_def ev_int_def)
  note n_e = normalized_writer_event [OF v wn] and life = same_lifecycle [OF v wn, unfolded ety]
  have len: "length ns = length es" using ns by (simp add: list_all2_lengthD)
  have empty: "ns = [] \<longleftrightarrow> es = []" using len by auto
  have ids: "ev_id ` set ns = ev_id ` set es"
  proof -
    have "map ev_id ns = map ev_id es"
      using ns we by (induction rule: list_all2_induct) (auto dest: normalized_writer_event(1))
    then show ?thesis by (metis list.set_map)
  qed
  have ended: "replay_harness_ended r \<longleftrightarrow> list_ex (\<lambda>e. ev_type e \<in> set HARNESS_TERMINAL_TYPES) es"
  proof -
    have "replay_harness_ended r \<longleftrightarrow> (\<exists>n\<in>set ns. ev_type n \<in> set HARNESS_TERMINAL_TYPES)"
      using f unfolding replay_facts_def by blast
    also have "\<dots> \<longleftrightarrow> list_ex (\<lambda>e. ev_type e \<in> set HARNESS_TERMINAL_TYPES) es"
      by (rule list_all2_ex_iff [OF ns]) (metis same_lifecycle(2) we)
    finally show ?thesis .
  qed
  have last_life: "ev_type (last ns) = ''worker.finalization'' \<longleftrightarrow> ev_type (last es) = ''worker.finalization''"
    "ev_type (last ns) \<in> set TASK_TERMINAL_TYPES \<longleftrightarrow> ev_type (last es) \<in> set TASK_TERMINAL_TYPES" if "es \<noteq> []"
  proof -
    have "validate_event_by_schema parse_time rp (last es) = Inr (last ns)"
      using list_all2_nthD [OF ns, of "length es - 1"] that len empty last_conv_nth [of es] last_conv_nth [of ns] by simp
    from same_lifecycle(4,5) [OF this we] that
    show "ev_type (last ns) = ''worker.finalization'' \<longleftrightarrow> ev_type (last es) = ''worker.finalization''"
      "ev_type (last ns) \<in> set TASK_TERMINAL_TYPES \<longleftrightarrow> ev_type (last es) \<in> set TASK_TERMINAL_TYPES" by simp_all
  qed
  have over: "replay_terminal_type r \<noteq> None \<longleftrightarrow> es \<noteq> [] \<and> ev_type (last es) \<in> set TASK_TERMINAL_TYPES"
    using replay_terminal_is_last [OF steps] last_life(2) empty by blast
  have final: "replay_finalization_seen r \<longleftrightarrow> es \<noteq> [] \<and> ev_type (last es) = ''worker.finalization''" if "replay_terminal_type r = None"
  proof -
    have "replay_finalization_seen r \<longrightarrow> ns \<noteq> [] \<and> ev_type (last ns) = ''worker.finalization''"
      using f that unfolding replay_facts_def by blast
    moreover have "ns \<noteq> [] \<and> ev_type (last ns) = ''worker.finalization'' \<longrightarrow> replay_finalization_seen r"
      unfolding replay_factsD(4) [OF f] by (metis last_in_set)
    ultimately show ?thesis using last_life(1) empty by blast
  qed
  have idy: "\<exists>r1. replay_identity r n = Inr r1"
  proof (cases "ns = []")
    case True
    then have "replay_attempt_id r = None" using f by (simp add: replay_facts_def)
    then show ?thesis by (simp add: replay_identity_def Let_def)
  next
    case False
    then have hd_es: "hd es \<in> set es" using empty by simp
    have "validate_event_by_schema parse_time rp (hd es) = Inr (hd ns)" using ns False by (cases es; cases ns) auto
    note h1 = normalized_writer_event [OF this we [OF hd_es]] and h2 = written_same_identity [OF we [OF hd_es] idn]
    have h3: "ev_harness n = h" "ev_attempt n = a" "ev_task n = t" using n_e written_same_identity [OF wn idn] by simp_all
    have wf: "wf_pyval (dict_get h k)" for k
    proof -
      have "writer_harness env = Inr h" using idn by (auto simp: writer_identity_def bind_result_eq_Inr)
      from writer_harness_wf [OF this] show ?thesis
        by (auto simp: dict_get_def list_all_iff split: option.split dest!: map_of_SomeD)
    qed
    show ?thesis using f False h1 h2 h3 py_eq_refl [OF wf] unfolding replay_facts_def replay_identity_def Let_def by auto
  qed
  have started: "replay_started r \<longleftrightarrow> es \<noteq> []" and lseq: "replay_last_seq r = int (length es)"
    and seen: "ev_id n \<notin> set (replay_seen_event_ids r)"
    using replay_factsD [OF f] empty len fresh ids n_e(1) ety by auto
  have rest: "step_allowed r n \<longleftrightarrow> replay_terminal_type r = None
     \<and> (replay_finalization_seen r \<longrightarrow> ty \<in> set TASK_TERMINAL_TYPES)
     \<and> (ty = ''run.started'' \<longleftrightarrow> es = [])
     \<and> (ty \<in> set HARNESS_TERMINAL_TYPES \<longrightarrow> \<not> replay_harness_ended r)
     \<and> (startswith ty ''delivery.'' \<longrightarrow> replay_harness_ended r)
     \<and> (ty = ''worker.finalization'' \<longrightarrow> replay_harness_ended r \<and> \<not> replay_finalization_seen r)
     \<and> (ty \<in> set TASK_TERMINAL_TYPES \<longrightarrow> replay_harness_ended r \<and> replay_finalization_seen r)"
    unfolding step_allowed_def life started using seen idy n_e(2) ety(3) lseq by (auto simp: FIRST_SEQUENCE_def)
  show ?thesis
  proof (cases "replay_terminal_type r = None")
    case True
    have nt: "\<not> (es \<noteq> [] \<and> ev_type (last es) \<in> set TASK_TERMINAL_TYPES)" using over True by blast
    define fs where "fs = replay_finalization_seen r"
    have fl: "(es \<noteq> [] \<and> ev_type (last es) = ''worker.finalization'') = fs" using final [OF True] fs_def by blast
    show ?thesis
      unfolding rest order_ok_def Let_def ended [symmetric] fl fs_def [symmetric]
      using True nt lifecycle_types_disjoint(6) [of ty] by blast
  next
    case False
    then show ?thesis unfolding rest order_ok_def Let_def using over by blast
  qed
qed


section \<open>Histories of the writer\<close>

text \<open>The files a writer in one environment can leave: any events, refused ones included, with any payloads and stamps.\<close>

inductive emits :: "(string \<Rightarrow> pyval option) \<Rightarrow> (pydict \<Rightarrow> string) \<Rightarrow> environment \<Rightarrow> pydict list \<Rightarrow> string option \<Rightarrow> bool"
  for loads dumps env where
  no_file: "emits loads dumps env [] None"
| touched: "emits loads dumps env [] (Some [])"
| append: "emits loads dumps env es c \<Longrightarrow> emit_one loads dumps env outer_timeout stamp ty p raw c = Inr (e, c') \<Longrightarrow>
    emits loads dumps env (es @ [e]) (Some c')"

inductive_cases emits_NilE: "emits loads dumps env [] c"

lemma flush_extends:
  assumes "emits loads dumps env es c"
  shows "\<exists>fs. emits loads dumps env (es @ fs) (snd (flush_runtime_warnings loads dumps env stamps k ls c))"
  using assms
proof (induction ls arbitrary: es c k)
  case (Cons l ls)
  show ?case
  proof (cases "\<exists>p. loads l = Some (PDict p) \<and> \<not> unhashable (dict_get p ''code'') \<and> in_strs (dict_get p ''code'') RUNTIME_WARNING_CODES")
    case True
    then obtain p where p: "loads l = Some (PDict p)" "\<not> unhashable (dict_get p ''code'')" "in_strs (dict_get p ''code'') RUNTIME_WARNING_CODES"
      by blast
    show ?thesis
    proof (cases "emit_one loads dumps env False (stamps k) ''diagnostic'' p None c")
      case (Inl err)
      then show ?thesis using Cons.prems p by (auto intro: exI [of _ "[]"])
    next
      case (Inr x)
      obtain e c' where x: "x = (e, c')" by fastforce
      have "emits loads dumps env (es @ [e]) (Some c')" by (rule emits.append [OF Cons.prems Inr [unfolded x]])
      from Cons.IH [OF this, of "Suc k"] obtain fs where
        "emits loads dumps env ((es @ [e]) @ fs) (snd (flush_runtime_warnings loads dumps env stamps (Suc k) ls (Some c')))" by blast
      then show ?thesis using p Inr x by (auto intro: exI [of _ "e # fs"])
    qed
  next
    case False
    then show ?thesis using Cons.IH [OF Cons.prems, of k] Cons.prems
      by (auto split: option.splits pyval.splits intro: exI [of _ "[]"])
  qed
qed (auto intro: exI [of _ "[]"])

lemma emit_extends:
  assumes "emits loads dumps env es c"
  shows "\<exists>fs. emits loads dumps env (es @ fs) (snd (emit loads dumps env outer_timeout stamps warning_lines ty p raw c))"
proof (cases "emit_one loads dumps env outer_timeout (stamps 0) ty p raw c")
  case (Inl err)
  then show ?thesis using assms by (auto simp: emit_def intro: exI [of _ "[]"])
next
  case (Inr x)
  obtain e c' where x: "x = (e, c')" by fastforce
  have one: "emits loads dumps env (es @ [e]) (Some c')" by (rule emits.append [OF assms Inr [unfolded x]])
  then show ?thesis
    using flush_extends [OF one, of stamps 1 warning_lines] Inr x
    by (auto simp: emit_def split: prod.splits sum.splits)
qed

lemma append_event_identity:
  assumes "append_event loads dumps env stamp ty p raw c = Inr (e, c')"
  shows "\<exists>h a t. writer_identity env = Inr (h, a, t)"
  using assms
  by (auto simp: append_event_def writer_identity_def bind_result_eq_Inr Let_def)

lemma append_event_None:
  "append_event loads dumps env stamp ty p raw None = append_event loads dumps env stamp ty p raw (Some [])"
proof -
  have "read_stream loads ty (Some []) = Inr (None, None, False)"
    using read_stream_written [of loads dumps "[]" env ty] by (simp add: stream_text_def)
  then show ?thesis by (simp add: append_event_def read_stream_def [of loads ty None])
qed

lemma downgrade_known: "downgrade_unknown ty p raw = Inr (ty1, p1) \<Longrightarrow> ty1 \<in> set WRITER_KNOWN_TYPES"
  by (auto simp: downgrade_unknown_def WRITER_KNOWN_TYPES_def split: if_splits)

lemma emits_written:
  assumes "emits loads dumps env es c" "list_all (reads_back loads dumps) es"
  shows "written_stream env es \<and> (c = Some (stream_text dumps es) \<or> c = None \<and> es = [])"
  using assms
proof (induction rule: emits.induct)
  case (append es c outer_timeout stamp ty p raw e c')
  obtain ty1 p1 where d: "downgrade_unknown ty p raw = Inr (ty1, p1)"
    and ap: "append_event loads dumps env stamp ty1 (stamp_timeout outer_timeout ty1 p1) raw c = Inr (e, c')"
    using append.hyps(2) by (auto simp: emit_one_def bind_result_eq_Inr)
  have IH: "written_stream env es" "c = Some (stream_text dumps es) \<or> c = None \<and> es = []" using append.IH append.prems by auto
  obtain h a t where idn: "writer_identity env = Inr (h, a, t)" using append_event_identity [OF ap] by blast
  have ap': "append_event loads dumps env stamp ty1 (stamp_timeout outer_timeout ty1 p1) raw (Some (stream_text dumps es)) = Inr (e, c')"
    using ap IH(2) by (auto simp: stream_text_def append_event_None [symmetric])
  have rb: "list_all (reads_back loads dumps) es" using append.prems by simp
  from ap' obtain pl where "e = new_event env h a t stamp (int (length es) + 1) ty1 pl raw" "c' = stream_text dumps (es @ [e])"
    unfolding append_event_written [OF rb IH(1) idn] by (auto simp: bind_result_eq_Inr Let_def split: if_splits)
  then show ?case using written_stream_snoc [OF IH(1) idn downgrade_known [OF d]] by simp
qed (auto simp: written_stream_def stream_text_def)

lemma emits_replay:
  assumes "emits loads dumps env es c" "list_all (reads_back loads dumps) es"
    and "list_all2 (\<lambda>e n. validate_event_by_schema parse_time rp e = Inr n) es ns" "distinct (map ev_id es)"
  shows "\<exists>r. replay_steps new_replay ns = Inr r"
  using assms
proof (induction arbitrary: ns rule: emits.induct)
  case (append es c outer_timeout stamp ty p raw e c')
  obtain ms n where ns: "ns = ms @ [n]" and ms: "list_all2 (\<lambda>e n. validate_event_by_schema parse_time rp e = Inr n) es ms"
    and v: "validate_event_by_schema parse_time rp e = Inr n"
    using append.prems(2) by (auto simp: list_all2_append1 list_all2_Cons1)
  have rb: "list_all (reads_back loads dumps) es" using append.prems by simp
  obtain r where r: "replay_steps new_replay ms = Inr r" using append.IH [OF rb ms] append.prems(3) by auto
  have w: "written_stream env es" "c = Some (stream_text dumps es) \<or> c = None \<and> es = []"
    using emits_written [OF append.hyps(1) rb] by auto
  obtain ty1 p1 where d: "downgrade_unknown ty p raw = Inr (ty1, p1)"
    and ap: "append_event loads dumps env stamp ty1 (stamp_timeout outer_timeout ty1 p1) raw c = Inr (e, c')"
    using append.hyps(2) by (auto simp: emit_one_def bind_result_eq_Inr)
  obtain h a t where idn: "writer_identity env = Inr (h, a, t)" using append_event_identity [OF ap] by blast
  have ap': "append_event loads dumps env stamp ty1 (stamp_timeout outer_timeout ty1 p1) raw (Some (stream_text dumps es)) = Inr (e, c')"
    using ap w(2) by (auto simp: stream_text_def append_event_None [symmetric])
  obtain pl where o: "order_ok es ty1" and e: "e = new_event env h a t stamp (int (length es) + 1) ty1 pl raw"
    using ap' unfolding append_event_written [OF rb w(1) idn] by (auto simp: bind_result_eq_Inr Let_def split: if_splits)
  have "fst stamp \<notin> ev_id ` set es" using append.prems(3) by (auto simp: e ev_str_def)
  then have "step_allowed r n" using writer_step_iff [OF w(1) idn ms r e downgrade_known [OF d] v] o by blast
  then show ?case unfolding ns using r by (auto simp: replay_steps_snoc replay_step_iff)
qed auto


section \<open>Properties\<close>

text \<open>
  C15. The backward block-wise read of the stream file finds the last line that is not blank, for every file: it
  equals the reference that splits the whole file.
\<close>

theorem read_last_event_is_the_last_line:
  "read_last_event loads content = (case last_line content of
     None \<Rightarrow> Inr None
   | Some l \<Rightarrow> bind_result (parse_event_record loads l) (\<lambda>e. Inr (Some e)))"
  by (simp add: read_last_event_def read_last_raw_correct)

text \<open>
  C13. The writer accepts an event exactly when the backend's replay of the stream accepts it next. For a stream the
  writer wrote, whose lines read back and which the backend replays, an event of a known type with a payload the
  backend validates and a new id is appended exactly when the replay takes it, and then the file is the stream
  with the event.
\<close>

theorem writer_order_is_the_replay_order:
  assumes "emits loads dumps env es (Some content)" "list_all (reads_back loads dumps) es"
    and "list_all2 (\<lambda>e n. validate_event_by_schema parse_time rp e = Inr n) es ns" "replay_all parse_time rp new_replay es = Inr r"
    and "writer_identity env = Inr (h, a, t)" "required_env env ''CODIFY_RUNTIME_DIR'' = Inr dir" "ty \<in> set WRITER_KNOWN_TYPES"
    and "writer_payload ty (stamp_timeout outer_timeout ty p) = Inr pl"
    and "e = new_event env h a t stamp (int (length es) + 1) ty pl raw" "validate_event_by_schema parse_time rp e = Inr n"
    and "fst stamp \<notin> ev_id ` set es"
  shows "(\<exists>x. emit_one loads dumps env outer_timeout stamp ty p raw (Some content) = Inr x) \<longleftrightarrow> (\<exists>y. replay_ingest parse_time rp r e = Inr y)"
    (is "?emit \<longleftrightarrow> ?replay")
proof -
  note w = emits_written [OF assms(1,2)]
  have c: "content = stream_text dumps es" using w by simp
  have r: "replay_steps new_replay ns = Inr r" using assms(4) replay_all_normalized [OF assms(3)] by simp
  have "?emit \<longleftrightarrow> order_ok es ty"
    unfolding emit_one_def downgrade_unknown_def if_P [OF assms(7)] bind_result_simps case_prod_conv assms(6) c
      append_event_written [OF assms(2) w [THEN conjunct1] assms(5)] assms(8) Let_def by simp
  also have "\<dots> \<longleftrightarrow> step_allowed r n"
    using writer_step_iff [OF w [THEN conjunct1] assms(5) assms(3) r assms(9,7,10,11)] by blast
  also have "\<dots> \<longleftrightarrow> ?replay"
    unfolding replay_ingest_def assms(10) bind_result_simps using replay_step_iff [of r n] by (cases "replay_step r n") auto
  finally show ?thesis .
qed

text \<open>
  C7. Whatever the adapters ask the writer to emit, in whatever order, and with the launcher's warnings flushed in
  between, the file it leaves is a stream whose order the backend accepts: if every event passes the backend's
  validation by itself, the ids are distinct and every written line decodes to its event, the stream replays without
  an error. The writer does not run that validation; it would write an event with a hidden-reasoning key, say.
\<close>

theorem emitted_stream_is_replayable:
  assumes "emits loads dumps env es c" "list_all (reads_back loads dumps) es" "distinct (map ev_id es)"
    and "list_all (\<lambda>e. \<exists>n. validate_event_by_schema parse_time rp e = Inr n) es"
  shows "\<exists>r. replay_all parse_time rp new_replay es = Inr r"
proof -
  have ex: "\<exists>ns. list_all2 R xs ns" if "list_all (\<lambda>x. \<exists>n. R x n) xs" for R :: "pydict \<Rightarrow> pydict \<Rightarrow> bool" and xs
    using that by (induction xs) (auto simp: list_all2_Cons1)
  from ex [OF assms(4)] obtain ns where ns: "list_all2 (\<lambda>e n. validate_event_by_schema parse_time rp e = Inr n) es ns" by blast
  show ?thesis using emits_replay [OF assms(1,2) ns assms(3)] replay_all_normalized [OF ns] by simp
qed


section \<open>Witnesses\<close>

definition sample_env :: environment where
  "sample_env k = map_of [(''CODIFY_RUNTIME_DIR'', ''/run''), (''CODIFY_HARNESS_KEY'', ''pi''), (''CODIFY_ADAPTER_VERSION'', ''1''),
     (''CODIFY_CLI_VERSION'', ''2''), (''CODIFY_ATTEMPT_ID'', ''a1''), (''TASK_ID'', ''7'')] k"

definition sample_written :: pydict where
  "sample_written = new_event sample_env [(''key'', PStr ''pi''), (''adapter_version'', PStr ''1''), (''cli_version'', PStr ''2'')]
     ''a1'' 7 (''e1'', ''2026-01-01T00:00:00Z'') 1 ''run.started'' [] None"

definition sample_dumps :: "pydict \<Rightarrow> string" where "sample_dumps e = ''{}''"

definition sample_loads :: "string \<Rightarrow> pyval option" where "sample_loads s = Some (PDict sample_written)"

lemma sample_emits: "emits sample_loads sample_dumps sample_env [sample_written] (Some (''{}'' @ [newline]))"
proof -
  have "emit_one sample_loads sample_dumps sample_env False (''e1'', ''2026-01-01T00:00:00Z'') ''run.started'' [] None (Some [])
      = Inr (sample_written, ''{}'' @ [newline])" by code_simp
  from emits.append [OF emits.touched this] show ?thesis by simp
qed

lemma sample_reads_back: "list_all (reads_back sample_loads sample_dumps) [sample_written]"
  by code_simp

lemma sample_validates: "validate_event_by_schema (\<lambda>_. Some 0) (\<lambda>_. []) sample_written = Inr sample_written"
  by code_simp

theorem emitted_stream_is_replayable_witness:
  "\<exists>r. replay_all (\<lambda>_. Some 0) (\<lambda>_. []) new_replay [sample_written] = Inr r"
  by (rule emitted_stream_is_replayable [OF sample_emits sample_reads_back]) (use sample_validates in auto)

theorem writer_order_is_the_replay_order_witness:
  "\<exists>r n. replay_all (\<lambda>_. Some 0) (\<lambda>_. []) new_replay [sample_written] = Inr r
     \<and> (\<exists>y. replay_ingest (\<lambda>_. Some 0) (\<lambda>_. []) r n = Inr y) \<and> ev_seq n = 2 \<and> ev_type n = ''message.delta''"
proof -
  let ?h = "[(''key'', PStr ''pi''), (''adapter_version'', PStr ''1''), (''cli_version'', PStr ''2'')]"
  let ?e = "new_event sample_env ?h ''a1'' 7 (''e2'', ''2026-01-01T00:00:01Z'') (int (length [sample_written]) + 1) ''message.delta'' [] None"
  have "case replay_all (\<lambda>_. Some 0) (\<lambda>_. []) new_replay [sample_written] of Inl _ \<Rightarrow> False | Inr _ \<Rightarrow> True" by code_simp
  then obtain r where r: "replay_all (\<lambda>_. Some 0) (\<lambda>_. []) new_replay [sample_written] = Inr r" by (auto split: sum.splits)
  have idn: "writer_identity sample_env = Inr (?h, ''a1'', 7)" by code_simp
  have dir: "required_env sample_env ''CODIFY_RUNTIME_DIR'' = Inr ''/run''" by code_simp
  have known: "''message.delta'' \<in> set WRITER_KNOWN_TYPES" by code_simp
  have pl: "writer_payload ''message.delta'' (stamp_timeout False ''message.delta'' []) = Inr []" by code_simp
  have v: "validate_event_by_schema (\<lambda>_. Some 0) (\<lambda>_. []) ?e = Inr ?e" by code_simp
  have id_new: "fst (''e2'', ''2026-01-01T00:00:01Z'') \<notin> ev_id ` set [sample_written]" by code_simp
  have vs: "list_all2 (\<lambda>e n. validate_event_by_schema (\<lambda>_. Some 0) (\<lambda>_. []) e = Inr n) [sample_written] [sample_written]"
    using sample_validates by simp
  have "\<exists>x. emit_one sample_loads sample_dumps sample_env False (''e2'', ''2026-01-01T00:00:01Z'') ''message.delta'' [] None
      (Some (''{}'' @ [newline])) = Inr x" by (rule exI, code_simp)
  then have "\<exists>y. replay_ingest (\<lambda>_. Some 0) (\<lambda>_. []) r ?e = Inr y"
    using writer_order_is_the_replay_order [OF sample_emits sample_reads_back vs r idn dir known pl refl v id_new] by blast
  moreover have "ev_seq ?e = 2" "ev_type ?e = ''message.delta''" by code_simp+
  ultimately show ?thesis using r by blast
qed

end
