(* ===== verification/Event_Stream.thy ===== *)
theory Event_Stream
  imports Projector_Laws Event_Writer
begin

text \<open>
  The readers of the worker's files: the tail of the event file and of the console log, and their recovery from the
  archive, \<^verbatim>\<open>core/worker_event_projector.py\<close>, \<^verbatim>\<open>core/task_event_archive.py\<close> and \<^verbatim>\<open>core/task_log_payloads.py\<close>.

  A file is a byte string; the text of a chunk and its lines are the byte strings of their UTF-8 form, so that the
  length of a text in bytes is the length of the list. The parameter \<open>loads\<close> is the JSON decoder; it takes a line in
  that form to a value whose strings have one element per character, as the projector has them. \<open>streams\<close> is the state of a session: the projected tables with the cursors and the
  raw log chunks. An error rolls the session back to its last commit and forgets the attributes of the loaded
  attempts; the memory of the projector stays as it is.
\<close>

section \<open>Decoding\<close>

text \<open>
  \<^verbatim>\<open>bytes.decode("utf-8", errors="replace")\<close>: the first unit of a text is a well-formed sequence, or the longest part of
  one, which is replaced by U+FFFD.
\<close>

definition byte_in :: "int \<Rightarrow> int \<Rightarrow> char \<Rightarrow> bool" where
  "byte_in lo hi c \<longleftrightarrow> lo \<le> of_char c \<and> of_char c \<le> hi"

text \<open>The number of continuation bytes after a first byte, with the range of the first of them.\<close>

definition utf8_lead :: "char \<Rightarrow> (nat \<times> int \<times> int) option" where
  "utf8_lead c =
     (if byte_in 0 0x7F c then Some (0, 0, 0)
      else if byte_in 0xC2 0xDF c then Some (1, 0x80, 0xBF)
      else if byte_in 0xE0 0xE0 c then Some (2, 0xA0, 0xBF)
      else if byte_in 0xED 0xED c then Some (2, 0x80, 0x9F)
      else if byte_in 0xE1 0xEF c then Some (2, 0x80, 0xBF)
      else if byte_in 0xF0 0xF0 c then Some (3, 0x90, 0xBF)
      else if byte_in 0xF1 0xF3 c then Some (3, 0x80, 0xBF)
      else if byte_in 0xF4 0xF4 c then Some (3, 0x80, 0x8F)
      else None)"

definition continuation :: "int \<Rightarrow> int \<Rightarrow> string \<Rightarrow> string" where
  "continuation lo hi s = (case s of [] \<Rightarrow> []
     | c # r \<Rightarrow> if byte_in lo hi c then c # takeWhile (byte_in 0x80 0xBF) r else [])"

definition utf8_unit :: "string \<Rightarrow> nat \<times> bool" where
  "utf8_unit s = (case s of [] \<Rightarrow> (0, True)
     | c # r \<Rightarrow> (case utf8_lead c of None \<Rightarrow> (1, False)
         | Some (n, lo, hi) \<Rightarrow> let k = length (continuation lo hi (take n r)) in (Suc k, k = n)))"

lemma utf8_unit_pos: "s \<noteq> [] \<Longrightarrow> 0 < fst (utf8_unit s)"
  by (auto simp: utf8_unit_def Let_def split: list.split option.split)

function decode_replace :: "string \<Rightarrow> string" where
  "decode_replace s = (if s = [] then [] else case utf8_unit s of (k, ok) \<Rightarrow>
     (if ok then take k s else [CHR 0xEF, CHR 0xBF, CHR 0xBD]) @ decode_replace (drop k s))"
  by pat_completeness auto
termination
proof (relation "measure length", goal_cases)
  case (2 s k ok)
  then have "0 < k" using utf8_unit_pos [of s] by (metis fst_conv)
  then show ?case using 2 by simp
qed simp

declare decode_replace.simps [simp del]

function utf8_valid :: "string \<Rightarrow> bool" where
  "utf8_valid s = (if s = [] then True else case utf8_unit s of (k, ok) \<Rightarrow> ok \<and> utf8_valid (drop k s))"
  by pat_completeness auto
termination
proof (relation "measure length", goal_cases)
  case (2 s k ok)
  then have "0 < k" using utf8_unit_pos [of s] by (metis fst_conv)
  then show ?case using 2 by simp
qed simp

declare utf8_valid.simps [simp del]


section \<open>Lines\<close>

text \<open>The length of the line boundary of \<^verbatim>\<open>str.splitlines\<close> at the head of a text, 0 if there is none.\<close>

definition line_break :: "string \<Rightarrow> nat" where
  "line_break s =
     (if startswith s [CHR 0x0D, CHR 0x0A] then 2
      else if s \<noteq> [] \<and> (byte_in 0x0A 0x0D (hd s) \<or> byte_in 0x1C 0x1E (hd s)) then 1
      else if startswith s [CHR 0xC2, CHR 0x85] then 2
      else if startswith s [CHR 0xE2, CHR 0x80, CHR 0xA8] \<or> startswith s [CHR 0xE2, CHR 0x80, CHR 0xA9] then 3
      else 0)"

text \<open>\<^verbatim>\<open>splitlines(keepends=True)\<close>; \<open>cur\<close> is the line read so far, reversed.\<close>

function lines_from :: "string \<Rightarrow> string \<Rightarrow> string list" where
  "lines_from cur s = (if s = [] then (if cur = [] then [] else [rev cur])
     else let k = line_break s in
          if k = 0 then lines_from (hd s # cur) (tl s)
          else (rev cur @ take k s) # lines_from [] (drop k s))"
  by pat_completeness auto
termination
  by (relation "measure (\<lambda>(cur, s). length s)") (auto simp: length_greater_0_conv)

declare lines_from.simps [simp del]

definition splitlines :: "string \<Rightarrow> string list" where
  "splitlines s = lines_from [] s"

definition ends_line :: "string \<Rightarrow> bool" where
  "ends_line l \<longleftrightarrow> l \<noteq> [] \<and> last l = newline"

definition rstrip_newline :: "string \<Rightarrow> string" where
  "rstrip_newline l = rev (dropWhile (\<lambda>c. c = newline) (rev l))"

definition iter_complete_jsonl_records :: "string \<Rightarrow> string list \<times> string" where
  "iter_complete_jsonl_records buffer = (let ls = splitlines buffer in
     (map rstrip_newline (filter ends_line ls), if ls = [] \<or> ends_line (last ls) then [] else last ls))"


section \<open>Cursors and chunks\<close>

record ingest_cursor =
  cursor_task_id :: row_id
  cursor_stream_name :: string
  cursor_attempt_id :: "string option"
  cursor_last_offset :: int
  cursor_last_sequence_no :: int

record raw_log_chunk =
  chunk_task_id :: row_id
  chunk_sequence_no :: int
  chunk_content :: string

record streams =
  st_tables :: projection
  st_cursors :: "ingest_cursor list"
  st_chunks :: "raw_log_chunk list"

definition new_cursor :: "row_id \<Rightarrow> string \<Rightarrow> string option \<Rightarrow> ingest_cursor" where
  "new_cursor t name attempt = \<lparr>cursor_task_id = t, cursor_stream_name = name, cursor_attempt_id = attempt,
     cursor_last_offset = 0, cursor_last_sequence_no = 0\<rparr>"

definition put_cursor :: "ingest_cursor \<Rightarrow> streams \<Rightarrow> streams" where
  "put_cursor c st = st\<lparr>st_cursors := update_where
     (\<lambda>r. cursor_task_id r = cursor_task_id c \<and> cursor_stream_name r = cursor_stream_name c) (\<lambda>_. c) (st_cursors st)\<rparr>"

definition get_or_create_cursor ::
  "row_id \<Rightarrow> string \<Rightarrow> string option \<Rightarrow> streams \<Rightarrow> (string, ingest_cursor \<times> streams) result" where
  "get_or_create_cursor t name attempt st =
     (case filter (\<lambda>r. cursor_task_id r = t \<and> cursor_stream_name r = name) (st_cursors st) of
        [] \<Rightarrow> Inr (new_cursor t name attempt, st\<lparr>st_cursors := st_cursors st @ [new_cursor t name attempt]\<rparr>)
      | c # _ \<Rightarrow>
          if attempt = None then Inr (c, st)
          else if cursor_attempt_id c = None \<and> cursor_last_offset c = 0 \<and> cursor_last_sequence_no c = 0
          then let c1 = c\<lparr>cursor_attempt_id := attempt\<rparr> in Inr (c1, put_cursor c1 st)
          else if cursor_attempt_id c \<noteq> attempt then Inl ''ValueError'' else Inr (c, st))"

definition append_raw_log_chunk :: "row_id \<Rightarrow> int \<Rightarrow> string \<Rightarrow> streams \<Rightarrow> (string, streams) result" where
  "append_raw_log_chunk t k txt st =
     (if list_ex (\<lambda>r. chunk_task_id r = t \<and> chunk_sequence_no r = k) (st_chunks st) then Inl ''IntegrityError''
      else Inr (st\<lparr>st_chunks := st_chunks st @ [\<lparr>chunk_task_id = t, chunk_sequence_no = k, chunk_content = txt\<rparr>]\<rparr>))"


section \<open>The event file\<close>

text \<open>The loop over the records of a chunk; \<open>k\<close> counts the bytes processed.\<close>

fun ingest_lines ::
  "projector_env \<Rightarrow> (string \<Rightarrow> pyval option) \<Rightarrow> row_id \<Rightarrow> string list \<Rightarrow> int \<Rightarrow> ingest_cursor \<Rightarrow> projection \<Rightarrow> projector
   \<Rightarrow> (string, int \<times> ingest_cursor \<times> projection) result \<times> projector" where
  "ingest_lines pe loads t [] k c s m = (Inr (k, c, s), m)"
| "ingest_lines pe loads t (raw # raws) k c s m =
     (case loads raw of
        None \<Rightarrow> (Inl ''JSONDecodeError'', m)
      | Some (PDict e) \<Rightarrow>
          (case validate_event_by_schema (pe_parse_time pe) (pe_repr pe) e of
             Inl err \<Rightarrow> (Inl err, m)
           | Inr n \<Rightarrow>
               if \<not> (cursor_attempt_id c = None \<and> cursor_last_offset c = 0) \<and> cursor_attempt_id c \<noteq> Some (ev_attempt n)
               then (Inl protocol_error, m)
               else (case ingest_event_record pe t n s m of
                   (Inl err, m1) \<Rightarrow> (Inl err, m1)
                 | (Inr (accepted, s1), m1) \<Rightarrow>
                     let c1 = c\<lparr>cursor_attempt_id := Some (ev_attempt n)\<rparr>;
                         c2 = (if accepted then c1\<lparr>cursor_last_sequence_no := ev_seq n\<rparr> else c1)
                     in ingest_lines pe loads t raws (k + int (length raw) + 1) c2 s1 m1))
      | Some _ \<Rightarrow> (Inl ''AttributeError'', m))"

definition ingest_event_records_from_chunk ::
  "projector_env \<Rightarrow> (string \<Rightarrow> pyval option) \<Rightarrow> row_id \<Rightarrow> string \<Rightarrow> ingest_cursor \<Rightarrow> projection \<Rightarrow> projector
   \<Rightarrow> (string, ingest_cursor \<times> projection) result \<times> projector" where
  "ingest_event_records_from_chunk pe loads t chunk c s m =
     (case iter_complete_jsonl_records chunk of (records, remainder) \<Rightarrow>
        (case ingest_lines pe loads t records 0 c s m of
           (Inl err, m1) \<Rightarrow> (Inl err, m1)
         | (Inr (k, c1, s1), m1) \<Rightarrow>
             if remainder = [] \<and> k \<noteq> int (length chunk) then (Inl protocol_error, m1)
             else (Inr (c1\<lparr>cursor_last_offset := cursor_last_offset c1 + k\<rparr>, s1), m1)))"

definition tool_event_id :: "(pyval \<Rightarrow> string) \<Rightarrow> pydict \<Rightarrow> string option" where
  "tool_event_id rp e = (case dict_get e ''payload'' of
     PDict p \<Rightarrow> (case dict_get p ''tool_id'' of
         PNone \<Rightarrow> None
       | v \<Rightarrow> let x = py_strip (py_str rp v) in if x = [] then None else Some x)
   | _ \<Rightarrow> None)"

text \<open>
  The backward scan of \<^verbatim>\<open>_split_live_tool_start_parts\<close>: the lines are given last first, each with its index, \<open>after\<close> are
  the tools completed in the lines seen, and the result is the first line that starts one of them.
\<close>

fun split_index ::
  "(string \<Rightarrow> pyval option) \<Rightarrow> (pyval \<Rightarrow> string) \<Rightarrow> (nat \<times> string) list \<Rightarrow> string list \<Rightarrow> nat option \<Rightarrow> nat option" where
  "split_index loads rp [] after found = found"
| "split_index loads rp ((i, l) # ls) after found = (case loads (rstrip_newline l) of
     Some (PDict e) \<Rightarrow>
       let tool = tool_event_id rp e in
       if dict_get e ''type'' = PStr ''tool.started'' \<and> (case tool of None \<Rightarrow> False | Some x \<Rightarrow> x \<in> set after)
       then split_index loads rp ls after (Some i)
       else (case tool of
           Some x \<Rightarrow> split_index loads rp ls (if dict_get e ''type'' = PStr ''tool.completed'' then x # after else after) found
         | None \<Rightarrow> split_index loads rp ls after found)
   | _ \<Rightarrow> split_index loads rp ls after found)"

definition complete_lines :: "string \<Rightarrow> string list" where
  "complete_lines chunk = (let ls = splitlines chunk in if ls = [] \<or> ends_line (last ls) then ls else butlast ls)"

definition split_live_tool_start_parts ::
  "(string \<Rightarrow> pyval option) \<Rightarrow> (pyval \<Rightarrow> string) \<Rightarrow> string \<Rightarrow> string \<times> string" where
  "split_live_tool_start_parts loads rp chunk =
     (let complete = complete_lines chunk in
      if complete = [] then (chunk, [])
      else (case split_index loads rp (rev (enumerate 0 complete)) [] None of
          None \<Rightarrow> (chunk, [])
        | Some i \<Rightarrow> let prefix = concat (take (i + 1) complete) in (prefix, drop (length prefix) chunk)))"


section \<open>Lines of a text\<close>

lemma lines_from_concat: "concat (lines_from cur s) = rev cur @ s"
proof (induction cur s rule: lines_from.induct)
  case (1 cur s)
  then show ?case by (subst lines_from.simps) (auto simp: Let_def)
qed

lemma splitlines_concat [simp]: "concat (splitlines s) = s"
  by (simp add: splitlines_def lines_from_concat)

lemma lines_from_nonempty: "l \<in> set (lines_from cur s) \<Longrightarrow> l \<noteq> []"
proof (induction cur s rule: lines_from.induct)
  case (1 cur s)
  from "1.prems" show ?case
    by (subst (asm) lines_from.simps) (auto simp: Let_def dest: "1.IH" split: if_splits)
qed

lemma splitlines_nonempty: "l \<in> set (splitlines s) \<Longrightarrow> l \<noteq> []"
  by (auto simp: splitlines_def dest: lines_from_nonempty)

lemma splitlines_Nil [simp]: "splitlines s = [] \<longleftrightarrow> s = []"
  by (metis splitlines_concat concat.simps(1) lines_from.simps splitlines_def)


section \<open>The split before a finished tool\<close>

lemma complete_lines_prefix:
  obtains us where "splitlines chunk = complete_lines chunk @ us"
proof (cases "splitlines chunk = [] \<or> ends_line (last (splitlines chunk))")
  case True
  then show ?thesis using that [of "[]"] by (auto simp: complete_lines_def Let_def)
next
  case False
  then show ?thesis using that [of "[last (splitlines chunk)]"] by (simp add: complete_lines_def Let_def)
qed

lemma split_parts:
  assumes "split_live_tool_start_parts loads rp chunk = (prefix, rest)"
  shows "prefix @ rest = chunk \<and> (chunk \<noteq> [] \<longrightarrow> prefix \<noteq> [])"
proof (cases "complete_lines chunk = [] \<or> split_index loads rp (rev (enumerate 0 (complete_lines chunk))) [] None = None")
  case True
  then have "split_live_tool_start_parts loads rp chunk = (chunk, [])" by (auto simp: split_live_tool_start_parts_def Let_def)
  then show ?thesis using assms by simp
next
  case False
  then obtain i where ne: "complete_lines chunk \<noteq> []"
    and i: "split_index loads rp (rev (enumerate 0 (complete_lines chunk))) [] None = Some i" by auto
  have p: "prefix = concat (take (i + 1) (complete_lines chunk))" "rest = drop (length prefix) chunk"
    using assms i ne by (auto simp: split_live_tool_start_parts_def Let_def)
  obtain us where "splitlines chunk = complete_lines chunk @ us" by (rule complete_lines_prefix)
  then have zs: "splitlines chunk = take (i + 1) (complete_lines chunk) @ drop (i + 1) (complete_lines chunk) @ us" by simp
  have "chunk = prefix @ concat (drop (i + 1) (complete_lines chunk) @ us)"
    using arg_cong [OF zs, of concat] p(1) by simp
  moreover have "prefix \<noteq> []"
    using p(1) ne splitlines_nonempty [of "hd (complete_lines chunk)" chunk] zs by (cases "complete_lines chunk") auto
  ultimately show ?thesis using p(2) by (metis append_eq_conv_conj)
qed

text \<open>The loop of \<^verbatim>\<open>tail_event_jsonl\<close> over the remainder.\<close>

function tail_chunks :: "(string \<Rightarrow> pyval option) \<Rightarrow> (pyval \<Rightarrow> string) \<Rightarrow> string \<Rightarrow> string list" where
  "tail_chunks loads rp remainder = (if remainder = [] then []
     else case split_live_tool_start_parts loads rp remainder of (prefix, rest) \<Rightarrow>
       prefix # (if rest = [] then [] else tail_chunks loads rp rest))"
  by pat_completeness auto
termination
proof (relation "measure (\<lambda>(loads, rp, r). length r)", goal_cases)
  case (2 loads rp remainder prefix rest)
  then have "prefix @ rest = remainder" "prefix \<noteq> []" using split_parts [of loads rp remainder prefix rest] by simp_all
  then show ?case by (cases prefix) auto
qed simp

declare tail_chunks.simps [simp del]

definition forget_session :: "streams \<Rightarrow> streams" where
  "forget_session st = st\<lparr>st_tables := (st_tables st)\<lparr>pr_caches := \<lambda>_. empty_cache\<rparr>\<rparr>"

text \<open>
  The chunks are ingested and committed one by one; the first error ends the tail in the last committed state \<open>base\<close>.
\<close>

fun ingest_chunks ::
  "projector_env \<Rightarrow> (string \<Rightarrow> pyval option) \<Rightarrow> row_id \<Rightarrow> string list \<Rightarrow> ingest_cursor \<Rightarrow> streams \<Rightarrow> streams \<Rightarrow> projector
   \<Rightarrow> string option \<times> streams \<times> projector" where
  "ingest_chunks pe loads t [] c base st m = (None, st, m)"
| "ingest_chunks pe loads t (chunk # chunks) c base st m =
     (if chunk = [] then ingest_chunks pe loads t chunks c base st m
      else (case ingest_event_records_from_chunk pe loads t chunk c (st_tables st) m of
          (Inl err, m1) \<Rightarrow> (Some err, forget_session base, m1)
        | (Inr (c1, s1), m1) \<Rightarrow>
            let st1 = put_cursor c1 (st\<lparr>st_tables := s1\<rparr>) in ingest_chunks pe loads t chunks c1 st1 st1 m1))"

text \<open>\<open>content\<close> is the file as \<^verbatim>\<open>tail\<close> finds it, None when the command fails.\<close>

definition tail_event_jsonl ::
  "projector_env \<Rightarrow> (string \<Rightarrow> pyval option) \<Rightarrow> row_id \<Rightarrow> string option \<Rightarrow> bool \<Rightarrow> streams \<Rightarrow> projector
   \<Rightarrow> string option \<times> streams \<times> projector" where
  "tail_event_jsonl pe loads t content split_at_tool_start st m =
     (case get_or_create_cursor t ''event_jsonl'' None st of
        Inl err \<Rightarrow> (Some err, st, m)
      | Inr (c, st1) \<Rightarrow>
          (case content of
             None \<Rightarrow> (None, st1, m)
           | Some bytes \<Rightarrow>
               let output = drop (nat (cursor_last_offset c)) bytes; chunk = decode_replace output in
               if output = [] then (None, st1, m)
               else ingest_chunks pe loads t
                      (if split_at_tool_start then tail_chunks loads (pe_repr pe) chunk else [chunk]) c st st1 m))"

text \<open>\<open>content\<close> is the member of the archive, None when there is no readable archive or no such member.\<close>

definition backfill_event_jsonl_from_archive ::
  "projector_env \<Rightarrow> (string \<Rightarrow> pyval option) \<Rightarrow> row_id \<Rightarrow> string option \<Rightarrow> streams \<Rightarrow> projector
   \<Rightarrow> (string, streams) result \<times> projector" where
  "backfill_event_jsonl_from_archive pe loads t content st m =
     (case content of
        None \<Rightarrow> (Inr st, m)
      | Some bytes \<Rightarrow>
          (case get_or_create_cursor t ''event_jsonl'' None st of
             Inl err \<Rightarrow> (Inl err, m)
           | Inr (c, st1) \<Rightarrow>
               if cursor_last_offset c \<ge> int (length bytes) then (Inr st1, m)
               else (case ingest_event_records_from_chunk pe loads t (decode_replace (drop (nat (cursor_last_offset c)) bytes))
                            c (st_tables st1) m of
                   (Inl err, m1) \<Rightarrow> (Inl err, m1)
                 | (Inr (c1, s1), m1) \<Rightarrow> (Inr (put_cursor c1 (st1\<lparr>st_tables := s1\<rparr>)), m1))))"


section \<open>The console log\<close>

definition take_console :: "row_id \<Rightarrow> string \<Rightarrow> int \<Rightarrow> ingest_cursor \<Rightarrow> streams \<Rightarrow> (string, streams) result" where
  "take_console t txt offset c st =
     bind_result (append_raw_log_chunk t (cursor_last_sequence_no c + 1) txt st) (\<lambda>st1.
     Inr (put_cursor (c\<lparr>cursor_last_offset := offset, cursor_last_sequence_no := cursor_last_sequence_no c + 1\<rparr>) st1))"

definition persist_raw_log_snapshot :: "row_id \<Rightarrow> string \<Rightarrow> streams \<Rightarrow> (string, streams) result" where
  "persist_raw_log_snapshot t content st =
     (if content = [] then Inr st
      else bind_result (get_or_create_cursor t ''console_log'' None st) (\<lambda>(c, st1).
        if cursor_last_offset c \<ge> int (length content) then Inr st1
        else let txt = decode_replace (drop (nat (cursor_last_offset c)) content) in
             if txt = [] then Inr st1 else take_console t txt (int (length content)) c st1))"

definition backfill_console_log_from_archive :: "row_id \<Rightarrow> string option \<Rightarrow> streams \<Rightarrow> (string, streams) result" where
  "backfill_console_log_from_archive t content st =
     (case content of
        None \<Rightarrow> Inr st
      | Some bytes \<Rightarrow> bind_result (get_or_create_cursor t ''console_log'' None st) (\<lambda>(c, st1).
          if cursor_last_offset c \<ge> int (length bytes) then Inr st1
          else take_console t (decode_replace (drop (nat (cursor_last_offset c)) bytes)) (int (length bytes)) c st1))"

text \<open>The error of a tail is logged and the session rolled back.\<close>

definition tail_console_log :: "row_id \<Rightarrow> string option \<Rightarrow> streams \<Rightarrow> streams" where
  "tail_console_log t content st =
     (case get_or_create_cursor t ''console_log'' None st of
        Inl err \<Rightarrow> st
      | Inr (c, st1) \<Rightarrow>
          (case content of
             None \<Rightarrow> st1
           | Some bytes \<Rightarrow>
               let output = drop (nat (cursor_last_offset c)) bytes; txt = decode_replace output in
               if output = [] \<or> txt = [] then st1
               else (case take_console t txt (cursor_last_offset c + int (length output)) c st1 of
                   Inl err \<Rightarrow> st
                 | Inr st2 \<Rightarrow> st2)))"

end
