(* ===== verification/Stream_Laws.thy ===== *)
theory Stream_Laws
  imports Event_Stream "HOL-Library.Sublist"
begin

text \<open>
  What the readers of the worker files keep: the records of a chunk are its lines, a tail in parts is the tail as a
  whole, a stream read again changes nothing, and the chunks of the console log are the log.
\<close>

section \<open>Decoding\<close>

lemma continuation_full:
  assumes "length (continuation lo hi (take n r)) = n"
  shows "n \<le> length r" "take n (r @ b) = take n r"
proof -
  have "length (continuation lo hi xs) \<le> length xs" for xs
    by (auto simp: continuation_def length_takeWhile_le split: list.split)
  then have "n \<le> length (take n r)" using assms by metis
  then show "n \<le> length r" "take n (r @ b) = take n r" by auto
qed

lemma utf8_unit_append: "s \<noteq> [] \<Longrightarrow> utf8_unit s = (k, True) \<Longrightarrow> utf8_unit (s @ b) = (k, True) \<and> k \<le> length s"
proof -
  assume "s \<noteq> []" and unit: "utf8_unit s = (k, True)"
  then obtain c r where s: "s = c # r" by (cases s) auto
  obtain n lo hi where lead: "utf8_lead c = Some (n, lo, hi)" and k: "k = Suc n" "length (continuation lo hi (take n r)) = n"
    using unit by (auto simp: utf8_unit_def s Let_def split: option.splits)
  then show ?thesis using lead k continuation_full(1) [OF k(2)] continuation_full(2) [OF k(2), of b] by (simp add: utf8_unit_def s Let_def)
qed

lemma decode_valid_append:
  assumes "utf8_valid a"
  shows "decode_replace (a @ b) = a @ decode_replace b"
  using assms
proof (induction a rule: utf8_valid.induct)
  case (1 s)
  show ?case
  proof (cases "s = []")
    case False
    obtain k where unit: "utf8_unit s = (k, True)" and v: "utf8_valid (drop k s)"
      using "1.prems" False by (subst (asm) utf8_valid.simps) (auto split: prod.splits)
    note u = utf8_unit_append [OF False unit, of b]
    have "decode_replace (s @ b) = take k s @ decode_replace (drop k s @ b)"
      using u False by (subst decode_replace.simps) simp
    also have "\<dots> = s @ decode_replace b" using "1.IH" [OF False unit [symmetric] v] by (metis append.assoc append_take_drop_id)
    finally show ?thesis .
  qed simp
qed

lemma decode_valid: "utf8_valid s \<Longrightarrow> decode_replace s = s"
  using decode_valid_append [of s "[]"] by (simp add: decode_replace.simps)

lemma utf8_valid_append: "utf8_valid a \<Longrightarrow> utf8_valid (a @ b) \<longleftrightarrow> utf8_valid b"
proof (induction a rule: utf8_valid.induct)
  case (1 s)
  show ?case
  proof (cases "s = []")
    case False
    obtain k where unit: "utf8_unit s = (k, True)" and v: "utf8_valid (drop k s)"
      using "1.prems" False by (subst (asm) utf8_valid.simps) (auto split: prod.splits)
    note u = utf8_unit_append [OF False unit, of b]
    have "utf8_valid (s @ b) \<longleftrightarrow> utf8_valid (drop k s @ b)" using u False by (subst utf8_valid.simps) simp
    then show ?thesis using "1.IH" [OF False unit [symmetric] v] by simp
  qed simp
qed


section \<open>Lines\<close>

primrec plain :: "string \<Rightarrow> bool" where
  "plain [] \<longleftrightarrow> True"
| "plain (c # s) \<longleftrightarrow> line_break (c # s) = 0 \<and> plain s"

lemma line_break_newline [simp]: "line_break (newline # s) = 1"
  by (simp add: line_break_def newline_def startswith_def byte_in_def)

lemma plain_head: "plain (c # s) \<Longrightarrow> c \<noteq> newline"
  by auto

lemma line_break_take:
  assumes "take 3 x = take 3 y"
  shows "line_break x = line_break y"
proof -
  have pre: "startswith x p \<longleftrightarrow> startswith y p" if "length p \<le> 3" for p
  proof -
    have "take (length p) x = take (length p) y" using arg_cong [OF assms, of "take (length p)"] that by simp
    then show ?thesis by (simp only: startswith_def)
  qed
  have e: "x = [] \<longleftrightarrow> y = []" using assms by (metis take_eq_Nil zero_neq_numeral)
  have "x \<noteq> [] \<Longrightarrow> hd x = hd y" using assms by (metis hd_take zero_less_numeral)
  then have h: "(x \<noteq> [] \<and> P (hd x)) \<longleftrightarrow> (y \<noteq> [] \<and> P (hd y))" for P using e by auto
  have "startswith x [CHR 0x0D, CHR 0x0A] \<longleftrightarrow> startswith y [CHR 0x0D, CHR 0x0A]"
    "startswith x [CHR 0xC2, CHR 0x85] \<longleftrightarrow> startswith y [CHR 0xC2, CHR 0x85]"
    "startswith x [CHR 0xE2, CHR 0x80, CHR 0xA8] \<longleftrightarrow> startswith y [CHR 0xE2, CHR 0x80, CHR 0xA8]"
    "startswith x [CHR 0xE2, CHR 0x80, CHR 0xA9] \<longleftrightarrow> startswith y [CHR 0xE2, CHR 0x80, CHR 0xA9]"
    by (rule pre, simp)+
  then show ?thesis
    unfolding line_break_def h [of "\<lambda>c. byte_in 0x0A 0x0D c \<or> byte_in 0x1C 0x1E c"] by (simp only:)
qed

lemma line_break_ends:
  assumes "ends_line x"
  shows "line_break (x @ b) = line_break x"
proof (cases "3 \<le> length x")
  case True
  then show ?thesis by (intro line_break_take) simp
next
  case False
  then have "length x = 1 \<or> length x = 2" using assms by (cases x) (auto simp: ends_line_def not_le less_2_cases_iff)
  then consider "x = [newline]" | c where "x = [c, newline]"
    using assms by (auto simp: ends_line_def length_Suc_conv numeral_2_eq_2)
  then show ?thesis
  proof cases
    case 2
    then show ?thesis by (simp add: line_break_def startswith_def newline_def)
  qed simp
qed

lemma line_break_plain:
  assumes "line_break (c # l) = 0"
  shows "line_break (c # l @ newline # s) = 0"
proof (cases "2 \<le> length l")
  case True
  then have "line_break (c # l @ newline # s) = line_break (c # l)" by (intro line_break_take) (simp add: numeral_3_eq_3)
  then show ?thesis using assms by simp
next
  case False
  then consider "l = []" | d where "l = [d]" by (cases l) (auto simp: Suc_le_eq)
  then show ?thesis
    using assms by cases (auto simp: line_break_def startswith_def newline_def byte_in_def split: if_splits)
qed

lemma lines_plain: "plain l \<Longrightarrow> lines_from cur (l @ newline # s) = (rev cur @ l @ [newline]) # lines_from [] s"
proof (induction l arbitrary: cur)
  case Nil
  show ?case by (subst lines_from.simps) simp
next
  case (Cons c l)
  then have "line_break (c # l @ newline # s) = 0" using line_break_plain by simp
  then have "lines_from cur ((c # l) @ newline # s) = lines_from (c # cur) (l @ newline # s)" by (subst lines_from.simps) simp
  then show ?case using Cons by simp
qed

lemma lines_rest: "plain r \<Longrightarrow> lines_from cur r = (if cur = [] \<and> r = [] then [] else [rev cur @ r])"
proof (induction r arbitrary: cur)
  case Nil
  show ?case by (subst lines_from.simps) simp
next
  case (Cons c r)
  then have "lines_from cur (c # r) = lines_from (c # cur) r" by (subst lines_from.simps) simp
  then show ?case using Cons by simp
qed

lemma lines_from_append: "ends_line a \<or> a = [] \<and> cur = [] \<Longrightarrow> lines_from cur (a @ b) = lines_from cur a @ lines_from [] b"
proof (induction cur a rule: lines_from.induct)
  case (1 cur a)
  show ?case
  proof (cases "a = []")
    case True
    with "1.prems" have "cur = []" by (auto simp: ends_line_def)
    with True show ?thesis by (simp add: lines_from.simps)
  next
    case False
    then have e: "ends_line a" using "1.prems" by simp
    note lb = line_break_ends [OF e, of b]
    show ?thesis
    proof (cases "line_break a = 0")
      case True
      have tl: "ends_line (tl a)"
        using e True by (cases a) (auto simp: ends_line_def split: if_splits)
      have "lines_from cur (a @ b) = lines_from (hd a # cur) (tl a @ b)"
        using False True lb by (subst lines_from.simps) (simp add: hd_append)
      also have "\<dots> = lines_from (hd a # cur) (tl a) @ lines_from [] b" using "1.IH"(1) [OF False refl True] tl by simp
      also have "lines_from (hd a # cur) (tl a) = lines_from cur a" using False True by (subst (2) lines_from.simps) simp
      finally show ?thesis .
    next
      case nz: False
      have le: "line_break a \<le> length a"
        by (auto simp: line_break_def startswith_def Suc_le_eq dest: arg_cong [where f = length])
      have dr: "ends_line (drop (line_break a) a) \<or> drop (line_break a) a = []"
        using e by (auto simp: ends_line_def)
      have "lines_from cur (a @ b) = (rev cur @ take (line_break a) a) # lines_from [] (drop (line_break a) a @ b)"
        using False nz lb le by (subst lines_from.simps) (simp add: Let_def)
      also have "\<dots> = (rev cur @ take (line_break a) a) # lines_from [] (drop (line_break a) a) @ lines_from [] b"
        using "1.IH"(2) [OF False refl nz] dr by simp
      also have "\<dots> = lines_from cur a @ lines_from [] b"
        using False nz by (subst (3) lines_from.simps) (simp add: Let_def)
      finally show ?thesis .
    qed
  qed
qed

lemma splitlines_append: "ends_line a \<Longrightarrow> splitlines (a @ b) = splitlines a @ splitlines b"
  by (simp add: splitlines_def lines_from_append)


lemma rstrip_plain: "plain l \<Longrightarrow> rstrip_newline (l @ [newline]) = l"
proof -
  assume p: "plain l"
  have "newline \<notin> set l" using p by (induction l) (auto dest: plain_head)
  then have "newline \<notin> set (rev l)" by simp
  then have "dropWhile (\<lambda>c. c = newline) (rev l) = rev l" by (cases "rev l") auto
  then show ?thesis by (simp add: rstrip_newline_def)
qed

lemma plain_not_ends: "plain r \<Longrightarrow> \<not> ends_line r"
  by (induction r) (auto simp: ends_line_def split: if_splits)

lemma splitlines_stream:
  assumes "list_all plain ls" "plain r"
  shows "splitlines (concat (map (\<lambda>l. l @ [newline]) ls) @ r) = map (\<lambda>l. l @ [newline]) ls @ (if r = [] then [] else [r])"
  using assms
proof (induction ls)
  case Nil
  then show ?case by (simp add: splitlines_def lines_rest)
next
  case (Cons l ls)
  then have "lines_from [] (l @ newline # concat (map (\<lambda>l. l @ [newline]) ls) @ r)
      = (l @ [newline]) # lines_from [] (concat (map (\<lambda>l. l @ [newline]) ls) @ r)" by (simp add: lines_plain)
  then show ?case using Cons by (simp add: splitlines_def)
qed

lemma records_of_stream:
  assumes "list_all plain ls" "plain r"
  shows "iter_complete_jsonl_records (concat (map (\<lambda>l. l @ [newline]) ls) @ r) = (ls, r)"
proof -
  have "map rstrip_newline (map (\<lambda>l. l @ [newline]) ls) = ls"
    using assms(1) by (auto simp: list_all_iff rstrip_plain intro!: map_idI)
  moreover have "filter ends_line (map (\<lambda>l. l @ [newline]) ls) = map (\<lambda>l. l @ [newline]) ls"
    by (simp add: ends_line_def filter_id_conv)
  ultimately show ?thesis
    using plain_not_ends [OF assms(2)]
    by (auto simp: iter_complete_jsonl_records_def Let_def splitlines_stream [OF assms] ends_line_def last_map)
qed


section \<open>Chunks\<close>

definition records :: "string \<Rightarrow> string list" where
  "records chunk = fst (iter_complete_jsonl_records chunk)"

lemma iter_append:
  assumes "ends_line a"
  shows "iter_complete_jsonl_records (a @ b) = (records a @ records b, snd (iter_complete_jsonl_records b))"
proof -
  have "a \<noteq> []" using assms by (simp add: ends_line_def)
  then have ne: "splitlines a \<noteq> []" by simp
  have "last (splitlines a) \<noteq> []" using splitlines_nonempty last_in_set [OF ne] by blast
  have "concat (splitlines a) = concat (butlast (splitlines a)) @ last (splitlines a)"
    using ne by (metis append_butlast_last_id concat.simps concat_append self_append_conv)
  then have "last a = last (last (splitlines a))"
    using \<open>last (splitlines a) \<noteq> []\<close> by (metis last_appendR splitlines_concat)
  then have "ends_line (last (splitlines a))" using assms \<open>last (splitlines a) \<noteq> []\<close> by (simp add: ends_line_def)
  then show ?thesis
    using ne by (cases "splitlines b = []")
      (auto simp: iter_complete_jsonl_records_def records_def Let_def splitlines_append [OF assms] simp del: splitlines_Nil)
qed

lemma ingest_lines_append:
  "ingest_lines pe loads t (xs @ ys) k c s m = (case ingest_lines pe loads t xs k c s m of
     (Inl err, m1) \<Rightarrow> (Inl err, m1)
   | (Inr (k1, c1, s1), m1) \<Rightarrow> ingest_lines pe loads t ys k1 c1 s1 m1)"
  by (induction pe loads t xs k c s m rule: ingest_lines.induct)
    (auto simp: Let_def split: option.split pyval.split sum.split prod.split)

definition advance :: "ingest_cursor \<Rightarrow> pydict \<Rightarrow> bool \<Rightarrow> ingest_cursor" where
  "advance c n accepted = (let c1 = c\<lparr>cursor_attempt_id := Some (ev_attempt n)\<rparr> in
     if accepted then c1\<lparr>cursor_last_sequence_no := ev_seq n\<rparr> else c1)"

lemma advance_fields [simp]:
  "cursor_task_id (advance c n b) = cursor_task_id c" "cursor_stream_name (advance c n b) = cursor_stream_name c"
  "cursor_last_offset (advance c n b) = cursor_last_offset c" "cursor_attempt_id (advance c n b) = Some (ev_attempt n)"
  "advance (c\<lparr>cursor_last_offset := x\<rparr>) n b = (advance c n b)\<lparr>cursor_last_offset := x\<rparr>"
  by (simp_all add: advance_def Let_def)

abbreviation cursor_takes :: "ingest_cursor \<Rightarrow> pydict \<Rightarrow> bool" where
  "cursor_takes c n \<equiv> cursor_attempt_id c = None \<and> cursor_last_offset c = 0 \<or> cursor_attempt_id c = Some (ev_attempt n)"

lemma ingest_lines_ConsI:
  assumes "loads raw = Some (PDict e)" "validate_event_by_schema (pe_parse_time pe) (pe_repr pe) e = Inr n" "cursor_takes c n"
    and "ingest_event_record pe t n s m = (Inr (b, s1), m1)"
  shows "ingest_lines pe loads t (raw # raws) k c s m = ingest_lines pe loads t raws (k + int (length raw) + 1) (advance c n b) s1 m1"
  using assms by (auto simp: advance_def Let_def)

lemma ingest_lines_ConsE:
  assumes "ingest_lines pe loads t (raw # raws) k c s m = (Inr x, m')"
  obtains e n b s1 m1 where "loads raw = Some (PDict e)" "validate_event_by_schema (pe_parse_time pe) (pe_repr pe) e = Inr n"
    "cursor_takes c n" "ingest_event_record pe t n s m = (Inr (b, s1), m1)"
    "ingest_lines pe loads t raws (k + int (length raw) + 1) (advance c n b) s1 m1 = (Inr x, m')"
proof -
  obtain e n where l: "loads raw = Some (PDict e)" "validate_event_by_schema (pe_parse_time pe) (pe_repr pe) e = Inr n"
    using assms by (auto split: option.splits pyval.splits sum.splits)
  have a: "cursor_takes c n" using assms l by (auto split: if_splits)
  obtain b s1 m1 where i: "ingest_event_record pe t n s m = (Inr (b, s1), m1)"
    using assms l a by (auto split: prod.splits sum.splits)
  show ?thesis using that [OF l a i] assms ingest_lines_ConsI [of loads raw e pe n c t s m b s1 m1, OF l a i] by simp
qed

text \<open>The count grows by the records, and the offset of a cursor with an attempt does not matter.\<close>

lemma ingest_lines_count:
  "ingest_lines pe loads t xs k c s m = (Inr (k', c', s'), m') \<Longrightarrow> k' = k + sum_list (map (\<lambda>r. int (length r) + 1) xs)"
proof (induction xs arbitrary: k c s m)
  case (Cons raw xs)
  from Cons.prems show ?case by (rule ingest_lines_ConsE) (auto dest: Cons.IH)
qed simp

lemma ingest_lines_cursor:
  "ingest_lines pe loads t xs k c s m = (Inr (k', c', s'), m') \<Longrightarrow>
   cursor_task_id c' = cursor_task_id c \<and> cursor_stream_name c' = cursor_stream_name c
   \<and> cursor_last_offset c' = cursor_last_offset c \<and> (xs \<noteq> [] \<or> cursor_attempt_id c \<noteq> None \<longrightarrow> cursor_attempt_id c' \<noteq> None)"
proof (induction xs arbitrary: k c s m)
  case (Cons raw xs)
  from Cons.prems show ?case
  proof (rule ingest_lines_ConsE)
    fix n b s1 m1
    assume "ingest_lines pe loads t xs (k + int (length raw) + 1) (advance c n b) s1 m1 = (Inr (k', c', s'), m')"
    from Cons.IH [OF this] show ?thesis by simp
  qed
qed simp

lemma ingest_lines_offset:
  "cursor_attempt_id c \<noteq> None \<Longrightarrow> ingest_lines pe loads t xs k c s m = (Inr (k', c', s'), m') \<Longrightarrow>
   ingest_lines pe loads t xs (k + d) (c\<lparr>cursor_last_offset := x\<rparr>) s m = (Inr (k' + d, c'\<lparr>cursor_last_offset := x\<rparr>, s'), m')"
proof (induction xs arbitrary: k c s m)
  case (Cons raw xs)
  from Cons.prems(2) show ?case
  proof (rule ingest_lines_ConsE)
    fix e n b s1 m1
    assume l: "loads raw = Some (PDict e)" "validate_event_by_schema (pe_parse_time pe) (pe_repr pe) e = Inr n"
      and a: "cursor_takes c n" and i: "ingest_event_record pe t n s m = (Inr (b, s1), m1)"
      and run: "ingest_lines pe loads t xs (k + int (length raw) + 1) (advance c n b) s1 m1 = (Inr (k', c', s'), m')"
    have a': "cursor_takes (c\<lparr>cursor_last_offset := x\<rparr>) n" using a Cons.prems(1) by auto
    show ?thesis
      using Cons.IH [OF _ run] by (simp add: ingest_lines_ConsI [of loads raw e pe n "c\<lparr>cursor_last_offset := x\<rparr>" t s m b s1 m1, OF l a' i]
          algebra_simps del: ingest_lines.simps)
  qed
qed simp


text \<open>A line has at most one newline, at its end.\<close>

lemma line_break_butlast: "newline \<notin> set (butlast (take (line_break s) s))"
proof -
  have two: "take 2 s = [c, d] \<Longrightarrow> butlast (take 2 s) = [c]" for c d by simp
  have three: "take 3 s = [c, d, e] \<Longrightarrow> butlast (take 3 s) = [c, d]" for c d e by simp
  have one: "butlast (take 1 s) = []" by (cases s) simp_all
  show ?thesis
    using one by (auto simp: line_break_def startswith_def newline_def numeral_2_eq_2 numeral_3_eq_3 dest!: two three)
qed

lemma lines_butlast: "newline \<notin> set cur \<Longrightarrow> l \<in> set (lines_from cur s) \<Longrightarrow> newline \<notin> set (butlast l)"
proof (induction cur s rule: lines_from.induct)
  case (1 cur s)
  show ?case
  proof (cases "s = []")
    case True
    then show ?thesis using "1.prems" by (subst (asm) lines_from.simps) (auto split: if_splits dest: in_set_butlastD list.set_sel(2))
  next
    case False
    show ?thesis
    proof (cases "line_break s = 0")
      case True
      then have "hd s \<noteq> newline" using False by (cases s) auto
      moreover have "l \<in> set (lines_from (hd s # cur) (tl s))"
        using "1.prems"(2) False True by (subst (asm) lines_from.simps) simp
      ultimately show ?thesis using "1.IH"(1) [OF False refl True] "1.prems"(1) by simp
    next
      case nz: False
      then have "l = rev cur @ take (line_break s) s \<or> l \<in> set (lines_from [] (drop (line_break s) s))"
        using "1.prems"(2) False by (subst (asm) lines_from.simps) (simp add: Let_def)
      then show ?thesis
        using "1.IH"(2) [OF False refl nz] "1.prems"(1) line_break_butlast [of s] False nz by (auto simp: butlast_append)
    qed
  qed
qed

lemma rstrip_line:
  assumes "l \<in> set (splitlines s)" "ends_line l"
  shows "int (length (rstrip_newline l)) + 1 = int (length l)"
proof -
  obtain x where l: "l = x @ [newline]" using assms(2) by (metis append_butlast_last_id ends_line_def)
  have "newline \<notin> set x" using lines_butlast [of "[]" l s] assms(1) l by (simp add: splitlines_def)
  then have "newline \<notin> set (rev x)" by simp
  then have "dropWhile (\<lambda>c. c = newline) (rev x) = rev x" by (cases "rev x") auto
  then show ?thesis by (simp add: rstrip_newline_def l)
qed

lemma records_count:
  assumes "list_all ends_line (splitlines a)"
  shows "sum_list (map (\<lambda>r. int (length r) + 1) (records a)) = int (length a)"
proof -
  have f: "filter ends_line (splitlines a) = splitlines a" using assms by (simp add: filter_id_conv list_all_iff)
  have "map (\<lambda>r. int (length r) + 1) (records a) = map (\<lambda>l. int (length l)) (splitlines a)"
    using assms by (auto simp: records_def iter_complete_jsonl_records_def Let_def f list_all_iff rstrip_line)
  also have "sum_list \<dots> = int (length (concat (splitlines a)))"
    unfolding length_concat sum_list_of_nat [symmetric] by (simp add: comp_def)
  finally show ?thesis by simp
qed

lemma chunk_split:
  assumes a: "ends_line a" "list_all ends_line (splitlines a)" and b: "b \<noteq> []"
    and ok: "ingest_event_records_from_chunk pe loads t (a @ b) c s m = (Inr (c', s'), m')"
  obtains c1 s1 m1 where "ingest_event_records_from_chunk pe loads t a c s m = (Inr (c1, s1), m1)"
    "ingest_event_records_from_chunk pe loads t b c1 s1 m1 = (Inr (c', s'), m')"
proof -
  obtain k c2 where run: "ingest_lines pe loads t (records a @ records b) 0 c s m = (Inr (k, c2, s'), m')"
    and chk: "snd (iter_complete_jsonl_records b) = [] \<Longrightarrow> k = int (length (a @ b))"
    and c': "c' = c2\<lparr>cursor_last_offset := cursor_last_offset c2 + k\<rparr>"
    using ok unfolding ingest_event_records_from_chunk_def iter_append [OF a(1)]
    by (auto split: prod.splits sum.splits if_splits)
  obtain k1 c1 s1 m1 where ra: "ingest_lines pe loads t (records a) 0 c s m = (Inr (k1, c1, s1), m1)"
    and rb: "ingest_lines pe loads t (records b) k1 c1 s1 m1 = (Inr (k, c2, s'), m')"
    using run unfolding ingest_lines_append by (auto split: prod.splits sum.splits)
  have k1: "k1 = int (length a)" using ingest_lines_count [OF ra] records_count [OF a(2)] by simp
  have "a \<noteq> []" using a(1) by (simp add: ends_line_def)
  then have ne: "records a \<noteq> []"
    using records_count [OF a(2)] by auto
  have at1: "cursor_attempt_id c1 \<noteq> None" "cursor_last_offset c1 = cursor_last_offset c" using ingest_lines_cursor [OF ra] ne by auto
  have off2: "cursor_last_offset c2 = cursor_last_offset c1" using ingest_lines_cursor [OF rb] by simp
  let ?c1 = "c1\<lparr>cursor_last_offset := cursor_last_offset c1 + k1\<rparr>"
  have "snd (iter_complete_jsonl_records a) = []"
    using iter_append [OF a(1), of "[]"] by (simp add: iter_complete_jsonl_records_def)
  then have fa: "ingest_event_records_from_chunk pe loads t a c s m = (Inr (?c1, s1), m1)"
    using ra k1 by (simp add: ingest_event_records_from_chunk_def records_def case_prod_beta)
  have "ingest_lines pe loads t (records b) 0 ?c1 s1 m1 = (Inr (k - k1, c2\<lparr>cursor_last_offset := cursor_last_offset c1 + k1\<rparr>, s'), m')"
    using ingest_lines_offset [OF at1(1) rb, of "- k1" "cursor_last_offset c1 + k1"] by simp
  then have "ingest_event_records_from_chunk pe loads t b ?c1 s1 m1 = (Inr (c', s'), m')"
    using chk k1 off2 unfolding c' by (auto simp: ingest_event_records_from_chunk_def records_def case_prod_beta)
  with fa show ?thesis by (rule that)
qed



section \<open>The tail in parts\<close>

lemma complete_lines_append: "ends_line a \<Longrightarrow> b \<noteq> [] \<Longrightarrow> complete_lines (a @ b) = splitlines a @ complete_lines b"
  by (auto simp: complete_lines_def Let_def splitlines_append butlast_append)

lemma ends_line_concat: "xs \<noteq> [] \<Longrightarrow> list_all ends_line xs \<Longrightarrow> ends_line (concat xs)"
proof (induction xs)
  case (Cons x xs)
  then show ?case by (cases "xs = []") (auto simp: ends_line_def last_append)
qed simp

lemma prefix_of_same_concat:
  assumes "us @ vs = xs @ ys" "concat us = concat xs" "\<forall>l\<in>set us. l \<noteq> []" "\<forall>l\<in>set xs. l \<noteq> []"
  shows "us = xs"
proof -
  from assms(1) consider zs where "us = xs @ zs" | zs where "xs = us @ zs" by (auto simp: append_eq_append_conv2)
  then show ?thesis
    by cases (use assms(2-4) in \<open>auto simp: concat_eq_Nil_conv\<close>)
qed

text \<open>The lines of a part of the lines are that part.\<close>

lemma splitlines_take:
  assumes "list_all ends_line (take i (splitlines s))"
  shows "splitlines (concat (take i (splitlines s))) = take i (splitlines s)"
proof -
  have "lines_from [] (concat xs) = xs" if "lines_from [] (concat xs @ z) = xs @ ys" "list_all ends_line xs" for xs ys z
    using that
  proof (cases "xs = []")
    case False
    then have e: "ends_line (concat xs)" using ends_line_concat that(2) by blast
    have "lines_from [] (concat xs) @ lines_from [] z = xs @ ys" using lines_from_append [of "concat xs" "[]" z] e that(1) by simp
    moreover have "concat (lines_from [] (concat xs)) = concat xs" by (simp add: lines_from_concat)
    moreover have "\<forall>l\<in>set (lines_from [] (concat xs)). l \<noteq> []" "\<forall>l\<in>set xs. l \<noteq> []"
      using lines_from_nonempty that(2) by (auto simp: list_all_iff ends_line_def)
    ultimately show ?thesis by (rule prefix_of_same_concat)
  qed (simp add: lines_from.simps)
  from this [of "take i (splitlines s)" "concat (drop i (splitlines s))" "drop i (splitlines s)"] assms
  show ?thesis by (simp add: splitlines_def lines_from_concat flip: concat_append)
qed


lemma take_complete_lines:
  assumes "list_all ends_line (complete_lines chunk)"
  shows "splitlines (concat (take i (complete_lines chunk))) = take i (complete_lines chunk)"
proof -
  obtain us where us: "splitlines chunk = complete_lines chunk @ us" by (rule complete_lines_prefix)
  define j where "j = min i (length (complete_lines chunk))"
  have "take i (complete_lines chunk) = take j (splitlines chunk)" unfolding us j_def by (simp add: min_def)
  moreover have "list_all ends_line (take i (complete_lines chunk))" using assms by (auto simp: list_all_iff dest: in_set_takeD)
  ultimately show ?thesis using splitlines_take [of j chunk] by simp
qed

lemma split_parts_lines:
  assumes split: "split_live_tool_start_parts loads rp chunk = (pre, rest)" and rest: "rest \<noteq> []"
    and lines: "list_all ends_line (complete_lines chunk)"
  shows "ends_line pre" "list_all ends_line (splitlines pre)" "list_all ends_line (complete_lines rest)"
proof -
  obtain i where p: "pre = concat (take (i + 1) (complete_lines chunk))" and ne: "complete_lines chunk \<noteq> []"
    using split rest by (auto simp: split_live_tool_start_parts_def Let_def split: if_splits option.splits)
  show l: "list_all ends_line (splitlines pre)"
    unfolding p take_complete_lines [OF lines] using lines by (auto simp: list_all_iff dest: in_set_takeD)
  show e: "ends_line pre"
    unfolding p using ne lines by (intro ends_line_concat) (auto simp: list_all_iff dest: in_set_takeD)
  have "chunk = pre @ rest" using split_parts [OF split] by simp
  then show "list_all ends_line (complete_lines rest)" using complete_lines_append [OF e rest] lines by simp
qed

lemma put_cursor_twice:
  assumes "cursor_task_id c2 = cursor_task_id c1" "cursor_stream_name c2 = cursor_stream_name c1"
  shows "put_cursor c2 ((put_cursor c1 st)\<lparr>st_tables := s\<rparr>) = put_cursor c2 (st\<lparr>st_tables := s\<rparr>)"
  using assms by (simp add: put_cursor_def update_where_def)

lemma chunk_cursor:
  "ingest_event_records_from_chunk pe loads t chunk c s m = (Inr (c', s'), m') \<Longrightarrow>
   cursor_task_id c' = cursor_task_id c \<and> cursor_stream_name c' = cursor_stream_name c"
  by (auto simp: ingest_event_records_from_chunk_def split: prod.splits sum.splits if_splits dest: ingest_lines_cursor)

lemma tail_in_parts:
  assumes "ingest_event_records_from_chunk pe loads t chunk c (st_tables st) m = (Inr (c', s'), m')" "chunk \<noteq> []"
    and "list_all ends_line (complete_lines chunk)"
  shows "ingest_chunks pe loads t (tail_chunks loads rp chunk) c base st m = (None, put_cursor c' (st\<lparr>st_tables := s'\<rparr>), m')"
  using assms
proof (induction loads rp chunk arbitrary: c base st m rule: tail_chunks.induct)
  case (1 loads rp chunk)
  obtain pre rest where sp: "split_live_tool_start_parts loads rp chunk = (pre, rest)" by fastforce
  have app: "pre @ rest = chunk" and pne: "pre \<noteq> []" using split_parts [OF sp] "1.prems"(2) by auto
  show ?case
  proof (cases "rest = []")
    case True
    then show ?thesis using "1.prems" app sp by (subst tail_chunks.simps) (simp add: Let_def)
  next
    case False
    note parts = split_parts_lines [OF sp False "1.prems"(3)]
    obtain c1 s1 m1 where one: "ingest_event_records_from_chunk pe loads t pre c (st_tables st) m = (Inr (c1, s1), m1)"
      and two: "ingest_event_records_from_chunk pe loads t rest c1 s1 m1 = (Inr (c', s'), m')"
      using parts(1,2) False "1.prems"(1) unfolding app [symmetric] by (rule chunk_split)
    let ?st1 = "put_cursor c1 (st\<lparr>st_tables := s1\<rparr>)"
    have "st_tables ?st1 = s1" by (simp add: put_cursor_def)
    then have "ingest_chunks pe loads t (tail_chunks loads rp rest) c1 ?st1 ?st1 m1 = (None, put_cursor c' (?st1\<lparr>st_tables := s'\<rparr>), m')"
      using "1.IH" [OF "1.prems"(2) sp [symmetric] False, of c1 ?st1 m1] two False parts(3) by simp
    also have "put_cursor c' (?st1\<lparr>st_tables := s'\<rparr>) = put_cursor c' (st\<lparr>st_tables := s'\<rparr>)"
      using put_cursor_twice [of c' c1 s' "st\<lparr>st_tables := s1\<rparr>"] chunk_cursor [OF two] by simp
    finally show ?thesis using "1.prems"(2) sp False pne one by (subst tail_chunks.simps) (simp add: Let_def)
  qed
qed



section \<open>Reading a stream again\<close>

lemma ingest_lines_received:
  assumes "ingest_lines pe loads t xs k c s m = (Inr (k', c', s'), m')" "projection_ok pe s" "received pe t e s"
  shows "received pe t e s'"
  using assms
proof (induction xs arbitrary: k c s m)
  case (Cons raw xs)
  from Cons.prems(1) show ?case
  proof (rule ingest_lines_ConsE)
    fix n b s1 m1
    assume i: "ingest_event_record pe t n s m = (Inr (b, s1), m1)"
      and run: "ingest_lines pe loads t xs (k + int (length raw) + 1) (advance c n b) s1 m1 = (Inr (k', c', s'), m')"
    from Cons.IH [OF run ingest_event_record_ok [OF i Cons.prems(2)] received_kept [OF Cons.prems(3) i Cons.prems(2)]] show ?thesis .
  qed
qed simp

lemma ingest_lines_ok:
  assumes "ingest_lines pe loads t xs k c s m = (Inr (k', c', s'), m')" "projection_ok pe s"
  shows "projection_ok pe s'"
  using assms
proof (induction xs arbitrary: k c s m)
  case (Cons raw xs)
  from Cons.prems(1) show ?case
    by (rule ingest_lines_ConsE) (use Cons.IH Cons.prems(2) ingest_event_record_ok in blast)
qed simp

text \<open>In a state that received the records, the loop changes the cursor only.\<close>

lemma ingest_lines_again:
  assumes "ingest_lines pe loads t xs k c s m = (Inr (k', c', s'), m')" "projection_ok pe s" "projection_ok pe sf"
    and "\<forall>e. received pe t e s' \<longrightarrow> received pe t e sf" and "cursor_attempt_id q = cursor_attempt_id c" "cursor_last_offset q = cursor_last_offset c"
  shows "ingest_lines pe loads t xs k q sf m2 = (Inr (k', q\<lparr>cursor_attempt_id := cursor_attempt_id c'\<rparr>, sf), m2)"
  using assms(1,2,4,5,6)
proof (induction xs arbitrary: k c s m q)
  case Nil
  then show ?case by simp
next
  case (Cons raw xs)
  from Cons.prems(1) show ?case
  proof (rule ingest_lines_ConsE)
    fix e n b s1 m1
    assume l: "loads raw = Some (PDict e)" "validate_event_by_schema (pe_parse_time pe) (pe_repr pe) e = Inr n"
      and a: "cursor_takes c n" and i: "ingest_event_record pe t n s m = (Inr (b, s1), m1)"
      and run: "ingest_lines pe loads t xs (k + int (length raw) + 1) (advance c n b) s1 m1 = (Inr (k', c', s'), m')"
    note ok1 = ingest_event_record_ok [OF i Cons.prems(2)]
    have "received pe t n sf" using ingest_lines_received [OF run ok1 ingested_received [OF i Cons.prems(2)]] Cons.prems(3) by simp
    then have again: "ingest_event_record pe t n sf m2 = (Inr (False, sf), m2)" by (rule received_again [OF assms(3)])
    have a': "cursor_takes q n" using a Cons.prems(4,5) by simp
    have "ingest_lines pe loads t xs (k + int (length raw) + 1) (advance q n False) sf m2
        = (Inr (k', (advance q n False)\<lparr>cursor_attempt_id := cursor_attempt_id c'\<rparr>, sf), m2)"
      using Cons.IH [OF run ok1 Cons.prems(3)] Cons.prems(5) by simp
    moreover have "(advance q n False)\<lparr>cursor_attempt_id := cursor_attempt_id c'\<rparr> = q\<lparr>cursor_attempt_id := cursor_attempt_id c'\<rparr>"
      by (simp add: advance_def)
    ultimately show ?thesis by (simp only: ingest_lines_ConsI [of loads raw e pe n q t sf m2 False sf m2, OF l a' again])
  qed
qed

lemma chunk_again:
  assumes ok: "ingest_event_records_from_chunk pe loads t chunk c s m = (Inr (c', s'), m')" and inv_s: "projection_ok pe s"
  shows "ingest_event_records_from_chunk pe loads t chunk c s' m2
    = (Inr (c'\<lparr>cursor_last_sequence_no := cursor_last_sequence_no c\<rparr>, s'), m2)"
proof -
  obtain xs r where it: "iter_complete_jsonl_records chunk = (xs, r)" by fastforce
  obtain k c2 where run: "ingest_lines pe loads t xs 0 c s m = (Inr (k, c2, s'), m')"
    and chk: "\<not> (r = [] \<and> k \<noteq> int (length chunk))" and c': "c' = c2\<lparr>cursor_last_offset := cursor_last_offset c2 + k\<rparr>"
    using ok unfolding ingest_event_records_from_chunk_def it by (auto split: prod.splits sum.splits if_splits)
  have "ingest_lines pe loads t xs 0 c s' m2 = (Inr (k, c\<lparr>cursor_attempt_id := cursor_attempt_id c2\<rparr>, s'), m2)"
    using ingest_lines_again [OF run inv_s ingest_lines_ok [OF run inv_s]] by simp
  moreover have "c\<lparr>cursor_attempt_id := cursor_attempt_id c2, cursor_last_offset := cursor_last_offset c + k\<rparr>
      = c'\<lparr>cursor_last_sequence_no := cursor_last_sequence_no c\<rparr>"
    using ingest_lines_cursor [OF run] unfolding c' by (cases c; cases c2) simp
  ultimately show ?thesis using chk by (simp add: ingest_event_records_from_chunk_def it)
qed


section \<open>The console log\<close>

definition console_cursor :: "row_id \<Rightarrow> streams \<Rightarrow> ingest_cursor" where
  "console_cursor t st = (case filter (\<lambda>r. cursor_task_id r = t \<and> cursor_stream_name r = ''console_log'') (st_cursors st) of
     [] \<Rightarrow> new_cursor t ''console_log'' None | c # _ \<Rightarrow> c)"

definition task_chunks :: "row_id \<Rightarrow> streams \<Rightarrow> raw_log_chunk list" where
  "task_chunks t st = filter (\<lambda>r. chunk_task_id r = t) (st_chunks st)"

definition console_text :: "row_id \<Rightarrow> streams \<Rightarrow> string" where
  "console_text t st = concat (map chunk_content (task_chunks t st))"

text \<open>The chunks of the task, in order, are the part of the log up to the cursor.\<close>

definition console_ok :: "row_id \<Rightarrow> string \<Rightarrow> streams \<Rightarrow> bool" where
  "console_ok t content st \<longleftrightarrow> (let c = console_cursor t st in
     0 \<le> cursor_last_offset c \<and> cursor_last_offset c \<le> int (length content)
     \<and> console_text t st = take (nat (cursor_last_offset c)) content
     \<and> cursor_last_sequence_no c = int (length (task_chunks t st))
     \<and> map chunk_sequence_no (task_chunks t st) = map int [1..<Suc (length (task_chunks t st))])"

lemma console_cursor_row:
  assumes "get_or_create_cursor t ''console_log'' None st = Inr (c, st1)"
  shows "c = console_cursor t st" "console_cursor t st1 = c" "st_chunks st1 = st_chunks st"
    "cursor_task_id c = t" "cursor_stream_name c = ''console_log''"
    "\<exists>r\<in>set (st_cursors st1). cursor_task_id r = t \<and> cursor_stream_name r = ''console_log''"
proof -
  let ?P = "\<lambda>r. cursor_task_id r = t \<and> cursor_stream_name r = ''console_log''"
  have "c = console_cursor t st \<and> console_cursor t st1 = c \<and> st_chunks st1 = st_chunks st \<and> ?P c \<and> (\<exists>r\<in>set (st_cursors st1). ?P r)"
  proof (cases "filter ?P (st_cursors st)")
    case Nil
    then show ?thesis using assms by (auto simp: get_or_create_cursor_def console_cursor_def new_cursor_def)
  next
    case (Cons x xs)
    then have "x \<in> set (filter ?P (st_cursors st))" by simp
    then have "x \<in> set (st_cursors st)" "?P x" by auto
    then show ?thesis using assms Cons by (auto simp: get_or_create_cursor_def console_cursor_def)
  qed
  then show "c = console_cursor t st" "console_cursor t st1 = c" "st_chunks st1 = st_chunks st"
    "cursor_task_id c = t" "cursor_stream_name c = ''console_log''"
    "\<exists>r\<in>set (st_cursors st1). cursor_task_id r = t \<and> cursor_stream_name r = ''console_log''" by auto
qed

lemma get_console_cursor: "\<exists>c st1. get_or_create_cursor t name None st = Inr (c, st1)"
  by (auto simp: get_or_create_cursor_def split: list.split)


lemma take_console_ok:
  assumes ok: "console_ok t content st" and cur: "get_or_create_cursor t ''console_log'' None st = Inr (c, st1)"
    and pre: "take (nat (cursor_last_offset c)) content' = take (nat (cursor_last_offset c)) content"
    and len: "int (length content') > cursor_last_offset c"
    and valid: "utf8_valid (drop (nat (cursor_last_offset c)) content')"
  shows "\<exists>st2. take_console t (decode_replace (drop (nat (cursor_last_offset c)) content')) (int (length content')) c st1 = Inr st2
    \<and> console_ok t content' st2 \<and> cursor_last_offset (console_cursor t st2) = int (length content')"
proof -
  note row = console_cursor_row [OF cur]
  let ?N = "length (task_chunks t st)" and ?piece = "drop (nat (cursor_last_offset c)) content'"
  have o: "0 \<le> cursor_last_offset c" "console_text t st = take (nat (cursor_last_offset c)) content"
    "cursor_last_sequence_no c = int ?N" "map chunk_sequence_no (task_chunks t st) = map int [1..<Suc ?N]"
    using ok unfolding console_ok_def Let_def row(1) [symmetric] by auto
  have same: "task_chunks t st1 = task_chunks t st" by (simp add: task_chunks_def row(3))
  have "int ?N + 1 \<notin> set (map chunk_sequence_no (task_chunks t st))" unfolding o(4) by auto
  then have fresh: "\<not> list_ex (\<lambda>r. chunk_task_id r = t \<and> chunk_sequence_no r = int ?N + 1) (st_chunks st1)"
  proof (rule contrapos_nn)
    assume "list_ex (\<lambda>r. chunk_task_id r = t \<and> chunk_sequence_no r = int ?N + 1) (st_chunks st1)"
    then obtain r where "r \<in> set (task_chunks t st)" "chunk_sequence_no r = int ?N + 1"
      by (auto simp: list_ex_iff task_chunks_def row(3))
    then show "int ?N + 1 \<in> set (map chunk_sequence_no (task_chunks t st))" by (metis image_eqI set_map)
  qed
  define c2 where "c2 = c\<lparr>cursor_last_offset := int (length content'), cursor_last_sequence_no := int ?N + 1\<rparr>"
  define st2 where "st2 = put_cursor c2 (st1\<lparr>st_chunks := st_chunks st1 @
    [\<lparr>chunk_task_id = t, chunk_sequence_no = int ?N + 1, chunk_content = ?piece\<rparr>]\<rparr>)"
  have take: "take_console t (decode_replace ?piece) (int (length content')) c st1 = Inr st2"
    using fresh by (simp add: take_console_def append_raw_log_chunk_def o(3) decode_valid [OF valid] st2_def c2_def)
  let ?P = "\<lambda>r. cursor_task_id r = t \<and> cursor_stream_name r = ''console_log''"
  have key: "cursor_task_id c2 = t" "cursor_stream_name c2 = ''console_log''" using row(4,5) by (simp_all add: c2_def)
  have "filter ?P (update_where ?P (\<lambda>_. c2) rows) = map (\<lambda>_. c2) (filter ?P rows)" for rows
    using key by (induction rows) auto
  moreover have "filter ?P (st_cursors st1) \<noteq> []" using row(6) by (auto simp: filter_empty_conv)
  ultimately have cc: "console_cursor t st2 = c2"
    using key by (simp add: console_cursor_def st2_def put_cursor_def split: list.split) blast
  have chunks: "task_chunks t st2 = task_chunks t st @ [\<lparr>chunk_task_id = t, chunk_sequence_no = int ?N + 1, chunk_content = ?piece\<rparr>]"
    using same by (simp add: task_chunks_def st2_def put_cursor_def)
  have "console_text t st2 = content'"
    using o(2) pre unfolding console_text_def chunks by (simp flip: console_text_def) (metis append_take_drop_id)
  then have "console_ok t content' st2"
    unfolding console_ok_def Let_def cc using o(4) by (simp add: chunks c2_def)
  then show ?thesis using take cc by (simp add: c2_def)
qed


lemma console_ok_prefix:
  assumes "console_ok t content st" "get_or_create_cursor t ''console_log'' None st = Inr (c, st1)" "prefix content content'"
  shows "console_ok t content' st1" "take (nat (cursor_last_offset c)) content' = take (nat (cursor_last_offset c)) content"
    "0 \<le> cursor_last_offset c" "cursor_last_offset c \<le> int (length content)"
proof -
  note row = console_cursor_row [OF assms(2)]
  obtain z where z: "content' = content @ z" using assms(3) by (auto simp: prefix_def)
  have c: "0 \<le> cursor_last_offset c" "cursor_last_offset c \<le> int (length content)"
    using assms(1) unfolding console_ok_def Let_def row(1) [symmetric] by auto
  then show "0 \<le> cursor_last_offset c" "cursor_last_offset c \<le> int (length content)" by auto
  show t: "take (nat (cursor_last_offset c)) content' = take (nat (cursor_last_offset c)) content"
    using c unfolding z by (simp add: nat_le_iff)
  have chunks: "task_chunks t st1 = task_chunks t st" by (simp add: task_chunks_def row(3))
  then have "console_text t st1 = console_text t st" by (simp add: console_text_def)
  then show "console_ok t content' st1"
    using assms(1) c t unfolding console_ok_def Let_def row(1) [symmetric] row(2) chunks by (simp add: z)
qed

lemma tail_console_ok:
  assumes ok: "console_ok t content st" "prefix content content'" and valid: "utf8_valid content" "utf8_valid content'"
    and whole: "cursor_last_offset (console_cursor t st) = int (length content)"
  shows "console_ok t content' (tail_console_log t (Some content') st)
    \<and> cursor_last_offset (console_cursor t (tail_console_log t (Some content') st)) = int (length content')"
proof -
  obtain c st1 where cur: "get_or_create_cursor t ''console_log'' None st = Inr (c, st1)" using get_console_cursor by blast
  note row = console_cursor_row [OF cur] and pre = console_ok_prefix [OF ok(1) cur ok(2)]
  obtain z where z: "content' = content @ z" using ok(2) by (auto simp: prefix_def)
  have off: "cursor_last_offset c = int (length content)" using whole row(1) by simp
  have v: "utf8_valid z" using utf8_valid_append [OF valid(1), of z] valid(2) z by simp
  show ?thesis
  proof (cases "z = []")
    case True
    then show ?thesis using pre(1) off row(2) by (simp add: tail_console_log_def cur z Let_def)
  next
    case False
    then have "\<exists>st2. take_console t (decode_replace (drop (nat (cursor_last_offset c)) content')) (int (length content')) c st1 = Inr st2
        \<and> console_ok t content' st2 \<and> cursor_last_offset (console_cursor t st2) = int (length content')"
      using take_console_ok [OF ok(1) cur pre(2)] off v by (simp add: z)
    moreover have "cursor_last_offset c + int (length (drop (nat (cursor_last_offset c)) content')) = int (length content')"
      using off by (simp add: z)
    ultimately show ?thesis
      using False off decode_valid [OF v] by (auto simp: tail_console_log_def cur z Let_def)
  qed
qed

lemma snapshot_completes:
  assumes ok: "console_ok t content st" "prefix content content'" and valid: "utf8_valid content" "utf8_valid content'"
    and whole: "cursor_last_offset (console_cursor t st) = int (length content)"
  shows "\<exists>st'. persist_raw_log_snapshot t content' st = Inr st' \<and> console_text t st' = content'"
proof -
  obtain c st1 where cur: "get_or_create_cursor t ''console_log'' None st = Inr (c, st1)" using get_console_cursor by blast
  note row = console_cursor_row [OF cur] and pre = console_ok_prefix [OF ok(1) cur ok(2)]
  obtain z where z: "content' = content @ z" using ok(2) by (auto simp: prefix_def)
  have off: "cursor_last_offset c = int (length content)" using whole row(1) by simp
  have v: "utf8_valid z" using utf8_valid_append [OF valid(1), of z] valid(2) z by simp
  have whole_text: "console_text t st = content" using ok(1) whole by (simp add: console_ok_def Let_def)
  show ?thesis
  proof (cases "z = []")
    case True
    have "console_text t st1 = console_text t st" by (simp add: console_text_def task_chunks_def row(3))
    then show ?thesis using True off whole_text cur by (simp add: persist_raw_log_snapshot_def z)
  next
    case False
    then obtain st2 where st2: "take_console t (decode_replace (drop (nat (cursor_last_offset c)) content')) (int (length content')) c st1 = Inr st2"
        "console_ok t content' st2" "cursor_last_offset (console_cursor t st2) = int (length content')"
      using take_console_ok [OF ok(1) cur pre(2)] off v by (auto simp: z)
    have "console_text t st2 = content'" using st2(2,3) by (simp add: console_ok_def Let_def)
    then show ?thesis using False off st2(1) cur decode_valid [OF v] by (simp add: persist_raw_log_snapshot_def z Let_def)
  qed
qed

lemma polls_console_ok:
  assumes "sorted_wrt prefix (content # polls)" "list_all utf8_valid (content # polls)" "console_ok t content st"
    "cursor_last_offset (console_cursor t st) = int (length content)"
  shows "console_ok t (last (content # polls)) (foldl (\<lambda>st p. tail_console_log t (Some p) st) st polls)
    \<and> cursor_last_offset (console_cursor t (foldl (\<lambda>st p. tail_console_log t (Some p) st) st polls)) = int (length (last (content # polls)))"
  using assms
proof (induction polls arbitrary: content st)
  case (Cons p polls)
  from tail_console_ok [OF Cons.prems(3), of p] Cons.prems Cons.IH [of p "tail_console_log t (Some p) st"] show ?case by simp
qed simp


section \<open>Properties\<close>

text \<open>
  C21. Every line of a chunk is one record: for lines without a line boundary of \<^verbatim>\<open>str.splitlines\<close>, each written with a newline, and an
  unfinished rest, the reader returns exactly the lines and leaves the rest.
\<close>

theorem complete_records_are_the_lines:
  assumes "list_all plain ls" "plain r"
  shows "iter_complete_jsonl_records (concat (map (\<lambda>l. l @ [newline]) ls) @ r) = (ls, r)"
  using assms by (rule records_of_stream)

theorem complete_records_are_the_lines_witness:
  "iter_complete_jsonl_records (concat (map (\<lambda>l. l @ [newline]) [''{1}'', [], ''{2}'']) @ ''{3'') = ([''{1}'', [], ''{2}''], ''{3'')"
proof -
  have "list_all plain [''{1}'', [], ''{2}'']" "plain ''{3''" by code_simp+
  then show ?thesis by (rule complete_records_are_the_lines)
qed

text \<open>
  C18. The tail that commits before the end of a finished tool is the tail as a whole: if the tail without parts succeeds and
  every complete line of the new text ends in a newline, the tail in parts ends in the same tables, cursor and memory.
\<close>

theorem split_tail_is_the_whole_tail:
  assumes "get_or_create_cursor t ''event_jsonl'' None st = Inr (c, st1)"
    and "list_all ends_line (complete_lines (decode_replace (drop (nat (cursor_last_offset c)) content)))"
    and "tail_event_jsonl pe loads t (Some content) False st m = (None, st', m')"
  shows "tail_event_jsonl pe loads t (Some content) True st m = (None, st', m')"
proof -
  let ?out = "drop (nat (cursor_last_offset c)) content" and ?chunk = "decode_replace (drop (nat (cursor_last_offset c)) content)"
  show ?thesis
  proof (cases "?out = []")
    case True
    then show ?thesis using assms(1,3) by (simp add: tail_event_jsonl_def Let_def)
  next
    case False
    show ?thesis
    proof (cases "?chunk = []")
      case True
      then show ?thesis using assms(1,3) False by (simp add: tail_event_jsonl_def Let_def tail_chunks.simps)
    next
      case ne: False
      obtain c' s' where one: "ingest_event_records_from_chunk pe loads t ?chunk c (st_tables st1) m = (Inr (c', s'), m')"
        and st': "st' = put_cursor c' (st1\<lparr>st_tables := s'\<rparr>)"
        using assms(1,3) False ne by (auto simp: tail_event_jsonl_def Let_def split: prod.splits sum.splits)
      from tail_in_parts [OF one ne assms(2), of "pe_repr pe" st] False assms(1) st' show ?thesis
        by (simp add: tail_event_jsonl_def Let_def)
    qed
  qed
qed

text \<open>
  C17. A stream that is read again changes nothing: after a chunk was ingested, ingesting it again from the same cursor succeeds,
  leaves the tables and the memory as they are and moves the cursor to the same offset.
\<close>

theorem reread_stream_changes_nothing:
  assumes "projection_ok pe s" "ingest_event_records_from_chunk pe loads t chunk c s m = (Inr (c', s'), m')"
  shows "ingest_event_records_from_chunk pe loads t chunk c s' m2
    = (Inr (c'\<lparr>cursor_last_sequence_no := cursor_last_sequence_no c\<rparr>, s'), m2)"
  using assms(2,1) by (rule chunk_again)

text \<open>
  C20. The chunks of the console log are the log: for a task without chunks, any polls of the growing log, each at the end of a
  character, and a final snapshot store chunks whose concatenation is the whole log.
\<close>

theorem console_log_is_reassembled:
  assumes "sorted_wrt prefix (polls @ [content])" "list_all utf8_valid (polls @ [content])"
    and "task_chunks t st = []" "console_cursor t st = new_cursor t ''console_log'' None"
  shows "\<exists>st'. persist_raw_log_snapshot t content (foldl (\<lambda>st p. tail_console_log t (Some p) st) st polls) = Inr st'
    \<and> console_text t st' = content"
proof -
  let ?st1 = "foldl (\<lambda>st p. tail_console_log t (Some p) st) st polls"
  have v: "utf8_valid []" by (simp add: utf8_valid.simps)
  have "console_ok t [] st" "cursor_last_offset (console_cursor t st) = int (length ([] :: string))"
    using assms(3,4) by (simp_all add: console_ok_def new_cursor_def console_text_def)
  then have ok: "console_ok t (last ([] # polls)) ?st1" "cursor_last_offset (console_cursor t ?st1) = int (length (last ([] # polls)))"
    using polls_console_ok [of "[]" polls t st] assms(1,2) v by (simp_all add: sorted_wrt_append)
  have "prefix (last ([] # polls)) content" "utf8_valid (last ([] # polls))" "utf8_valid content"
    using assms(1,2) v by (auto simp: sorted_wrt_append list_all_iff)
  from snapshot_completes [OF ok(1) this ok(2)] show ?thesis .
qed

text \<open>
  C19. The end of the harness closes the live rows: after an accepted harness terminal no message of its attempt is streaming
  and no reasoning block of it is in progress.
\<close>

theorem harness_end_closes_live_rows:
  assumes "rows_ok s" "validate_event_by_schema (pe_parse_time pe) (pe_repr pe) e = Inr n"
    and "ev_type n = ''harness.completed'' \<or> ev_type n = ''harness.failed''"
    and "ingest_event_record pe t e s m = (Inr (True, s'), m')" and "r \<in> set (pr_logs s')"
  shows "\<not> live_message t (ev_attempt n) r \<and> \<not> live_thinking t (ev_attempt n) r"
proof -
  have gate: "project_gate pe t attempt (ev_type n) q m = (Inr q, m)" for attempt q
    using assms(3) by (auto simp: project_gate_def)
  obtain d rs cs where p: "fst (project_event pe t (ev_attempt n) (ev_type n) (ev_dict n ''payload'') (ev_str n ''occurred_at'')
      (s\<lparr>pr_db := d, pr_receipts := rs, pr_caches := cs\<rparr>) m) = Inr s'"
    using assms(4) unfolding ingest_event_record_def assms(2) sum.case Let_def gate
    by (auto split: if_splits prod.splits sum.splits) (metis fst_conv)
  have "rows_ok (s\<lparr>pr_db := d, pr_receipts := rs, pr_caches := cs\<rparr>)" using assms(1) by (simp add: rows_ok_def)
  from harness_end_closes [OF assms(3) this p assms(5)] show ?thesis .
qed



section \<open>Defects\<close>

text \<open>
  A record whose text holds U+2028, which the event writer leaves unescaped, is torn: the reader drops its head and takes the rest as
  the record.
\<close>

lemma separator_tears_a_record:
  "iter_complete_jsonl_records (''{\"text\":\"a'' @ [CHR 0xE2, CHR 0x80, CHR 0xA8] @ ''b\"}'' @ [newline]) = ([''b\"}''], [])"
  by code_simp

text \<open>A poll of the console log that ends inside a character loses the character for good.\<close>

definition sample_streams :: "projection \<Rightarrow> streams" where
  "sample_streams s = \<lparr>st_tables = s, st_cursors = [], st_chunks = []\<rparr>"

lemma console_cut_inside_a_character:
  "console_text 7 (tail_console_log 7 (Some [CHR 0x61, CHR 0xC3, CHR 0xA9]) (tail_console_log 7 (Some [CHR 0x61, CHR 0xC3]) (sample_streams s)))
   = [CHR 0x61, CHR 0xEF, CHR 0xBF, CHR 0xBD, CHR 0xEF, CHR 0xBF, CHR 0xBD]"
  by (simp add: console_text_def task_chunks_def tail_console_log_def sample_streams_def get_or_create_cursor_def new_cursor_def
      put_cursor_def update_where_def take_console_def append_raw_log_chunk_def decode_replace.simps utf8_unit_def utf8_lead_def
      continuation_def byte_in_def Let_def)

text \<open>
  A message delta whose transaction is rolled back stays in the memory of the projector; when it is read again, its text is buffered
  twice.
\<close>

lemma message_delta_parts:
  "pj_message_parts (snd (project_message_delta pe t attempt p occurred_at s m)) =
     AList.update (agent_key p) ((case map_of (pj_message_parts m) (agent_key p) of None \<Rightarrow> [] | Some xs \<Rightarrow> xs)
       @ [text_of (pe_float pe) (or_value (dict_get p ''text'') (dict_get p ''content''))]) (pj_message_parts m)"
  by (simp add: project_message_delta_def find_streaming_message_log_def Let_def case_prod_beta split: option.split prod.split)

lemma delta_memory:
  assumes "validate_event_by_schema (pe_parse_time pe) (pe_repr pe) e = Inr n" "ev_type n = ''message.delta''"
    and "fst (ingest_event_record pe t e s m) = Inr (True, s1)"
  shows "pj_message_parts (snd (ingest_event_record pe t e s q)) = (let p = ev_dict n ''payload'' in
     AList.update (agent_key p) ((case map_of (pj_message_parts q) (agent_key p) of None \<Rightarrow> [] | Some xs \<Rightarrow> xs)
       @ [text_of (pe_float pe) (or_value (dict_get p ''text'') (dict_get p ''content''))]) (pj_message_parts q))"
proof -
  have gate: "project_gate pe t attempt (ev_type n) u w = (Inr u, w)" for attempt u w
    using assms(2) by (auto simp: project_gate_def)
  have pe: "project_event pe t attempt (ev_type n) p occurred_at u w = map_prod Inr id (project_message_delta pe t attempt p occurred_at u w)"
    for attempt p occurred_at u w using assms(2) by (simp add: project_event_def)
  have task: "ev_task n = t"
    using assms(1,3) by (auto simp: ingest_event_record_def split: if_splits)
  obtain res d rs c where ing: "ingest_canonical_event (pe_parse_time pe) (pe_repr pe) (pe_sha256 pe) (pe_float pe) (pe_now pe)
      (pr_caches s (ev_attempt n)) (pr_db s) (pr_receipts s) n = (Inr (res, d, rs), c)" and new: "\<not> ingest_duplicate res"
    using assms(1,3) task by (auto simp: ingest_event_record_def Let_def split: prod.splits sum.splits if_splits)
  show ?thesis
    unfolding ingest_event_record_def assms(1) sum.case Let_def gate prod.case pe ing
    using task new by (simp add: message_delta_parts Let_def case_prod_beta prod.case_eq_if map_prod_def split: prod.split)
qed

lemma redelivered_delta_is_appended_again:
  assumes "validate_event_by_schema (pe_parse_time pe) (pe_repr pe) e = Inr n" "ev_type n = ''message.delta''"
    and "ingest_event_record pe t e s m = (Inr (True, s1), m1)"
  shows "map_of (pj_message_parts (snd (ingest_event_record pe t e s m1))) (agent_key (ev_dict n ''payload'')) =
    Some ((case map_of (pj_message_parts m) (agent_key (ev_dict n ''payload'')) of None \<Rightarrow> [] | Some xs \<Rightarrow> xs)
      @ replicate 2 (text_of (pe_float pe) (or_value (dict_get (ev_dict n ''payload'') ''text'') (dict_get (ev_dict n ''payload'') ''content''))))"
proof -
  have ok: "fst (ingest_event_record pe t e s m) = Inr (True, s1)" using assms(3) by simp
  have m1: "m1 = snd (ingest_event_record pe t e s m)" using assms(3) by simp
  show ?thesis
    unfolding m1 delta_memory [OF assms(1,2) ok] by (simp add: Let_def update_conv' numeral_2_eq_2)
qed



section \<open>Witnesses\<close>

definition sample_projector_env :: projector_env where
  "sample_projector_env = \<lparr>pe_parse_time = (\<lambda>_. Some 0), pe_repr = (\<lambda>_. []), pe_sha256 = (\<lambda>s. s), pe_float = (\<lambda>_. []),
     pe_millis = (\<lambda>i. i div 1000), pe_sanitize = (\<lambda>s. s), pe_now = 5\<rparr>"

definition sample_projection :: projection where
  "sample_projection = \<lparr>pr_db = sample_attempt_db, pr_receipts = [], pr_caches = \<lambda>_. empty_cache, pr_logs = [], pr_payloads = []\<rparr>"

text \<open>The states after the given records of the sample attempt.\<close>

definition after_records :: "pydict list \<Rightarrow> projection \<times> projector" where
  "after_records es = foldl (\<lambda>(s, m) e. case ingest_event_record sample_projector_env 7 e s m of
     (Inr (b, s1), m1) \<Rightarrow> (s1, m1) | (Inl err, m1) \<Rightarrow> (s, m1)) (sample_projection, reset_projector) es"

definition sample_start :: pydict where "sample_start = sample_event 1 ''e1'' ''run.started'' []"

definition sample_delta :: pydict where "sample_delta = sample_event 2 ''e2'' ''message.delta'' [(''text'', PStr ''A'')]"

definition sample_end :: pydict where "sample_end = sample_event 3 ''e3'' ''harness.completed'' []"

lemma sample_projection_ok: "projection_ok sample_projector_env sample_projection"
  using sample_ledger by (simp add: projection_ok_def sample_projection_def)

definition is_accepted :: "(string, bool \<times> projection) result \<times> projector \<Rightarrow> bool" where
  "is_accepted x = (case x of (Inr (b, s), m) \<Rightarrow> b | _ \<Rightarrow> False)"

lemma is_acceptedE: "is_accepted x \<Longrightarrow> \<exists>s m. x = (Inr (True, s), m)"
  by (auto simp: is_accepted_def split: prod.splits sum.splits)

theorem harness_end_closes_live_rows_witness:
  "\<exists>s' m'. ingest_event_record sample_projector_env 7 sample_end (fst (after_records [sample_start, sample_delta]))
       (snd (after_records [sample_start, sample_delta])) = (Inr (True, s'), m')
     \<and> list_ex (live_message 7 ''a1'') (pr_logs (fst (after_records [sample_start, sample_delta])))
     \<and> \<not> list_ex (live_message 7 ''a1'') (pr_logs s')"
proof -
  let ?s = "fst (after_records [sample_start, sample_delta])" and ?m = "snd (after_records [sample_start, sample_delta])"
  have "is_accepted (ingest_event_record sample_projector_env 7 sample_end ?s ?m)" by code_simp
  then obtain s' m' where run: "ingest_event_record sample_projector_env 7 sample_end ?s ?m = (Inr (True, s'), m')"
    using is_acceptedE by blast
  have ok: "rows_ok ?s" by code_simp
  have v: "validate_event_by_schema (pe_parse_time sample_projector_env) (pe_repr sample_projector_env) sample_end = Inr sample_end" by code_simp
  have ty: "ev_type sample_end = ''harness.completed'' \<or> ev_type sample_end = ''harness.failed''" by code_simp
  have "ev_attempt sample_end = ''a1''" by code_simp
  then have "\<not> list_ex (live_message 7 ''a1'') (pr_logs s')"
    using harness_end_closes_live_rows [OF ok v ty run] by (auto simp: list_ex_iff)
  moreover have "list_ex (live_message 7 ''a1'') (pr_logs ?s)" by code_simp
  ultimately show ?thesis using run by blast
qed

text \<open>The second record of this file is a delta, its third line is not JSON.\<close>

definition broken_stream_loads :: "string \<Rightarrow> pyval option" where
  "broken_stream_loads l = (if l = ''1'' then Some (PDict sample_start) else if l = ''2'' then Some (PDict sample_delta) else None)"

definition broken_stream :: string where "broken_stream = ''1'' @ [newline] @ ''2'' @ [newline] @ ''x'' @ [newline]"

text \<open>
  C22. The memory of the projector is not part of the transaction that a failing tail rolls back. A file with a message delta before a
  line that does not decode makes every poll fail; each poll leaves the receipts, the log rows, the payloads and the cursor as they were,
  but the buffer of the message grows by the delta each time, here to two copies of the text after two polls.
\<close>

theorem rolled_back_delta_is_buffered_twice:
  "\<exists>st1 m1 st2 m2. tail_event_jsonl sample_projector_env broken_stream_loads 7 (Some broken_stream) True (sample_streams sample_projection) reset_projector
       = (Some ''JSONDecodeError'', st1, m1)
     \<and> tail_event_jsonl sample_projector_env broken_stream_loads 7 (Some broken_stream) True st1 m1 = (Some ''JSONDecodeError'', st2, m2)
     \<and> (pr_receipts (st_tables st1) = [] \<and> pr_logs (st_tables st1) = [] \<and> pr_payloads (st_tables st1) = [] \<and> st_cursors st1 = [])
     \<and> (pr_receipts (st_tables st2) = [] \<and> pr_logs (st_tables st2) = [] \<and> pr_payloads (st_tables st2) = [] \<and> st_cursors st2 = [])
     \<and> map_of (pj_message_parts m1) ''root'' = Some [''A''] \<and> map_of (pj_message_parts m2) ''root'' = Some [''A'', ''A'']"
proof -
  let ?poll = "tail_event_jsonl sample_projector_env broken_stream_loads 7 (Some broken_stream) True"
  let ?one = "?poll (sample_streams sample_projection) reset_projector"
  let ?two = "?poll (fst (snd ?one)) (snd (snd ?one))"
  obtain st1 m1 where one: "?one = (Some ''JSONDecodeError'', st1, m1)"
    and st1: "pr_receipts (st_tables st1) = [] \<and> pr_logs (st_tables st1) = [] \<and> pr_payloads (st_tables st1) = [] \<and> st_cursors st1 = []"
    and m1: "map_of (pj_message_parts m1) ''root'' = Some [''A'']"
  proof -
    have "case ?one of (err, st, m) \<Rightarrow> err = Some ''JSONDecodeError'' \<and> (pr_receipts (st_tables st) = [] \<and> pr_logs (st_tables st) = []
        \<and> pr_payloads (st_tables st) = [] \<and> st_cursors st = []) \<and> map_of (pj_message_parts m) ''root'' = Some [''A'']" by code_simp
    then show thesis by (elim case_prodE conjE) (rule that; simp)
  qed
  obtain st2 m2 where two: "?two = (Some ''JSONDecodeError'', st2, m2)"
    and st2: "pr_receipts (st_tables st2) = [] \<and> pr_logs (st_tables st2) = [] \<and> pr_payloads (st_tables st2) = [] \<and> st_cursors st2 = []"
    and m2: "map_of (pj_message_parts m2) ''root'' = Some [''A'', ''A'']"
  proof -
    have "case ?two of (err, st, m) \<Rightarrow> err = Some ''JSONDecodeError'' \<and> (pr_receipts (st_tables st) = [] \<and> pr_logs (st_tables st) = []
        \<and> pr_payloads (st_tables st) = [] \<and> st_cursors st = []) \<and> map_of (pj_message_parts m) ''root'' = Some [''A'', ''A'']" by code_simp
    then show thesis by (elim case_prodE conjE) (rule that; simp)
  qed
  have "?poll st1 m1 = (Some ''JSONDecodeError'', st2, m2)" using two unfolding one snd_conv fst_conv .
  note polls = one this
  show ?thesis
  proof (intro exI)
    show "?one = (Some ''JSONDecodeError'', st1, m1) \<and> ?poll st1 m1 = (Some ''JSONDecodeError'', st2, m2)
     \<and> (pr_receipts (st_tables st1) = [] \<and> pr_logs (st_tables st1) = [] \<and> pr_payloads (st_tables st1) = [] \<and> st_cursors st1 = [])
     \<and> (pr_receipts (st_tables st2) = [] \<and> pr_logs (st_tables st2) = [] \<and> pr_payloads (st_tables st2) = [] \<and> st_cursors st2 = [])
     \<and> map_of (pj_message_parts m1) ''root'' = Some [''A''] \<and> map_of (pj_message_parts m2) ''root'' = Some [''A'', ''A'']"
      using polls m1 m2 st1 st2 by blast
  qed
qed

definition sample_stream_loads :: "string \<Rightarrow> pyval option" where
  "sample_stream_loads l = Some (PDict (if l = ''1'' then sample_start else if l = ''2'' then sample_event 2 ''e2'' ''tool.started'' [(''tool_id'', PStr ''t'')]
     else sample_event 3 ''e3'' ''tool.completed'' [(''tool_id'', PStr ''t'')]))"

definition sample_chunk :: string where "sample_chunk = ''1'' @ [newline] @ ''2'' @ [newline] @ ''3'' @ [newline] @ ''4''"

theorem reread_stream_changes_nothing_witness:
  "\<exists>c' s' m'. ingest_event_records_from_chunk sample_projector_env sample_stream_loads 7 sample_chunk (new_cursor 7 ''event_jsonl'' None)
       sample_projection reset_projector = (Inr (c', s'), m') \<and> length (pr_receipts s') = 3
     \<and> ingest_event_records_from_chunk sample_projector_env sample_stream_loads 7 sample_chunk (new_cursor 7 ''event_jsonl'' None) s' reset_projector
       = (Inr (c'\<lparr>cursor_last_sequence_no := 0\<rparr>, s'), reset_projector)"
proof -
  let ?run = "ingest_event_records_from_chunk sample_projector_env sample_stream_loads 7 sample_chunk (new_cursor 7 ''event_jsonl'' None)
     sample_projection reset_projector"
  have "case ?run of (Inr (c, s), m) \<Rightarrow> length (pr_receipts s) = 3 | _ \<Rightarrow> False" by code_simp
  then obtain c' s' m' where run: "?run = (Inr (c', s'), m')" "length (pr_receipts s') = 3"
    by (auto split: prod.splits sum.splits)
  show ?thesis
    using reread_stream_changes_nothing [OF sample_projection_ok run(1), of reset_projector] run by (auto simp: new_cursor_def)
qed

theorem split_tail_is_the_whole_tail_witness:
  "\<exists>st' m'. tail_event_jsonl sample_projector_env sample_stream_loads 7 (Some sample_chunk) True (sample_streams sample_projection) reset_projector
       = (None, st', m') \<and> map cursor_last_offset (st_cursors st') = [6]
     \<and> tail_chunks sample_stream_loads (pe_repr sample_projector_env) sample_chunk = [take 4 sample_chunk, drop 4 sample_chunk]"
proof -
  let ?st = "sample_streams sample_projection"
  let ?run = "tail_event_jsonl sample_projector_env sample_stream_loads 7 (Some sample_chunk) False ?st reset_projector"
  obtain c st1 where c: "get_or_create_cursor 7 ''event_jsonl'' None ?st = Inr (c, st1)" "cursor_last_offset c = 0"
    by (auto simp: get_or_create_cursor_def sample_streams_def new_cursor_def)
  have lines: "list_all ends_line (complete_lines (decode_replace (drop (nat (cursor_last_offset c)) sample_chunk)))"
    unfolding c(2) by code_simp
  have "case ?run of (err, st', m') \<Rightarrow> err = None \<and> map cursor_last_offset (st_cursors st') = [6]" by code_simp
  then obtain st' m' where run: "?run = (None, st', m')" "map cursor_last_offset (st_cursors st') = [6]"
    by (auto split: prod.splits)
  have parts: "tail_chunks sample_stream_loads (pe_repr sample_projector_env) sample_chunk = [take 4 sample_chunk, drop 4 sample_chunk]"
    by code_simp
  show ?thesis by (intro exI conjI, rule split_tail_is_the_whole_tail [OF c(1) lines run(1)], rule run(2), rule parts)
qed

theorem console_log_is_reassembled_witness:
  "\<exists>st'. persist_raw_log_snapshot 7 [CHR 0x61, CHR 0xC3, CHR 0xA9, CHR 0x62]
        (foldl (\<lambda>st p. tail_console_log 7 (Some p) st) (sample_streams sample_projection) [''a'', [CHR 0x61, CHR 0xC3, CHR 0xA9]]) = Inr st'
     \<and> console_text 7 st' = [CHR 0x61, CHR 0xC3, CHR 0xA9, CHR 0x62]"
proof -
  let ?polls = "[''a'', [CHR 0x61, CHR 0xC3, CHR 0xA9]]" and ?content = "[CHR 0x61, CHR 0xC3, CHR 0xA9, CHR 0x62]"
  have "sorted_wrt prefix (?polls @ [?content])" by simp
  moreover have "list_all utf8_valid (?polls @ [?content])" by code_simp
  ultimately show ?thesis
    by (rule console_log_is_reassembled) (simp_all add: task_chunks_def console_cursor_def sample_streams_def)
qed

end
