(* ===== verification/Sensitive_Text.thy ===== *)
theory Sensitive_Text
  imports Harness_Commands
begin

text \<open>
  The masking of credentials in \<^verbatim>\<open>core/worker.py\<close>: \<open>scrub_sensitive_data\<close> and \<open>sanitize_sensitive_data\<close>,
  which every text that leaves a worker passes (failure messages, commit subjects, control commands).

  A pattern is a function that looks at the character before a position and at the text from there, and
  returns the replacement with the length of the match; \<open>re_sub\<close> is \<^verbatim>\<open>re.sub\<close>, which scans from the left
  and goes on after each match. In all these patterns a repeated class is followed by characters outside
  of it, so the greedy match is the only one. A text has characters up to U+00FF: under \<^verbatim>\<open>(?i)\<close> only ASCII
  letters of these match an ASCII letter, and none of them is a surrogate or a non-character, which the
  last substitution of \<open>sanitize_sensitive_data\<close> removes.
\<close>

type_synonym pattern = "char option \<Rightarrow> string \<Rightarrow> (string \<times> nat) option"

section \<open>The code\<close>

function re_sub :: "pattern \<Rightarrow> char option \<Rightarrow> string \<Rightarrow> string" where
  "re_sub m before [] = []"
| "re_sub m before (c # s) = (case m before (c # s) of
     None \<Rightarrow> c # re_sub m (Some c) s
   | Some (r, k) \<Rightarrow> if k = 0 then c # re_sub m (Some c) s
       else r @ re_sub m (Some (last (take k (c # s)))) (drop k (c # s)))"
  by pat_completeness auto
termination
  by (relation "measure (\<lambda>(m, before, s). length s)") auto

text \<open>\<^verbatim>\<open>prefix[class]{n,}\<close> for one of several prefixes.\<close>

definition token :: "string list \<Rightarrow> (char \<Rightarrow> bool) \<Rightarrow> nat \<Rightarrow> string \<Rightarrow> pattern" where
  "token prefixes cls n replacement before s =
     (case filter (\<lambda>p. startswith s p \<and> n \<le> length (takeWhile cls (drop (length p) s))) prefixes of
        [] \<Rightarrow> None
      | p # _ \<Rightarrow> Some (replacement, length p + length (takeWhile cls (drop (length p) s))))"

definition alnum_hyphen :: "char \<Rightarrow> bool" where "alnum_hyphen c \<longleftrightarrow> is_alnum c \<or> c = CHR ''-''"
definition alnum_hyphen_underscore :: "char \<Rightarrow> bool" where
  "alnum_hyphen_underscore c \<longleftrightarrow> is_alnum c \<or> c = CHR ''-'' \<or> c = CHR ''_''"

text \<open>\<^verbatim>\<open>\w\<close>, for the word boundary before a key.\<close>

definition regex_word :: "char \<Rightarrow> bool" where
  "regex_word c = (is_alnum c \<or> c = CHR ''_'' \<or> (let n = of_char c :: nat in
     n \<in> set [170, 178, 179, 181, 185, 186, 188, 189, 190] \<or> (192 \<le> n \<and> n \<noteq> 215 \<and> n \<noteq> 247)))"

definition starts_ci :: "string \<Rightarrow> string \<Rightarrow> bool" where
  "starts_ci s p \<longleftrightarrow> map to_lower (take (length p) s) = p"

text \<open>The text that a group matched is the part of \<open>s\<close> before \<open>rest\<close>.\<close>

definition redacted :: "string \<Rightarrow> string \<Rightarrow> nat \<Rightarrow> (string \<times> nat) option" where
  "redacted s rest n = (let g = length s - length rest in Some (take g s @ ''[REDACTED]'', g + n))"

text \<open>\<^verbatim>\<open>bearer\s+\<close>, given the rest after it.\<close>

definition after_bearer :: "string \<Rightarrow> string option" where
  "after_bearer s = (if starts_ci s ''bearer'' \<and> takeWhile is_space (drop 6 s) \<noteq> []
     then Some (dropWhile is_space (drop 6 s)) else None)"

definition after_authorization :: "string \<Rightarrow> string option" where
  "after_authorization s = (if starts_ci s ''authorization'' then
     (case dropWhile is_space (drop 13 s) of
        c # r \<Rightarrow> if c = CHR '':'' then after_bearer (dropWhile is_space r) else None
      | [] \<Rightarrow> None) else None)"

definition bearer_char :: "char \<Rightarrow> bool" where
  "bearer_char c \<longleftrightarrow> is_alnum c \<or> c \<in> set ''-._~+/''"

definition bearer :: pattern where
  "bearer before s = (case (case after_authorization s of Some r \<Rightarrow> Some r | None \<Rightarrow> after_bearer s) of
     None \<Rightarrow> None
   | Some rest \<Rightarrow>
       let body = takeWhile bearer_char rest; tail = takeWhile (\<lambda>c. c = CHR ''='') (dropWhile bearer_char rest)
       in if body = [] then None else redacted s rest (length body + length tail))"

definition secret_keys :: "string list" where
  "secret_keys = [''api_key'', ''env_key'', ''apikey'', ''api-key'', ''api_token'']"

definition secret_value_char :: "char \<Rightarrow> bool" where
  "secret_value_char c \<longleftrightarrow> c \<noteq> CHR 0x22 \<and> c \<noteq> CHR 0x27 \<and> \<not> is_space c \<and> c \<notin> set '',;}{''"

definition config_secret :: pattern where
  "config_secret before s = (if (case before of None \<Rightarrow> False | Some b \<Rightarrow> regex_word b) then None
     else case filter (starts_ci s) secret_keys of
       [] \<Rightarrow> None
     | k # _ \<Rightarrow> (case dropWhile is_space (drop (length k) s) of
         [] \<Rightarrow> None
       | c # r \<Rightarrow> if c \<noteq> CHR ''='' \<and> c \<noteq> CHR '':'' then None
           else let rest = dropWhile is_space r;
                    quote = (if rest \<noteq> [] \<and> (hd rest = CHR 0x22 \<or> hd rest = CHR 0x27) then 1 else 0);
                    body = takeWhile secret_value_char (drop quote rest)
                in if body = [] then None else redacted s rest (quote + length body)))"

definition private_token :: pattern where
  "private_token before s = (if startswith s ''PRIVATE-TOKEN:'' then
     let rest = dropWhile is_space (drop 14 s); body = takeWhile (\<lambda>c. \<not> is_space c) rest
     in if body = [] then None else redacted s rest (length body) else None)"

text \<open>The patterns of \<^verbatim>\<open>scrub_sensitive_data\<close> in their order.\<close>

definition gitlab_token :: pattern where "gitlab_token = token [''glpat-''] alnum_hyphen 10 ''[GITLAB_TOKEN]''"
definition anthropic_key :: pattern where
  "anthropic_key = token [''sk-cp-'', ''sk-ant-'', ''sk-api-''] alnum_hyphen 10 ''[ANTHROPIC_API_KEY]''"
definition openrouter_key :: pattern where
  "openrouter_key = token [''sk-or-v1-''] alnum_hyphen_underscore 10 ''[OPENROUTER_API_KEY]''"
definition openai_project_key :: pattern where
  "openai_project_key = token [''sk-proj-''] alnum_hyphen_underscore 20 ''[OPENAI_API_KEY]''"
definition openai_key :: pattern where "openai_key = token [''sk-''] is_alnum 24 ''[OPENAI_API_KEY]''"
definition google_key :: pattern where "google_key = token [''AIza''] alnum_hyphen_underscore 20 ''[GOOGLE_API_KEY]''"
definition github_token :: pattern where "github_token = token [''ghp_''] is_alnum 20 ''[GITHUB_TOKEN]''"
definition huggingface_token :: pattern where "huggingface_token = token [''hf_''] is_alnum 20 ''[HUGGINGFACE_TOKEN]''"
definition slack_token :: pattern where
  "slack_token = token [''xoxb-'', ''xoxa-'', ''xoxp-'', ''xoxr-'', ''xoxs-''] alnum_hyphen 10 ''[SLACK_TOKEN]''"

definition scrub_patterns :: "pattern list" where
  "scrub_patterns = [gitlab_token, anthropic_key, openrouter_key, openai_project_key, openai_key, bearer,
     google_key, github_token, huggingface_token, slack_token, config_secret, private_token]"

definition scrub_sensitive_data :: "string \<Rightarrow> string" where
  "scrub_sensitive_data s = filter (\<lambda>c. c \<noteq> CHR 0x00) (foldl (\<lambda>s m. re_sub m None s) s scrub_patterns)"

text \<open>\<^verbatim>\<open>_ANSI_ESCAPE\<close>: a control sequence, an operating system command, a character set, any other escape.\<close>

definition ansi_escape :: pattern where
  "ansi_escape before s = (case s of
     e # c # r \<Rightarrow>
       if e \<noteq> CHR 0x1B then None
       else let args = takeWhile (\<lambda>x. is_digit x \<or> x = CHR '';'') r; final = dropWhile (\<lambda>x. is_digit x \<or> x = CHR '';'') r;
                osc = takeWhile (\<lambda>x. x \<noteq> CHR 0x07) r
            in if c = CHR ''['' \<and> final \<noteq> [] \<and> hd final \<in> set ''mABCDEFGHJKLMPSTfnsu'' then Some ([], 3 + length args)
               else if c = CHR '']'' \<and> length osc < length r then Some ([], 3 + length osc)
               else if (c = CHR ''('' \<or> c = CHR '')'') \<and> r \<noteq> [] \<and> (char_in_range (CHR ''A'') (CHR ''Z'') (hd r) \<or> is_digit (hd r)) then Some ([], 3)
               else if char_in_range (CHR ''@'') (CHR ''_'') c then Some ([], 2) else None
   | _ \<Rightarrow> None)"

definition sanitize_sensitive_data :: "string \<Rightarrow> string" where
  "sanitize_sensitive_data s = re_sub ansi_escape None (scrub_sensitive_data s)"


section \<open>Words and substitutions\<close>

text \<open>No word of the set \<open>W\<close> is a part of the text.\<close>

definition avoids :: "string set \<Rightarrow> string \<Rightarrow> bool" where
  "avoids W s \<longleftrightarrow> (\<forall>u w v. s = u @ w @ v \<longrightarrow> w \<notin> W)"

text \<open>The words of a token pattern: a prefix with the least number of characters of the class.\<close>

definition token_words :: "string list \<Rightarrow> (char \<Rightarrow> bool) \<Rightarrow> nat \<Rightarrow> string set" where
  "token_words prefixes cls n = {p @ v |p v. p \<in> set prefixes \<and> length v = n \<and> list_all cls v}"

definition no_brackets :: "string set \<Rightarrow> bool" where
  "no_brackets W \<longleftrightarrow> [] \<notin> W \<and> (\<forall>w\<in>W. CHR ''['' \<notin> set w \<and> CHR '']'' \<notin> set w)"

lemma avoids_part: "avoids W (a @ b @ c) \<Longrightarrow> avoids W b"
  unfolding avoids_def by (metis append.assoc)

lemma avoids_append1: "avoids W (a @ b) \<Longrightarrow> avoids W a"
  using avoids_part [of W "[]" a b] by simp

lemma avoids_append2: "avoids W (a @ b) \<Longrightarrow> avoids W b"
  using avoids_part [of W a b "[]"] by simp

text \<open>A character outside of all words separates two texts.\<close>

lemma avoids_around:
  assumes "avoids W a" "avoids W b" "\<forall>w\<in>W. x \<notin> set w"
  shows "avoids W (a @ x # b)"
  unfolding avoids_def
proof (intro allI impI)
  fix u w v assume s: "a @ x # b = u @ w @ v"
  show "w \<notin> W"
  proof
    assume w: "w \<in> W"
    from s consider c where "a = u @ c" "c @ x # b = w @ v" | c where "u = a @ c" "x # b = c @ w @ v"
      by (auto simp: append_eq_append_conv2)
    then show False
    proof cases
      case 1
      then consider e where "c = w @ e" | e where "w = c @ e" "x # b = e @ v" by (auto simp: append_eq_append_conv2)
      then show False
      proof cases
        case 1
        then show False using \<open>a = u @ c\<close> assms(1) w unfolding avoids_def by metis
      next
        case (2 e)
        then have "e = []" using assms(3) w by (cases e) auto
        then show False using \<open>a = u @ c\<close> 2 assms(1) w unfolding avoids_def by (metis append_Nil2)
      qed
    next
      case (2 c)
      show False
      proof (cases c)
        case Nil
        then have "w = []" using 2 assms(3) w by (cases w) auto
        then show False using assms(1) w unfolding avoids_def by (metis append_Nil)
      next
        case (Cons y c')
        then show False using 2 assms(2) w unfolding avoids_def by auto
      qed
    qed
  qed
qed

lemma avoids_bracket:
  assumes "no_brackets W" "avoids W a" "avoids W l" "avoids W b"
  shows "avoids W (a @ ''['' @ l @ '']'' @ b)"
  using avoids_around [OF assms(2) avoids_around [OF assms(3,4), of "CHR '']''"], of "CHR ''[''"] assms(1)
  by (simp add: no_brackets_def)

text \<open>
  A pattern is tame when each replacement keeps a first part of the match and continues with a label in
  brackets.
\<close>

definition tame :: "string set \<Rightarrow> pattern \<Rightarrow> bool" where
  "tame W m \<longleftrightarrow> (\<forall>before s r k. m before s = Some (r, k) \<longrightarrow>
     (\<exists>g l. r = take g s @ ''['' @ l @ '']'' \<and> g \<le> k \<and> avoids W l))"

lemma re_sub_avoids:
  assumes "tame W m" "no_brackets W" "avoids W (c @ s)"
  shows "avoids W (c @ re_sub m before s)"
  using assms(1,3)
proof (induction m before s arbitrary: c rule: re_sub.induct)
  case (2 m before x s)
  have step: "avoids W ((c @ [x]) @ s)" using "2.prems"(2) by simp
  show ?case
  proof (cases "m before (x # s)")
    case None
    then show ?thesis using "2.IH"(1) [OF None "2.prems"(1) step] by simp
  next
    case (Some p)
    obtain r k where p: "p = (r, k)" by fastforce
    show ?thesis
    proof (cases "k = 0")
      case True
      then show ?thesis using "2.IH"(2) [OF Some p [symmetric] True "2.prems"(1) step] Some p by simp
    next
      case False
      obtain g l where g: "r = take g (x # s) @ ''['' @ l @ '']''" "g \<le> k" "avoids W l"
        using "2.prems"(1) Some p unfolding tame_def by meson
      have whole: "c @ x # s = (c @ take g (x # s)) @ drop g (x # s)" by simp
      have "avoids W (c @ take g (x # s))" using "2.prems"(2) unfolding whole by (rule avoids_append1)
      moreover have "avoids W (drop k (x # s))"
        using "2.prems"(2) avoids_append2 [of W "c @ take k (x # s)" "drop k (x # s)"] by simp
      then have "avoids W (re_sub m (Some (last (take k (x # s)))) (drop k (x # s)))"
        using "2.IH"(3) [OF Some p [symmetric] False "2.prems"(1), of "[]"] by simp
      ultimately have "avoids W ((c @ take g (x # s)) @ ''['' @ l @ '']'' @ re_sub m (Some (last (take k (x # s)))) (drop k (x # s)))"
        by (intro avoids_bracket [OF assms(2)] g(3))
      then show ?thesis using Some p False g(1) by simp
    qed
  qed
qed simp

text \<open>A token pattern takes its own words out: the scan meets the first of them.\<close>

lemma token_None:
  assumes "token prefixes cls n r before s = None" "w \<in> token_words prefixes cls n"
  shows "\<not> (\<exists>v. s = w @ v)"
proof
  assume "\<exists>v. s = w @ v"
  then obtain p u v where p: "p \<in> set prefixes" "length u = n" "list_all cls u" "s = p @ u @ v"
    using assms(2) by (auto simp: token_words_def)
  then have "startswith s p \<and> n \<le> length (takeWhile cls (drop (length p) s))"
    by (auto simp: startswith_def list_all_iff takeWhile_append2)
  then have "p \<in> set (filter (\<lambda>p. startswith s p \<and> n \<le> length (takeWhile cls (drop (length p) s))) prefixes)" using p(1) by simp
  then show False using assms(1) by (auto simp: token_def filter_empty_conv split: list.splits)
qed

lemma token_Some:
  assumes "token prefixes cls n r before s = Some (r', k)" "[] \<notin> set prefixes"
  shows "r' = r" "k \<noteq> 0"
  using assms by (auto simp: token_def split: list.splits dest!: filter_eq_ConsD)

lemma token_removes:
  assumes "[] \<notin> set prefixes" "no_brackets W" "W = token_words prefixes cls n" "avoids W l"
    and "\<And>u w v. c @ s = u @ w @ v \<Longrightarrow> w \<in> W \<Longrightarrow> length c \<le> length u"
  shows "avoids W (c @ re_sub (token prefixes cls n (''['' @ l @ '']'')) before s)"
  using assms(5)
proof (induction s arbitrary: c before rule: length_induct)
  case (1 s)
  let ?m = "token prefixes cls n (''['' @ l @ '']'')"
  have ne: "w \<noteq> []" if "w \<in> W" for w using assms(2) that by (auto simp: no_brackets_def)
  have c: "avoids W c"
    unfolding avoids_def
  proof (intro allI impI notI)
    fix u w v assume "c = u @ w @ v" "w \<in> W"
    then have "length c \<le> length u" using "1.prems" [of u w "v @ s"] by simp
    then show False using \<open>c = u @ w @ v\<close> ne [OF \<open>w \<in> W\<close>] by simp
  qed
  show ?case
  proof (cases s)
    case Nil
    then show ?thesis using c by simp
  next
    case (Cons x s')
    show ?thesis
    proof (cases "?m before s")
      case None
      have "length (c @ [x]) \<le> length u" if "(c @ [x]) @ s' = u @ w @ v" "w \<in> W" for u w v
      proof -
        have le: "length c \<le> length u" using "1.prems" [of u w v] that Cons by simp
        moreover have "length u \<noteq> length c"
        proof
          assume "length u = length c"
          then have "s = w @ v" using that(1) Cons by simp
          then show False using token_None [OF None] that(2) assms(3) by blast
        qed
        ultimately show ?thesis by simp
      qed
      then have "avoids W ((c @ [x]) @ re_sub ?m (Some x) s')" using "1.IH" Cons by (metis length_Cons lessI)
      then show ?thesis using None Cons by simp
    next
      case (Some p)
      obtain r k where p: "p = (r, k)" by fastforce
      note k = token_Some [OF Some [unfolded p] assms(1)]
      have "length (drop k s) < length s" using k(2) Cons by simp
      then have "avoids W ([] @ re_sub ?m (Some (last (take k s))) (drop k s))" using "1.IH" by (metis le0 list.size(3))
      then have "avoids W (c @ ''['' @ l @ '']'' @ re_sub ?m (Some (last (take k s))) (drop k s))"
        by (intro avoids_bracket [OF assms(2) c assms(4)]) simp
      then show ?thesis using Some p k Cons by simp
    qed
  qed
qed


section \<open>What is masked\<close>

text \<open>The replacement of a match keeps a first part of it and adds one of the labels in brackets.\<close>

definition labels :: "string list" where
  "labels = [''GITLAB_TOKEN'', ''ANTHROPIC_API_KEY'', ''OPENROUTER_API_KEY'', ''OPENAI_API_KEY'', ''REDACTED'',
     ''GOOGLE_API_KEY'', ''GITHUB_TOKEN'', ''HUGGINGFACE_TOKEN'', ''SLACK_TOKEN'']"

definition label_added :: "string \<Rightarrow> string \<Rightarrow> nat \<Rightarrow> bool" where
  "label_added s r k \<longleftrightarrow> (\<exists>g l. r = take g s @ ''['' @ l @ '']'' \<and> g \<le> k \<and> l \<in> set labels)"

definition labelled :: "pattern \<Rightarrow> bool" where
  "labelled m \<longleftrightarrow> (\<forall>before s r k. m before s = Some (r, k) \<longrightarrow> label_added s r k)"

lemma labelled_token:
  assumes "l \<in> set labels"
  shows "labelled (token prefixes cls n (''['' @ l @ '']''))"
  unfolding labelled_def
proof (intro allI impI)
  fix before s r k assume "token prefixes cls n (''['' @ l @ '']'') before s = Some (r, k)"
  then have "r = take 0 s @ ''['' @ l @ '']''" by (auto simp: token_def split: list.splits)
  then show "label_added s r k" unfolding label_added_def using assms by blast
qed

lemma labelled_redacted: "redacted s rest n = Some (r, k) \<Longrightarrow> label_added s r k"
  by (auto simp: redacted_def label_added_def labels_def Let_def intro!: exI [of _ "length s - length rest"])

lemma labelled_groups: "labelled bearer" "labelled config_secret" "labelled private_token"
  by (auto simp: labelled_def bearer_def config_secret_def private_token_def Let_def
      split: option.splits list.splits if_splits dest!: labelled_redacted)

text \<open>The token patterns as data: prefixes, class, least number of characters, label.\<close>

definition token_kinds :: "(string list \<times> (char \<Rightarrow> bool) \<times> nat \<times> string) list" where
  "token_kinds = [([''glpat-''], alnum_hyphen, 10, ''GITLAB_TOKEN''),
     ([''sk-cp-'', ''sk-ant-'', ''sk-api-''], alnum_hyphen, 10, ''ANTHROPIC_API_KEY''),
     ([''sk-or-v1-''], alnum_hyphen_underscore, 10, ''OPENROUTER_API_KEY''),
     ([''sk-proj-''], alnum_hyphen_underscore, 20, ''OPENAI_API_KEY''), ([''sk-''], is_alnum, 24, ''OPENAI_API_KEY''),
     ([''AIza''], alnum_hyphen_underscore, 20, ''GOOGLE_API_KEY''), ([''ghp_''], is_alnum, 20, ''GITHUB_TOKEN''),
     ([''hf_''], is_alnum, 20, ''HUGGINGFACE_TOKEN''),
     ([''xoxb-'', ''xoxa-'', ''xoxp-'', ''xoxr-'', ''xoxs-''], alnum_hyphen, 10, ''SLACK_TOKEN'')]"

definition kind_pattern :: "string list \<times> (char \<Rightarrow> bool) \<times> nat \<times> string \<Rightarrow> pattern" where
  "kind_pattern = (\<lambda>(ps, cls, n, l). token ps cls n (''['' @ l @ '']''))"

definition kind_words :: "string list \<times> (char \<Rightarrow> bool) \<times> nat \<times> string \<Rightarrow> string set" where
  "kind_words = (\<lambda>(ps, cls, n, l). token_words ps cls n)"

lemma scrub_patterns_kinds:
  "scrub_patterns = map kind_pattern (take 5 token_kinds) @ [bearer] @ map kind_pattern (drop 5 token_kinds) @ [config_secret, private_token]"
  by (simp add: scrub_patterns_def token_kinds_def kind_pattern_def gitlab_token_def anthropic_key_def openrouter_key_def
      openai_project_key_def openai_key_def google_key_def github_token_def huggingface_token_def slack_token_def)

lemma token_kinds_labels: "kd \<in> set token_kinds \<Longrightarrow> snd (snd (snd kd)) \<in> set labels"
  by (auto simp: token_kinds_def labels_def)

lemma scrub_labelled: "m \<in> set scrub_patterns \<Longrightarrow> labelled m"
proof -
  assume "m \<in> set scrub_patterns"
  then consider kd where "kd \<in> set token_kinds" "m = kind_pattern kd" | "m \<in> {bearer, config_secret, private_token}"
    unfolding scrub_patterns_kinds by (auto dest: in_set_takeD in_set_dropD)
  then show ?thesis
    using labelled_groups labelled_token token_kinds_labels by cases (auto simp: kind_pattern_def split: prod.split)
qed

text \<open>A label has no part that is the prefix of a token.\<close>

lemma labels_without_prefixes:
  "list_all (\<lambda>l. list_all (\<lambda>(ps, _). list_all (\<lambda>p. list_all (\<lambda>i. \<not> startswith (drop i l) p) [0..<Suc (length l)]) ps) token_kinds) labels"
  by code_simp

lemma labels_avoid:
  assumes "l \<in> set labels" "kd \<in> set token_kinds"
  shows "avoids (kind_words kd) l"
  unfolding avoids_def
proof (intro allI impI notI)
  fix u w v assume l: "l = u @ w @ v" and w: "w \<in> kind_words kd"
  obtain ps cls n b where kd: "kd = (ps, cls, n, b)" by (cases kd) auto
  obtain p x where p: "p \<in> set ps" "w = p @ x" using w by (auto simp: kd kind_words_def token_words_def)
  have "startswith (drop (length u) l) p" using l p(2) by (simp add: startswith_def)
  moreover have "length u < Suc (length l)" using l by simp
  ultimately show False
    using labels_without_prefixes assms kd p(1) by (fastforce simp: list_all_iff)
qed

lemma classes_without_brackets:
  "list_all (\<lambda>(ps, cls, n, l). \<not> cls (CHR ''['') \<and> \<not> cls (CHR '']'') \<and> [] \<notin> set ps
     \<and> list_all (\<lambda>p. CHR ''['' \<notin> set p \<and> CHR '']'' \<notin> set p) ps) token_kinds"
  by code_simp

lemma kind_no_brackets:
  assumes "kd \<in> set token_kinds"
  shows "no_brackets (kind_words kd)" "[] \<notin> set (fst kd)"
proof -
  obtain ps cls n b where kd: "kd = (ps, cls, n, b)" by (cases kd) auto
  have c: "\<not> cls (CHR ''['')" "\<not> cls (CHR '']'')" "[] \<notin> set ps" "\<forall>p\<in>set ps. CHR ''['' \<notin> set p \<and> CHR '']'' \<notin> set p"
    using classes_without_brackets assms unfolding kd list_all_iff by fastforce+
  then show "[] \<notin> set (fst kd)" by (simp add: kd)
  show "no_brackets (kind_words kd)"
    using c by (auto simp: no_brackets_def kind_words_def token_words_def kd list_all_iff)
qed

lemma labelled_tame: "labelled m \<Longrightarrow> (\<And>l. l \<in> set labels \<Longrightarrow> avoids W l) \<Longrightarrow> tame W m"
  unfolding tame_def labelled_def label_added_def by meson

lemma fold_avoids:
  assumes "\<And>m. m \<in> set ms \<Longrightarrow> tame W m" "no_brackets W" "avoids W s"
  shows "avoids W (foldl (\<lambda>s m. re_sub m None s) s ms)"
  using assms(1,3) re_sub_avoids [OF _ assms(2), of _ "[]"] by (induction ms arbitrary: s) auto

text \<open>The characters that later steps remove are not put in by the substitutions.\<close>

lemma avoids_char: "avoids {[x]} s \<longleftrightarrow> x \<notin> set s"
proof
  assume a: "avoids {[x]} s"
  show "x \<notin> set s"
  proof
    assume "x \<in> set s"
    then obtain u v where "s = u @ [x] @ v" using split_list [of x s] by auto
    with a show False unfolding avoids_def by blast
  qed
qed (auto simp: avoids_def)

lemma labels_plain: "list_all (\<lambda>l. CHR 0x00 \<notin> set l \<and> CHR 0x1B \<notin> set l) labels"
  by code_simp

lemma fold_keeps_out:
  assumes "x = CHR 0x00 \<or> x = CHR 0x1B" "x \<notin> set s" "set ms \<subseteq> set scrub_patterns"
  shows "x \<notin> set (foldl (\<lambda>s m. re_sub m None s) s ms)"
proof -
  have plain: "avoids {[x]} l" if "l \<in> set labels" for l
    using assms(1) labels_plain that unfolding avoids_char list_all_iff by blast
  have "tame {[x]} m" if "m \<in> set ms" for m
    using that assms(3) by (intro labelled_tame scrub_labelled plain) blast+
  moreover have "no_brackets {[x]}" using assms(1) by (auto simp: no_brackets_def)
  ultimately show ?thesis using fold_avoids [of ms "{[x]}" s] assms(2) by (simp add: avoids_char)
qed

lemma ansi_needs_escape: "CHR 0x1B \<noteq> c \<Longrightarrow> ansi_escape before (c # s) = None"
  by (cases s) (auto simp: ansi_escape_def)

lemma ansi_plain: "CHR 0x1B \<notin> set s \<Longrightarrow> re_sub ansi_escape before s = s"
  by (induction s arbitrary: before) (simp_all add: ansi_needs_escape)

lemma sanitize_plain:
  assumes "CHR 0x00 \<notin> set s" "CHR 0x1B \<notin> set s"
  shows "sanitize_sensitive_data s = foldl (\<lambda>s m. re_sub m None s) s scrub_patterns"
proof -
  have out: "x \<notin> set (foldl (\<lambda>s m. re_sub m None s) s scrub_patterns)" if "x = CHR 0x00 \<or> x = CHR 0x1B" for x
    using fold_keeps_out [OF that, of s scrub_patterns] that assms by auto
  then have "scrub_sensitive_data s = foldl (\<lambda>s m. re_sub m None s) s scrub_patterns"
    unfolding scrub_sensitive_data_def by (intro filter_True) auto
  then show ?thesis using out [of "CHR 0x1B"] by (simp add: sanitize_sensitive_data_def ansi_plain)
qed

lemma scrub_removes_kind:
  assumes "kd \<in> set token_kinds"
  shows "avoids (kind_words kd) (foldl (\<lambda>s m. re_sub m None s) s scrub_patterns)"
proof -
  obtain ps cls n l where kd: "kd = (ps, cls, n, l)" by (cases kd) auto
  note brackets = kind_no_brackets [OF assms]
  have tame: "tame (kind_words kd) m" if "m \<in> set scrub_patterns" for m
    using labelled_tame [OF scrub_labelled [OF that]] labels_avoid assms by blast
  have "kind_pattern kd \<in> set (map kind_pattern token_kinds)" using assms by simp
  then have "kind_pattern kd \<in> set scrub_patterns"
    using append_take_drop_id [of 5 token_kinds] unfolding scrub_patterns_kinds by (metis Un_iff list.set_map map_append set_append)
  then obtain ms ms' where ms: "scrub_patterns = ms @ kind_pattern kd # ms'" by (meson split_list)
  have "avoids (kind_words kd) (re_sub (kind_pattern kd) None x)" for x
    using token_removes [of ps "kind_words kd" cls n l "[]" x None] brackets labels_avoid [OF _ assms] token_kinds_labels [OF assms]
    by (simp add: kd kind_pattern_def kind_words_def)
  then show ?thesis
    unfolding ms foldl_append foldl_Cons by (intro fold_avoids tame brackets) (simp_all only: ms set_append list.set Un_iff insert_iff simp_thms)
qed

text \<open>The tokens of the nine fixed shapes.\<close>

definition credentials :: "string set" where
  "credentials = token_words [''glpat-''] alnum_hyphen 10
     \<union> token_words [''sk-cp-'', ''sk-ant-'', ''sk-api-''] alnum_hyphen 10
     \<union> token_words [''sk-or-v1-''] alnum_hyphen_underscore 10 \<union> token_words [''sk-proj-''] alnum_hyphen_underscore 20
     \<union> token_words [''sk-''] is_alnum 24 \<union> token_words [''AIza''] alnum_hyphen_underscore 20
     \<union> token_words [''ghp_''] is_alnum 20 \<union> token_words [''hf_''] is_alnum 20
     \<union> token_words [''xoxb-'', ''xoxa-'', ''xoxp-'', ''xoxr-'', ''xoxs-''] alnum_hyphen 10"



text \<open>
  The masking runs before the control characters are taken out, so a colour sequence or a NUL inside
  a token hides it from the masking and the sanitized text shows the whole token; a second pass masks it.
\<close>

theorem control_characters_defeat_the_masking:
  "sanitize_sensitive_data (''glpat-'' @ [CHR 0x1B] @ ''[0mabcdefghij'') = ''glpat-abcdefghij''
   \<and> sanitize_sensitive_data (''glpat-'' @ [CHR 0x00] @ ''abcdefghij'') = ''glpat-abcdefghij''
   \<and> ''glpat-abcdefghij'' \<in> credentials
   \<and> sanitize_sensitive_data ''glpat-abcdefghij'' = ''[GITLAB_TOKEN]''"
proof -
  have "list_all alnum_hyphen ''abcdefghij''" by code_simp
  then have "''glpat-'' @ ''abcdefghij'' \<in> token_words [''glpat-''] alnum_hyphen 10"
    unfolding token_words_def by (intro CollectI exI [of _ "''glpat-''"] exI [of _ "''abcdefghij''"]) simp
  then have "''glpat-abcdefghij'' \<in> credentials" by (simp add: credentials_def)
  moreover have "sanitize_sensitive_data (''glpat-'' @ [CHR 0x1B] @ ''[0mabcdefghij'') = ''glpat-abcdefghij''"
    "sanitize_sensitive_data (''glpat-'' @ [CHR 0x00] @ ''abcdefghij'') = ''glpat-abcdefghij''"
    "sanitize_sensitive_data ''glpat-abcdefghij'' = ''[GITLAB_TOKEN]''" by code_simp+
  ultimately show ?thesis by blast
qed

end
